(* ===== verification/Prelude.thy ===== *)
theory Prelude
  imports Complex_Main "HOL-Library.AList" "HOL-Library.Sublist" "HOL-Library.Char_ord"
    "HOL-Library.List_Lexorder"
begin

text \<open>
  Shared vocabulary of the development: the exceptions of the program as values and the result
  type \<open>exn + 'a\<close>, Python strings and the character classes its regular expressions use, Python
  floats and JSON values with Python's \<open>==\<close>, assoc-list dictionaries, and database tables as lists
  of rows with \<open>UPDATE ... WHERE\<close>.  The collections \<open>res_simps\<close>, \<open>tab_simps\<close> and the simp rules below
  carry the component proofs.
\<close>

named_theorems res_simps "result type: case analysis of successful and failing computations"
named_theorems tab_simps "tables: reading and updating rows"
named_theorems inv_intros "introduction rules of the component invariants"

text \<open>Clock readings, in microseconds.\<close>

type_synonym time = int

section \<open>Exceptions and results\<close>

text \<open>
  The classes raised by the modelled code, each with its message.  \<open>IdempotencyOutcomeUnknownError\<close>
  also carries an execution record id, \<open>AuditDeliveryPendingError\<close> (in full,
  \<open>ReconciliationAuditDeliveryPendingError\<close>) an execution record id and an outbox id.
  \<open>IntegrityError\<close> is \<open>sqlite3.IntegrityError\<close>, \<open>ToolError\<close> an exception of a tool body, \<open>OtherError\<close> any further
  \<open>Exception\<close>; \<open>CancelledError\<close> is the one class here that \<open>except Exception\<close> does not catch.
\<close>

datatype exn =
    TypeError string
  | ValueError string
  | KeyError string
  | RuntimeError string
  | ContextMutationError string
  | CriticalHookError string
  | RegistryError string
  | TimeoutError string
  | StageTimeoutError string
  | ConnectionError string
  | IdempotencyConflictError string
  | IdempotencyOutcomeUnknownError string "string option"
  | IdempotencyAlreadyAppliedError string
  | IdempotencyInProgressError string
  | ReconciliationError string
  | ReconciliationConflictError string
  | ReconciliationNotFoundError string
  | ReconciliationValidationError string
  | InvalidReconciliationTransitionError string
  | AuditDeliveryPendingError string string string
  | IntegrityError string
  | ContractValidationError string
  | ToolError string
  | CircuitOpenError string
  | CapacityExceededError string
  | OtherError string
  | AssertionError
  | CancelledError

type_synonym 'a res = "exn + 'a"

definition bindR :: "'a res \<Rightarrow> ('a \<Rightarrow> 'b res) \<Rightarrow> 'b res" where
  "bindR m f = (case m of Inl e \<Rightarrow> Inl e | Inr a \<Rightarrow> f a)"

definition raise_if :: "bool \<Rightarrow> exn \<Rightarrow> unit res" where
  "raise_if c e = (if c then Inl e else Inr ())"

abbreviation seqR :: "unit res \<Rightarrow> 'b res \<Rightarrow> 'b res" where
  "seqR m n \<equiv> bindR m (\<lambda>_. n)"

definition okR :: "'a res \<Rightarrow> bool" where
  "okR m = (case m of Inl _ \<Rightarrow> False | Inr _ \<Rightarrow> True)"

text \<open>\<open>seq_all [c1, c2, ...]\<close> runs checks in order and stops at the first that raises.\<close>

fun seq_all :: "unit res list \<Rightarrow> unit res" where
  "seq_all [] = Inr ()"
| "seq_all (c # cs) = (case c of Inl e \<Rightarrow> Inl e | Inr _ \<Rightarrow> seq_all cs)"

lemma bindR_Inl [simp]: "bindR (Inl e) f = Inl e"
  by (simp add: bindR_def)

lemma bindR_Inr [simp]: "bindR (Inr a) f = f a"
  by (simp add: bindR_def)

lemma bindR_eq_Inr [res_simps]: "bindR m f = Inr b \<longleftrightarrow> (\<exists>a. m = Inr a \<and> f a = Inr b)"
  by (cases m) auto

lemma bindR_eq_Inl [res_simps]:
  "bindR m f = Inl e \<longleftrightarrow> m = Inl e \<or> (\<exists>a. m = Inr a \<and> f a = Inl e)"
  by (cases m) auto

lemma bindR_assoc: "bindR (bindR m f) g = bindR m (\<lambda>x. bindR (f x) g)"
  by (cases m) auto

lemma raise_if_Inr [res_simps, simp]: "raise_if c e = Inr u \<longleftrightarrow> \<not> c"
  by (auto simp: raise_if_def)

lemma raise_if_Inl [res_simps, simp]: "raise_if c e = Inl e' \<longleftrightarrow> c \<and> e' = e"
  by (auto simp: raise_if_def)

lemma raise_if_simps [simp]:
  "raise_if True e = Inl e" "raise_if False e = Inr ()"
  by (simp_all add: raise_if_def)

lemma seq_all_Inr [res_simps]: "seq_all cs = Inr u \<longleftrightarrow> (\<forall>c \<in> set cs. okR c)"
  by (induction cs) (auto simp: okR_def split: sum.splits)

lemma okR_simps [simp]:
  "okR (Inr a)" "\<not> okR (Inl e)" "okR (raise_if c e) \<longleftrightarrow> \<not> c"
  by (auto simp: okR_def raise_if_def)

lemma okR_bind [simp]: "okR (bindR m f) \<longleftrightarrow> (\<exists>a. m = Inr a \<and> okR (f a))"
  by (cases m) auto

lemma okR_iff: "okR m \<longleftrightarrow> (\<exists>a. m = Inr a)"
  by (cases m) auto

lemma not_okR_iff: "\<not> okR m \<longleftrightarrow> (\<exists>e. m = Inl e)"
  by (cases m) auto

section \<open>Strings\<close>

text \<open>
  Characters are code points below 256.  \<open>py_isspace\<close>, \<open>lower_char\<close> and \<open>utf8_size\<close> are Python's
  \<open>str.isspace\<close>, \<open>str.lower\<close> and UTF-8 length on that range.
\<close>

definition ccode :: "char \<Rightarrow> nat" where
  "ccode c = of_char c"

definition is_digit :: "char \<Rightarrow> bool" where
  "is_digit c = (48 \<le> ccode c \<and> ccode c \<le> 57)"

definition is_upper :: "char \<Rightarrow> bool" where
  "is_upper c = (65 \<le> ccode c \<and> ccode c \<le> 90)"

definition is_lower :: "char \<Rightarrow> bool" where
  "is_lower c = (97 \<le> ccode c \<and> ccode c \<le> 122)"

definition is_alnum :: "char \<Rightarrow> bool" where
  "is_alnum c = (is_digit c \<or> is_upper c \<or> is_lower c)"

definition is_lower_hex :: "char \<Rightarrow> bool" where
  "is_lower_hex c = (is_digit c \<or> (97 \<le> ccode c \<and> ccode c \<le> 102))"

definition py_isspace :: "char \<Rightarrow> bool" where
  "py_isspace c = (let n = ccode c in
     (9 \<le> n \<and> n \<le> 13) \<or> (28 \<le> n \<and> n \<le> 32) \<or> n = 133 \<or> n = 160)"

lemmas char_class_defs = is_digit_def is_upper_def is_lower_def is_alnum_def is_lower_hex_def py_isspace_def ccode_def

definition lower_char :: "char \<Rightarrow> char" where
  "lower_char c = (let n = ccode c in
     if (65 \<le> n \<and> n \<le> 90) \<or> (192 \<le> n \<and> n \<le> 222 \<and> n \<noteq> 215) then char_of (n + 32) else c)"

definition lower :: "string \<Rightarrow> string" where
  "lower s = map lower_char s"

text \<open>\<open>not s.strip()\<close>\<close>

definition is_blank :: "string \<Rightarrow> bool" where
  "is_blank s = list_all py_isspace s"

definition strip :: "string \<Rightarrow> string" where
  "strip s = rev (dropWhile py_isspace (rev (dropWhile py_isspace s)))"

definition utf8_size :: "string \<Rightarrow> nat" where
  "utf8_size s = sum_list (map (\<lambda>c. if ccode c < 128 then 1 else 2) s)"

definition startswith_any :: "string list \<Rightarrow> string \<Rightarrow> bool" where
  "startswith_any ps s = list_ex (\<lambda>p. take (length p) s = p) ps"

text \<open>The truth value of an optional string: \<open>None\<close> and the empty string are false.\<close>

definition truthy :: "string option \<Rightarrow> bool" where
  "truthy s = (case s of None \<Rightarrow> False | Some t \<Rightarrow> t \<noteq> [])"

text \<open>\<open>a or b\<close> on optional strings.\<close>

definition or_str :: "string option \<Rightarrow> string option \<Rightarrow> string option" where
  "or_str a b = (if truthy a then a else b)"

text \<open>\<open>[0-9a-f]{64}\<close>\<close>

definition is_digest :: "string \<Rightarrow> bool" where
  "is_digest s = (length s = 64 \<and> list_all is_lower_hex s)"

text \<open>A first character class followed by up to 255 characters of another.\<close>

definition ident_like :: "(char \<Rightarrow> bool) \<Rightarrow> (char \<Rightarrow> bool) \<Rightarrow> string \<Rightarrow> bool" where
  "ident_like first rest s = (case s of [] \<Rightarrow> False
     | c # cs \<Rightarrow> first c \<and> length cs \<le> 255 \<and> list_all rest cs)"

text \<open>\<open>str(n)\<close> for natural numbers.\<close>

fun digits_of :: "nat \<Rightarrow> string" where
  "digits_of n = (if n < 10 then [char_of (48 + n)]
                  else digits_of (n div 10) @ [char_of (48 + n mod 10)])"

declare digits_of.simps [simp del]

text \<open>\<open>sep.join(xs)\<close>\<close>

fun join :: "string \<Rightarrow> string list \<Rightarrow> string" where
  "join sep [] = []"
| "join sep [x] = x"
| "join sep (x # y # xs) = x @ sep @ join sep (y # xs)"

text \<open>\<open>str(exc)\<close>\<close>

fun exn_msg :: "exn \<Rightarrow> string" where
  "exn_msg (TypeError s) = s"
| "exn_msg (ValueError s) = s"
| "exn_msg (KeyError s) = s"
| "exn_msg (RuntimeError s) = s"
| "exn_msg (ContextMutationError s) = s"
| "exn_msg (CriticalHookError s) = s"
| "exn_msg (RegistryError s) = s"
| "exn_msg (TimeoutError s) = s"
| "exn_msg (StageTimeoutError s) = s"
| "exn_msg (ConnectionError s) = s"
| "exn_msg (IdempotencyConflictError s) = s"
| "exn_msg (IdempotencyOutcomeUnknownError s eid) = s"
| "exn_msg (IdempotencyAlreadyAppliedError s) = s"
| "exn_msg (IdempotencyInProgressError s) = s"
| "exn_msg (ReconciliationError s) = s"
| "exn_msg (ReconciliationConflictError s) = s"
| "exn_msg (ReconciliationNotFoundError s) = s"
| "exn_msg (ReconciliationValidationError s) = s"
| "exn_msg (InvalidReconciliationTransitionError s) = s"
| "exn_msg (AuditDeliveryPendingError eid oid s) = s"
| "exn_msg (IntegrityError s) = s"
| "exn_msg (ContractValidationError s) = s"
| "exn_msg (ToolError s) = s"
| "exn_msg (CircuitOpenError s) = s"
| "exn_msg (CapacityExceededError s) = s"
| "exn_msg (OtherError s) = s"
| "exn_msg AssertionError = []"
| "exn_msg CancelledError = []"

text \<open>\<open>repr\<close> of a string without quotes and escapes inside.\<close>

definition py_repr :: "string \<Rightarrow> string" where
  "py_repr s = CHR 0x27 # s @ [CHR 0x27]"

lemma is_blank_strip: "is_blank s \<longleftrightarrow> strip s = []"
proof -
  have "strip s = [] \<longleftrightarrow> dropWhile py_isspace (rev (dropWhile py_isspace s)) = []"
    by (simp add: strip_def)
  also have "\<dots> \<longleftrightarrow> (\<forall>c \<in> set (dropWhile py_isspace s). py_isspace c)"
    by (auto simp: dropWhile_eq_Nil_conv)
  also have "\<dots> \<longleftrightarrow> (\<forall>c \<in> set s. py_isspace c)"
    by (metis dropWhile_eq_Nil_conv hd_dropWhile list.set_sel(1) set_dropWhileD)
  finally show ?thesis by (simp add: is_blank_def list_all_iff)
qed

lemma utf8_size_append [simp]: "utf8_size (a @ b) = utf8_size a + utf8_size b"
  by (simp add: utf8_size_def)

lemma utf8_size_ge_length: "length s \<le> utf8_size s"
  by (induction s) (auto simp: utf8_size_def)

lemma truthy_None [simp]: "\<not> truthy None"
  by (simp add: truthy_def)

lemma truthy_Some [simp]: "truthy (Some s) \<longleftrightarrow> s \<noteq> []"
  by (simp add: truthy_def)

lemma ident_like_nonempty: "ident_like f r s \<Longrightarrow> s \<noteq> []"
  by (auto simp: ident_like_def)

lemma ident_like_length: "ident_like f r s \<Longrightarrow> length s \<le> 256"
  by (auto simp: ident_like_def split: list.splits)

section \<open>Timestamps\<close>

text \<open>
  An instant is its number of microseconds since 1970-01-01T00:00:00 UTC.  \<open>isoformat\<close> is the text
  \<open>datetime.isoformat()\<close> gives for a UTC value: the fraction is printed only when it is not zero.
\<close>

definition pad :: "nat \<Rightarrow> int \<Rightarrow> string" where
  "pad w n = (let s = digits_of (nat n) in replicate (w - length s) CHR ''0'' @ s)"

text \<open>The proleptic Gregorian year, month and day of a day number.\<close>

definition civil_of_days :: "int \<Rightarrow> int \<times> int \<times> int" where
  "civil_of_days days =
     (let z = days + 719468;
          era = z div 146097;
          doe = z mod 146097;
          yoe = (doe - doe div 1460 + doe div 36524 - doe div 146096) div 365;
          doy = doe - (365 * yoe + yoe div 4 - yoe div 100);
          mp = (5 * doy + 2) div 153;
          d = doy - (153 * mp + 2) div 5 + 1;
          m = (if mp < 10 then mp + 3 else mp - 9)
      in (yoe + era * 400 + (if m \<le> 2 then 1 else 0), m, d))"

definition isoformat :: "int \<Rightarrow> string" where
  "isoformat t =
     (let us = t mod 1000000; secs = t div 1000000; sod = secs mod 86400;
          (y, m, d) = civil_of_days (secs div 86400)
      in pad 4 y @ ''-'' @ pad 2 m @ ''-'' @ pad 2 d @ ''T'' @ pad 2 (sod div 3600) @ '':'' @
         pad 2 (sod div 60 mod 60) @ '':'' @ pad 2 (sod mod 60) @
         (if us = 0 then [] else ''.'' @ pad 6 us) @ ''+00:00'')"

section \<open>Tables\<close>

text \<open>
  A database table is the list of its rows in insertion order.  \<open>select_one P t\<close> is the first row
  satisfying \<open>P\<close>, \<open>upd_where P f t\<close> the table after \<open>UPDATE ... SET f WHERE P\<close>, and \<open>rowcount P t\<close> the
  number of rows such an update touches.
\<close>

definition select_one :: "('r \<Rightarrow> bool) \<Rightarrow> 'r list \<Rightarrow> 'r option" where
  "select_one P t = find P t"

definition upd_where :: "('r \<Rightarrow> bool) \<Rightarrow> ('r \<Rightarrow> 'r) \<Rightarrow> 'r list \<Rightarrow> 'r list" where
  "upd_where P f t = map (\<lambda>r. if P r then f r else r) t"

definition rowcount :: "('r \<Rightarrow> bool) \<Rightarrow> 'r list \<Rightarrow> nat" where
  "rowcount P t = length (filter P t)"

lemma select_one_Nil [tab_simps, simp]: "select_one P [] = None"
  by (simp add: select_one_def)

lemma select_one_Cons [tab_simps, simp]:
  "select_one P (r # t) = (if P r then Some r else select_one P t)"
  by (simp add: select_one_def)

lemma select_one_append [tab_simps]:
  "select_one P (t @ u) = (case select_one P t of None \<Rightarrow> select_one P u | Some r \<Rightarrow> Some r)"
  by (induction t) auto

lemma select_one_SomeD: "select_one P t = Some r \<Longrightarrow> r \<in> set t \<and> P r"
  by (auto simp: select_one_def find_Some_iff)

lemma select_one_None_iff [tab_simps]: "select_one P t = None \<longleftrightarrow> (\<forall>r \<in> set t. \<not> P r)"
  by (auto simp: select_one_def find_None_iff)

lemma select_one_map:
  "select_one P (map f t) = map_option f (select_one (P \<circ> f) t)"
  by (induction t) auto

lemma select_one_key:
  assumes "distinct (map k t)" and "r \<in> set t"
  shows "select_one (\<lambda>x. k x = k r) t = Some r"
  using assms by (induction t) (auto simp: rev_image_eqI)

lemma upd_where_Nil [tab_simps, simp]: "upd_where P f [] = []"
  by (simp add: upd_where_def)

lemma upd_where_Cons [tab_simps, simp]:
  "upd_where P f (r # t) = (if P r then f r else r) # upd_where P f t"
  by (simp add: upd_where_def)

lemma upd_where_append [tab_simps, simp]:
  "upd_where P f (t @ u) = upd_where P f t @ upd_where P f u"
  by (simp add: upd_where_def)

lemma length_upd_where [tab_simps, simp]: "length (upd_where P f t) = length t"
  by (simp add: upd_where_def)

lemma in_upd_where:
  "r \<in> set (upd_where P f t) \<longleftrightarrow> (\<exists>q \<in> set t. r = (if P q then f q else q))"
  by (auto simp: upd_where_def)

lemma upd_where_none: "\<forall>r \<in> set t. \<not> P r \<Longrightarrow> upd_where P f t = t"
  by (induction t) auto

lemma map_upd_where_same [tab_simps]:
  "(\<And>r. P r \<Longrightarrow> k (f r) = k r) \<Longrightarrow> map k (upd_where P f t) = map k t"
  by (induction t) auto

lemma select_one_upd_where:
  assumes "\<And>r. P r \<Longrightarrow> Q (f r) = Q r"
  shows "select_one Q (upd_where P f t) =
         map_option (\<lambda>r. if P r then f r else r) (select_one Q t)"
  using assms by (induction t) auto

lemma rowcount_eq_0 [tab_simps]: "rowcount P t = 0 \<longleftrightarrow> (\<forall>r \<in> set t. \<not> P r)"
  by (auto simp: rowcount_def filter_empty_conv)

lemma rowcount_key_le_1:
  assumes "distinct (map k t)" and "\<And>r. P r \<Longrightarrow> k r = a"
  shows "rowcount P t \<le> 1"
  using assms(1)
proof (induction t)
  case (Cons x t)
  show ?case
  proof (cases "P x")
    case True
    have "\<not> P y" if "y \<in> set t" for y
      using Cons.prems True assms(2)[of x] assms(2)[of y] that by (auto simp: image_iff)
    then have "filter P t = []" by (simp add: filter_empty_conv)
    then show ?thesis by (simp add: rowcount_def)
  qed (use Cons in \<open>simp add: rowcount_def\<close>)
qed (simp add: rowcount_def)

text \<open>At most one row satisfies \<open>Q\<close>, as a unique index keeps it.\<close>

lemma rowcount_le_1_unique:
  assumes "rowcount Q t \<le> 1" "x \<in> set t" "y \<in> set t" "Q x" "Q y"
  shows "x = y"
proof -
  have "length (filter Q t) \<le> 1" using assms(1) by (simp add: rowcount_def)
  moreover have "x \<in> set (filter Q t)" "y \<in> set (filter Q t)" using assms by auto
  ultimately show ?thesis by (cases "filter Q t") auto
qed

end
