(* ===== verification/Values.thy ===== *)
theory Values
  imports Prelude
begin

text \<open>
  Python values that cross the JSON boundary: floats with their special values, JSON trees, and
  Python's \<open>==\<close> on them.  Tuples and lists are one constructor, dictionaries are association lists in
  insertion order.
\<close>

section \<open>Floats\<close>

datatype pyfloat = Finite rat | NegZero | PosInf | NegInf | NaN

text \<open>\<open>a <= b\<close> and \<open>a < b\<close> of Python floats: every comparison with NaN is false.\<close>

fun float_le :: "pyfloat \<Rightarrow> pyfloat \<Rightarrow> bool" where
  "float_le NaN _ = False"
| "float_le _ NaN = False"
| "float_le NegInf _ = True"
| "float_le _ PosInf = True"
| "float_le PosInf _ = False"
| "float_le _ NegInf = False"
| "float_le (Finite p) (Finite q) = (p \<le> q)"
| "float_le (Finite p) NegZero = (p \<le> 0)"
| "float_le NegZero (Finite q) = (0 \<le> q)"
| "float_le NegZero NegZero = True"

definition float_eq :: "pyfloat \<Rightarrow> pyfloat \<Rightarrow> bool" where
  "float_eq a b = (float_le a b \<and> float_le b a)"

definition float_lt :: "pyfloat \<Rightarrow> pyfloat \<Rightarrow> bool" where
  "float_lt a b = (float_le a b \<and> \<not> float_le b a)"

definition float_of_int :: "int \<Rightarrow> pyfloat" where
  "float_of_int i = Finite (of_int i)"

lemma float_le_trans: "float_le a b \<Longrightarrow> float_le b c \<Longrightarrow> float_le a c"
  by (cases a; cases b; cases c) auto

lemma float_le_refl: "a \<noteq> NaN \<Longrightarrow> float_le a a"
  by (cases a) auto

lemma float_le_linear: "a \<noteq> NaN \<Longrightarrow> b \<noteq> NaN \<Longrightarrow> float_le a b \<or> float_le b a"
  by (cases a; cases b) auto

lemma not_float_lt: "a \<noteq> NaN \<Longrightarrow> b \<noteq> NaN \<Longrightarrow> \<not> float_lt b a \<longleftrightarrow> float_le a b"
  using float_le_linear by (auto simp: float_lt_def)

lemma float_eq_sym: "float_eq a b \<longleftrightarrow> float_eq b a"
  by (auto simp: float_eq_def)

section \<open>JSON values\<close>

datatype json =
    JNull
  | JBool bool
  | JInt int
  | JFloat pyfloat
  | JStr string
  | JList "json list"
  | JTuple "json list"
  | JObj "(string \<times> json) list"

type_synonym dict = "(string \<times> json) list"

text \<open>The number a value denotes when Python compares it: booleans are 0 and 1.\<close>

fun as_float :: "json \<Rightarrow> pyfloat option" where
  "as_float (JBool b) = Some (Finite (if b then 1 else 0))"
| "as_float (JInt i) = Some (Finite (of_int i))"
| "as_float (JFloat f) = Some f"
| "as_float _ = None"

text \<open>
  Python's \<open>==\<close>.  \<open>ident\<close> is object identity (\<open>is\<close>), which container comparison tries first on
  elements.
\<close>

fun py_eq :: "(json \<Rightarrow> json \<Rightarrow> bool) \<Rightarrow> json \<Rightarrow> json \<Rightarrow> bool"
  and py_eq_list :: "(json \<Rightarrow> json \<Rightarrow> bool) \<Rightarrow> json list \<Rightarrow> json list \<Rightarrow> bool"
  and py_eq_items :: "(json \<Rightarrow> json \<Rightarrow> bool) \<Rightarrow> dict \<Rightarrow> dict \<Rightarrow> bool" where
  "py_eq ident JNull b = (b = JNull)"
| "py_eq ident (JBool x) b = (case as_float b of None \<Rightarrow> False
     | Some f \<Rightarrow> float_eq (Finite (if x then 1 else 0)) f)"
| "py_eq ident (JInt i) b = (case as_float b of None \<Rightarrow> False
     | Some f \<Rightarrow> float_eq (Finite (of_int i)) f)"
| "py_eq ident (JFloat x) b = (case as_float b of None \<Rightarrow> False | Some f \<Rightarrow> float_eq x f)"
| "py_eq ident (JStr s) b = (b = JStr s)"
| "py_eq ident (JList xs) b = (case b of JList ys \<Rightarrow> py_eq_list ident xs ys | _ \<Rightarrow> False)"
| "py_eq ident (JTuple xs) b = (case b of JTuple ys \<Rightarrow> py_eq_list ident xs ys | _ \<Rightarrow> False)"
| "py_eq ident (JObj xs) b = (case b of JObj ys \<Rightarrow> length xs = length ys \<and> py_eq_items ident xs ys
     | _ \<Rightarrow> False)"
| "py_eq_list ident [] ys = (ys = [])"
| "py_eq_list ident (x # xs) ys = (case ys of [] \<Rightarrow> False
     | y # ys' \<Rightarrow> (ident x y \<or> py_eq ident x y) \<and> py_eq_list ident xs ys')"
| "py_eq_items ident [] ys = True"
| "py_eq_items ident ((k, v) # xs) ys = (case map_of ys k of None \<Rightarrow> False
     | Some w \<Rightarrow> (ident v w \<or> py_eq ident v w) \<and> py_eq_items ident xs ys)"

definition same_value :: "(json \<Rightarrow> json \<Rightarrow> bool) \<Rightarrow> json \<Rightarrow> json \<Rightarrow> bool" where
  "same_value ident a b = (ident a b \<or> py_eq ident a b)"

text \<open>\<open>dict == dict\<close>\<close>

definition dict_eq :: "(json \<Rightarrow> json \<Rightarrow> bool) \<Rightarrow> dict \<Rightarrow> dict \<Rightarrow> bool" where
  "dict_eq ident xs ys = py_eq ident (JObj xs) (JObj ys)"

text \<open>Values without NaN and with distinct keys are equal to themselves.\<close>

fun json_ok :: "json \<Rightarrow> bool" where
  "json_ok (JFloat f) = (f \<noteq> NaN)"
| "json_ok (JList xs) = list_all json_ok xs"
| "json_ok (JTuple xs) = list_all json_ok xs"
| "json_ok (JObj xs) = (distinct (map fst xs) \<and> list_all (\<lambda>p. json_ok (snd p)) xs)"
| "json_ok _ = True"

lemma float_eq_refl: "float_eq a a \<longleftrightarrow> a \<noteq> NaN"
  by (cases a) (auto simp: float_eq_def)

lemma py_eq_items_iff:
  "py_eq_items ident xs ys \<longleftrightarrow>
     (\<forall>(k, v) \<in> set xs. \<exists>w. map_of ys k = Some w \<and> same_value ident v w)"
  by (induction xs) (auto simp: same_value_def split: option.splits)

lemma py_eq_list_iff: "py_eq_list ident xs ys \<longleftrightarrow> list_all2 (same_value ident) xs ys"
proof (induction xs arbitrary: ys)
  case (Cons x xs)
  then show ?case by (cases ys) (auto simp: same_value_def)
qed simp

lemma py_eq_refl: "json_ok v \<Longrightarrow> py_eq ident v v"
proof (induction v)
  case (JList xs)
  then show ?case
    by (auto simp: py_eq_list_iff list_all_iff same_value_def intro!: list.rel_refl_strong)
next
  case (JTuple xs)
  then show ?case
    by (auto simp: py_eq_list_iff list_all_iff same_value_def intro!: list.rel_refl_strong)
next
  case (JObj xs)
  have "\<exists>w. map_of xs k = Some w \<and> same_value ident v w" if "(k, v) \<in> set xs" for k v
    using JObj that by (force simp: list_all_iff map_of_eq_Some_iff same_value_def)
  then show ?case by (auto simp: py_eq_items_iff)
qed (auto simp: float_eq_refl)

lemma float_eq_trans: "float_eq a b \<Longrightarrow> float_eq b c \<Longrightarrow> float_eq a c"
  using float_le_trans by (auto simp: float_eq_def)

lemma py_eq_as_float:
  "py_eq ident a b \<Longrightarrow> as_float a = Some f \<Longrightarrow> \<exists>g. as_float b = Some g \<and> float_eq f g"
  by (cases a) (auto split: option.splits)

lemma py_eq_number:
  "as_float a = Some f \<Longrightarrow> py_eq ident a b \<longleftrightarrow> (\<exists>g. as_float b = Some g \<and> float_eq f g)"
  by (cases a) (auto split: option.splits)

text \<open>Identical objects are equal values, so Python's equality is transitive.\<close>

lemma py_eq_trans:
  assumes id: "\<And>x y. ident x y \<Longrightarrow> x = y"
  shows "py_eq ident a b \<Longrightarrow> py_eq ident b c \<Longrightarrow> py_eq ident a c"
proof (induction a arbitrary: b c)
  case (JList xs)
  obtain ys zs where b: "b = JList ys" "list_all2 (same_value ident) xs ys"
      and c: "c = JList zs" "list_all2 (same_value ident) ys zs"
    using JList.prems by (auto simp: py_eq_list_iff split: json.splits)
  have "same_value ident x z"
    if "x \<in> set xs" "same_value ident x y" "same_value ident y z" for x y z
    using JList.IH[OF that(1)] that(2,3) id by (auto simp: same_value_def)
  then have "list_all2 (same_value ident) xs zs"
    using b(2) c(2) by (auto simp: list_all2_conv_all_nth)
  then show ?case using b c by (simp add: py_eq_list_iff)
next
  case (JTuple xs)
  obtain ys zs where b: "b = JTuple ys" "list_all2 (same_value ident) xs ys"
      and c: "c = JTuple zs" "list_all2 (same_value ident) ys zs"
    using JTuple.prems by (auto simp: py_eq_list_iff split: json.splits)
  have "same_value ident x z"
    if "x \<in> set xs" "same_value ident x y" "same_value ident y z" for x y z
    using JTuple.IH[OF that(1)] that(2,3) id by (auto simp: same_value_def)
  then have "list_all2 (same_value ident) xs zs"
    using b(2) c(2) by (auto simp: list_all2_conv_all_nth)
  then show ?case using b c by (simp add: py_eq_list_iff)
next
  case (JObj xs)
  obtain ys zs where b: "b = JObj ys" "length xs = length ys" "py_eq_items ident xs ys"
      and c: "c = JObj zs" "length ys = length zs" "py_eq_items ident ys zs"
    using JObj.prems by (auto split: json.splits)
  have "\<exists>w. map_of zs k = Some w \<and> same_value ident v w" if kv: "(k, v) \<in> set xs" for k v
  proof -
    obtain u where u: "map_of ys k = Some u" "same_value ident v u"
      using b(3) kv by (auto simp: py_eq_items_iff)
    obtain w where w: "map_of zs k = Some w" "same_value ident u w"
      using c(3) map_of_SomeD[OF u(1)] by (auto simp: py_eq_items_iff)
    have "same_value ident v w"
    proof (cases "v = u \<or> u = w")
      case False
      then have "py_eq ident v u" "py_eq ident u w"
        using u(2) w(2) id by (auto simp: same_value_def)
      then show ?thesis using JObj.IH[OF kv] by (auto simp: same_value_def)
    qed (use u w in auto)
    then show ?thesis using w by blast
  qed
  then show ?case using b c by (auto simp: py_eq_items_iff)
qed (use float_eq_trans in \<open>auto dest!: py_eq_as_float split: option.splits\<close>)

lemma same_value_trans:
  assumes "\<And>x y. ident x y \<Longrightarrow> x = y" "same_value ident a b" "same_value ident b c"
  shows "same_value ident a c"
  using assms(2,3) py_eq_trans[OF assms(1)] assms(1) unfolding same_value_def by blast

lemma dict_eq_lookup:
  "dict_eq ident xs ys \<Longrightarrow> map_of xs k = Some v \<Longrightarrow> \<exists>w. map_of ys k = Some w \<and> same_value ident v w"
  by (auto simp: dict_eq_def py_eq_items_iff dest: map_of_SomeD)

section \<open>Freezing and thawing\<close>

text \<open>\<open>freeze\<close>: lists become tuples, at every level.\<close>

fun freeze :: "json \<Rightarrow> json" where
  "freeze (JList xs) = JTuple (map freeze xs)"
| "freeze (JTuple xs) = JTuple (map freeze xs)"
| "freeze (JObj xs) = JObj (map (\<lambda>p. (fst p, freeze (snd p))) xs)"
| "freeze v = v"

text \<open>\<open>json_safe\<close> and \<open>thaw\<close> of \<open>_internal/serialization/values.py\<close> on JSON trees.\<close>

fun json_safe_float :: "pyfloat \<Rightarrow> json" where
  "json_safe_float NaN = JStr ''[NONFINITE_FLOAT:NAN]''"
| "json_safe_float PosInf = JStr ''[NONFINITE_FLOAT:POSITIVE_INFINITY]''"
| "json_safe_float NegInf = JStr ''[NONFINITE_FLOAT:NEGATIVE_INFINITY]''"
| "json_safe_float f = JFloat f"

fun thaw :: "json \<Rightarrow> json" where
  "thaw (JList xs) = JList (map thaw xs)"
| "thaw (JTuple xs) = JList (map thaw xs)"
| "thaw (JObj xs) = JObj (map (\<lambda>p. (fst p, thaw (snd p))) xs)"
| "thaw (JFloat f) = json_safe_float f"
| "thaw v = v"

fun finite_json :: "json \<Rightarrow> bool" where
  "finite_json (JFloat f) = (f \<notin> {NaN, PosInf, NegInf})"
| "finite_json (JList xs) = list_all finite_json xs"
| "finite_json (JTuple xs) = list_all finite_json xs"
| "finite_json (JObj xs) = list_all (\<lambda>p. finite_json (snd p)) xs"
| "finite_json _ = True"

lemma finite_json_thaw: "finite_json (thaw v)"
proof (induction v)
  case (JFloat f)
  then show ?case by (cases f) auto
qed (auto simp: list_all_iff)

text \<open>Plain JSON: no tuples and no non-finite numbers.\<close>

fun plain_json :: "json \<Rightarrow> bool" where
  "plain_json (JFloat f) = (f \<notin> {NaN, PosInf, NegInf})"
| "plain_json (JList xs) = list_all plain_json xs"
| "plain_json (JTuple xs) = False"
| "plain_json (JObj xs) = list_all (\<lambda>p. plain_json (snd p)) xs"
| "plain_json _ = True"

lemma plain_json_thaw: "plain_json (thaw v)"
proof (induction v)
  case (JFloat f)
  then show ?case by (cases f) auto
qed (auto simp: list_all_iff)

lemma map_items_id: "(\<And>k v. (k, v) \<in> set xs \<Longrightarrow> f v = v) \<Longrightarrow> map (\<lambda>p. (fst p, f (snd p))) xs = xs"
  by (rule map_idI) (metis prod.collapse)

lemma thaw_plain: "plain_json v \<Longrightarrow> thaw v = v"
proof (induction v)
  case (JFloat f)
  then show ?case by (cases f) auto
next
  case (JObj xs)
  then show ?case by (auto simp: list_all_iff intro!: map_items_id)
qed (auto simp: list_all_iff map_idI)

text \<open>Thawing undoes freezing on plain JSON.\<close>

lemma thaw_freeze: "plain_json v \<Longrightarrow> thaw (freeze v) = v"
proof (induction v)
  case (JFloat f)
  then show ?case by (cases f) auto
next
  case (JObj xs)
  have "map (\<lambda>p. (fst p, thaw (freeze (snd p)))) xs = xs"
    using JObj by (intro map_items_id) (fastforce simp: list_all_iff)
  then show ?case by (simp add: o_def)
qed (auto simp: list_all_iff map_idI)

end
