(* ===== verification/Decisions.thy ===== *)
theory Decisions
  imports Values
begin

text \<open>
  Decisions and approval requests (\<open>decisions.py\<close>): the two frozen dataclasses with the validation of
  their constructors, the binding of a decision to a request, expiry, the denial the stores issue, and
  the human decision provider.  Timestamps are UTC microseconds; the current instant and fresh
  identifiers are arguments.  The SHA-256 of the canonical arguments is the argument \<open>dig\<close>.
\<close>

datatype DecisionOutcome = ALLOW | DENY | REQUIRE_HUMAN

record DecisionRecord =
  dr_outcome :: DecisionOutcome
  dr_reason :: string
  dr_source :: string
  dr_decision_id :: string
  dr_request_id :: "string option"
  dr_approver :: "string option"
  dr_issued_at :: time
  dr_expires_at :: "time option"
  dr_tool_name :: "string option"
  dr_arguments_digest :: "string option"
  dr_policy_version :: "string option"
  dr_subject :: "string option"
  dr_tenant :: "string option"
  dr_identity_issuer :: "string option"
  dr_risk_tier :: "string option"
  dr_policy_digest :: "string option"
  dr_action_digest :: "string option"

record ApprovalRequest =
  ar_trace_id :: string
  ar_tool_name :: string
  ar_arguments :: dict
  ar_risk_tier :: string
  ar_reason :: string
  ar_request_id :: string
  ar_issued_at :: time
  ar_expires_at :: "time option"
  ar_arguments_digest :: string
  ar_policy_version :: "string option"
  ar_subject :: "string option"
  ar_tenant :: "string option"
  ar_identity_issuer :: "string option"
  ar_arguments_redacted :: bool
  ar_policy_digest :: "string option"
  ar_action_digest :: "string option"

section \<open>Field validators\<close>

text \<open>\<open>[A-Za-z0-9][A-Za-z0-9._:/@-]{0,255}\<close>\<close>

definition IDENTIFIER :: "string \<Rightarrow> bool" where
  "IDENTIFIER = ident_like is_alnum (\<lambda>c. is_alnum c \<or> c \<in> set ''._:/@-'')"

definition validate_identifier :: "string \<Rightarrow> string \<Rightarrow> unit res" where
  "validate_identifier name v =
     raise_if (\<not> IDENTIFIER v) (ValueError (name @ '' must be a stable 1-256 character identifier''))"

definition validate_optional_identifier :: "string \<Rightarrow> string option \<Rightarrow> unit res" where
  "validate_optional_identifier name v =
     (case v of None \<Rightarrow> Inr () | Some s \<Rightarrow> validate_identifier name s)"

definition risk_tier_names :: "string list" where
  "risk_tier_names = [''LOW'', ''MEDIUM'', ''HIGH'', ''CRITICAL'']"

definition validate_risk_tier :: "string \<Rightarrow> unit res" where
  "validate_risk_tier v =
     raise_if (v \<notin> set risk_tier_names) (ValueError ''risk_tier must be LOW, MEDIUM, HIGH, or CRITICAL'')"

definition validate_optional_risk_tier :: "string option \<Rightarrow> unit res" where
  "validate_optional_risk_tier v = (case v of None \<Rightarrow> Inr () | Some s \<Rightarrow> validate_risk_tier s)"

definition validate_optional_digest :: "string \<Rightarrow> string option \<Rightarrow> unit res" where
  "validate_optional_digest name v = (case v of None \<Rightarrow> Inr ()
     | Some s \<Rightarrow> raise_if (\<not> is_digest s) (ValueError (name @ '' must be a SHA-256 hex digest'')))"

definition validate_text :: "string \<Rightarrow> string \<Rightarrow> nat \<Rightarrow> unit res" where
  "validate_text name v maximum =
     raise_if (is_blank v \<or> maximum < length v)
       (ValueError (name @ '' must contain 1-'' @ digits_of maximum @ '' characters''))"

definition reject_mismatch :: "string \<Rightarrow> string option \<Rightarrow> string option \<Rightarrow> unit res" where
  "reject_mismatch name d r =
     raise_if (d \<noteq> None \<and> d \<noteq> r) (ValueError (''approval decision '' @ name @ '' mismatch''))"

definition is_expired :: "time option \<Rightarrow> time \<Rightarrow> bool" where
  "is_expired e now = (case e of None \<Rightarrow> False | Some t \<Rightarrow> t \<le> now)"

section \<open>Constructors\<close>

definition validate_expiry :: "string \<Rightarrow> time \<Rightarrow> time option \<Rightarrow> unit res" where
  "validate_expiry what issued e = (case e of None \<Rightarrow> Inr ()
     | Some t \<Rightarrow> raise_if (t \<le> issued)
         (ValueError (''approval '' @ what @ '' expiry must follow issuance'')))"

text \<open>\<open>DecisionRecord.__post_init__\<close>\<close>

definition DecisionRecord_post_init :: "DecisionRecord \<Rightarrow> DecisionRecord res" where
  "DecisionRecord_post_init d =
     seqR (seq_all
       [validate_identifier ''decision_id'' (dr_decision_id d),
        validate_optional_identifier ''request_id'' (dr_request_id d),
        validate_text ''reason'' (dr_reason d) 2048,
        validate_identifier ''source'' (dr_source d),
        validate_optional_identifier ''approver'' (dr_approver d),
        validate_optional_identifier ''tool_name'' (dr_tool_name d),
        validate_optional_risk_tier (dr_risk_tier d),
        validate_optional_identifier ''policy_version'' (dr_policy_version d),
        validate_optional_identifier ''policy_digest'' (dr_policy_digest d),
        validate_optional_identifier ''subject'' (dr_subject d),
        validate_optional_identifier ''tenant'' (dr_tenant d),
        validate_optional_identifier ''identity_issuer'' (dr_identity_issuer d),
        validate_expiry ''decision'' (dr_issued_at d) (dr_expires_at d),
        validate_optional_digest ''arguments_digest'' (dr_arguments_digest d),
        validate_optional_digest ''action_digest'' (dr_action_digest d)])
     (Inr d)"

text \<open>\<open>ApprovalRequest.__post_init__\<close>; \<open>dig\<close> is \<open>digest_arguments\<close>.\<close>

definition ApprovalRequest_post_init :: "(dict \<Rightarrow> string) \<Rightarrow> ApprovalRequest \<Rightarrow> ApprovalRequest res" where
  "ApprovalRequest_post_init dig r =
     seqR (seq_all
       [validate_identifier ''trace_id'' (ar_trace_id r),
        validate_identifier ''request_id'' (ar_request_id r),
        validate_identifier ''tool_name'' (ar_tool_name r),
        validate_text ''reason'' (ar_reason r) 2048,
        validate_risk_tier (ar_risk_tier r),
        validate_optional_identifier ''policy_version'' (ar_policy_version r),
        validate_optional_identifier ''policy_digest'' (ar_policy_digest r),
        validate_optional_identifier ''subject'' (ar_subject r),
        validate_optional_identifier ''tenant'' (ar_tenant r),
        validate_optional_identifier ''identity_issuer'' (ar_identity_issuer r),
        validate_optional_digest ''action_digest'' (ar_action_digest r),
        validate_expiry ''request'' (ar_issued_at r) (ar_expires_at r)])
     (let computed = dig (ar_arguments r) in
      if ar_arguments_digest r = [] then Inr (r\<lparr>ar_arguments_digest := computed\<rparr>)
      else if \<not> is_digest (ar_arguments_digest r)
        then Inl (ValueError ''arguments_digest must be a SHA-256 hex digest'')
      else if \<not> ar_arguments_redacted r \<and> ar_arguments_digest r \<noteq> computed
        then Inl (ValueError ''arguments_digest does not match approval arguments'')
      else Inr r)"

section \<open>Binding\<close>

text \<open>The record \<open>bind_to\<close> constructs, before its constructor validates it.\<close>

definition bind_record :: "time \<Rightarrow> DecisionRecord \<Rightarrow> ApprovalRequest \<Rightarrow> string option \<Rightarrow> DecisionRecord" where
  "bind_record now d r approver =
     \<lparr>dr_outcome = dr_outcome d,
      dr_reason = dr_reason d,
      dr_source = dr_source d,
      dr_decision_id = dr_decision_id d,
      dr_request_id = Some (ar_request_id r),
      dr_approver = or_str (dr_approver d) approver,
      dr_issued_at = dr_issued_at d,
      dr_expires_at = (case dr_expires_at d of Some x \<Rightarrow> Some x
         | None \<Rightarrow> if dr_outcome d = DENY \<and> is_expired (ar_expires_at r) now then None
                   else ar_expires_at r),
      dr_tool_name = Some (ar_tool_name r),
      dr_arguments_digest = Some (ar_arguments_digest r),
      dr_policy_version = ar_policy_version r,
      dr_subject = ar_subject r,
      dr_tenant = ar_tenant r,
      dr_identity_issuer = ar_identity_issuer r,
      dr_risk_tier = Some (ar_risk_tier r),
      dr_policy_digest = ar_policy_digest r,
      dr_action_digest = ar_action_digest r\<rparr>"

definition bind_to :: "time \<Rightarrow> DecisionRecord \<Rightarrow> ApprovalRequest \<Rightarrow> string option \<Rightarrow> DecisionRecord res" where
  "bind_to now d r approver =
     seqR (seq_all
       [reject_mismatch ''request_id'' (dr_request_id d) (Some (ar_request_id r)),
        reject_mismatch ''tool_name'' (dr_tool_name d) (Some (ar_tool_name r)),
        reject_mismatch ''arguments_digest'' (dr_arguments_digest d) (Some (ar_arguments_digest r)),
        reject_mismatch ''risk_tier'' (dr_risk_tier d) (Some (ar_risk_tier r)),
        reject_mismatch ''policy_version'' (dr_policy_version d) (ar_policy_version r),
        reject_mismatch ''policy_digest'' (dr_policy_digest d) (ar_policy_digest r),
        reject_mismatch ''subject'' (dr_subject d) (ar_subject r),
        reject_mismatch ''tenant'' (dr_tenant d) (ar_tenant r),
        reject_mismatch ''identity_issuer'' (dr_identity_issuer d) (ar_identity_issuer r),
        reject_mismatch ''action_digest'' (dr_action_digest d) (ar_action_digest r),
        raise_if (case (dr_expires_at d, ar_expires_at r) of
                    (Some x, Some y) \<Rightarrow> y < x | _ \<Rightarrow> False)
          (ValueError ''approval decision outlives its request'')])
     (DecisionRecord_post_init (bind_record now d r approver))"

definition validate_for :: "time \<Rightarrow> DecisionRecord \<Rightarrow> ApprovalRequest \<Rightarrow> unit res" where
  "validate_for now d r =
     (if is_expired (ar_expires_at r) now then Inl (ValueError ''approval request expired'')
      else if is_expired (dr_expires_at d) now then Inl (ValueError ''approval decision expired'')
      else bindR (bind_to now d r None) (\<lambda>_. Inr ()))"

text \<open>A freshly constructed decision that names no request yet.\<close>

definition fresh_decision ::
  "time \<Rightarrow> string \<Rightarrow> DecisionOutcome \<Rightarrow> string \<Rightarrow> string \<Rightarrow> string option \<Rightarrow> DecisionRecord" where
  "fresh_decision now did oc reason source approver =
     \<lparr>dr_outcome = oc, dr_reason = reason, dr_source = source, dr_decision_id = did,
      dr_request_id = None, dr_approver = approver, dr_issued_at = now, dr_expires_at = None,
      dr_tool_name = None, dr_arguments_digest = None, dr_policy_version = None, dr_subject = None,
      dr_tenant = None, dr_identity_issuer = None, dr_risk_tier = None, dr_policy_digest = None,
      dr_action_digest = None\<rparr>"

definition denial_for_request ::
  "time \<Rightarrow> string \<Rightarrow> ApprovalRequest \<Rightarrow> string \<Rightarrow> string \<Rightarrow> DecisionRecord res" where
  "denial_for_request now did r reason source =
     bindR (DecisionRecord_post_init (fresh_decision now did DENY reason source None))
           (\<lambda>d. bind_to now d r None)"

section \<open>The human decision provider\<close>

datatype DecisionCallbackResult =
    CallbackRecord DecisionRecord
  | CallbackOutcome DecisionOutcome
  | CallbackBool bool
  | CallbackOther

definition HumanDecisionProvider_init :: "string \<Rightarrow> string res" where
  "HumanDecisionProvider_init approver =
     (if approver = [] then Inl (ValueError ''approver is required'') else Inr approver)"

text \<open>\<open>HumanDecisionProvider.decide\<close> on the value the callback returned.\<close>

definition human_decide ::
  "time \<Rightarrow> string \<Rightarrow> string \<Rightarrow> DecisionCallbackResult \<Rightarrow> DecisionRecord res" where
  "human_decide now did approver v =
     (let answer = (\<lambda>oc. DecisionRecord_post_init
                      (fresh_decision now did oc ''human decision'' ''human'' (Some approver)))
      in case v of
        CallbackRecord d \<Rightarrow> if truthy (dr_approver d) then Inr d
                            else DecisionRecord_post_init (d\<lparr>dr_approver := Some approver\<rparr>)
      | CallbackBool b \<Rightarrow> answer (if b then ALLOW else DENY)
      | CallbackOutcome oc \<Rightarrow> answer oc
      | CallbackOther \<Rightarrow> Inl (TypeError
          ''decision callback must return bool, DecisionOutcome, or DecisionRecord''))"

section \<open>Laws of binding\<close>

text \<open>What a bound decision and its request agree on.\<close>

definition bound_to :: "DecisionRecord \<Rightarrow> ApprovalRequest \<Rightarrow> bool" where
  "bound_to d r =
     (dr_request_id d = Some (ar_request_id r) \<and>
      dr_tool_name d = Some (ar_tool_name r) \<and>
      dr_arguments_digest d = Some (ar_arguments_digest r) \<and>
      dr_risk_tier d = Some (ar_risk_tier r) \<and>
      dr_policy_version d = ar_policy_version r \<and>
      dr_policy_digest d = ar_policy_digest r \<and>
      dr_subject d = ar_subject r \<and>
      dr_tenant d = ar_tenant r \<and>
      dr_identity_issuer d = ar_identity_issuer r \<and>
      dr_action_digest d = ar_action_digest r)"

definition valid_decision :: "DecisionRecord \<Rightarrow> bool" where
  "valid_decision d = (DecisionRecord_post_init d = Inr d)"

definition valid_request :: "(dict \<Rightarrow> string) \<Rightarrow> ApprovalRequest \<Rightarrow> bool" where
  "valid_request dig r = (ApprovalRequest_post_init dig r = Inr r)"

lemmas decision_validators =
  validate_identifier_def validate_optional_identifier_def validate_optional_risk_tier_def
  validate_risk_tier_def validate_optional_digest_def validate_text_def validate_expiry_def

lemma okR_validators [simp]:
  "okR (validate_identifier n v) \<longleftrightarrow> IDENTIFIER v"
  "okR (validate_optional_identifier n w) \<longleftrightarrow> (\<forall>s. w = Some s \<longrightarrow> IDENTIFIER s)"
  "okR (validate_risk_tier v) \<longleftrightarrow> v \<in> set risk_tier_names"
  "okR (validate_optional_risk_tier w) \<longleftrightarrow> (\<forall>s. w = Some s \<longrightarrow> s \<in> set risk_tier_names)"
  "okR (validate_optional_digest n w) \<longleftrightarrow> (\<forall>s. w = Some s \<longrightarrow> is_digest s)"
  "okR (validate_text n v m) \<longleftrightarrow> \<not> is_blank v \<and> length v \<le> m"
  "okR (validate_expiry n i e) \<longleftrightarrow> (\<forall>t. e = Some t \<longrightarrow> i < t)"
  "okR (reject_mismatch n w w') \<longleftrightarrow> (w = None \<or> w = w')"
  by (auto simp: decision_validators reject_mismatch_def split: option.splits)

lemma DecisionRecord_post_init_id:
  "DecisionRecord_post_init d = Inr d' \<Longrightarrow> d' = d \<and> valid_decision d"
  by (auto simp: DecisionRecord_post_init_def valid_decision_def bindR_eq_Inr)

lemma valid_decision_iff:
  "valid_decision d \<longleftrightarrow>
     IDENTIFIER (dr_decision_id d) \<and> (\<forall>s. dr_request_id d = Some s \<longrightarrow> IDENTIFIER s) \<and>
     \<not> is_blank (dr_reason d) \<and> length (dr_reason d) \<le> 2048 \<and> IDENTIFIER (dr_source d) \<and>
     (\<forall>s. dr_approver d = Some s \<longrightarrow> IDENTIFIER s) \<and>
     (\<forall>s. dr_tool_name d = Some s \<longrightarrow> IDENTIFIER s) \<and>
     (\<forall>s. dr_risk_tier d = Some s \<longrightarrow> s \<in> set risk_tier_names) \<and>
     (\<forall>s. dr_policy_version d = Some s \<longrightarrow> IDENTIFIER s) \<and>
     (\<forall>s. dr_policy_digest d = Some s \<longrightarrow> IDENTIFIER s) \<and>
     (\<forall>s. dr_subject d = Some s \<longrightarrow> IDENTIFIER s) \<and>
     (\<forall>s. dr_tenant d = Some s \<longrightarrow> IDENTIFIER s) \<and>
     (\<forall>s. dr_identity_issuer d = Some s \<longrightarrow> IDENTIFIER s) \<and>
     (\<forall>t. dr_expires_at d = Some t \<longrightarrow> dr_issued_at d < t) \<and>
     (\<forall>s. dr_arguments_digest d = Some s \<longrightarrow> is_digest s) \<and>
     (\<forall>s. dr_action_digest d = Some s \<longrightarrow> is_digest s)"
  unfolding valid_decision_def DecisionRecord_post_init_def bindR_eq_Inr seq_all_Inr
  by simp

lemma post_init_eq_Inr: "DecisionRecord_post_init d = Inr d' \<longleftrightarrow> d' = d \<and> valid_decision d"
  using DecisionRecord_post_init_id by (auto simp: valid_decision_def)

lemma IDENTIFIER_nonempty: "IDENTIFIER s \<Longrightarrow> s \<noteq> []"
  by (auto simp: IDENTIFIER_def dest: ident_like_nonempty)

text \<open>A decision may be bound to a request when each field it carries is the request's.\<close>

definition bind_compatible :: "DecisionRecord \<Rightarrow> ApprovalRequest \<Rightarrow> bool" where
  "bind_compatible d r =
     ((dr_request_id d = None \<or> dr_request_id d = Some (ar_request_id r)) \<and>
      (dr_tool_name d = None \<or> dr_tool_name d = Some (ar_tool_name r)) \<and>
      (dr_arguments_digest d = None \<or> dr_arguments_digest d = Some (ar_arguments_digest r)) \<and>
      (dr_risk_tier d = None \<or> dr_risk_tier d = Some (ar_risk_tier r)) \<and>
      (dr_policy_version d = None \<or> dr_policy_version d = ar_policy_version r) \<and>
      (dr_policy_digest d = None \<or> dr_policy_digest d = ar_policy_digest r) \<and>
      (dr_subject d = None \<or> dr_subject d = ar_subject r) \<and>
      (dr_tenant d = None \<or> dr_tenant d = ar_tenant r) \<and>
      (dr_identity_issuer d = None \<or> dr_identity_issuer d = ar_identity_issuer r) \<and>
      (dr_action_digest d = None \<or> dr_action_digest d = ar_action_digest r) \<and>
      \<not> (case (dr_expires_at d, ar_expires_at r) of (Some x, Some y) \<Rightarrow> y < x | _ \<Rightarrow> False))"

lemma bind_to_Inr_iff:
  "bind_to now d r ap = Inr d' \<longleftrightarrow>
     bind_compatible d r \<and> d' = bind_record now d r ap \<and> valid_decision d'"
  unfolding bind_to_def bindR_eq_Inr seq_all_Inr post_init_eq_Inr bind_compatible_def
  by (simp only: list.set okR_validators okR_simps ball_simps) (simp, blast)

lemma bind_record_simps [simp]:
  "dr_outcome (bind_record now d r ap) = dr_outcome d"
  "dr_decision_id (bind_record now d r ap) = dr_decision_id d"
  "dr_reason (bind_record now d r ap) = dr_reason d"
  "dr_source (bind_record now d r ap) = dr_source d"
  "dr_issued_at (bind_record now d r ap) = dr_issued_at d"
  "dr_approver (bind_record now d r ap) = or_str (dr_approver d) ap"
  "dr_request_id (bind_record now d r ap) = Some (ar_request_id r)"
  by (simp_all add: bind_record_def)

lemma bound_to_bind_record [simp]: "bound_to (bind_record now d r ap) r"
  by (simp add: bound_to_def bind_record_def)

lemma bind_to_bound:
  "bind_to now d r ap = Inr d' \<Longrightarrow> bound_to d' r \<and> valid_decision d'"
  by (auto simp: bind_to_Inr_iff)

lemma bind_to_keeps:
  "bind_to now d r ap = Inr d' \<Longrightarrow>
     dr_outcome d' = dr_outcome d \<and> dr_decision_id d' = dr_decision_id d \<and>
     dr_reason d' = dr_reason d \<and> dr_source d' = dr_source d \<and> dr_issued_at d' = dr_issued_at d"
  by (auto simp: bind_to_Inr_iff)

lemma valid_request_fields:
  assumes "valid_request dig r" and "\<And>a. is_digest (dig a)"
  shows "IDENTIFIER (ar_request_id r)" "IDENTIFIER (ar_tool_name r)"
    "ar_risk_tier r \<in> set risk_tier_names" "is_digest (ar_arguments_digest r)"
    "\<And>s. ar_policy_version r = Some s \<Longrightarrow> IDENTIFIER s"
    "\<And>s. ar_policy_digest r = Some s \<Longrightarrow> IDENTIFIER s"
    "\<And>s. ar_subject r = Some s \<Longrightarrow> IDENTIFIER s"
    "\<And>s. ar_tenant r = Some s \<Longrightarrow> IDENTIFIER s"
    "\<And>s. ar_identity_issuer r = Some s \<Longrightarrow> IDENTIFIER s"
    "\<And>s. ar_action_digest r = Some s \<Longrightarrow> is_digest s"
    "\<And>t. ar_expires_at r = Some t \<Longrightarrow> ar_issued_at r < t"
  using assms(1) assms(2)[of "ar_arguments r"]
  unfolding valid_request_def ApprovalRequest_post_init_def bindR_eq_Inr seq_all_Inr
  by (auto simp: Let_def split: if_splits dest: arg_cong[where f = ar_arguments_digest])

text \<open>The denial a store issues for a well-formed request never raises.\<close>

lemma denial_for_request_total:
  assumes r: "valid_request dig r" "\<And>a. is_digest (dig a)"
    and "IDENTIFIER did" "IDENTIFIER source" "\<not> is_blank reason" "length reason \<le> 2048"
  shows "\<exists>d. denial_for_request now did r reason source = Inr d"
proof -
  let ?d0 = "fresh_decision now did DENY reason source None"
  have v: "valid_decision ?d0"
    using assms by (simp add: valid_decision_iff fresh_decision_def)
  have "bind_compatible ?d0 r"
    by (simp add: bind_compatible_def fresh_decision_def)
  moreover have "valid_decision (bind_record now ?d0 r None)"
    using v valid_request_fields[OF r]
    by (auto simp: fresh_decision_def valid_decision_iff bind_record_def or_str_def is_expired_def
             split: option.splits)
  ultimately have "bind_to now ?d0 r None = Inr (bind_record now ?d0 r None)"
    by (simp add: bind_to_Inr_iff)
  then show ?thesis
    using v by (simp add: denial_for_request_def valid_decision_def)
qed

lemma denial_for_request_deny:
  "denial_for_request now did r reason source = Inr d \<Longrightarrow>
     dr_outcome d = DENY \<and> bound_to d r \<and> dr_decision_id d = did"
  by (auto simp: denial_for_request_def bindR_eq_Inr post_init_eq_Inr bind_to_Inr_iff fresh_decision_def)

lemma bound_to_compatible:
  assumes "bound_to d r"
    and "\<And>x y. dr_expires_at d = Some x \<Longrightarrow> ar_expires_at r = Some y \<Longrightarrow> x \<le> y"
  shows "bind_compatible d r"
  using assms unfolding bound_to_def bind_compatible_def
  by (simp add: leD split: option.splits)

lemma bound_decision_expiry:
  assumes "bind_to now d r ap = Inr d'" "dr_expires_at d' = Some x" "ar_expires_at r = Some y"
  shows "x \<le> y"
  using assms
  by (auto simp: bind_to_Inr_iff bind_compatible_def bind_record_def split: option.splits if_splits)

lemma bound_decision_rebinds:
  assumes "bind_to now d r ap = Inr d'" and "now \<le> now'"
  shows "bind_to now' d' r None = Inr d'"
proof -
  have b: "bound_to d' r" "valid_decision d'" using bind_to_bound[OF assms(1)] by auto
  have a: "or_str (dr_approver d') None = dr_approver d'"
    using b(2) by (cases "dr_approver d'") (auto simp: or_str_def valid_decision_iff dest: IDENTIFIER_nonempty)
  have e: "dr_expires_at d' = None \<Longrightarrow> dr_outcome d' = DENY \<and> is_expired (ar_expires_at r) now'
             \<or> ar_expires_at r = None"
    using assms by (auto simp: bind_to_Inr_iff bind_record_def is_expired_def split: option.splits if_splits)
  have "bind_record now' d' r None = d'"
    using b(1) a e by (intro DecisionRecord.equality)
      (auto simp: bind_record_def bound_to_def split: option.splits)
  then show ?thesis
    using b bound_to_compatible[OF b(1)] bound_decision_expiry[OF assms(1)] by (simp add: bind_to_Inr_iff)
qed

end
