(* ===== verification/ApprovalStore.thy ===== *)
theory ApprovalStore
  imports Decisions
begin

text \<open>
  Approval stores (\<open>approval_store.py\<close>): the in-memory store and the SQLite store, operation by
  operation.  An operation maps a store to the store it leaves and its result or exception; it runs
  under the store's lock or inside \<open>BEGIN IMMEDIATE\<close>, so an interleaving of callers is a sequence of
  operations.  The \<open>now\<close> argument is the clock reading of the operation, \<open>did\<close> the fresh decision
  identifier a denial gets, \<open>tok\<close> the fresh reservation token.  JSON columns hold the value they
  serialise.  What a store promises is stated in \<open>ApprovalContract\<close>.
\<close>

datatype ApprovalStatus = PENDING | DECIDED | CONSUMED

record StoredApproval =
  sa_request :: ApprovalRequest
  sa_decision :: "DecisionRecord option"
  sa_status :: ApprovalStatus
  sa_consumed_at :: "time option"
  sa_reservation_token :: "string option"
  sa_reserved_until :: "time option"

record ApprovalReservation =
  rv_decision :: DecisionRecord
  rv_token :: "string option"

type_synonym items = "string \<rightharpoonup> StoredApproval"

section \<open>Shared helpers\<close>

definition store_denial :: "time \<Rightarrow> string \<Rightarrow> ApprovalRequest \<Rightarrow> string \<Rightarrow> DecisionRecord res" where
  "store_denial now did r reason = denial_for_request now did r reason ''approval_store''"

text \<open>\<open>_validate_request\<close>: \<open>None\<close> when the stored request is the one presented.\<close>

definition validate_request ::
  "time \<Rightarrow> string \<Rightarrow> ApprovalRequest \<Rightarrow> ApprovalRequest \<Rightarrow> DecisionRecord option res" where
  "validate_request now did stored r =
     (let deny = (\<lambda>reason. bindR (store_denial now did r reason) (\<lambda>d. Inr (Some d))) in
      if ar_action_digest r \<noteq> None \<and> ar_action_digest stored = None
        then deny ''approval.action_digest_missing: re-approval required''
      else if ar_action_digest stored \<noteq> ar_action_digest r
        then deny ''approval.action_digest_mismatch: re-approval required''
      else if ar_tool_name stored \<noteq> ar_tool_name r then deny ''approval request tool mismatch''
      else if ar_arguments_digest stored \<noteq> ar_arguments_digest r
        then deny ''approval request arguments mismatch''
      else if ar_policy_version stored \<noteq> ar_policy_version r
        then deny ''approval request policy mismatch''
      else if ar_policy_digest stored \<noteq> ar_policy_digest r
        then deny ''approval request policy digest mismatch''
      else if ar_subject stored \<noteq> ar_subject r then deny ''approval request subject mismatch''
      else if ar_tenant stored \<noteq> ar_tenant r then deny ''approval request tenant mismatch''
      else if ar_identity_issuer stored \<noteq> ar_identity_issuer r
        then deny ''approval request identity issuer mismatch''
      else if ar_risk_tier stored \<noteq> ar_risk_tier r then deny ''approval request risk mismatch''
      else Inr None)"

definition reservation_expired :: "time option \<Rightarrow> time \<Rightarrow> bool" where
  "reservation_expired v now = (case v of None \<Rightarrow> True | Some t \<Rightarrow> t \<le> now)"

definition reused_error :: "ApprovalRequest \<Rightarrow> DecisionRecord \<Rightarrow> exn" where
  "reused_error r denial = ValueError
     (if ar_action_digest r \<noteq> None then dr_reason denial
      else ''approval request_id was reused for a different request'')"

text \<open>\<open>ApprovalReservation(denial)\<close>\<close>

definition denied_reservation :: "DecisionRecord res \<Rightarrow> ApprovalReservation res" where
  "denied_reservation m = bindR m (\<lambda>d. Inr \<lparr>rv_decision = d, rv_token = None\<rparr>)"

section \<open>The in-memory store\<close>

definition im_pending :: "time \<Rightarrow> string \<Rightarrow> items \<Rightarrow> ApprovalRequest \<Rightarrow> items \<times> unit res" where
  "im_pending now did st r =
     (case st (ar_request_id r) of
        None \<Rightarrow> (st(ar_request_id r \<mapsto>
                   \<lparr>sa_request = r, sa_decision = None, sa_status = PENDING, sa_consumed_at = None,
                    sa_reservation_token = None, sa_reserved_until = None\<rparr>), Inr ())
      | Some existing \<Rightarrow>
          (st, case validate_request now did (sa_request existing) r of
                 Inl e \<Rightarrow> Inl e
               | Inr None \<Rightarrow> Inr ()
               | Inr (Some denial) \<Rightarrow> Inl (reused_error r denial)))"

definition im_decide ::
  "time \<Rightarrow> items \<Rightarrow> string \<Rightarrow> DecisionRecord \<Rightarrow> items \<times> DecisionRecord res" where
  "im_decide now st rid d =
     (case st rid of
        None \<Rightarrow> (st, Inl (KeyError rid))
      | Some item \<Rightarrow>
          if sa_status item = CONSUMED then (st, Inl (ValueError ''approval request already consumed''))
          else if is_expired (ar_expires_at (sa_request item)) now
            then (st, Inl (ValueError ''approval request expired''))
          else case bind_to now d (sa_request item) None of
            Inl e \<Rightarrow> (st, Inl e)
          | Inr bound \<Rightarrow>
              if sa_status item = DECIDED then
                (st, if sa_decision item = Some bound then Inr bound
                     else Inl (ValueError ''approval request already has a decision''))
              else (st(rid \<mapsto> \<lparr>sa_request = sa_request item, sa_decision = Some bound,
                         sa_status = DECIDED, sa_consumed_at = sa_consumed_at item,
                         sa_reservation_token = None, sa_reserved_until = None\<rparr>), Inr bound))"

definition im_reserve ::
  "time \<Rightarrow> string \<Rightarrow> string \<Rightarrow> items \<Rightarrow> ApprovalRequest \<Rightarrow> int \<Rightarrow> items \<times> ApprovalReservation res" where
  "im_reserve now did tok st r lease =
     (let deny = (\<lambda>reason. (st, denied_reservation (store_denial now did r reason))) in
      if lease \<le> 0 then (st, Inl (ValueError ''lease_seconds must be positive''))
      else case st (ar_request_id r) of
        None \<Rightarrow> deny ''approval request not found''
      | Some item \<Rightarrow>
         (case validate_request now did (sa_request item) r of
            Inl e \<Rightarrow> (st, Inl e)
          | Inr (Some denial) \<Rightarrow> (st, denied_reservation (Inr denial))
          | Inr None \<Rightarrow>
             if sa_status item = CONSUMED then deny ''approval request already consumed''
             else if is_expired (ar_expires_at (sa_request item)) now
               then deny ''approval request expired''
             else (case sa_decision item of
                 None \<Rightarrow> deny ''approval decision pending''
               | Some d \<Rightarrow>
                  if is_expired (dr_expires_at d) now then deny ''approval decision expired''
                  else if truthy (sa_reservation_token item)
                          \<and> \<not> reservation_expired (sa_reserved_until item) now
                    then deny ''approval request already reserved''
                  else (st(ar_request_id r \<mapsto>
                          \<lparr>sa_request = sa_request item, sa_decision = Some d, sa_status = DECIDED,
                           sa_consumed_at = sa_consumed_at item, sa_reservation_token = Some tok,
                           sa_reserved_until = Some (now + lease)\<rparr>),
                        Inr \<lparr>rv_decision = d, rv_token = Some tok\<rparr>))))"

definition im_commit ::
  "time \<Rightarrow> string \<Rightarrow> items \<Rightarrow> ApprovalRequest \<Rightarrow> string \<Rightarrow> items \<times> DecisionRecord res" where
  "im_commit now did st r tok =
     (case st (ar_request_id r) of
        None \<Rightarrow> (st, store_denial now did r ''approval request not found'')
      | Some item \<Rightarrow>
         (case validate_request now did (sa_request item) r of
            Inl e \<Rightarrow> (st, Inl e)
          | Inr (Some denial) \<Rightarrow> (st, Inr denial)
          | Inr None \<Rightarrow>
             if sa_status item = CONSUMED
               then (st, store_denial now did r ''approval request already consumed'')
             else if sa_reservation_token item \<noteq> Some tok
               then (st, store_denial now did r ''approval reservation mismatch'')
             else if reservation_expired (sa_reserved_until item) now then
               (st(ar_request_id r \<mapsto>
                  \<lparr>sa_request = sa_request item, sa_decision = sa_decision item, sa_status = DECIDED,
                   sa_consumed_at = None, sa_reservation_token = None, sa_reserved_until = None\<rparr>),
                store_denial now did r ''approval reservation expired'')
             else (case sa_decision item of
                 None \<Rightarrow> (st, Inl AssertionError)
               | Some d \<Rightarrow>
                  (st(ar_request_id r \<mapsto>
                     \<lparr>sa_request = sa_request item, sa_decision = Some d, sa_status = CONSUMED,
                      sa_consumed_at = Some now, sa_reservation_token = None,
                      sa_reserved_until = None\<rparr>), Inr d))))"

definition im_release :: "items \<Rightarrow> string \<Rightarrow> string \<Rightarrow> items \<times> bool res" where
  "im_release st rid tok =
     (case st rid of
        None \<Rightarrow> (st, Inr False)
      | Some item \<Rightarrow>
          if sa_status item = CONSUMED \<or> sa_reservation_token item \<noteq> Some tok then (st, Inr False)
          else (st(rid \<mapsto> \<lparr>sa_request = sa_request item, sa_decision = sa_decision item,
                     sa_status = sa_status item, sa_consumed_at = sa_consumed_at item,
                     sa_reservation_token = None, sa_reserved_until = None\<rparr>), Inr True))"

definition im_get :: "items \<Rightarrow> string \<Rightarrow> StoredApproval option" where
  "im_get st rid = st rid"

text \<open>\<open>consume\<close>: a thirty second reservation, then its commit.\<close>

definition im_consume ::
  "time \<Rightarrow> string \<Rightarrow> string \<Rightarrow> items \<Rightarrow> ApprovalRequest \<Rightarrow> items \<times> DecisionRecord res" where
  "im_consume now did tok st r =
     (case im_reserve now did tok st r 30000000 of
        (st', Inl e) \<Rightarrow> (st', Inl e)
      | (st', Inr rv) \<Rightarrow>
          (case rv_token rv of
             None \<Rightarrow> (st', Inr (rv_decision rv))
           | Some t \<Rightarrow> im_commit now did st' r t))"

section \<open>The SQLite store\<close>

text \<open>
  A row of the \<open>approvals\<close> table, keyed by its primary key \<open>request_id\<close>.  \<open>mac\<close> is HMAC-SHA-256 of
  the dumped record under the signing key.
\<close>

record approval_row =
  aw_request_json :: ApprovalRequest
  aw_decision_json :: "DecisionRecord option"
  aw_status :: ApprovalStatus
  aw_consumed_at :: "time option"
  aw_integrity_tag :: "string option"
  aw_reservation_token :: "string option"
  aw_reserved_until :: "time option"

type_synonym approvals = "string \<rightharpoonup> approval_row"

type_synonym tag_payload =
  "ApprovalRequest \<times> DecisionRecord option \<times> ApprovalStatus \<times> time option \<times> string option \<times> time option"

record sq_config =
  sc_sign_key :: "string option"
  sc_store_arguments :: bool
  sc_mac :: "string \<Rightarrow> tag_payload \<Rightarrow> string"

definition production_integrity_protected :: "sq_config \<Rightarrow> bool" where
  "production_integrity_protected cfg =
     (case sc_sign_key cfg of None \<Rightarrow> False | Some k \<Rightarrow> 32 \<le> length k)"

definition record_tag :: "sq_config \<Rightarrow> tag_payload \<Rightarrow> string option" where
  "record_tag cfg p =
     (if truthy (sc_sign_key cfg) then Some (sc_mac cfg (the (sc_sign_key cfg)) p) else None)"

definition stored_request :: "sq_config \<Rightarrow> ApprovalRequest \<Rightarrow> ApprovalRequest" where
  "stored_request cfg r =
     (if sc_store_arguments cfg then r
      else r\<lparr>ar_arguments := [], ar_arguments_redacted := True\<rparr>)"

definition row_payload :: "approval_row \<Rightarrow> tag_payload" where
  "row_payload w = (aw_request_json w, aw_decision_json w, aw_status w, aw_consumed_at w,
                    aw_reservation_token w, aw_reserved_until w)"

definition row_item :: "approval_row \<Rightarrow> StoredApproval" where
  "row_item w = \<lparr>sa_request = aw_request_json w, sa_decision = aw_decision_json w,
     sa_status = aw_status w, sa_consumed_at = aw_consumed_at w,
     sa_reservation_token = aw_reservation_token w, sa_reserved_until = aw_reserved_until w\<rparr>"

text \<open>\<open>_get\<close>: with a signing key the row's tag must be the tag of its contents.\<close>

definition sq_get :: "sq_config \<Rightarrow> approvals \<Rightarrow> string \<Rightarrow> StoredApproval option res" where
  "sq_get cfg t rid =
     (case t rid of
        None \<Rightarrow> Inr None
      | Some w \<Rightarrow>
          if truthy (sc_sign_key cfg) \<and> aw_integrity_tag w \<noteq> record_tag cfg (row_payload w)
          then Inl (ValueError ''approval record integrity verification failed'')
          else Inr (Some (row_item w)))"

text \<open>\<open>UPDATE approvals SET f WHERE request_id = rid AND P\<close>: the table and its row count.\<close>

definition sq_update ::
  "approvals \<Rightarrow> string \<Rightarrow> (approval_row \<Rightarrow> bool) \<Rightarrow> (approval_row \<Rightarrow> approval_row) \<Rightarrow> approvals \<times> nat" where
  "sq_update t rid P f =
     (case t rid of
        None \<Rightarrow> (t, 0)
      | Some w \<Rightarrow> if P w then (t(rid \<mapsto> f w), 1) else (t, 0))"

definition sq_pending ::
  "sq_config \<Rightarrow> time \<Rightarrow> string \<Rightarrow> approvals \<Rightarrow> ApprovalRequest \<Rightarrow> approvals \<times> unit res" where
  "sq_pending cfg now did t r =
     (case t (ar_request_id r) of
        None \<Rightarrow>
          (let req = stored_request cfg r in
           (t(ar_request_id r \<mapsto>
               \<lparr>aw_request_json = req, aw_decision_json = None, aw_status = PENDING,
                aw_consumed_at = None,
                aw_integrity_tag = record_tag cfg (req, None, PENDING, None, None, None),
                aw_reservation_token = None, aw_reserved_until = None\<rparr>), Inr ()))
      | Some w \<Rightarrow>
          (t, case validate_request now did (aw_request_json w) r of
                Inl e \<Rightarrow> Inl e
              | Inr None \<Rightarrow> Inr ()
              | Inr (Some denial) \<Rightarrow> Inl (reused_error r denial)))"

definition sq_decide ::
  "sq_config \<Rightarrow> time \<Rightarrow> approvals \<Rightarrow> string \<Rightarrow> DecisionRecord \<Rightarrow> approvals \<times> DecisionRecord res" where
  "sq_decide cfg now t rid d =
     (case sq_get cfg t rid of
        Inl e \<Rightarrow> (t, Inl e)
      | Inr None \<Rightarrow> (t, Inl (KeyError rid))
      | Inr (Some item) \<Rightarrow>
          if sa_status item = CONSUMED then (t, Inl (ValueError ''approval request already consumed''))
          else if is_expired (ar_expires_at (sa_request item)) now
            then (t, Inl (ValueError ''approval request expired''))
          else case bind_to now d (sa_request item) None of
            Inl e \<Rightarrow> (t, Inl e)
          | Inr bound \<Rightarrow>
              if sa_status item = DECIDED then
                (t, if sa_decision item = Some bound then Inr bound
                    else Inl (ValueError ''approval request already has a decision''))
              else
                (case sq_update t rid (\<lambda>w. aw_status w = PENDING)
                   (\<lambda>w. w\<lparr>aw_decision_json := Some bound, aw_status := DECIDED,
                          aw_integrity_tag := record_tag cfg
                            (sa_request item, Some bound, DECIDED, None, None, None)\<rparr>) of
                 (t', n) \<Rightarrow>
                   if n \<noteq> 1
                   then (t, Inl (ValueError ''approval request state changed before decision''))
                   else (t', Inr bound)))"

definition sq_reserve ::
  "sq_config \<Rightarrow> time \<Rightarrow> string \<Rightarrow> string \<Rightarrow> approvals \<Rightarrow> ApprovalRequest \<Rightarrow> int
     \<Rightarrow> approvals \<times> ApprovalReservation res" where
  "sq_reserve cfg now did tok t r lease =
     (let deny = (\<lambda>reason. (t, denied_reservation (store_denial now did r reason))) in
      if lease \<le> 0 then (t, Inl (ValueError ''lease_seconds must be positive''))
      else case sq_get cfg t (ar_request_id r) of
        Inl e \<Rightarrow> (t, Inl e)
      | Inr None \<Rightarrow> deny ''approval request not found''
      | Inr (Some item) \<Rightarrow>
         (case validate_request now did (sa_request item) r of
            Inl e \<Rightarrow> (t, Inl e)
          | Inr (Some denial) \<Rightarrow> (t, denied_reservation (Inr denial))
          | Inr None \<Rightarrow>
             if sa_status item = CONSUMED then deny ''approval request already consumed''
             else if is_expired (ar_expires_at (sa_request item)) now
               then deny ''approval request expired''
             else (case sa_decision item of
                 None \<Rightarrow> deny ''approval decision pending''
               | Some d \<Rightarrow>
                  if is_expired (dr_expires_at d) now then deny ''approval decision expired''
                  else if truthy (sa_reservation_token item)
                          \<and> \<not> reservation_expired (sa_reserved_until item) now
                    then deny ''approval request already reserved''
                  else
                   (case sq_update t (ar_request_id r)
                      (\<lambda>w. aw_status w = DECIDED \<and>
                           (aw_reservation_token w = None \<or>
                            (case aw_reserved_until w of None \<Rightarrow> False | Some u \<Rightarrow> u \<le> now)))
                      (\<lambda>w. w\<lparr>aw_reservation_token := Some tok,
                             aw_reserved_until := Some (now + lease),
                             aw_integrity_tag := record_tag cfg
                               (sa_request item, Some d, DECIDED, sa_consumed_at item, Some tok,
                                Some (now + lease))\<rparr>) of
                    (t', n) \<Rightarrow>
                      if n \<noteq> 1 then deny ''approval request was reserved concurrently''
                      else (t', Inr \<lparr>rv_decision = d, rv_token = Some tok\<rparr>)))))"

text \<open>\<open>_clear_reservation\<close> on the item just read.\<close>

definition sq_clear_reservation ::
  "sq_config \<Rightarrow> approvals \<Rightarrow> StoredApproval \<Rightarrow> (approvals \<times> nat) res" where
  "sq_clear_reservation cfg t item =
     (case sa_decision item of
        None \<Rightarrow> Inl AssertionError
      | Some d \<Rightarrow> Inr (sq_update t (ar_request_id (sa_request item))
          (\<lambda>w. aw_status w = DECIDED \<and> aw_reservation_token w \<noteq> None \<and>
               aw_reservation_token w = sa_reservation_token item)
          (\<lambda>w. w\<lparr>aw_reservation_token := None, aw_reserved_until := None,
                 aw_integrity_tag := record_tag cfg
                   (sa_request item, Some d, DECIDED, sa_consumed_at item, None, None)\<rparr>)))"

definition sq_commit ::
  "sq_config \<Rightarrow> time \<Rightarrow> string \<Rightarrow> approvals \<Rightarrow> ApprovalRequest \<Rightarrow> string \<Rightarrow> approvals \<times> DecisionRecord res" where
  "sq_commit cfg now did t r tok =
     (case sq_get cfg t (ar_request_id r) of
        Inl e \<Rightarrow> (t, Inl e)
      | Inr None \<Rightarrow> (t, store_denial now did r ''approval request not found'')
      | Inr (Some item) \<Rightarrow>
         (case validate_request now did (sa_request item) r of
            Inl e \<Rightarrow> (t, Inl e)
          | Inr (Some denial) \<Rightarrow> (t, Inr denial)
          | Inr None \<Rightarrow>
             if sa_status item = CONSUMED
               then (t, store_denial now did r ''approval request already consumed'')
             else if sa_reservation_token item \<noteq> Some tok
               then (t, store_denial now did r ''approval reservation mismatch'')
             else if reservation_expired (sa_reserved_until item) now then
               (case sq_clear_reservation cfg t item of
                  Inl e \<Rightarrow> (t, Inl e)
                | Inr (t', n) \<Rightarrow> (t', store_denial now did r ''approval reservation expired''))
             else (case sa_decision item of
                 None \<Rightarrow> (t, Inl AssertionError)
               | Some d \<Rightarrow>
                  (case sq_update t (ar_request_id r)
                     (\<lambda>w. aw_status w = DECIDED \<and> aw_reservation_token w = Some tok)
                     (\<lambda>w. w\<lparr>aw_status := CONSUMED, aw_consumed_at := Some now,
                            aw_reservation_token := None, aw_reserved_until := None,
                            aw_integrity_tag := record_tag cfg
                              (sa_request item, Some d, CONSUMED, Some now, None, None)\<rparr>) of
                   (t', n) \<Rightarrow>
                     if n \<noteq> 1
                     then (t, store_denial now did r ''approval reservation changed before commit'')
                     else (t', Inr d)))))"

definition sq_release ::
  "sq_config \<Rightarrow> approvals \<Rightarrow> string \<Rightarrow> string \<Rightarrow> approvals \<times> bool res" where
  "sq_release cfg t rid tok =
     (case sq_get cfg t rid of
        Inl e \<Rightarrow> (t, Inl e)
      | Inr None \<Rightarrow> (t, Inr False)
      | Inr (Some item) \<Rightarrow>
          if sa_status item = CONSUMED \<or> sa_reservation_token item \<noteq> Some tok then (t, Inr False)
          else (case sq_clear_reservation cfg t item of
                  Inl e \<Rightarrow> (t, Inl e)
                | Inr (t', n) \<Rightarrow> (t', Inr (n = 1))))"

definition sq_consume ::
  "sq_config \<Rightarrow> time \<Rightarrow> string \<Rightarrow> string \<Rightarrow> approvals \<Rightarrow> ApprovalRequest \<Rightarrow> approvals \<times> DecisionRecord res" where
  "sq_consume cfg now did tok t r =
     (case sq_reserve cfg now did tok t r 30000000 of
        (t', Inl e) \<Rightarrow> (t', Inl e)
      | (t', Inr rv) \<Rightarrow>
          (case rv_token rv of
             None \<Rightarrow> (t', Inr (rv_decision rv))
           | Some k \<Rightarrow> sq_commit cfg now did t' r k))"

end
