(* ===== verification/ApprovalContract.thy ===== *)
theory ApprovalContract
  imports ApprovalStore
begin

text \<open>
  The contract of an approval store and its two implementations.  A store is a machine on the
  operations of the \<open>ApprovalStore\<close> protocol; \<open>approval_contract\<close> holds the laws the decision
  middleware relies on and derives single consumption and lease exclusion for any sequence of
  operations.  The SQLite store is shown to simulate the in-memory store on the requests it
  persists, and both are interpreted.
\<close>

section \<open>Operations as data\<close>

datatype approval_op =
    Pending time string ApprovalRequest
  | Decide time string DecisionRecord
  | Reserve time string string ApprovalRequest int
  | Commit time string ApprovalRequest string
  | Release string string

datatype approval_out =
    Done
  | Decided DecisionRecord
  | Reserved ApprovalReservation
  | Released bool
  | Raised exn

definition out_of :: "('a \<Rightarrow> approval_out) \<Rightarrow> 'st \<times> 'a res \<Rightarrow> 'st \<times> approval_out" where
  "out_of f p = (fst p, case snd p of Inl e \<Rightarrow> Raised e | Inr a \<Rightarrow> f a)"

fun op_target :: "approval_op \<Rightarrow> string" where
  "op_target (Pending _ _ r) = ar_request_id r"
| "op_target (Decide _ rid _) = rid"
| "op_target (Reserve _ _ _ r _) = ar_request_id r"
| "op_target (Commit _ _ r _) = ar_request_id r"
| "op_target (Release rid _) = rid"

text \<open>Fresh tokens are not empty.\<close>

fun op_ok :: "approval_op \<Rightarrow> bool" where
  "op_ok (Reserve _ _ tok _ _) = (tok \<noteq> [])"
| "op_ok _ = True"

fun im_exec :: "items \<Rightarrow> approval_op \<Rightarrow> items \<times> approval_out" where
  "im_exec st (Pending now did r) = out_of (\<lambda>_. Done) (im_pending now did st r)"
| "im_exec st (Decide now rid d) = out_of Decided (im_decide now st rid d)"
| "im_exec st (Reserve now did tok r lease) = out_of Reserved (im_reserve now did tok st r lease)"
| "im_exec st (Commit now did r tok) = out_of Decided (im_commit now did st r tok)"
| "im_exec st (Release rid tok) = out_of Released (im_release st rid tok)"

fun sq_exec :: "sq_config \<Rightarrow> approvals \<Rightarrow> approval_op \<Rightarrow> approvals \<times> approval_out" where
  "sq_exec cfg t (Pending now did r) = out_of (\<lambda>_. Done) (sq_pending cfg now did t r)"
| "sq_exec cfg t (Decide now rid d) = out_of Decided (sq_decide cfg now t rid d)"
| "sq_exec cfg t (Reserve now did tok r lease) =
     out_of Reserved (sq_reserve cfg now did tok t r lease)"
| "sq_exec cfg t (Commit now did r tok) = out_of Decided (sq_commit cfg now did t r tok)"
| "sq_exec cfg t (Release rid tok) = out_of Released (sq_release cfg t rid tok)"

fun run_ops :: "('st \<Rightarrow> approval_op \<Rightarrow> 'st \<times> approval_out) \<Rightarrow> 'st \<Rightarrow> approval_op list
                \<Rightarrow> 'st \<times> (approval_op \<times> approval_out) list" where
  "run_ops ex st [] = (st, [])"
| "run_ops ex st (c # cs) =
     (let (st', o') = ex st c; (st'', os) = run_ops ex st' cs in (st'', (c, o') # os))"

text \<open>A commit that hands out a decision other than a denial for the request \<open>rid\<close>.\<close>

fun grants_commit :: "string \<Rightarrow> approval_op \<times> approval_out \<Rightarrow> bool" where
  "grants_commit rid (Commit _ _ r _, Decided d) = (ar_request_id r = rid \<and> dr_outcome d \<noteq> DENY)"
| "grants_commit rid _ = False"

text \<open>
  Operations that leave a lease \<open>tok\<close> on \<open>rid\<close> with deadline \<open>u\<close> alone: no commit or release of that
  token, and no reservation attempted once the lease is over.
\<close>

fun respects_lease :: "string \<Rightarrow> string \<Rightarrow> time \<Rightarrow> approval_op \<Rightarrow> bool" where
  "respects_lease rid tok u (Reserve now _ _ r _) = (ar_request_id r = rid \<longrightarrow> now < u)"
| "respects_lease rid tok u (Commit _ _ r k) = (ar_request_id r = rid \<longrightarrow> k \<noteq> tok)"
| "respects_lease rid tok u (Release rid' k) = (rid' = rid \<longrightarrow> k \<noteq> tok)"
| "respects_lease rid tok u _ = True"

definition leased :: "StoredApproval option \<Rightarrow> string \<Rightarrow> time \<Rightarrow> bool" where
  "leased i tok u = (case i of None \<Rightarrow> False | Some a \<Rightarrow>
     sa_reservation_token a = Some tok \<and> sa_reserved_until a = Some u)"

definition consumed :: "StoredApproval option \<Rightarrow> bool" where
  "consumed i = (case i of None \<Rightarrow> False | Some a \<Rightarrow> sa_status a = CONSUMED)"

section \<open>The contract\<close>

locale approval_contract =
  fixes ex :: "'st \<Rightarrow> approval_op \<Rightarrow> 'st \<times> approval_out"
    and look :: "'st \<Rightarrow> string \<Rightarrow> StoredApproval option"
    and inv :: "'st \<Rightarrow> bool"
  assumes inv_ex: "inv st \<Longrightarrow> op_ok c \<Longrightarrow> inv (fst (ex st c))"
    and frame: "inv st \<Longrightarrow> rid \<noteq> op_target c \<Longrightarrow> look (fst (ex st c)) rid = look st rid"
    and consumed_final: "inv st \<Longrightarrow> consumed (look st rid) \<Longrightarrow> look (fst (ex st c)) rid = look st rid"
    and commit_grants: "inv st \<Longrightarrow> snd (ex st (Commit now did r tok)) = Decided d \<Longrightarrow> dr_outcome d \<noteq> DENY \<Longrightarrow>
      \<exists>i u. look st (ar_request_id r) = Some i \<and> sa_status i = DECIDED \<and>
            leased (Some i) tok u \<and> now < u \<and> sa_decision i = Some d \<and> bound_to d r \<and>
            consumed (look (fst (ex st (Commit now did r tok))) (ar_request_id r))"
    and reserve_grants: "inv st \<Longrightarrow> snd (ex st (Reserve now did tok r lease)) = Reserved rv \<Longrightarrow> rv_token rv \<noteq> None \<Longrightarrow>
      rv_token rv = Some tok \<and> bound_to (rv_decision rv) r \<and>
      (\<forall>k u. leased (look st (ar_request_id r)) k u \<longrightarrow> u \<le> now) \<and>
      leased (look (fst (ex st (Reserve now did tok r lease))) (ar_request_id r)) tok (now + lease)"
    and lease_kept: "inv st \<Longrightarrow> leased (look st rid) tok u \<Longrightarrow> respects_lease rid tok u c \<Longrightarrow>
      leased (look (fst (ex st c)) rid) tok u"
begin

lemma inv_run: "inv st \<Longrightarrow> list_all op_ok cs \<Longrightarrow> inv (fst (run_ops ex st cs))"
  by (induction cs arbitrary: st) (auto simp: split_beta Let_def intro: inv_ex)

lemma consumed_no_grant:
  assumes "inv st" "list_all op_ok cs" "consumed (look st rid)"
  shows "filter (grants_commit rid) (snd (run_ops ex st cs)) = []"
  using assms
proof (induction cs arbitrary: st)
  case (Cons c cs)
  have "\<not> grants_commit rid (c, snd (ex st c))"
  proof
    assume "grants_commit rid (c, snd (ex st c))"
    then obtain now did r tok d where c: "c = Commit now did r tok" "ar_request_id r = rid"
      "snd (ex st c) = Decided d" "dr_outcome d \<noteq> DENY"
      by (elim grants_commit.elims) auto
    then obtain i where "look st rid = Some i" "sa_status i = DECIDED"
      using commit_grants[OF Cons.prems(1), of now did r tok d] by auto
    then show False using Cons.prems(3) by (simp add: consumed_def)
  qed
  moreover have "consumed (look (fst (ex st c)) rid)"
    using Cons.prems by (simp add: consumed_final)
  ultimately show ?case
    using Cons inv_ex by (auto simp: split_beta Let_def)
qed simp

lemma single_commit:
  assumes "inv st" "list_all op_ok cs"
  shows "length (filter (grants_commit rid) (snd (run_ops ex st cs))) \<le> 1"
  using assms
proof (induction cs arbitrary: st)
  case (Cons c cs)
  have inv': "inv (fst (ex st c))" using Cons.prems by (simp add: inv_ex)
  show ?case
  proof (cases "grants_commit rid (c, snd (ex st c))")
    case True
    then obtain now did r tok d where c: "c = Commit now did r tok" "ar_request_id r = rid"
      "snd (ex st c) = Decided d" "dr_outcome d \<noteq> DENY"
      by (elim grants_commit.elims) auto
    then have "consumed (look (fst (ex st c)) rid)"
      using commit_grants[OF Cons.prems(1), of now did r tok d] by auto
    then show ?thesis
      using True Cons.prems consumed_no_grant[OF inv', of cs rid] by (simp add: split_beta Let_def)
  qed (use Cons inv' in \<open>simp add: split_beta Let_def\<close>)
qed simp

lemma lease_run:
  assumes "inv st" "list_all op_ok cs" "leased (look st rid) tok u"
    and "list_all (respects_lease rid tok u) cs"
  shows "leased (look (fst (run_ops ex st cs)) rid) tok u"
  using assms
  by (induction cs arbitrary: st) (auto simp: split_beta Let_def intro: inv_ex lease_kept)

lemma lease_excludes:
  assumes inv: "inv st" and ok: "op_ok (Reserve now did tok r lease)" "list_all op_ok cs"
    and g: "snd (ex st (Reserve now did tok r lease)) = Reserved rv" "rv_token rv \<noteq> None"
    and quiet: "list_all (respects_lease (ar_request_id r) tok (now + lease)) cs"
    and st': "st' = fst (run_ops ex (fst (ex st (Reserve now did tok r lease))) cs)"
    and same: "ar_request_id r' = ar_request_id r"
    and g': "snd (ex st' (Reserve now' did' tok' r' lease')) = Reserved rv'" "rv_token rv' \<noteq> None"
  shows "now + lease \<le> now'"
proof -
  let ?st1 = "fst (ex st (Reserve now did tok r lease))"
  have inv1: "inv ?st1" using inv ok(1) by (rule inv_ex)
  have l1: "leased (look ?st1 (ar_request_id r)) tok (now + lease)"
    using reserve_grants[OF inv g] by blast
  have "leased (look st' (ar_request_id r)) tok (now + lease)"
    using lease_run[OF inv1 ok(2) l1 quiet] st' by simp
  moreover have "inv st'" using inv_run[OF inv1 ok(2)] st' by simp
  ultimately show ?thesis
    using reserve_grants[OF _ g'] same by auto
qed

end

section \<open>The in-memory store meets the contract\<close>

text \<open>What every stored approval satisfies under the key it is stored at.\<close>

definition wf_item :: "string \<Rightarrow> StoredApproval \<Rightarrow> bool" where
  "wf_item rid i =
     (ar_request_id (sa_request i) = rid \<and>
      (sa_status i = PENDING \<longleftrightarrow> sa_decision i = None) \<and>
      (sa_status i = CONSUMED \<longleftrightarrow> sa_consumed_at i \<noteq> None) \<and>
      (sa_status i \<noteq> DECIDED \<longrightarrow> sa_reservation_token i = None) \<and>
      (sa_reservation_token i = None \<longleftrightarrow> sa_reserved_until i = None) \<and>
      sa_reservation_token i \<noteq> Some [] \<and>
      (\<forall>d. sa_decision i = Some d \<longrightarrow> bound_to d (sa_request i) \<and> valid_decision d))"

definition wf_items :: "items \<Rightarrow> bool" where
  "wf_items st = (\<forall>rid i. st rid = Some i \<longrightarrow> wf_item rid i)"

lemma wf_items_empty [simp]: "wf_items Map.empty"
  by (simp add: wf_items_def)

lemma wf_items_upd [intro]: "wf_items st \<Longrightarrow> wf_item rid i \<Longrightarrow> wf_items (st(rid \<mapsto> i))"
  by (simp add: wf_items_def)

lemma wf_itemsD: "wf_items st \<Longrightarrow> st rid = Some i \<Longrightarrow> wf_item rid i"
  by (simp add: wf_items_def)

lemma validate_request_None:
  assumes "validate_request now did stored r = Inr None"
  shows "ar_action_digest stored = ar_action_digest r \<and> ar_tool_name stored = ar_tool_name r \<and>
    ar_arguments_digest stored = ar_arguments_digest r \<and> ar_policy_version stored = ar_policy_version r \<and>
    ar_policy_digest stored = ar_policy_digest r \<and> ar_subject stored = ar_subject r \<and>
    ar_tenant stored = ar_tenant r \<and> ar_identity_issuer stored = ar_identity_issuer r \<and>
    ar_risk_tier stored = ar_risk_tier r"
  using assms unfolding validate_request_def Let_def
  by (simp add: bindR_eq_Inr split: if_splits)

lemma validate_request_Some:
  assumes "validate_request now did stored r = Inr (Some d)"
  shows "dr_outcome d = DENY"
  using assms unfolding validate_request_def Let_def store_denial_def
  by (auto simp: bindR_eq_Inr dest: denial_for_request_deny split: if_splits)

lemma bound_to_validated:
  assumes "bound_to d stored" "validate_request now did stored r = Inr None"
    "ar_request_id stored = ar_request_id r"
  shows "bound_to d r"
  using assms(1,3) validate_request_None[OF assms(2)] unfolding bound_to_def by metis

lemma store_denial_deny: "store_denial now did r reason = Inr d \<Longrightarrow> dr_outcome d = DENY"
  by (auto simp: store_denial_def dest: denial_for_request_deny)

lemma denied_reservation_token:
  "denied_reservation m = Inr rv \<Longrightarrow> rv_token rv = None"
  by (auto simp: denied_reservation_def bindR_eq_Inr)

lemmas im_ops = im_pending_def im_decide_def im_reserve_def im_commit_def im_release_def

lemma im_frame: "rid \<noteq> op_target c \<Longrightarrow> fst (im_exec st c) rid = st rid"
  by (cases c) (auto simp: out_of_def im_ops Let_def
      split: option.splits sum.splits)

lemma im_consumed_final: "consumed (st rid) \<Longrightarrow> fst (im_exec st c) rid = st rid"
  by (cases "rid = op_target c")
    (cases c, auto simp: im_frame out_of_def im_ops Let_def consumed_def
      split: option.splits sum.splits)

lemma im_inv: "wf_items st \<Longrightarrow> op_ok c \<Longrightarrow> wf_items (fst (im_exec st c))"
proof (cases c)
  case (Pending now did r)
  assume "wf_items st"
  then show ?thesis
    unfolding Pending by (auto simp: out_of_def im_pending_def wf_item_def split: option.splits)
next
  case (Decide now rid d)
  assume "wf_items st"
  then show ?thesis
    unfolding Decide using wf_itemsD[of st rid]
    by (auto simp: out_of_def im_decide_def wf_item_def bind_to_Inr_iff split: option.splits sum.splits)
next
  case (Reserve now did tok r lease)
  assume "wf_items st" "op_ok c"
  then show ?thesis
    unfolding Reserve using wf_itemsD[of st "ar_request_id r"]
    by (auto simp: out_of_def im_reserve_def Let_def wf_item_def split: option.splits sum.splits)
next
  case (Commit now did r tok)
  assume "wf_items st"
  then show ?thesis
    unfolding Commit using wf_itemsD[of st "ar_request_id r"]
    by (auto simp: out_of_def im_commit_def wf_item_def split: option.splits sum.splits)
next
  case (Release rid tok)
  assume "wf_items st"
  then show ?thesis
    unfolding Release using wf_itemsD[of st rid]
    by (auto simp: out_of_def im_release_def wf_item_def intro!: wf_items_upd split: option.splits)
qed

lemma im_commit_grants:
  assumes "wf_items st" "snd (im_exec st (Commit now did r tok)) = Decided d" "dr_outcome d \<noteq> DENY"
  shows "\<exists>i u. st (ar_request_id r) = Some i \<and> sa_status i = DECIDED \<and>
            leased (Some i) tok u \<and> now < u \<and> sa_decision i = Some d \<and> bound_to d r \<and>
            consumed (fst (im_exec st (Commit now did r tok)) (ar_request_id r))"
proof -
  obtain i where i: "st (ar_request_id r) = Some i"
      "validate_request now did (sa_request i) r = Inr None" "sa_status i \<noteq> CONSUMED"
      "sa_reservation_token i = Some tok" "\<not> reservation_expired (sa_reserved_until i) now"
      "sa_decision i = Some d"
    using assms(2,3)
    by (auto simp: out_of_def im_commit_def dest: store_denial_deny validate_request_Some
             split: option.splits sum.splits if_splits)
  have w: "wf_item (ar_request_id r) i" using assms(1) i(1) by (rule wf_itemsD)
  obtain u where u: "sa_reserved_until i = Some u" "now < u"
    using i(5) by (auto simp: reservation_expired_def split: option.splits)
  have "bound_to d r"
    using w i(2,6) by (auto simp: wf_item_def intro: bound_to_validated)
  moreover have "sa_status i = DECIDED"
    using w i(3,6) by (cases "sa_status i") (auto simp: wf_item_def)
  moreover have "consumed (fst (im_exec st (Commit now did r tok)) (ar_request_id r))"
    using i by (simp add: out_of_def im_commit_def consumed_def)
  ultimately show ?thesis using i u by (auto simp: leased_def)
qed

lemma im_reserve_grants:
  assumes "wf_items st" "snd (im_exec st (Reserve now did tok r lease)) = Reserved rv"
    "rv_token rv \<noteq> None"
  shows "rv_token rv = Some tok \<and> bound_to (rv_decision rv) r \<and>
      (\<forall>k u. leased (st (ar_request_id r)) k u \<longrightarrow> u \<le> now) \<and>
      leased (fst (im_exec st (Reserve now did tok r lease)) (ar_request_id r)) tok (now + lease)"
proof -
  obtain i d where i: "0 < lease" "st (ar_request_id r) = Some i"
      "validate_request now did (sa_request i) r = Inr None" "sa_status i \<noteq> CONSUMED"
      "\<not> is_expired (ar_expires_at (sa_request i)) now" "sa_decision i = Some d"
      "\<not> is_expired (dr_expires_at d) now"
      "\<not> truthy (sa_reservation_token i) \<or> reservation_expired (sa_reserved_until i) now"
      "rv = \<lparr>rv_decision = d, rv_token = Some tok\<rparr>"
    using assms(2,3)
    by (auto simp: out_of_def im_reserve_def Let_def dest: denied_reservation_token
             split: option.splits sum.splits if_splits)
  have w: "wf_item (ar_request_id r) i" using assms(1) i(2) by (rule wf_itemsD)
  have "bound_to d r" using w i(3,6) by (auto simp: wf_item_def intro: bound_to_validated)
  moreover have "u \<le> now" if "leased (st (ar_request_id r)) k u" for k u
    using that i(2,8) w by (auto simp: leased_def reservation_expired_def wf_item_def)
  moreover have "leased (fst (im_exec st (Reserve now did tok r lease)) (ar_request_id r)) tok (now + lease)"
    using i by (auto simp: out_of_def im_reserve_def leased_def Let_def)
  ultimately show ?thesis using i(9) by auto
qed

lemma im_lease_kept:
  assumes "wf_items st" "leased (st rid) tok u" "respects_lease rid tok u c"
  shows "leased (fst (im_exec st c) rid) tok u"
proof (cases "rid = op_target c")
  case True
  obtain i where i: "st rid = Some i" "sa_reservation_token i = Some tok" "sa_reserved_until i = Some u"
    using assms(2) by (auto simp: leased_def split: option.splits)
  have w: "wf_item rid i" "tok \<noteq> []" "sa_status i = DECIDED"
    using wf_itemsD[OF assms(1) i(1)] i by (auto simp: wf_item_def)
  show ?thesis
    using True i w assms(3)
    by (cases c) (auto simp: leased_def out_of_def im_ops Let_def reservation_expired_def
        split: option.splits sum.splits)
qed (simp add: im_frame assms)

interpretation im: approval_contract im_exec im_get wf_items
  by (unfold_locales; (unfold im_get_def)?;
      (rule im_inv im_frame im_consumed_final im_commit_grants im_reserve_grants im_lease_kept; assumption))

section \<open>The SQLite store simulates the in-memory store\<close>

definition abs_table :: "approvals \<Rightarrow> items" where
  "abs_table t rid = map_option row_item (t rid)"

definition tags_ok :: "sq_config \<Rightarrow> approvals \<Rightarrow> bool" where
  "tags_ok cfg t = (\<forall>rid w. t rid = Some w \<longrightarrow> aw_integrity_tag w = record_tag cfg (row_payload w))"

definition sq_inv :: "sq_config \<Rightarrow> approvals \<Rightarrow> bool" where
  "sq_inv cfg t = (wf_items (abs_table t) \<and> tags_ok cfg t)"

text \<open>The only request the SQLite store keeps is the one \<open>pending\<close> persists.\<close>

fun op_stored :: "sq_config \<Rightarrow> approval_op \<Rightarrow> approval_op" where
  "op_stored cfg (Pending now did r) = Pending now did (stored_request cfg r)"
| "op_stored cfg c = c"

lemma row_item_sel [simp]:
  "sa_request (row_item w) = aw_request_json w" "sa_decision (row_item w) = aw_decision_json w"
  "sa_status (row_item w) = aw_status w" "sa_consumed_at (row_item w) = aw_consumed_at w"
  "sa_reservation_token (row_item w) = aw_reservation_token w"
  "sa_reserved_until (row_item w) = aw_reserved_until w"
  by (simp_all add: row_item_def)

lemma stored_request_sel [simp]:
  "ar_request_id (stored_request cfg r) = ar_request_id r"
  "ar_action_digest (stored_request cfg r) = ar_action_digest r"
  "ar_tool_name (stored_request cfg r) = ar_tool_name r"
  "ar_arguments_digest (stored_request cfg r) = ar_arguments_digest r"
  "ar_policy_version (stored_request cfg r) = ar_policy_version r"
  "ar_policy_digest (stored_request cfg r) = ar_policy_digest r"
  "ar_subject (stored_request cfg r) = ar_subject r"
  "ar_tenant (stored_request cfg r) = ar_tenant r"
  "ar_identity_issuer (stored_request cfg r) = ar_identity_issuer r"
  "ar_risk_tier (stored_request cfg r) = ar_risk_tier r"
  "ar_expires_at (stored_request cfg r) = ar_expires_at r"
  by (simp_all add: stored_request_def)

lemma bind_to_stored [simp]: "bind_to now d (stored_request cfg r) ap = bind_to now d r ap"
  unfolding bind_to_def bind_record_def stored_request_sel by (rule refl)

lemma store_denial_stored [simp]:
  "store_denial now did (stored_request cfg r) reason = store_denial now did r reason"
  by (simp add: store_denial_def denial_for_request_def)

lemma validate_request_stored [simp]:
  "validate_request now did q (stored_request cfg r) = validate_request now did q r"
  unfolding validate_request_def store_denial_stored by simp

lemma reused_error_stored [simp]: "reused_error (stored_request cfg r) d = reused_error r d"
  by (simp add: reused_error_def)

lemma abs_table_upd [simp]: "abs_table (t(rid \<mapsto> w)) = (abs_table t)(rid \<mapsto> row_item w)"
  by (auto simp: abs_table_def)

lemma sq_get_ok: "tags_ok cfg t \<Longrightarrow> sq_get cfg t rid = Inr (abs_table t rid)"
  by (auto simp: sq_get_def tags_ok_def abs_table_def split: option.splits)

lemma tags_ok_upd [intro]:
  "tags_ok cfg t \<Longrightarrow> aw_integrity_tag w = record_tag cfg (row_payload w) \<Longrightarrow> tags_ok cfg (t(rid \<mapsto> w))"
  by (simp add: tags_ok_def)

lemma op_stored_simps [simp]:
  "op_target (op_stored cfg c) = op_target c" "op_ok (op_stored cfg c) = op_ok c"
  "respects_lease rid tok u (op_stored cfg c) = respects_lease rid tok u c"
  by (cases c; simp)+

lemma sq_row:
  assumes "sq_inv cfg t" "t rid = Some w"
  shows "wf_item rid (row_item w)" "aw_integrity_tag w = record_tag cfg (row_payload w)"
  using assms by (auto simp: sq_inv_def tags_ok_def wf_items_def abs_table_def)

lemma sq_read:
  assumes "sq_inv cfg t" "t rid = Some w"
  shows "abs_table t rid = Some (row_item w)" "sq_get cfg t rid = Inr (Some (row_item w))" "tags_ok cfg t"
  using assms sq_get_ok[of cfg t rid] by (auto simp: sq_inv_def abs_table_def)

lemma sq_unread:
  assumes "sq_inv cfg t" "t rid = None"
  shows "abs_table t rid = None" "sq_get cfg t rid = Inr None" "tags_ok cfg t"
  using assms sq_get_ok[of cfg t rid] by (auto simp: sq_inv_def abs_table_def)

lemmas row_simps = row_item_def row_payload_def

lemma sq_pending_sim:
  assumes "sq_inv cfg t"
  shows "abs_table (fst (sq_pending cfg now did t r)) =
           fst (im_pending now did (abs_table t) (stored_request cfg r)) \<and>
         snd (sq_pending cfg now did t r) =
           snd (im_pending now did (abs_table t) (stored_request cfg r)) \<and>
         tags_ok cfg (fst (sq_pending cfg now did t r))"
  using assms
  by (cases "t (ar_request_id r)")
    (auto simp: sq_pending_def im_pending_def sq_inv_def abs_table_def Let_def row_item_def row_payload_def
                fun_eq_iff split: sum.splits option.splits)

lemma sq_decide_sim:
  assumes "sq_inv cfg t"
  shows "abs_table (fst (sq_decide cfg now t rid d)) = fst (im_decide now (abs_table t) rid d) \<and>
         snd (sq_decide cfg now t rid d) = snd (im_decide now (abs_table t) rid d) \<and>
         tags_ok cfg (fst (sq_decide cfg now t rid d))"
proof (cases "t (rid)")
  case None
  then show ?thesis
    using sq_unread[OF assms None] by (simp add: sq_decide_def im_decide_def)
next
  case (Some w)
  note rd = sq_read[OF assms Some] and wf = sq_row(1)[OF assms Some]
  show ?thesis
  proof (cases "bind_to now d (aw_request_json w) None")
    case (Inr bound)
    then show ?thesis
      using rd wf Some
      by (cases "aw_status w") (auto simp: sq_decide_def im_decide_def sq_update_def wf_item_def
          tags_ok_upd row_simps)
  qed (use rd in \<open>simp add: sq_decide_def im_decide_def\<close>)
qed

lemma sq_reserve_sim:
  assumes "sq_inv cfg t"
  shows "abs_table (fst (sq_reserve cfg now did tok t r lease)) =
           fst (im_reserve now did tok (abs_table t) r lease) \<and>
         snd (sq_reserve cfg now did tok t r lease) =
           snd (im_reserve now did tok (abs_table t) r lease) \<and>
         tags_ok cfg (fst (sq_reserve cfg now did tok t r lease))"
proof (cases "t (ar_request_id r)")
  case None
  then show ?thesis
    using sq_unread[OF assms None] by (simp add: sq_reserve_def im_reserve_def Let_def)
next
  case (Some w)
  note rd = sq_read[OF assms Some] and wf = sq_row(1)[OF assms Some]
  show ?thesis
  proof (cases "validate_request now did (aw_request_json w) r")
    case (Inr v)
    show ?thesis
    proof (cases "v = None \<and> aw_status w = DECIDED")
      case True
      then obtain d where d: "aw_decision_json w = Some d" "aw_consumed_at w = None"
          "aw_reservation_token w = None \<longleftrightarrow> aw_reserved_until w = None"
          "aw_reservation_token w \<noteq> Some []"
        using wf by (auto simp: wf_item_def)
      show ?thesis
        using rd Some Inr True d
        by (cases "aw_reservation_token w")
          (auto simp: sq_reserve_def im_reserve_def Let_def sq_update_def tags_ok_upd row_simps
                      reservation_expired_def)
    next
      case False
      then show ?thesis
        using rd Inr wf
        by (cases v; cases "aw_status w")
          (simp_all add: sq_reserve_def im_reserve_def Let_def wf_item_def)
    qed
  qed (use rd in \<open>simp add: sq_reserve_def im_reserve_def Let_def\<close>)
qed

lemma sq_commit_sim:
  assumes "sq_inv cfg t"
  shows "abs_table (fst (sq_commit cfg now did t r tok)) = fst (im_commit now did (abs_table t) r tok) \<and>
         snd (sq_commit cfg now did t r tok) = snd (im_commit now did (abs_table t) r tok) \<and>
         tags_ok cfg (fst (sq_commit cfg now did t r tok))"
proof (cases "t (ar_request_id r)")
  case None
  then show ?thesis
    using sq_unread[OF assms None] by (simp add: sq_commit_def im_commit_def)
next
  case (Some w)
  note rd = sq_read[OF assms Some] and wf = sq_row(1)[OF assms Some]
  show ?thesis
  proof (cases "validate_request now did (aw_request_json w) r")
    case (Inr v)
    show ?thesis
    proof (cases "v = None \<and> aw_status w = DECIDED")
      case True
      then obtain d where d: "aw_decision_json w = Some d" "aw_consumed_at w = None"
          "ar_request_id (aw_request_json w) = ar_request_id r"
        using wf by (auto simp: wf_item_def)
      show ?thesis
        using rd Some Inr True d
        by (auto simp: sq_commit_def im_commit_def sq_update_def sq_clear_reservation_def
                       tags_ok_upd row_simps)
    next
      case False
      then show ?thesis
        using rd Inr wf
        by (cases v; cases "aw_status w") (simp_all add: sq_commit_def im_commit_def wf_item_def)
    qed
  qed (use rd in \<open>simp add: sq_commit_def im_commit_def\<close>)
qed

lemma sq_release_sim:
  assumes "sq_inv cfg t"
  shows "abs_table (fst (sq_release cfg t rid tok)) = fst (im_release (abs_table t) rid tok) \<and>
         snd (sq_release cfg t rid tok) = snd (im_release (abs_table t) rid tok) \<and>
         tags_ok cfg (fst (sq_release cfg t rid tok))"
proof (cases "t (rid)")
  case None
  then show ?thesis
    using sq_unread[OF assms None] by (simp add: sq_release_def im_release_def)
next
  case (Some w)
  note rd = sq_read[OF assms Some] and wf = sq_row(1)[OF assms Some]
  show ?thesis
    using rd wf Some
    by (cases "aw_status w")
      (auto simp: sq_release_def im_release_def sq_update_def sq_clear_reservation_def
                  wf_item_def tags_ok_upd row_simps)
qed

lemma sq_simulates:
  assumes "sq_inv cfg t"
  shows "abs_table (fst (sq_exec cfg t c)) = fst (im_exec (abs_table t) (op_stored cfg c))"
    and "snd (sq_exec cfg t c) = snd (im_exec (abs_table t) (op_stored cfg c))"
    and "tags_ok cfg (fst (sq_exec cfg t c))"
  using sq_pending_sim[OF assms] sq_decide_sim[OF assms] sq_reserve_sim[OF assms]
    sq_commit_sim[OF assms] sq_release_sim[OF assms]
  by (cases c; simp add: out_of_def)+

lemma sq_inv_exec: "sq_inv cfg t \<Longrightarrow> op_ok c \<Longrightarrow> sq_inv cfg (fst (sq_exec cfg t c))"
  using sq_simulates[of cfg t c] im_inv[of "abs_table t" "op_stored cfg c"]
  by (simp add: sq_inv_def)

interpretation sq: approval_contract "sq_exec cfg" abs_table "sq_inv cfg" for cfg
proof
  fix st c rid
  assume inv: "sq_inv cfg st"
  then have w: "wf_items (abs_table st)" by (simp add: sq_inv_def)
  note sim = sq_simulates[OF inv]
  show "sq_inv cfg (fst (sq_exec cfg st c))" if "op_ok c" using inv that by (rule sq_inv_exec)
  show "abs_table (fst (sq_exec cfg st c)) rid = abs_table st rid" if "rid \<noteq> op_target c"
    using that by (simp add: sim im_frame)
  show "abs_table (fst (sq_exec cfg st c)) rid = abs_table st rid" if "consumed (abs_table st rid)"
    using that by (simp add: sim im_consumed_final)
  show "leased (abs_table (fst (sq_exec cfg st c)) rid) tok u"
    if "leased (abs_table st rid) tok u" "respects_lease rid tok u c" for tok u
    using im_lease_kept[OF w that(1), of "op_stored cfg c"] that(2) by (simp add: sim)
next
  fix st now did r tok d
  assume inv: "sq_inv cfg st" and out: "snd (sq_exec cfg st (Commit now did r tok)) = Decided d"
    and d: "dr_outcome d \<noteq> DENY"
  then have w: "wf_items (abs_table st)" by (simp add: sq_inv_def)
  show "\<exists>i u. abs_table st (ar_request_id r) = Some i \<and> sa_status i = DECIDED \<and>
     leased (Some i) tok u \<and> now < u \<and> sa_decision i = Some d \<and> bound_to d r \<and>
     consumed (abs_table (fst (sq_exec cfg st (Commit now did r tok))) (ar_request_id r))"
    using im_commit_grants[OF w, of now did r tok d] out d sq_simulates[OF inv, of "Commit now did r tok"]
    by simp
next
  fix st now did tok r lease rv
  assume inv: "sq_inv cfg st" and out: "snd (sq_exec cfg st (Reserve now did tok r lease)) = Reserved rv"
    and t: "rv_token rv \<noteq> None"
  then have w: "wf_items (abs_table st)" by (simp add: sq_inv_def)
  show "rv_token rv = Some tok \<and> bound_to (rv_decision rv) r \<and>
      (\<forall>k u. leased (abs_table st (ar_request_id r)) k u \<longrightarrow> u \<le> now) \<and>
      leased (abs_table (fst (sq_exec cfg st (Reserve now did tok r lease))) (ar_request_id r)) tok (now + lease)"
    using im_reserve_grants[OF w, of now did tok r lease rv] out t
      sq_simulates[OF inv, of "Reserve now did tok r lease"]
    by simp
qed

end
