(* ===== verification/Context.thy ===== *)
theory Context
  imports Decisions
begin

text \<open>
  The execution context (\<open>context.py\<close>): the immutable record every stage receives, the checks of its
  constructor, and the operations that derive a new context from an old one.  Keyword changes of
  \<open>evolve\<close> are a list of \<open>change\<close> values with distinct fields.
\<close>

section \<open>Data\<close>

datatype RiskTier = LOW | MEDIUM | HIGH | CRITICAL

primrec tier_value :: "RiskTier \<Rightarrow> int" where
  "tier_value LOW = 1"
| "tier_value MEDIUM = 2"
| "tier_value HIGH = 3"
| "tier_value CRITICAL = 4"

primrec tier_name :: "RiskTier \<Rightarrow> string" where
  "tier_name LOW = ''LOW''"
| "tier_name MEDIUM = ''MEDIUM''"
| "tier_name HIGH = ''HIGH''"
| "tier_name CRITICAL = ''CRITICAL''"

lemma tier_value_inj: "tier_value a = tier_value b \<longleftrightarrow> a = b"
  by (cases a; cases b) auto

instantiation RiskTier :: linorder
begin

definition less_eq_RiskTier :: "RiskTier \<Rightarrow> RiskTier \<Rightarrow> bool" where
  "less_eq_RiskTier a b = (tier_value a \<le> tier_value b)"

definition less_RiskTier :: "RiskTier \<Rightarrow> RiskTier \<Rightarrow> bool" where
  "less_RiskTier a b = (tier_value a < tier_value b)"

instance
  by intro_classes (auto simp: less_eq_RiskTier_def less_RiskTier_def tier_value_inj)

end

datatype ExecutionMode = READ_ONLY | IDEMPOTENT | MUTATING

datatype ExecutionStatus =
  STATUS_PENDING | STATUS_ALLOWED | STATUS_DENIED | STATUS_EXECUTING | STATUS_SUCCEEDED
  | STATUS_FAILED | STATUS_UNKNOWN

record HistoryEntry =
  he_middleware :: string
  he_outcome :: string
  he_reason :: string
  he_timestamp :: time
  he_data :: dict

record ToolCall =
  tc_name :: string
  tc_args :: "json list"
  tc_kwargs :: dict

text \<open>\<open>BoundAction\<close> of \<open>action_contracts.py\<close>; its contract is the contract's canonical payload.\<close>

record BoundAction =
  ba_contract :: json
  ba_parameters :: dict
  ba_principal_digest :: string
  ba_tenant_digest :: string
  ba_identity_digest_key_version :: string
  ba_policy_version :: "string option"
  ba_policy_digest :: "string option"
  ba_precondition_digest :: "string option"
  ba_contract_digest :: string
  ba_parameters_digest :: string
  ba_action_digest :: string

record ExecutionContext =
  cx_trace_id :: string
  cx_span_id :: string
  cx_request_id :: string
  cx_tool_call :: ToolCall
  cx_parent_span_id :: "string option"
  cx_task_id :: "string option"
  cx_conversation_id :: "string option"
  cx_user :: "string option"
  cx_tenant :: "string option"
  cx_permissions :: "string set"
  cx_input_text :: string
  cx_execution_mode :: ExecutionMode
  cx_idempotency_key :: "string option"
  cx_deadline :: "time option"
  cx_bound_action :: "BoundAction option"
  cx_risk_tier :: RiskTier
  cx_risk_score :: pyfloat
  cx_requires_approval :: bool
  cx_approval_granted :: bool
  cx_approval_request_id :: "string option"
  cx_approval_decision_id :: "string option"
  cx_status :: ExecutionStatus
  cx_decision :: "DecisionRecord option"
  cx_history :: "HistoryEntry list"
  cx_metadata :: dict
  cx_result :: json
  cx_error :: "string option"

section \<open>Construction\<close>

text \<open>\<open>ExecutionContext.__post_init__\<close>\<close>

definition ExecutionContext_post_init :: "ExecutionContext \<Rightarrow> ExecutionContext res" where
  "ExecutionContext_post_init c =
     seqR (seq_all
       [raise_if (\<not> (float_le (Finite 0) (cx_risk_score c) \<and> float_le (cx_risk_score c) (Finite 1)))
          (ValueError ''risk_score must be between 0.0 and 1.0''),
        raise_if (case cx_idempotency_key c of None \<Rightarrow> False | Some k \<Rightarrow> is_blank k)
          (ValueError ''idempotency_key cannot be empty''),
        raise_if (cx_approval_granted c \<and>
                  (\<not> truthy (cx_approval_request_id c) \<or> \<not> truthy (cx_approval_decision_id c)))
          (ValueError ''granted approval requires request and decision IDs''),
        raise_if (\<not> cx_approval_granted c \<and>
                  (cx_approval_request_id c \<noteq> None \<or> cx_approval_decision_id c \<noteq> None))
          (ValueError ''approval IDs require a granted approval''),
        raise_if (cx_approval_granted c \<and>
                  (case cx_decision c of None \<Rightarrow> True
                   | Some d \<Rightarrow> dr_outcome d \<noteq> ALLOW
                        \<or> cx_approval_request_id c \<noteq> Some (cx_request_id c)
                        \<or> cx_approval_decision_id c \<noteq> Some (dr_decision_id d)))
          (ValueError ''granted approval must match an allow decision'')])
     (Inr c)"

text \<open>\<open>ExecutionContext.create\<close>; the three fresh identifiers come first.\<close>

definition context_create ::
  "string \<Rightarrow> string \<Rightarrow> string \<Rightarrow> ToolCall \<Rightarrow> string option \<Rightarrow> string \<Rightarrow> string option \<Rightarrow> string option
   \<Rightarrow> string set \<Rightarrow> string option \<Rightarrow> string option \<Rightarrow> string option \<Rightarrow> ExecutionMode
   \<Rightarrow> string option \<Rightarrow> time option \<Rightarrow> RiskTier \<Rightarrow> bool \<Rightarrow> dict \<Rightarrow> ExecutionContext res" where
  "context_create trace span_hex fresh_request call request input user tenant perms task conv parent
       mode key deadline tier requires metadata =
     ExecutionContext_post_init
       \<lparr>cx_trace_id = trace, cx_span_id = take 16 span_hex,
        cx_request_id = (if truthy request then the request else fresh_request),
        cx_tool_call = call, cx_parent_span_id = parent, cx_task_id = task,
        cx_conversation_id = conv, cx_user = user, cx_tenant = tenant, cx_permissions = perms,
        cx_input_text = input, cx_execution_mode = mode, cx_idempotency_key = key,
        cx_deadline = deadline, cx_bound_action = None, cx_risk_tier = tier,
        cx_risk_score = Finite 0, cx_requires_approval = requires, cx_approval_granted = False,
        cx_approval_request_id = None, cx_approval_decision_id = None,
        cx_status = STATUS_PENDING, cx_decision = None, cx_history = [], cx_metadata = metadata,
        cx_result = JNull, cx_error = None\<rparr>"

section \<open>Operations\<close>

definition denied :: "ExecutionContext \<Rightarrow> bool" where
  "denied c = (cx_status c = STATUS_DENIED \<or>
     (case cx_decision c of None \<Rightarrow> False | Some d \<Rightarrow> dr_outcome d = DENY))"

text \<open>The keyword arguments of \<open>evolve\<close>; \<open>IdentityField\<close> names a field of \<open>_IDENTITY_FIELDS\<close>.\<close>

datatype change =
    IdentityField string
  | SetRiskTier RiskTier
  | SetRiskScore pyfloat
  | SetRequiresApproval bool
  | SetApprovalGranted bool
  | SetApprovalRequestId "string option"
  | SetApprovalDecisionId "string option"
  | SetStatus ExecutionStatus
  | SetDecision "DecisionRecord option"
  | SetMetadata dict
  | SetResult json
  | SetError "string option"

primrec apply_change :: "change \<Rightarrow> ExecutionContext \<Rightarrow> ExecutionContext" where
  "apply_change (IdentityField _) c = c"
| "apply_change (SetRiskTier t) c = c\<lparr>cx_risk_tier := t\<rparr>"
| "apply_change (SetRiskScore s) c = c\<lparr>cx_risk_score := s\<rparr>"
| "apply_change (SetRequiresApproval b) c = c\<lparr>cx_requires_approval := b\<rparr>"
| "apply_change (SetApprovalGranted b) c = c\<lparr>cx_approval_granted := b\<rparr>"
| "apply_change (SetApprovalRequestId i) c = c\<lparr>cx_approval_request_id := i\<rparr>"
| "apply_change (SetApprovalDecisionId i) c = c\<lparr>cx_approval_decision_id := i\<rparr>"
| "apply_change (SetStatus s) c = c\<lparr>cx_status := s\<rparr>"
| "apply_change (SetDecision d) c = c\<lparr>cx_decision := d\<rparr>"
| "apply_change (SetMetadata m) c = c\<lparr>cx_metadata := m\<rparr>"
| "apply_change (SetResult r) c = c\<lparr>cx_result := r\<rparr>"
| "apply_change (SetError e) c = c\<lparr>cx_error := e\<rparr>"

definition forbidden_fields :: "change list \<Rightarrow> string list" where
  "forbidden_fields cs = concat (map (\<lambda>ch. case ch of IdentityField n \<Rightarrow> [n] | _ \<Rightarrow> []) cs)"

definition evolve :: "ExecutionContext \<Rightarrow> change list \<Rightarrow> ExecutionContext res" where
  "evolve c cs =
     (let next = fold apply_change cs c in
      if forbidden_fields cs \<noteq> [] then
        Inl (ContextMutationError (''immutable context fields cannot change: '' @
               join '', '' (sort (forbidden_fields cs))))
      else if cx_requires_approval c \<and> SetRequiresApproval False \<in> set cs then
        Inl (ContextMutationError ''an approval requirement cannot be removed'')
      else if denied c \<and>
           (cx_status next \<noteq> STATUS_DENIED \<or>
            (case cx_decision next of None \<Rightarrow> False | Some d \<Rightarrow> dr_outcome d \<noteq> DENY)) then
        Inl (ContextMutationError ''a denied context cannot be allowed later'')
      else ExecutionContext_post_init next)"

definition append_history :: "ExecutionContext \<Rightarrow> HistoryEntry \<Rightarrow> ExecutionContext" where
  "append_history c e = c\<lparr>cx_history := cx_history c @ [e]\<rparr>"

text \<open>\<open>BoundAction.__eq__\<close>, field by field.\<close>

definition BoundAction_eq :: "(json \<Rightarrow> json \<Rightarrow> bool) \<Rightarrow> BoundAction \<Rightarrow> BoundAction \<Rightarrow> bool" where
  "BoundAction_eq ident a b =
     (same_value ident (ba_contract a) (ba_contract b) \<and>
      same_value ident (JObj (ba_parameters a)) (JObj (ba_parameters b)) \<and>
      ba_principal_digest a = ba_principal_digest b \<and>
      ba_tenant_digest a = ba_tenant_digest b \<and>
      ba_identity_digest_key_version a = ba_identity_digest_key_version b \<and>
      ba_policy_version a = ba_policy_version b \<and>
      ba_policy_digest a = ba_policy_digest b \<and>
      ba_precondition_digest a = ba_precondition_digest b \<and>
      ba_contract_digest a = ba_contract_digest b \<and>
      ba_parameters_digest a = ba_parameters_digest b \<and>
      ba_action_digest a = ba_action_digest b)"

definition bind_action ::
  "(json \<Rightarrow> json \<Rightarrow> bool) \<Rightarrow> ExecutionContext \<Rightarrow> BoundAction \<Rightarrow> ExecutionContext res" where
  "bind_action ident c a =
     (case cx_bound_action c of
        None \<Rightarrow> ExecutionContext_post_init (c\<lparr>cx_bound_action := Some a\<rparr>)
      | Some b \<Rightarrow> if BoundAction_eq ident b a then Inr c
                  else Inl (ContextMutationError ''bound action cannot be replaced''))"

definition with_decision :: "ExecutionContext \<Rightarrow> DecisionRecord \<Rightarrow> ExecutionContext res" where
  "with_decision c d =
     evolve c
       ([SetDecision (Some d), SetStatus (if dr_outcome d = DENY then STATUS_DENIED else cx_status c)] @
        (if dr_outcome d \<noteq> ALLOW
         then [SetApprovalGranted False, SetApprovalRequestId None, SetApprovalDecisionId None]
         else []))"

definition GOVERNANCE_METADATA_PREFIXES :: "string list" where
  "GOVERNANCE_METADATA_PREFIXES = [''approval_'', ''identity_'', ''policy_'']"

definition REPLAY_RUNTIME_METADATA_KEYS :: "string list" where
  "REPLAY_RUNTIME_METADATA_KEYS = [''duration_ms'', ''replay_mode'', ''replay_authoritative'']"

definition reset_for_replay ::
  "ExecutionContext \<Rightarrow> RiskTier option \<Rightarrow> bool option \<Rightarrow> ExecutionMode option \<Rightarrow> ExecutionContext res" where
  "reset_for_replay c tier requires mode =
     ExecutionContext_post_init
       \<lparr>cx_trace_id = cx_trace_id c, cx_span_id = cx_span_id c, cx_request_id = cx_request_id c,
        cx_tool_call = cx_tool_call c, cx_parent_span_id = cx_parent_span_id c,
        cx_task_id = cx_task_id c, cx_conversation_id = cx_conversation_id c,
        cx_user = cx_user c, cx_tenant = cx_tenant c, cx_permissions = cx_permissions c,
        cx_input_text = cx_input_text c,
        cx_execution_mode = (case mode of None \<Rightarrow> cx_execution_mode c | Some m \<Rightarrow> m),
        cx_idempotency_key = cx_idempotency_key c, cx_deadline = None, cx_bound_action = None,
        cx_risk_tier = (case tier of None \<Rightarrow> cx_risk_tier c | Some t \<Rightarrow> t),
        cx_risk_score = Finite 0,
        cx_requires_approval = (case requires of None \<Rightarrow> cx_requires_approval c | Some b \<Rightarrow> b),
        cx_approval_granted = False, cx_approval_request_id = None,
        cx_approval_decision_id = None, cx_status = STATUS_PENDING, cx_decision = None,
        cx_history = [],
        cx_metadata = filter (\<lambda>(k, v). lower k \<notin> set REPLAY_RUNTIME_METADATA_KEYS
                          \<and> \<not> startswith_any GOVERNANCE_METADATA_PREFIXES (lower k)) (cx_metadata c),
        cx_result = JNull, cx_error = None\<rparr>"

section \<open>Laws\<close>

definition ctx_ok :: "ExecutionContext \<Rightarrow> bool" where
  "ctx_ok c = (ExecutionContext_post_init c = Inr c)"

text \<open>The fields no middleware and no \<open>evolve\<close> may touch, as \<open>_IDENTITY_FIELDS\<close> without the history.\<close>

definition identity_fields where
  "identity_fields c =
     (cx_trace_id c, cx_span_id c, cx_parent_span_id c, cx_request_id c, cx_task_id c,
      cx_conversation_id c, cx_user c, cx_tenant c, cx_permissions c, cx_tool_call c,
      cx_input_text c, cx_execution_mode c, cx_idempotency_key c, cx_deadline c, cx_bound_action c)"

lemma post_init_ctx: "ExecutionContext_post_init c = Inr c' \<longleftrightarrow> c' = c \<and> ctx_ok c"
  by (auto simp: ctx_ok_def ExecutionContext_post_init_def bindR_eq_Inr)

lemma ctx_ok_iff:
  "ctx_ok c \<longleftrightarrow>
     float_le (Finite 0) (cx_risk_score c) \<and> float_le (cx_risk_score c) (Finite 1) \<and>
     (\<forall>k. cx_idempotency_key c = Some k \<longrightarrow> \<not> is_blank k) \<and>
     (if cx_approval_granted c
      then \<exists>d. cx_decision c = Some d \<and> dr_outcome d = ALLOW \<and> cx_request_id c \<noteq> [] \<and>
               dr_decision_id d \<noteq> [] \<and> cx_approval_request_id c = Some (cx_request_id c) \<and>
               cx_approval_decision_id c = Some (dr_decision_id d)
      else cx_approval_request_id c = None \<and> cx_approval_decision_id c = None)"
  unfolding ctx_ok_def ExecutionContext_post_init_def bindR_eq_Inr seq_all_Inr
  by (auto split: option.splits)

lemma ctx_ok_risk_score: "ctx_ok c \<Longrightarrow> cx_risk_score c \<noteq> NaN"
  by (auto simp: ctx_ok_iff)

lemma identity_apply_change [simp]: "identity_fields (apply_change ch c) = identity_fields c"
  by (cases ch) (simp_all add: identity_fields_def)

lemma history_apply_change [simp]: "cx_history (apply_change ch c) = cx_history c"
  by (cases ch) simp_all

lemma identity_fold [simp]: "identity_fields (fold apply_change cs c) = identity_fields c"
  by (induction cs arbitrary: c) simp_all

lemma history_fold [simp]: "cx_history (fold apply_change cs c) = cx_history c"
  by (induction cs arbitrary: c) simp_all

lemma requires_fold:
  "SetRequiresApproval False \<notin> set cs \<Longrightarrow> cx_requires_approval c \<Longrightarrow>
     cx_requires_approval (fold apply_change cs c)"
proof (induction cs arbitrary: c)
  case (Cons ch cs)
  have "cx_requires_approval (apply_change ch c)"
    using Cons.prems by (cases ch) auto
  then show ?case using Cons by simp
qed simp

lemma evolve_Inr:
  "evolve c cs = Inr c' \<Longrightarrow>
     c' = fold apply_change cs c \<and> ctx_ok c' \<and> identity_fields c' = identity_fields c \<and>
     cx_history c' = cx_history c"
  by (auto simp: evolve_def Let_def post_init_ctx split: if_splits)

lemma evolve_requires:
  "evolve c cs = Inr c' \<Longrightarrow> cx_requires_approval c \<Longrightarrow> cx_requires_approval c'"
  by (auto simp: evolve_def Let_def post_init_ctx requires_fold split: if_splits)

lemma evolve_denied:
  "evolve c cs = Inr c' \<Longrightarrow> denied c \<Longrightarrow> cx_status c' = STATUS_DENIED \<and> denied c'"
  by (auto simp: evolve_def Let_def post_init_ctx denied_def split: if_splits)

lemma with_decision_deny:
  assumes "ctx_ok c" "dr_outcome d = DENY"
  shows "with_decision c d = Inr (c\<lparr>cx_decision := Some d, cx_status := STATUS_DENIED,
           cx_approval_granted := False, cx_approval_request_id := None,
           cx_approval_decision_id := None\<rparr>)"
  using assms
  by (auto simp: with_decision_def evolve_def Let_def forbidden_fields_def post_init_ctx ctx_ok_iff)

lemma with_decision_Inr:
  assumes "with_decision c d = Inr c'"
  shows "cx_decision c' = Some d" "ctx_ok c'" "identity_fields c' = identity_fields c"
    "cx_history c' = cx_history c" "dr_outcome d = DENY \<Longrightarrow> denied c'"
    "denied c \<Longrightarrow> dr_outcome d = DENY"
    "cx_requires_approval c' = cx_requires_approval c" "cx_risk_tier c' = cx_risk_tier c"
    "cx_risk_score c' = cx_risk_score c" "cx_metadata c' = cx_metadata c"
    "cx_status c' = (if dr_outcome d = DENY then STATUS_DENIED else cx_status c)"
    "dr_outcome d \<noteq> ALLOW \<Longrightarrow> \<not> cx_approval_granted c'"
    "cx_result c' = cx_result c" "cx_error c' = cx_error c"
  using assms evolve_Inr[OF assms[unfolded with_decision_def]]
  by (auto simp: with_decision_def evolve_def Let_def denied_def post_init_ctx split: if_splits)

lemma append_history_simps [simp]:
  "identity_fields (append_history c e) = identity_fields c"
  "denied (append_history c e) = denied c"
  "cx_history (append_history c e) = cx_history c @ [e]"
  "cx_requires_approval (append_history c e) = cx_requires_approval c"
  "cx_risk_tier (append_history c e) = cx_risk_tier c"
  "cx_risk_score (append_history c e) = cx_risk_score c"
  "cx_status (append_history c e) = cx_status c"
  "cx_decision (append_history c e) = cx_decision c"
  "cx_metadata (append_history c e) = cx_metadata c"
  "cx_approval_granted (append_history c e) = cx_approval_granted c"
  "cx_approval_request_id (append_history c e) = cx_approval_request_id c"
  "cx_approval_decision_id (append_history c e) = cx_approval_decision_id c"
  "cx_result (append_history c e) = cx_result c"
  "cx_error (append_history c e) = cx_error c"
  "cx_permissions (append_history c e) = cx_permissions c"
  "cx_tool_call (append_history c e) = cx_tool_call c"
  "cx_trace_id (append_history c e) = cx_trace_id c"
  "cx_request_id (append_history c e) = cx_request_id c"
  by (simp_all add: append_history_def identity_fields_def denied_def)

lemma ctx_ok_append_history [simp]: "ctx_ok (append_history c e) = ctx_ok c"
  by (simp add: ctx_ok_iff append_history_def)

lemma reset_for_replay_total:
  "ctx_ok c \<Longrightarrow> \<exists>c'. reset_for_replay c t b m = Inr c'"
  by (simp add: reset_for_replay_def post_init_ctx ctx_ok_iff)

end
