(* ===== verification/Boundaries.thy ===== *)
theory Boundaries
  imports Context
begin

text \<open>
  The boundary the runtime puts around code it does not trust: the check of a middleware transition
  (\<open>_internal/runtime/context_boundaries.py\<close>), and the hook registry with its protected state
  (\<open>hooks.py\<close>).  \<open>ident\<close> is Python object identity.  The locale \<open>object_identity\<close> collects what an
  accepted step may do to a context, and its lemmas lift that to sequences of steps.
\<close>

datatype MiddlewareKind = GATING | OBSERVING | EXECUTION

primrec kind_value :: "MiddlewareKind \<Rightarrow> string" where
  "kind_value GATING = ''gating''"
| "kind_value OBSERVING = ''observing''"
| "kind_value EXECUTION = ''execution''"

section \<open>Middleware transitions\<close>

definition ToolCall_eq :: "(json \<Rightarrow> json \<Rightarrow> bool) \<Rightarrow> ToolCall \<Rightarrow> ToolCall \<Rightarrow> bool" where
  "ToolCall_eq ident a b =
     (tc_name a = tc_name b \<and>
      same_value ident (JTuple (tc_args a)) (JTuple (tc_args b)) \<and>
      same_value ident (JObj (tc_kwargs a)) (JObj (tc_kwargs b)))"

definition HistoryEntry_eq :: "(json \<Rightarrow> json \<Rightarrow> bool) \<Rightarrow> HistoryEntry \<Rightarrow> HistoryEntry \<Rightarrow> bool" where
  "HistoryEntry_eq ident a b =
     (he_middleware a = he_middleware b \<and> he_outcome a = he_outcome b \<and>
      he_reason a = he_reason b \<and> he_timestamp a = he_timestamp b \<and>
      same_value ident (JObj (he_data a)) (JObj (he_data b)))"

text \<open>\<open>_request_state(a) == _request_state(b)\<close>\<close>

definition request_state_eq :: "(json \<Rightarrow> json \<Rightarrow> bool) \<Rightarrow> ExecutionContext \<Rightarrow> ExecutionContext \<Rightarrow> bool" where
  "request_state_eq ident a b =
     (cx_trace_id a = cx_trace_id b \<and> cx_span_id a = cx_span_id b \<and>
      cx_parent_span_id a = cx_parent_span_id b \<and> cx_request_id a = cx_request_id b \<and>
      cx_task_id a = cx_task_id b \<and> cx_conversation_id a = cx_conversation_id b \<and>
      cx_user a = cx_user b \<and> cx_tenant a = cx_tenant b \<and>
      cx_permissions a = cx_permissions b \<and>
      ToolCall_eq ident (cx_tool_call a) (cx_tool_call b) \<and>
      cx_input_text a = cx_input_text b \<and> cx_execution_mode a = cx_execution_mode b \<and>
      cx_idempotency_key a = cx_idempotency_key b \<and> cx_deadline a = cx_deadline b \<and>
      rel_option (BoundAction_eq ident) (cx_bound_action a) (cx_bound_action b))"

text \<open>\<open>_governance_state(a) == _governance_state(b)\<close>\<close>

definition governance_state_eq :: "ExecutionContext \<Rightarrow> ExecutionContext \<Rightarrow> bool" where
  "governance_state_eq a b =
     (cx_risk_tier a = cx_risk_tier b \<and> float_eq (cx_risk_score a) (cx_risk_score b) \<and>
      cx_requires_approval a = cx_requires_approval b \<and>
      cx_approval_granted a = cx_approval_granted b \<and>
      cx_approval_request_id a = cx_approval_request_id b \<and>
      cx_approval_decision_id a = cx_approval_decision_id b \<and>
      cx_status a = cx_status b \<and> cx_decision a = cx_decision b \<and> cx_error a = cx_error b)"

definition history_is_append_only ::
  "(json \<Rightarrow> json \<Rightarrow> bool) \<Rightarrow> ExecutionContext \<Rightarrow> ExecutionContext \<Rightarrow> bool" where
  "history_is_append_only ident previous candidate =
     (let n = length (cx_history previous) in
      n \<le> length (cx_history candidate) \<and>
      list_all2 (HistoryEntry_eq ident) (take n (cx_history candidate)) (cx_history previous))"

definition is_governance_metadata :: "string \<Rightarrow> bool" where
  "is_governance_metadata key =
     (lower key = ''duration_ms'' \<or> startswith_any GOVERNANCE_METADATA_PREFIXES (lower key))"

definition same_metadata_value :: "(json \<Rightarrow> json \<Rightarrow> bool) \<Rightarrow> json \<Rightarrow> json \<Rightarrow> bool" where
  "same_metadata_value ident l r =
     (ident l r \<or> (l = JFloat NaN \<and> r = JFloat NaN) \<or> same_value ident l r)"

text \<open>\<open>_validate_metadata\<close>; the first offending key is reported.\<close>

definition validate_metadata ::
  "(json \<Rightarrow> json \<Rightarrow> bool) \<Rightarrow> dict \<Rightarrow> dict \<Rightarrow> MiddlewareKind \<Rightarrow> unit res" where
  "validate_metadata ident previous candidate kind =
     seq_all
       (map (\<lambda>(key, v).
          raise_if (case map_of candidate key of None \<Rightarrow> True
                    | Some w \<Rightarrow> \<not> same_metadata_value ident w v)
            (ContextMutationError (''middleware cannot remove or replace metadata key '' @ py_repr key)))
          previous @
        map (\<lambda>key.
          raise_if (key \<notin> set (map fst previous) \<and> is_governance_metadata key \<and>
                    \<not> (kind = GATING \<and> startswith_any [''policy_''] (lower key)))
            (ContextMutationError (kind_value kind @
               '' middleware cannot add governance metadata key '' @ py_repr key)))
          (map fst candidate))"

definition validate_middleware_transition ::
  "(json \<Rightarrow> json \<Rightarrow> bool) \<Rightarrow> ExecutionContext \<Rightarrow> ExecutionContext \<Rightarrow> MiddlewareKind
     \<Rightarrow> ExecutionContext res" where
  "validate_middleware_transition ident previous candidate kind =
     (if \<not> request_state_eq ident candidate previous then
        Inl (ContextMutationError ''middleware cannot change request identity or tool execution fields'')
      else if \<not> history_is_append_only ident previous candidate then
        Inl (ContextMutationError ''middleware history updates must be append-only'')
      else case validate_metadata ident (cx_metadata previous) (cx_metadata candidate) kind of
        Inl e \<Rightarrow> Inl e
      | Inr _ \<Rightarrow>
        if denied previous \<and> \<not> denied candidate then
          Inl (ContextMutationError ''a denied context cannot be allowed later'')
        else if cx_requires_approval previous \<and> \<not> cx_requires_approval candidate then
          Inl (ContextMutationError ''an approval requirement cannot be removed'')
        else if cx_risk_tier candidate < cx_risk_tier previous then
          Inl (ContextMutationError ''middleware cannot lower the risk tier'')
        else if float_lt (cx_risk_score candidate) (cx_risk_score previous) then
          Inl (ContextMutationError ''middleware cannot lower the risk score'')
        else if kind = OBSERVING \<or> kind = EXECUTION then
          (if \<not> governance_state_eq candidate previous
              \<or> \<not> same_value ident (cx_result candidate) (cx_result previous)
           then Inl (ContextMutationError ((if kind = OBSERVING then ''observer'' else ''execution middleware'')
                       @ '' cannot change governance state''))
           else Inr candidate)
        else if \<not> same_value ident (cx_result candidate) (cx_result previous)
                \<or> cx_error candidate \<noteq> cx_error previous then
          Inl (ContextMutationError ''gating middleware cannot change execution results'')
        else if cx_status candidate \<notin> {cx_status previous, STATUS_DENIED} then
          Inl (ContextMutationError ''gating middleware may only preserve status or deny execution'')
        else if cx_decision previous \<noteq> None \<and> cx_decision candidate = None then
          Inl (ContextMutationError ''middleware cannot remove an existing decision'')
        else Inr candidate)"

section \<open>Hooks\<close>

datatype HookPoint =
    BEFORE_PIPELINE | AFTER_PIPELINE | BEFORE_LLM | AFTER_LLM | BEFORE_DECISION | AFTER_DECISION
  | BEFORE_EXECUTE | AFTER_EXECUTE | BEFORE_AUDIT | AFTER_AUDIT | ON_ERROR

primrec point_value :: "HookPoint \<Rightarrow> string" where
  "point_value BEFORE_PIPELINE = ''before_pipeline''"
| "point_value AFTER_PIPELINE = ''after_pipeline''"
| "point_value BEFORE_LLM = ''before_llm''"
| "point_value AFTER_LLM = ''after_llm''"
| "point_value BEFORE_DECISION = ''before_decision''"
| "point_value AFTER_DECISION = ''after_decision''"
| "point_value BEFORE_EXECUTE = ''before_execute''"
| "point_value AFTER_EXECUTE = ''after_execute''"
| "point_value BEFORE_AUDIT = ''before_audit''"
| "point_value AFTER_AUDIT = ''after_audit''"
| "point_value ON_ERROR = ''on_error''"

text \<open>What a hook callback returns: nothing, a context, or a value of another type.\<close>

datatype hook_value = HookNone | HookContext ExecutionContext | HookOther

record HookRegistration =
  hr_callback :: "ExecutionContext \<Rightarrow> hook_value res"
  hr_critical :: bool

type_synonym hooks = "HookPoint \<Rightarrow> HookRegistration list"

definition hook_register :: "hooks \<Rightarrow> HookPoint \<Rightarrow> HookRegistration \<Rightarrow> hooks" where
  "hook_register h p r = h(p := h p @ [r])"

text \<open>\<open>_protected_state(a) == _protected_state(b)\<close>\<close>

definition protected_state_eq ::
  "(json \<Rightarrow> json \<Rightarrow> bool) \<Rightarrow> ExecutionContext \<Rightarrow> ExecutionContext \<Rightarrow> bool" where
  "protected_state_eq ident a b =
     (request_state_eq ident a b \<and> governance_state_eq a b \<and>
      list_all2 (HistoryEntry_eq ident) (cx_history a) (cx_history b) \<and>
      same_value ident (cx_result a) (cx_result b))"

definition governance_metadata :: "ExecutionContext \<Rightarrow> dict" where
  "governance_metadata c = filter (\<lambda>(k, v). is_governance_metadata k) (cx_metadata c)"

definition history_entry :: "time \<Rightarrow> string \<Rightarrow> string \<Rightarrow> string \<Rightarrow> dict \<Rightarrow> HistoryEntry" where
  "history_entry now mw oc reason data =
     \<lparr>he_middleware = mw, he_outcome = oc, he_reason = reason, he_timestamp = now, he_data = data\<rparr>"

text \<open>The checks \<open>emit\<close> makes on what one hook returned.\<close>

definition hook_result ::
  "(json \<Rightarrow> json \<Rightarrow> bool) \<Rightarrow> HookRegistration \<Rightarrow> ExecutionContext \<Rightarrow> ExecutionContext res" where
  "hook_result ident r current =
     bindR (hr_callback r current) (\<lambda>v. case v of
        HookNone \<Rightarrow> Inr current
      | HookOther \<Rightarrow> Inl (TypeError ''hook must return ExecutionContext or None'')
      | HookContext c \<Rightarrow>
          if \<not> protected_state_eq ident c current then
            Inl (TypeError ''hooks cannot change protected execution state'')
          else if \<not> dict_eq ident (governance_metadata c) (governance_metadata current) then
            Inl (TypeError ''hooks cannot change governance metadata'')
          else Inr c)"

text \<open>One iteration of \<open>emit\<close>: a critical failure is raised, any other is recorded.\<close>

definition hook_step ::
  "(json \<Rightarrow> json \<Rightarrow> bool) \<Rightarrow> time \<Rightarrow> HookPoint \<Rightarrow> bool \<Rightarrow> HookRegistration \<Rightarrow> ExecutionContext
     \<Rightarrow> ExecutionContext res" where
  "hook_step ident now p allow_critical r current =
     (case hook_result ident r current of
        Inr c \<Rightarrow> Inr c
      | Inl e \<Rightarrow>
          if e = CancelledError then Inl e
          else if hr_critical r \<and> allow_critical then
            Inl (CriticalHookError (''critical '' @ point_value p @ '' hook failed: '' @ exn_msg e))
          else Inr (append_history current
                 (history_entry now (''hook:'' @ point_value p) ''error'' (exn_msg e) [])))"

fun hook_emit_list ::
  "(json \<Rightarrow> json \<Rightarrow> bool) \<Rightarrow> time \<Rightarrow> HookPoint \<Rightarrow> bool \<Rightarrow> HookRegistration list \<Rightarrow> ExecutionContext
     \<Rightarrow> ExecutionContext res" where
  "hook_emit_list ident now p allow_critical [] current = Inr current"
| "hook_emit_list ident now p allow_critical (r # rs) current =
     bindR (hook_step ident now p allow_critical r current)
           (hook_emit_list ident now p allow_critical rs)"

text \<open>\<open>HookRegistry.emit\<close>\<close>

definition hook_emit ::
  "(json \<Rightarrow> json \<Rightarrow> bool) \<Rightarrow> time \<Rightarrow> hooks \<Rightarrow> HookPoint \<Rightarrow> ExecutionContext \<Rightarrow> bool
     \<Rightarrow> ExecutionContext res" where
  "hook_emit ident now h p c allow_critical = hook_emit_list ident now p allow_critical (h p) c"

section \<open>What a checked step may change\<close>

text \<open>
  Values that are equal, or equal to Python.  Steps the runtime checks compare with \<open>==\<close>; steps that
  copy a context keep its very values.
\<close>

definition json_rel :: "(json \<Rightarrow> json \<Rightarrow> bool) \<Rightarrow> json \<Rightarrow> json \<Rightarrow> bool" where
  "json_rel ident a b = (a = b \<or> py_eq ident a b)"

definition call_rel :: "(json \<Rightarrow> json \<Rightarrow> bool) \<Rightarrow> ToolCall \<Rightarrow> ToolCall \<Rightarrow> bool" where
  "call_rel ident a b =
     (tc_name a = tc_name b \<and> json_rel ident (JTuple (tc_args a)) (JTuple (tc_args b)) \<and>
      json_rel ident (JObj (tc_kwargs a)) (JObj (tc_kwargs b)))"

definition action_rel :: "(json \<Rightarrow> json \<Rightarrow> bool) \<Rightarrow> BoundAction \<Rightarrow> BoundAction \<Rightarrow> bool" where
  "action_rel ident a b =
     (json_rel ident (ba_contract a) (ba_contract b) \<and>
      json_rel ident (JObj (ba_parameters a)) (JObj (ba_parameters b)) \<and>
      ba_principal_digest a = ba_principal_digest b \<and> ba_tenant_digest a = ba_tenant_digest b \<and>
      ba_contract_digest a = ba_contract_digest b \<and>
      ba_parameters_digest a = ba_parameters_digest b \<and> ba_action_digest a = ba_action_digest b)"

definition entry_rel :: "(json \<Rightarrow> json \<Rightarrow> bool) \<Rightarrow> HistoryEntry \<Rightarrow> HistoryEntry \<Rightarrow> bool" where
  "entry_rel ident a b =
     (he_middleware a = he_middleware b \<and> he_outcome a = he_outcome b \<and>
      he_reason a = he_reason b \<and> he_timestamp a = he_timestamp b \<and>
      json_rel ident (JObj (he_data a)) (JObj (he_data b)))"

text \<open>\<open>c'\<close> answers the same request as \<open>c\<close>.\<close>

definition same_request :: "(json \<Rightarrow> json \<Rightarrow> bool) \<Rightarrow> ExecutionContext \<Rightarrow> ExecutionContext \<Rightarrow> bool" where
  "same_request ident c c' =
     (cx_trace_id c' = cx_trace_id c \<and> cx_span_id c' = cx_span_id c \<and>
      cx_parent_span_id c' = cx_parent_span_id c \<and> cx_request_id c' = cx_request_id c \<and>
      cx_task_id c' = cx_task_id c \<and> cx_conversation_id c' = cx_conversation_id c \<and>
      cx_user c' = cx_user c \<and> cx_tenant c' = cx_tenant c \<and> cx_permissions c' = cx_permissions c \<and>
      call_rel ident (cx_tool_call c') (cx_tool_call c) \<and>
      cx_input_text c' = cx_input_text c \<and> cx_execution_mode c' = cx_execution_mode c \<and>
      cx_idempotency_key c' = cx_idempotency_key c \<and> cx_deadline c' = cx_deadline c \<and>
      rel_option (action_rel ident) (cx_bound_action c') (cx_bound_action c))"

text \<open>The recorded history of \<open>c\<close> is a prefix of that of \<open>c'\<close>.\<close>

definition history_extends :: "(json \<Rightarrow> json \<Rightarrow> bool) \<Rightarrow> ExecutionContext \<Rightarrow> ExecutionContext \<Rightarrow> bool" where
  "history_extends ident c c' =
     (\<exists>h t. cx_history c' = h @ t \<and> list_all2 (entry_rel ident) h (cx_history c))"

text \<open>Governance only tightens.\<close>

definition tightens :: "ExecutionContext \<Rightarrow> ExecutionContext \<Rightarrow> bool" where
  "tightens c c' =
     ((denied c \<longrightarrow> denied c') \<and> (cx_requires_approval c \<longrightarrow> cx_requires_approval c') \<and>
      cx_risk_tier c \<le> cx_risk_tier c' \<and> float_le (cx_risk_score c) (cx_risk_score c'))"

definition evolves :: "(json \<Rightarrow> json \<Rightarrow> bool) \<Rightarrow> ExecutionContext \<Rightarrow> ExecutionContext \<Rightarrow> bool" where
  "evolves ident c c' = (same_request ident c c' \<and> history_extends ident c c' \<and> tightens c c')"

lemma json_rel_refl [simp]: "json_rel ident a a"
  by (simp add: json_rel_def)

lemma call_rel_refl [simp]: "call_rel ident a a"
  by (simp add: call_rel_def)

lemma action_rel_refl [simp]: "action_rel ident a a"
  by (simp add: action_rel_def)

lemma entry_rel_refl [simp]: "entry_rel ident a a"
  by (simp add: entry_rel_def)

lemma rel_option_action_refl [simp]: "rel_option (action_rel ident) a a"
  by (cases a) auto

lemma list_all2_entry_refl [simp]: "list_all2 (entry_rel ident) h h"
  by (simp add: list.rel_refl)

lemma same_request_identity:
  "identity_fields c' = identity_fields c \<Longrightarrow> same_request ident c c'"
  by (simp add: same_request_def identity_fields_def)

lemma history_extends_append: "cx_history c' = cx_history c @ t \<Longrightarrow> history_extends ident c c'"
  unfolding history_extends_def by (intro exI[of _ "cx_history c"] exI[of _ t]) simp

lemma history_extends_same: "cx_history c' = cx_history c \<Longrightarrow> history_extends ident c c'"
  using history_extends_append[of c' c "[]"] by simp

lemma risk_score_refl: "ctx_ok c \<Longrightarrow> float_le (cx_risk_score c) (cx_risk_score c)"
  by (rule float_le_refl) (rule ctx_ok_risk_score)

lemma evolves_refl: "ctx_ok c \<Longrightarrow> evolves ident c c"
  by (simp add: evolves_def same_request_identity history_extends_same tightens_def risk_score_refl)

lemma evolves_append_history: "ctx_ok c \<Longrightarrow> evolves ident c (append_history c e)"
  by (simp add: evolves_def same_request_identity history_extends_append tightens_def risk_score_refl)

lemma evolves_with_decision:
  assumes "ctx_ok c" "with_decision c d = Inr c'"
  shows "evolves ident c c'"
  using with_decision_Inr[OF assms(2)] assms(1)
  by (auto simp: evolves_def same_request_identity history_extends_same tightens_def risk_score_refl)

lemma hook_result_cases:
  assumes "hook_result ident r c = Inr c'"
  shows "c' = c \<or> (hr_callback r c = Inr (HookContext c') \<and> protected_state_eq ident c' c \<and>
           dict_eq ident (governance_metadata c') (governance_metadata c))"
proof -
  obtain v where "hr_callback r c = Inr v"
    using assms by (auto simp: hook_result_def bindR_eq_Inr)
  then show ?thesis
    using assms by (cases v) (auto simp: hook_result_def split: if_splits)
qed

section \<open>Accepted steps\<close>

text \<open>Python's \<open>is\<close>: identical objects have the same value.\<close>

locale object_identity =
  fixes ident :: "json \<Rightarrow> json \<Rightarrow> bool"
  assumes ident_eq: "ident x y \<Longrightarrow> x = y"
begin

lemma same_value_rel: "same_value ident a b \<Longrightarrow> json_rel ident a b"
  using ident_eq by (auto simp: same_value_def json_rel_def)

lemma json_rel_trans: "json_rel ident a b \<Longrightarrow> json_rel ident b c \<Longrightarrow> json_rel ident a c"
  using py_eq_trans[of ident a b c] ident_eq by (auto simp: json_rel_def)

lemma call_rel_trans: "call_rel ident a b \<Longrightarrow> call_rel ident b c \<Longrightarrow> call_rel ident a c"
  unfolding call_rel_def using json_rel_trans by metis

lemma action_rel_trans: "action_rel ident a b \<Longrightarrow> action_rel ident b c \<Longrightarrow> action_rel ident a c"
  unfolding action_rel_def using json_rel_trans by metis

lemma entry_rel_trans: "entry_rel ident a b \<Longrightarrow> entry_rel ident b c \<Longrightarrow> entry_rel ident a c"
  unfolding entry_rel_def using json_rel_trans by metis

lemma entry_eq_rel: "HistoryEntry_eq ident a b \<Longrightarrow> entry_rel ident a b"
  by (auto simp: HistoryEntry_eq_def entry_rel_def intro: same_value_rel)

lemma request_state_same: "request_state_eq ident c' c \<Longrightarrow> same_request ident c c'"
  unfolding request_state_eq_def same_request_def ToolCall_eq_def call_rel_def
  by (auto intro: same_value_rel elim!: option.rel_mono_strong simp: BoundAction_eq_def action_rel_def)

lemma same_request_trans:
  assumes "same_request ident a b" "same_request ident b c"
  shows "same_request ident a c"
proof -
  have "rel_option (action_rel ident) (cx_bound_action c) (cx_bound_action a)"
    using assms unfolding same_request_def
    by (cases "cx_bound_action a"; cases "cx_bound_action b"; cases "cx_bound_action c")
      (auto intro: action_rel_trans)
  moreover have "call_rel ident (cx_tool_call c) (cx_tool_call a)"
    using assms unfolding same_request_def by (blast intro: call_rel_trans)
  ultimately show ?thesis
    using assms unfolding same_request_def by simp
qed

lemma append_only_extends:
  "history_is_append_only ident c c' \<Longrightarrow> history_extends ident c c'"
  unfolding history_is_append_only_def history_extends_def Let_def
  by (metis append_take_drop_id entry_eq_rel list_all2_mono)

lemma history_extends_trans:
  assumes "history_extends ident a b" "history_extends ident b c"
  shows "history_extends ident a c"
proof -
  obtain h t where b: "cx_history b = h @ t" "list_all2 (entry_rel ident) h (cx_history a)"
    using assms(1) by (auto simp: history_extends_def)
  obtain h' t' where c: "cx_history c = h' @ t'" "list_all2 (entry_rel ident) h' (h @ t)"
    using assms(2) b(1) by (auto simp: history_extends_def)
  obtain u v where uv: "h' = u @ v" "list_all2 (entry_rel ident) u h"
    using c(2) by (auto simp: list_all2_append2)
  have "list_all2 (entry_rel ident) u (cx_history a)"
    using list_all2_trans[OF _ uv(2) b(2), of "entry_rel ident"] entry_rel_trans by blast
  then show ?thesis
    using c(1) uv(1) by (auto simp: history_extends_def)
qed

lemma evolves_trans: "evolves ident a b \<Longrightarrow> evolves ident b c \<Longrightarrow> evolves ident a c"
  unfolding evolves_def tightens_def
  using same_request_trans history_extends_trans float_le_trans by (meson order.trans)

lemma transition_evolves:
  assumes "validate_middleware_transition ident c c' kind = Inr c''" "ctx_ok c" "ctx_ok c'"
  shows "c'' = c' \<and> evolves ident c c'"
proof -
  have acc: "c'' = c'" "request_state_eq ident c' c" "history_is_append_only ident c c'"
      "denied c \<longrightarrow> denied c'" "cx_requires_approval c \<longrightarrow> cx_requires_approval c'"
      "\<not> cx_risk_tier c' < cx_risk_tier c" "\<not> float_lt (cx_risk_score c') (cx_risk_score c)"
    using assms(1) unfolding validate_middleware_transition_def
    by (auto split: if_splits sum.splits)
  have "float_le (cx_risk_score c) (cx_risk_score c')"
    using acc(7) assms(2,3) not_float_lt ctx_ok_risk_score by blast
  then show ?thesis
    using acc request_state_same append_only_extends by (auto simp: evolves_def tightens_def)
qed

lemma observer_keeps_governance:
  assumes "validate_middleware_transition ident c c' kind = Inr c''" "kind \<noteq> GATING"
  shows "governance_state_eq c' c"
  using assms unfolding validate_middleware_transition_def
  by (cases kind) (auto split: if_splits sum.splits)

lemma hook_result_evolves:
  assumes "hook_result ident r c = Inr c'" "ctx_ok c" "ctx_ok c'"
  shows "evolves ident c c' \<and> governance_state_eq c' c"
proof -
  consider "c' = c" | "protected_state_eq ident c' c"
    using hook_result_cases[OF assms(1)] by blast
  then show ?thesis
  proof cases
    case 1
    then show ?thesis
      using assms(2) by (simp add: evolves_refl governance_state_eq_def float_eq_def risk_score_refl)
  next
    case 2
    have "list_all2 (entry_rel ident) (cx_history c') (cx_history c)"
      using 2 by (auto simp: protected_state_eq_def intro: list_all2_mono entry_eq_rel)
    then have "history_extends ident c c'"
      unfolding history_extends_def by (intro exI[of _ "cx_history c'"] exI[of _ "[]"]) simp
    then show ?thesis
      using 2 request_state_same
      by (auto simp: protected_state_eq_def evolves_def governance_state_eq_def tightens_def denied_def
                     float_eq_def)
  qed
qed

end

interpretation value_identity: object_identity "(=)"
  by unfold_locales

text \<open>Extensions return contexts, and a context that exists has passed its constructor.\<close>

definition hook_wf :: "HookRegistration \<Rightarrow> bool" where
  "hook_wf r = (\<forall>c c'. hr_callback r c = Inr (HookContext c') \<longrightarrow> ctx_ok c')"

lemma hook_result_ok:
  "hook_wf r \<Longrightarrow> ctx_ok c \<Longrightarrow> hook_result ident r c = Inr c' \<Longrightarrow> ctx_ok c'"
  using hook_result_cases[of ident r c c'] by (auto simp: hook_wf_def)

end
