(* ===== verification/Pipelines.thy ===== *)
theory Pipelines
  imports Boundaries "HOL-Library.Product_Lexorder" "HOL-Library.Multiset"
begin

text \<open>
  Middleware values (\<open>middleware/base.py\<close>), their registration
  (\<open>_internal/runtime/pipeline_runner.py\<close>), the immutable pipeline (\<open>pipeline.py\<close>) and the sequential
  runner.  What a middleware computes is the field \<open>mw_process\<close>: the value or the exception that
  awaiting \<open>process\<close> under its stage timeout gives.
\<close>

section \<open>Middleware\<close>

record MiddlewareMetadata =
  mm_name :: string
  mm_kind :: MiddlewareKind
  mm_priority :: int
  mm_replayable :: bool
  mm_version :: string

record Middleware =
  mw_name :: string
  mw_kind :: MiddlewareKind
  mw_priority :: int
  mw_replayable :: bool
  mw_metadata :: MiddlewareMetadata
  mw_process :: "ExecutionContext \<Rightarrow> ExecutionContext res"
  mw_is_critical :: "ExecutionContext \<Rightarrow> bool"

text \<open>The \<open>metadata\<close> property of the base class.\<close>

definition default_metadata :: "string \<Rightarrow> MiddlewareKind \<Rightarrow> int \<Rightarrow> bool \<Rightarrow> MiddlewareMetadata" where
  "default_metadata name kind priority replayable =
     \<lparr>mm_name = name, mm_kind = kind, mm_priority = priority, mm_replayable = replayable,
      mm_version = ''1''\<rparr>"

section \<open>Registration\<close>

definition validate_middleware_name :: "string \<Rightarrow> string \<Rightarrow> unit res" where
  "validate_middleware_name label name =
     raise_if (is_blank name) (ValueError (label @ '' name must be a non-empty string''))"

text \<open>\<open>_validate_metadata\<close> and \<open>_validate_fields\<close>.\<close>

definition validate_middleware :: "Middleware \<Rightarrow> unit res" where
  "validate_middleware m = seq_all
     [validate_middleware_name ''middleware'' (mw_name m),
      validate_middleware_name ''middleware metadata'' (mm_name (mw_metadata m)),
      raise_if (is_blank (mm_version (mw_metadata m)))
        (ValueError ''middleware metadata version must be a non-empty string''),
      raise_if (mm_name (mw_metadata m) \<noteq> mw_name m)
        (ValueError ''middleware metadata name must match middleware name''),
      raise_if (mm_kind (mw_metadata m) \<noteq> mw_kind m)
        (ValueError ''middleware metadata kind must match middleware kind''),
      raise_if (mm_priority (mw_metadata m) \<noteq> mw_priority m)
        (ValueError ''middleware metadata priority must match middleware priority''),
      raise_if (mm_replayable (mw_metadata m) \<noteq> mw_replayable m)
        (ValueError ''middleware metadata replayable must match middleware replayable'')]"

text \<open>The names seen more than once, collected as the loop of \<open>MiddlewareRegistry.__init__\<close> does.\<close>

fun duplicate_names :: "string list \<Rightarrow> string list \<Rightarrow> string list \<Rightarrow> string list" where
  "duplicate_names seen dups [] = dups"
| "duplicate_names seen dups (n # ns) =
     duplicate_names (n # seen) (if n \<in> set seen then List.insert n dups else dups) ns"

definition registry_init :: "Middleware list \<Rightarrow> Middleware list res" where
  "registry_init ms =
     seqR (seq_all (map validate_middleware ms))
       (let dups = duplicate_names [] [] (map (\<lambda>m. mm_name (mw_metadata m)) ms) in
        if dups \<noteq> [] then Inl (ValueError (''duplicate middleware names: '' @ join '', '' (sort dups)))
        else Inr ms)"

definition registry_names :: "Middleware list \<Rightarrow> string list" where
  "registry_names ms = map (\<lambda>m. mm_name (mw_metadata m)) ms"

definition priority_ordered :: "Middleware list \<Rightarrow> Middleware list" where
  "priority_ordered ms =
     map snd (sort_key (\<lambda>(i, m). (mm_priority (mw_metadata m), i)) (enumerate 0 ms))"

definition of_kind :: "Middleware list \<Rightarrow> MiddlewareKind \<Rightarrow> Middleware list" where
  "of_kind ms k = filter (\<lambda>m. mm_kind (mw_metadata m) = k) ms"

section \<open>The pipeline\<close>

definition names :: "Middleware list \<Rightarrow> string list" where
  "names ms = map mw_name ms"

definition pipeline_append :: "Middleware list \<Rightarrow> Middleware \<Rightarrow> Middleware list res" where
  "pipeline_append ms m = registry_init (ms @ [m])"

definition pipeline_remove :: "Middleware list \<Rightarrow> string \<Rightarrow> Middleware list res" where
  "pipeline_remove ms n =
     (if n \<notin> set (names ms) then Inl (KeyError n)
      else registry_init (filter (\<lambda>m. mw_name m \<noteq> n) ms))"

text \<open>\<open>list.index\<close> on a list that contains the name.\<close>

fun index_of :: "string list \<Rightarrow> string \<Rightarrow> nat" where
  "index_of [] n = 0"
| "index_of (x # xs) n = (if x = n then 0 else Suc (index_of xs n))"

definition pipeline_insert :: "Middleware list \<Rightarrow> string \<Rightarrow> Middleware \<Rightarrow> bool \<Rightarrow> Middleware list res" where
  "pipeline_insert ms target m after =
     (if target \<notin> set (names ms) then Inl (KeyError target)
      else let i = index_of (names ms) target + (if after then 1 else 0)
           in registry_init (take i ms @ m # drop i ms))"

definition insert_before :: "Middleware list \<Rightarrow> string \<Rightarrow> Middleware \<Rightarrow> Middleware list res" where
  "insert_before ms target m = pipeline_insert ms target m False"

definition insert_after :: "Middleware list \<Rightarrow> string \<Rightarrow> Middleware \<Rightarrow> Middleware list res" where
  "insert_after ms target m = pipeline_insert ms target m True"

definition pipeline_replace :: "Middleware list \<Rightarrow> string \<Rightarrow> Middleware \<Rightarrow> Middleware list res" where
  "pipeline_replace ms target m =
     (if target \<notin> set (names ms) then Inl (KeyError target)
      else registry_init (map (\<lambda>x. if mw_name x = target then m else x) ms))"

text \<open>\<open>PipelineRunner.run\<close>\<close>

fun pipeline_run ::
  "('m \<Rightarrow> 'c \<Rightarrow> bool) \<Rightarrow> ('m \<Rightarrow> 'c \<Rightarrow> 'c res) \<Rightarrow> 'm list \<Rightarrow> 'c \<Rightarrow> 'c res" where
  "pipeline_run incl invoke [] c = Inr c"
| "pipeline_run incl invoke (m # ms) c =
     (if \<not> incl m c then pipeline_run incl invoke ms c
      else bindR (invoke m c) (pipeline_run incl invoke ms))"

section \<open>Laws\<close>

definition pipeline_ok :: "Middleware list \<Rightarrow> bool" where
  "pipeline_ok ms = (registry_init ms = Inr ms)"

lemma duplicate_names_Nil:
  "duplicate_names seen dups ns = [] \<longleftrightarrow> dups = [] \<and> distinct ns \<and> set seen \<inter> set ns = {}"
proof (induction ns arbitrary: seen dups)
  case (Cons n ns)
  have "List.insert n dups \<noteq> []" by (metis List.set_insert empty_not_insert list.set(1))
  then show ?case using Cons.IH by auto
qed simp

lemma duplicate_names_empty: "duplicate_names [] [] ns = [] \<longleftrightarrow> distinct ns"
  by (simp add: duplicate_names_Nil)

lemma validate_middleware_name_eq: "okR (validate_middleware m) \<Longrightarrow> mm_name (mw_metadata m) = mw_name m"
  unfolding validate_middleware_def okR_iff seq_all_Inr by auto

lemma registry_init_iff:
  "registry_init ms = Inr ms' \<longleftrightarrow>
     ms' = ms \<and> (\<forall>m \<in> set ms. okR (validate_middleware m)) \<and> distinct (names ms)"
proof -
  have "map (\<lambda>m. mm_name (mw_metadata m)) ms = names ms" if "\<forall>m \<in> set ms. okR (validate_middleware m)"
    unfolding names_def using that validate_middleware_name_eq by simp
  then show ?thesis
    unfolding registry_init_def bindR_eq_Inr seq_all_Inr Let_def duplicate_names_empty by auto
qed

lemma pipeline_ok_iff:
  "pipeline_ok ms \<longleftrightarrow> (\<forall>m \<in> set ms. okR (validate_middleware m)) \<and> distinct (names ms)"
  by (simp add: pipeline_ok_def registry_init_iff)

lemma pipeline_results_ok:
  "pipeline_append ms m = Inr ms' \<Longrightarrow> pipeline_ok ms'"
  "pipeline_remove ms n = Inr ms' \<Longrightarrow> pipeline_ok ms'"
  "pipeline_insert ms t m b = Inr ms' \<Longrightarrow> pipeline_ok ms'"
  "pipeline_replace ms t m = Inr ms' \<Longrightarrow> pipeline_ok ms'"
  by (auto simp: pipeline_append_def pipeline_remove_def pipeline_insert_def pipeline_replace_def
                 registry_init_iff pipeline_ok_iff Let_def split: if_splits)

lemma filter_other_names:
  "n \<notin> set (names ms) \<Longrightarrow> filter (\<lambda>m. mw_name m \<noteq> n) ms = ms"
  by (induction ms) (auto simp: names_def)

lemma insert_then_remove:
  assumes "pipeline_insert ms t m b = Inr ms'" "pipeline_ok ms"
  shows "pipeline_remove ms' (mw_name m) = Inr ms"
proof -
  obtain i where ms': "ms' = take i ms @ m # drop i ms" "distinct (names ms')"
    using assms(1) by (auto simp: pipeline_insert_def registry_init_iff Let_def split: if_splits)
  have new: "mw_name m \<notin> set (names (take i ms))" "mw_name m \<notin> set (names (drop i ms))"
    using ms' by (auto simp: names_def)
  have "filter (\<lambda>x. mw_name x \<noteq> mw_name m) ms' = ms"
    using new by (simp add: ms' filter_other_names)
  then show ?thesis
    using assms(2) ms'(1) by (simp add: pipeline_remove_def names_def pipeline_ok_def)
qed

lemma filter_enumerate:
  "map snd (filter (\<lambda>p. P (snd p)) (enumerate n xs)) = filter P xs"
  by (induction xs arbitrary: n) auto

lemma sorted_filter_enumerate:
  assumes "\<And>x. P x \<Longrightarrow> f x = k"
  shows "sorted (map (\<lambda>(i, x). (f x, i)) (filter (\<lambda>p. P (snd p)) (enumerate n xs)))"
  using assms
  by (induction xs arbitrary: n) (auto simp: less_eq_prod_def in_set_enumerate_eq)

lemma priority_ordered_stable:
  "priority_ordered ms = sort_key (\<lambda>m. mm_priority (mw_metadata m)) ms"
proof -
  let ?f = "\<lambda>m. mm_priority (mw_metadata m)" and ?F = "\<lambda>(i, m). (mm_priority (mw_metadata m), i)"
  let ?s = "sort_key ?F (enumerate 0 ms)"
  have "mset (map snd ?s) = mset ms"
    by (metis map_snd_enumerate mset_map mset_sort)
  moreover have "filter (\<lambda>x. ?f k = ?f x) (map snd ?s) = filter (\<lambda>x. ?f k = ?f x) ms" for k
  proof -
    have "filter (\<lambda>x. ?f k = ?f x) (map snd ?s) = map snd (filter (\<lambda>p. ?f k = ?f (snd p)) ?s)"
      by (simp add: filter_map o_def)
    also have "filter (\<lambda>p. ?f k = ?f (snd p)) ?s =
               sort_key ?F (filter (\<lambda>p. ?f k = ?f (snd p)) (enumerate 0 ms))"
      by (rule filter_sort)
    also have "\<dots> = filter (\<lambda>p. ?f k = ?f (snd p)) (enumerate 0 ms)"
      using sorted_filter_enumerate[of "\<lambda>x. ?f k = ?f x" ?f "?f k" 0 ms]
      by (intro sort_key_id_if_sorted) simp
    finally show ?thesis
      using filter_enumerate[of "\<lambda>x. ?f k = ?f x" 0 ms] by simp
  qed
  moreover have "sorted (map ?f (map snd ?s))"
  proof -
    have "sorted (map ?F ?s)" by simp
    then have "sorted_wrt (\<lambda>p q. ?f (snd p) \<le> ?f (snd q)) ?s"
      unfolding sorted_wrt_map by (rule sorted_wrt_mono_rel[rotated]) (auto simp: less_eq_prod_def)
    then show ?thesis by (simp add: sorted_wrt_map)
  qed
  ultimately have "sort_key ?f ms = map snd ?s"
    by (intro properties_for_sort_key) auto
  then show ?thesis by (simp add: priority_ordered_def)
qed

end
