(* ===== verification/Governance.thy ===== *)
theory Governance
  imports Pipelines
begin

text \<open>
  The governance path of the runtime (\<open>runtime.py\<close>): stage timeouts, hook emission, the pre-execution
  pipeline that fails closed, the enforcement of required approvals and idempotency keys, and the
  admission sequence of \<open>_arun_admitted\<close> up to the point where the tool may start.  Each stage is
  paired with the clock reading and the fresh decision identifier it uses; whether a stage overruns
  its timeout is the runtime's \<open>rt_overrun\<close>.
\<close>

record runtime =
  rt_ident :: "json \<Rightarrow> json \<Rightarrow> bool"
  rt_hooks :: hooks
  rt_fmt3 :: "int \<Rightarrow> string"
  rt_overrun :: "string \<Rightarrow> ExecutionContext \<Rightarrow> bool"
  rt_hook_timeout :: int
  rt_observer_timeout :: int
  rt_middleware_timeout :: int
  rt_digest_arguments :: "dict \<Rightarrow> string"

record stage =
  st_now :: time
  st_did :: string
  st_middleware :: Middleware

section \<open>Timeouts and hooks\<close>

text \<open>\<open>StageTimeoutError(stage, timeout)\<close>; \<open>rt_fmt3\<close> formats seconds with three decimals.\<close>

definition stage_timeout :: "runtime \<Rightarrow> string \<Rightarrow> int \<Rightarrow> exn" where
  "stage_timeout rt stg t = StageTimeoutError (stg @ '' exceeded '' @ rt_fmt3 rt t @ ''s timeout'')"

definition bounded_timeout :: "runtime \<Rightarrow> time \<Rightarrow> time option \<Rightarrow> int \<Rightarrow> string \<Rightarrow> int res" where
  "bounded_timeout rt now deadline configured stg =
     (case deadline of None \<Rightarrow> Inr configured
      | Some d \<Rightarrow> let remaining = d - now in
          if remaining \<le> 0 then Inl (stage_timeout rt stg 0) else Inr (min configured remaining))"

text \<open>\<open>await_stage\<close>: the outcome of the awaited work, unless it does not finish in time.\<close>

definition await_stage :: "runtime \<Rightarrow> string \<Rightarrow> int \<Rightarrow> ExecutionContext \<Rightarrow> 'a res \<Rightarrow> 'a res" where
  "await_stage rt stg t c outcome =
     (if t \<le> 0 then Inl (stage_timeout rt stg (max 0 t))
      else if rt_overrun rt stg c then Inl (stage_timeout rt stg t)
      else outcome)"

text \<open>\<open>DecisionRecord(DENY, reason, source)\<close> applied with \<open>with_decision\<close> and recorded.\<close>

definition deny_with ::
  "time \<Rightarrow> string \<Rightarrow> ExecutionContext \<Rightarrow> string \<Rightarrow> string \<Rightarrow> HistoryEntry \<Rightarrow> ExecutionContext res" where
  "deny_with now did c reason source entry =
     bindR (DecisionRecord_post_init (fresh_decision now did DENY reason source None))
       (\<lambda>d. bindR (with_decision c d) (\<lambda>c'. Inr (append_history c' entry)))"

definition emit_hook ::
  "runtime \<Rightarrow> time \<Rightarrow> string \<Rightarrow> HookPoint \<Rightarrow> ExecutionContext \<Rightarrow> bool \<Rightarrow> ExecutionContext res" where
  "emit_hook rt now did p c allow_critical =
     (let stg = ''hook:'' @ point_value p in
      case bindR (bounded_timeout rt now (cx_deadline c) (rt_hook_timeout rt) stg)
             (\<lambda>t. await_stage rt stg t c (hook_emit (rt_ident rt) now (rt_hooks rt) p c allow_critical)) of
        Inr c' \<Rightarrow> Inr c'
      | Inl e \<Rightarrow>
          (case e of
             CriticalHookError msg \<Rightarrow>
               if allow_critical then deny_with now did c msg stg (history_entry now stg ''deny'' msg [])
               else Inr (append_history c (history_entry now stg ''error'' msg []))
           | StageTimeoutError msg \<Rightarrow>
               if allow_critical then deny_with now did c msg stg (history_entry now stg ''deny'' msg [])
               else Inr (append_history c (history_entry now stg ''error'' msg []))
           | _ \<Rightarrow> Inl e))"

definition middleware_hook_point :: "string \<Rightarrow> bool \<Rightarrow> HookPoint option" where
  "middleware_hook_point name before =
     (if name = ''llm'' then Some (if before then BEFORE_LLM else AFTER_LLM)
      else if name = ''decision'' then Some (if before then BEFORE_DECISION else AFTER_DECISION)
      else if name = ''audit'' then Some (if before then BEFORE_AUDIT else AFTER_AUDIT)
      else None)"

definition emit_middleware_hook ::
  "runtime \<Rightarrow> time \<Rightarrow> string \<Rightarrow> string \<Rightarrow> ExecutionContext \<Rightarrow> bool \<Rightarrow> ExecutionContext res" where
  "emit_middleware_hook rt now did name c before =
     (case middleware_hook_point name before of
        None \<Rightarrow> Inr c
      | Some p \<Rightarrow> emit_hook rt now did p c before)"

section \<open>The pre-execution pipeline\<close>

definition pre_include :: "bool \<Rightarrow> stage \<Rightarrow> ExecutionContext \<Rightarrow> bool" where
  "pre_include replayable_only s c =
     (let m = st_middleware s in
      if mw_kind m = EXECUTION then False
      else if replayable_only \<and> \<not> mm_replayable (mw_metadata m) then False
      else \<not> (denied c \<and> mw_kind m = GATING))"

text \<open>The \<open>except Exception\<close> branch: a critical observer or a gating middleware that fails denies.\<close>

definition pre_failure :: "stage \<Rightarrow> ExecutionContext \<Rightarrow> exn \<Rightarrow> ExecutionContext res" where
  "pre_failure s c e =
     (let m = st_middleware s; now = st_now s in
      if e = CancelledError then Inl e
      else if mw_kind m = OBSERVING then
        (if mw_is_critical m c then
           deny_with now (st_did s) c
             (''critical observer '' @ py_repr (mw_name m) @ '' failed closed'')
             (''observer:'' @ mw_name m) (history_entry now (mw_name m) ''error'' (exn_msg e) [])
         else Inr (append_history c
                (history_entry now (mw_name m) ''error'' (''observer ignored: '' @ exn_msg e) [])))
      else deny_with now (st_did s) c
             (''gating middleware '' @ py_repr (mw_name m) @ '' failed closed'') ''runtime''
             (history_entry now (mw_name m) ''error'' (exn_msg e) []))"

definition pre_invoke :: "runtime \<Rightarrow> stage \<Rightarrow> ExecutionContext \<Rightarrow> ExecutionContext res" where
  "pre_invoke rt s c =
     (let m = st_middleware s; now = st_now s; did = st_did s; stg = ''middleware:'' @ mw_name m in
      case emit_middleware_hook rt now did (mw_name m) c True of
        Inl e \<Rightarrow> pre_failure s c e
      | Inr c1 \<Rightarrow>
          if denied c1 \<and> mw_kind m = GATING then Inr c1
          else
            (case bindR (bounded_timeout rt now (cx_deadline c1)
                     (if mw_kind m = OBSERVING then rt_observer_timeout rt else rt_middleware_timeout rt) stg)
                   (\<lambda>t. bindR (await_stage rt stg t c1 (mw_process m c1))
                     (\<lambda>candidate. validate_middleware_transition (rt_ident rt) c1 candidate (mw_kind m))) of
               Inl e \<Rightarrow> pre_failure s c1 e
             | Inr c2 \<Rightarrow>
                 (case emit_middleware_hook rt now did (mw_name m) c2 False of
                    Inl e \<Rightarrow> pre_failure s c2 e
                  | Inr c3 \<Rightarrow> Inr c3)))"

definition run_pre_pipeline :: "runtime \<Rightarrow> bool \<Rightarrow> stage list \<Rightarrow> ExecutionContext \<Rightarrow> ExecutionContext res" where
  "run_pre_pipeline rt replayable_only ss c =
     bindR (pipeline_run (pre_include replayable_only) (pre_invoke rt) ss c)
       (\<lambda>c'. if \<not> denied c' then evolve c' [SetStatus STATUS_ALLOWED] else Inr c')"

section \<open>Enforcement\<close>

text \<open>\<open>str(value)\<close> of a metadata value; \<open>str_other\<close> covers the non-string ones.\<close>

definition metadata_text :: "(json \<Rightarrow> string) \<Rightarrow> dict \<Rightarrow> string \<Rightarrow> string option" where
  "metadata_text str_other m key =
     (case map_of m key of
        None \<Rightarrow> None
      | Some JNull \<Rightarrow> None
      | Some (JStr s) \<Rightarrow> Some s
      | Some v \<Rightarrow> Some (str_other v))"

definition has_bound_approval :: "runtime \<Rightarrow> (json \<Rightarrow> string) \<Rightarrow> time \<Rightarrow> ExecutionContext \<Rightarrow> bool" where
  "has_bound_approval rt str_other now c =
     (case cx_decision c of
        None \<Rightarrow> False
      | Some d \<Rightarrow>
          if \<not> cx_approval_granted c
             \<or> dr_outcome d \<noteq> ALLOW
             \<or> is_expired (dr_expires_at d) now
             \<or> cx_approval_request_id c \<noteq> Some (cx_request_id c)
             \<or> cx_approval_decision_id c \<noteq> Some (dr_decision_id d)
             \<or> dr_request_id d \<noteq> Some (cx_request_id c)
             \<or> dr_tool_name d \<noteq> Some (tc_name (cx_tool_call c))
             \<or> dr_risk_tier d \<noteq> Some (tier_name (cx_risk_tier c))
             \<or> dr_policy_version d \<noteq> metadata_text str_other (cx_metadata c) ''policy_version''
             \<or> dr_policy_digest d \<noteq> metadata_text str_other (cx_metadata c) ''policy_digest''
             \<or> dr_subject d \<noteq> cx_user c
             \<or> dr_tenant d \<noteq> cx_tenant c
             \<or> dr_identity_issuer d \<noteq> metadata_text str_other (cx_metadata c) ''identity_issuer''
             \<or> (case cx_bound_action c of None \<Rightarrow> False
                 | Some a \<Rightarrow> dr_action_digest d \<noteq> Some (ba_action_digest a))
          then False
          else if cx_bound_action c \<noteq> None then True
          else dr_arguments_digest d = Some (rt_digest_arguments rt
                 [(''args'', JList (tc_args (cx_tool_call c))),
                  (''kwargs'', JObj (tc_kwargs (cx_tool_call c)))]))"

definition enforce_required_approval ::
  "runtime \<Rightarrow> (json \<Rightarrow> string) \<Rightarrow> time \<Rightarrow> string \<Rightarrow> ExecutionContext \<Rightarrow> ExecutionContext res" where
  "enforce_required_approval rt str_other now did c =
     (if cx_requires_approval c \<and> \<not> denied c \<and> \<not> has_bound_approval rt str_other now c then
        deny_with now did c ''required human decision was not granted'' ''runtime''
          (history_entry now ''runtime'' ''deny'' ''required human decision was not granted'' [])
      else Inr c)"

definition enforce_idempotency_key :: "time \<Rightarrow> string \<Rightarrow> ExecutionContext \<Rightarrow> ExecutionContext res" where
  "enforce_idempotency_key now did c =
     (if cx_execution_mode c \<noteq> IDEMPOTENT \<or> truthy (cx_idempotency_key c) then Inr c
      else deny_with now did c ''idempotent tool execution requires an idempotency key'' ''idempotency''
             (history_entry now ''idempotency'' ''deny''
                ''idempotent tool execution requires an idempotency key'' []))"

section \<open>Admission\<close>

datatype admission = Admitted ExecutionContext | Denied ExecutionContext

text \<open>
  \<open>_arun_admitted\<close> from the idempotency-key check to the last approval check before the tool: each
  \<open>Denied\<close> is a \<open>raise GovernanceDenied\<close>.  \<open>nows\<close> and \<open>dids\<close> are the clock readings and fresh decision
  identifiers of the successive steps.  First the pipeline between its two hooks.
\<close>

definition admit_pipeline ::
  "runtime \<Rightarrow> (nat \<Rightarrow> time) \<Rightarrow> (nat \<Rightarrow> string) \<Rightarrow> stage list \<Rightarrow> ExecutionContext \<Rightarrow> ExecutionContext res" where
  "admit_pipeline rt nows dids ss c =
     bindR (emit_hook rt (nows 1) (dids 1) BEFORE_PIPELINE c True) (\<lambda>c.
     bindR (if \<not> denied c then run_pre_pipeline rt False ss c else Inr c) (\<lambda>c.
     if \<not> denied c then emit_hook rt (nows 2) (dids 2) AFTER_PIPELINE c True else Inr c))"

text \<open>The context is marked executing, with an allow decision when no middleware decided.\<close>

definition admit_start ::
  "runtime \<Rightarrow> (nat \<Rightarrow> time) \<Rightarrow> (nat \<Rightarrow> string) \<Rightarrow> ExecutionContext \<Rightarrow> ExecutionContext res" where
  "admit_start rt nows dids c =
     bindR (case cx_decision c of
              Some d \<Rightarrow> Inr d
            | None \<Rightarrow> DecisionRecord_post_init
                (fresh_decision (nows 4) (dids 4) ALLOW ''pipeline allowed'' ''runtime'' None)) (\<lambda>d.
     bindR (evolve c [SetStatus STATUS_EXECUTING, SetDecision (Some d)]) (\<lambda>c.
     emit_hook rt (nows 5) (dids 5) BEFORE_EXECUTE c True))"

definition admission_of :: "ExecutionContext \<Rightarrow> admission" where
  "admission_of c = (if denied c then Denied c else Admitted c)"

definition admit ::
  "runtime \<Rightarrow> (json \<Rightarrow> string) \<Rightarrow> (nat \<Rightarrow> time) \<Rightarrow> (nat \<Rightarrow> string) \<Rightarrow> stage list \<Rightarrow> ExecutionContext
     \<Rightarrow> admission res" where
  "admit rt str_other nows dids ss c =
     bindR (enforce_idempotency_key (nows 0) (dids 0) c) (\<lambda>c.
     if denied c then Inr (Denied c) else
     bindR (admit_pipeline rt nows dids ss c) (\<lambda>c.
     bindR (enforce_required_approval rt str_other (nows 3) (dids 3) c) (\<lambda>c.
     if denied c then Inr (Denied c) else
     bindR (admit_start rt nows dids c) (\<lambda>c.
     bindR (enforce_required_approval rt str_other (nows 6) (dids 6) c) (\<lambda>c.
     Inr (admission_of c))))))"

text \<open>
  The head of \<open>execute_tool\<close>: what the execution middleware hands to the innermost call is checked
  against the admitted context once more, and approval is enforced again.
\<close>

definition execute_gate ::
  "runtime \<Rightarrow> (json \<Rightarrow> string) \<Rightarrow> time \<Rightarrow> string \<Rightarrow> ExecutionContext \<Rightarrow> ExecutionContext \<Rightarrow> admission res" where
  "execute_gate rt str_other now did admitted current =
     (case validate_middleware_transition (rt_ident rt) admitted current EXECUTION of
        Inl e \<Rightarrow>
          bindR (deny_with now did admitted
                   (''execution middleware boundary rejected context: '' @ exn_msg e) ''runtime''
                   (history_entry now ''runtime'' ''deny''
                      (''execution middleware boundary rejected context: '' @ exn_msg e) []))
            (\<lambda>c. Inr (Denied c))
      | Inr cur \<Rightarrow>
          bindR (enforce_required_approval rt str_other now did cur)
            (\<lambda>c. Inr (admission_of c)))"

section \<open>Laws\<close>

text \<open>Middleware returns contexts that have passed their constructor.\<close>

definition stage_wf :: "stage \<Rightarrow> bool" where
  "stage_wf s = (\<forall>c c'. mw_process (st_middleware s) c = Inr c' \<longrightarrow> ctx_ok c')"

definition hooks_wf :: "hooks \<Rightarrow> bool" where
  "hooks_wf h = (\<forall>p. list_all hook_wf (h p))"

locale context_stages = object_identity +
  fixes invoke :: "'m \<Rightarrow> ExecutionContext \<Rightarrow> ExecutionContext res"
    and good :: "'m \<Rightarrow> bool"
  assumes stage_evolves:
    "good m \<Longrightarrow> ctx_ok c \<Longrightarrow> invoke m c = Inr c' \<Longrightarrow> ctx_ok c' \<and> evolves ident c c'"
begin

lemma run_evolves:
  "list_all good ms \<Longrightarrow> ctx_ok c \<Longrightarrow> pipeline_run incl invoke ms c = Inr c' \<Longrightarrow>
     ctx_ok c' \<and> evolves ident c c'"
proof (induction ms arbitrary: c)
  case (Cons m ms)
  show ?case
  proof (cases "incl m c")
    case True
    then obtain c1 where c1: "invoke m c = Inr c1" "pipeline_run incl invoke ms c1 = Inr c'"
      using Cons.prems(3) by (auto simp: bindR_eq_Inr)
    have "ctx_ok c1 \<and> evolves ident c c1"
      using stage_evolves[OF _ Cons.prems(2) c1(1)] Cons.prems(1) by simp
    then show ?thesis
      using Cons.IH[OF _ _ c1(2)] Cons.prems(1) evolves_trans by auto
  qed (use Cons in auto)
qed (simp add: evolves_refl)

lemma allowed_run_stage:
  assumes "list_all good ms" "ctx_ok c" "pipeline_run incl invoke ms c = Inr c'" "\<not> denied c'"
    and "m \<in> set ms" and "\<And>c. \<not> denied c \<Longrightarrow> incl m c"
  shows "\<exists>c1 c2. \<not> denied c1 \<and> ctx_ok c1 \<and> evolves ident c c1 \<and> invoke m c1 = Inr c2 \<and> \<not> denied c2"
  using assms
proof (induction ms arbitrary: c)
  case (Cons n ms)
  have "evolves ident c c'" using run_evolves[OF Cons.prems(1,2,3)] by blast
  then have nd: "\<not> denied c" using Cons.prems(4) by (auto simp: evolves_def tightens_def)
  show ?case
  proof (cases "incl n c")
    case True
    then obtain c1 where c1: "invoke n c = Inr c1" "pipeline_run incl invoke ms c1 = Inr c'"
      using Cons.prems(3) by (auto simp: bindR_eq_Inr)
    have ok1: "ctx_ok c1" "evolves ident c c1"
      using stage_evolves[OF _ Cons.prems(2) c1(1)] Cons.prems(1) by auto
    have "evolves ident c1 c'"
      using run_evolves[OF _ ok1(1) c1(2)] Cons.prems(1) by simp
    then have nd1: "\<not> denied c1" using Cons.prems(4) by (auto simp: evolves_def tightens_def)
    show ?thesis
    proof (cases "m = n")
      case True
      then show ?thesis using nd nd1 c1 Cons.prems(2) evolves_refl by blast
    next
      case False
      then have "m \<in> set ms" using Cons.prems(5) by simp
      moreover have "list_all good ms" using Cons.prems(1) by simp
      ultimately show ?thesis
        using Cons.IH[OF _ ok1(1) c1(2) Cons.prems(4)] Cons.prems(6) ok1(2) evolves_trans by blast
    qed
  next
    case False
    then have "m \<in> set ms" using Cons.prems(5,6) nd by auto
    then show ?thesis using Cons False by simp
  qed
qed simp

end

lemma deny_with_Inr:
  assumes "deny_with now did c reason source e = Inr c'" "ctx_ok c"
  shows "ctx_ok c'" "evolves ident c c'" "denied c'" "cx_status c' = STATUS_DENIED"
    "\<not> cx_approval_granted c'"
proof -
  let ?d = "fresh_decision now did DENY reason source None"
  obtain c1 where c1: "with_decision c ?d = Inr c1" "c' = append_history c1 e"
    using assms(1) by (auto simp: deny_with_def bindR_eq_Inr post_init_eq_Inr)
  have deny: "dr_outcome ?d = DENY" by (simp add: fresh_decision_def)
  note w = with_decision_Inr[OF c1(1)]
  show "ctx_ok c'" "denied c'" "cx_status c' = STATUS_DENIED" "\<not> cx_approval_granted c'"
    using w deny c1(2) by simp_all
  have "history_extends ident c c'" using w(4) c1(2) by (auto intro: history_extends_append)
  then show "evolves ident c c'"
    using w c1(2) assms(2) deny
    by (auto simp: evolves_def same_request_identity tightens_def risk_score_refl)
qed

lemma deny_with_total:
  assumes "ctx_ok c" "IDENTIFIER did" "IDENTIFIER source" "\<not> is_blank reason" "length reason \<le> 2048"
  shows "\<exists>c'. deny_with now did c reason source e = Inr c'"
proof -
  let ?d = "fresh_decision now did DENY reason source None"
  have "DecisionRecord_post_init ?d = Inr ?d"
    using assms by (simp add: post_init_eq_Inr valid_decision_iff fresh_decision_def)
  moreover have "dr_outcome ?d = DENY" by (simp add: fresh_decision_def)
  ultimately show ?thesis
    using with_decision_deny[OF assms(1)] by (simp add: deny_with_def)
qed

context object_identity
begin

lemma hook_step_evolves:
  assumes "hook_wf r" "ctx_ok c" "hook_step ident now p b r c = Inr c'"
  shows "ctx_ok c' \<and> evolves ident c c' \<and> governance_state_eq c' c"
proof (cases "hook_result ident r c")
  case (Inl e)
  then show ?thesis
    using assms evolves_append_history
    by (auto simp: hook_step_def governance_state_eq_def float_eq_def risk_score_refl split: if_splits)
next
  case (Inr c1)
  then have "c' = c1" "ctx_ok c1" using assms hook_result_ok by (auto simp: hook_step_def)
  then show ?thesis using hook_result_evolves[OF Inr assms(2)] by simp
qed

lemma governance_state_trans:
  "governance_state_eq a b \<Longrightarrow> governance_state_eq b c \<Longrightarrow> governance_state_eq a c"
  using float_eq_trans by (auto simp: governance_state_eq_def)

lemma governance_state_refl: "ctx_ok c \<Longrightarrow> governance_state_eq c c"
  by (simp add: governance_state_eq_def float_eq_def risk_score_refl)

lemma hook_emit_evolves:
  assumes "list_all hook_wf rs" "ctx_ok c" "hook_emit_list ident now p b rs c = Inr c'"
  shows "ctx_ok c' \<and> evolves ident c c' \<and> governance_state_eq c' c"
  using assms
proof (induction rs arbitrary: c)
  case (Cons r rs)
  obtain c1 where c1: "hook_step ident now p b r c = Inr c1" "hook_emit_list ident now p b rs c1 = Inr c'"
    using Cons.prems(3) by (auto simp: bindR_eq_Inr)
  have s: "ctx_ok c1" "evolves ident c c1" "governance_state_eq c1 c"
    using hook_step_evolves[OF _ Cons.prems(2) c1(1)] Cons.prems(1) by auto
  show ?case
    using Cons.IH[OF _ s(1) c1(2)] Cons.prems(1) s evolves_trans governance_state_trans by auto
qed (simp add: evolves_refl governance_state_refl)

end

lemma governance_state_denied: "governance_state_eq a b \<Longrightarrow> denied a = denied b"
  by (simp add: governance_state_eq_def denied_def)

lemma emit_hook_evolves:
  assumes id: "object_identity (rt_ident rt)" and wf: "hooks_wf (rt_hooks rt)" "ctx_ok c"
    and e: "emit_hook rt now did p c b = Inr c'"
  shows "ctx_ok c' \<and> evolves (rt_ident rt) c c' \<and> (\<not> denied c' \<longrightarrow> governance_state_eq c' c)"
proof -
  let ?m = "bindR (bounded_timeout rt now (cx_deadline c) (rt_hook_timeout rt) (''hook:'' @ point_value p))
             (\<lambda>t. await_stage rt (''hook:'' @ point_value p) t c
                    (hook_emit (rt_ident rt) now (rt_hooks rt) p c b))"
  show ?thesis
  proof (cases ?m)
    case (Inr c1)
    then have "hook_emit_list (rt_ident rt) now p b (rt_hooks rt p) c = Inr c1"
      by (auto simp: bindR_eq_Inr await_stage_def hook_emit_def split: if_splits)
    moreover have "c' = c1" using e Inr by (simp add: emit_hook_def Let_def)
    moreover have "list_all hook_wf (rt_hooks rt p)" using wf(1) by (simp add: hooks_wf_def)
    ultimately show ?thesis
      using object_identity.hook_emit_evolves[OF id _ wf(2)] by blast
  next
    case (Inl ex)
    then obtain msg where "deny_with now did c msg (''hook:'' @ point_value p)
          (history_entry now (''hook:'' @ point_value p) ''deny'' msg []) = Inr c' \<or>
        c' = append_history c (history_entry now (''hook:'' @ point_value p) ''error'' msg [])"
      using e by (cases ex) (auto simp: emit_hook_def Let_def split: if_splits)
    then show ?thesis
    proof
      assume d: "deny_with now did c msg (''hook:'' @ point_value p)
          (history_entry now (''hook:'' @ point_value p) ''deny'' msg []) = Inr c'"
      show ?thesis using deny_with_Inr[OF d wf(2)] by blast
    next
      assume "c' = append_history c (history_entry now (''hook:'' @ point_value p) ''error'' msg [])"
      then show ?thesis
        using wf(2) evolves_append_history[OF wf(2)]
        by (simp add: governance_state_eq_def float_eq_def risk_score_refl)
    qed
  qed
qed

lemma emit_middleware_hook_evolves:
  assumes "object_identity (rt_ident rt)" "hooks_wf (rt_hooks rt)" "ctx_ok c"
    and "emit_middleware_hook rt now did n c b = Inr c'"
  shows "ctx_ok c' \<and> evolves (rt_ident rt) c c'"
  using assms emit_hook_evolves[OF assms(1,2,3)]
  by (auto simp: emit_middleware_hook_def evolves_refl split: option.splits)

lemma pre_failure_evolves:
  assumes "ctx_ok c" "pre_failure s c e = Inr c'"
  shows "ctx_ok c' \<and> evolves ident c c' \<and> (mw_kind (st_middleware s) \<noteq> OBSERVING \<longrightarrow> denied c')"
  using assms deny_with_Inr[OF _ assms(1)] evolves_append_history[OF assms(1)]
  by (auto simp: pre_failure_def Let_def split: if_splits)

lemma validate_transition_id:
  "validate_middleware_transition ident a b k = Inr c \<Longrightarrow> c = b"
  unfolding validate_middleware_transition_def by (simp split: if_splits sum.splits)

text \<open>The two ways a stage returns: it failed and was handled, or its middleware was accepted.\<close>

lemma pre_invoke_cases:
  assumes "pre_invoke rt s c = Inr c'"
  obtains (early) e where "pre_failure s c e = Inr c'"
  | (skip) "emit_middleware_hook rt (st_now s) (st_did s) (mw_name (st_middleware s)) c True = Inr c'"
      "denied c'" "mw_kind (st_middleware s) = GATING"
  | (failed) c1 e where
      "emit_middleware_hook rt (st_now s) (st_did s) (mw_name (st_middleware s)) c True = Inr c1"
      "pre_failure s c1 e = Inr c'"
  | (accepted) c1 c2 where
      "emit_middleware_hook rt (st_now s) (st_did s) (mw_name (st_middleware s)) c True = Inr c1"
      "mw_process (st_middleware s) c1 = Inr c2"
      "validate_middleware_transition (rt_ident rt) c1 c2 (mw_kind (st_middleware s)) = Inr c2"
      "emit_middleware_hook rt (st_now s) (st_did s) (mw_name (st_middleware s)) c2 False = Inr c' \<or>
       (\<exists>e. pre_failure s c2 e = Inr c')"
proof (cases "emit_middleware_hook rt (st_now s) (st_did s) (mw_name (st_middleware s)) c True")
  case (Inl e)
  then show ?thesis using assms early by (simp add: pre_invoke_def Let_def)
next
  case (Inr c1)
  let ?k = "mw_kind (st_middleware s)"
  let ?m = "bindR (bounded_timeout rt (st_now s) (cx_deadline c1)
              (if ?k = OBSERVING then rt_observer_timeout rt else rt_middleware_timeout rt)
              (''middleware:'' @ mw_name (st_middleware s)))
            (\<lambda>t. bindR (await_stage rt (''middleware:'' @ mw_name (st_middleware s)) t c1
                           (mw_process (st_middleware s) c1))
                   (\<lambda>cand. validate_middleware_transition (rt_ident rt) c1 cand ?k))"
  have result: "pre_invoke rt s c = (if denied c1 \<and> ?k = GATING then Inr c1 else
      case ?m of Inl e \<Rightarrow> pre_failure s c1 e
      | Inr c2 \<Rightarrow> (case emit_middleware_hook rt (st_now s) (st_did s) (mw_name (st_middleware s)) c2 False of
           Inl e \<Rightarrow> pre_failure s c2 e | Inr c3 \<Rightarrow> Inr c3))"
    using Inr by (simp add: pre_invoke_def Let_def)
  show ?thesis
  proof (cases "denied c1 \<and> ?k = GATING")
    case True
    then show ?thesis using assms result Inr skip by simp
  next
    case nd: False
    show ?thesis
    proof (cases ?m)
      case (Inl e)
      have "pre_failure s c1 e = Inr c'" using assms result nd Inl by simp
      then show ?thesis using failed[OF Inr] by blast
    next
      case m: (Inr c2)
      then obtain t cand where "await_stage rt (''middleware:'' @ mw_name (st_middleware s)) t c1
             (mw_process (st_middleware s) c1) = Inr cand"
          and v: "validate_middleware_transition (rt_ident rt) c1 cand ?k = Inr c2"
        by (auto simp only: bindR_eq_Inr)
      then have acc: "mw_process (st_middleware s) c1 = Inr c2"
        "validate_middleware_transition (rt_ident rt) c1 c2 ?k = Inr c2"
        using validate_transition_id[OF v] by (simp_all add: await_stage_def split: if_splits)
      have "emit_middleware_hook rt (st_now s) (st_did s) (mw_name (st_middleware s)) c2 False = Inr c' \<or>
            (\<exists>e. pre_failure s c2 e = Inr c')"
        using assms result nd m by (auto split: sum.splits)
      then show ?thesis using accepted[OF Inr acc] by blast
    qed
  qed
qed

lemma pre_invoke_evolves:
  assumes id: "object_identity (rt_ident rt)" and hw: "hooks_wf (rt_hooks rt)"
    and wf: "stage_wf s" "ctx_ok c" and run: "pre_invoke rt s c = Inr c'"
  shows "ctx_ok c' \<and> evolves (rt_ident rt) c c'"
  using run
proof (cases rule: pre_invoke_cases)
  case (early e)
  then show ?thesis using pre_failure_evolves[OF wf(2)] by blast
next
  case skip
  then show ?thesis using emit_middleware_hook_evolves[OF id hw wf(2)] by blast
next
  case (failed c1 e)
  have 1: "ctx_ok c1" "evolves (rt_ident rt) c c1"
    using emit_middleware_hook_evolves[OF id hw wf(2) failed(1)] by auto
  show ?thesis
    using pre_failure_evolves[OF 1(1) failed(2)] object_identity.evolves_trans[OF id 1(2)] by blast
next
  case (accepted c1 c2)
  have 1: "ctx_ok c1" "evolves (rt_ident rt) c c1"
    using emit_middleware_hook_evolves[OF id hw wf(2) accepted(1)] by auto
  have ok2: "ctx_ok c2" using wf(1) accepted(2) by (auto simp: stage_wf_def)
  have 2: "evolves (rt_ident rt) c1 c2"
    using object_identity.transition_evolves[OF id accepted(3) 1(1) ok2] by blast
  have "ctx_ok c' \<and> evolves (rt_ident rt) c2 c'"
    using accepted(4) emit_middleware_hook_evolves[OF id hw ok2] pre_failure_evolves[OF ok2] by blast
  then show ?thesis using object_identity.evolves_trans[OF id] 1 2 by blast
qed

lemma pre_invoke_stages:
  assumes "object_identity (rt_ident rt)" "hooks_wf (rt_hooks rt)"
  shows "context_stages (rt_ident rt) (pre_invoke rt) stage_wf"
  using pre_invoke_evolves[OF assms] assms(1)
  by (simp add: context_stages_def context_stages_axioms_def)

lemma run_pre_pipeline_evolves:
  assumes id: "object_identity (rt_ident rt)" and wf: "hooks_wf (rt_hooks rt)" "list_all stage_wf ss" "ctx_ok c"
    and run: "run_pre_pipeline rt ro ss c = Inr c'"
  shows "ctx_ok c' \<and> evolves (rt_ident rt) c c'"
proof -
  obtain c1 where c1: "pipeline_run (pre_include ro) (pre_invoke rt) ss c = Inr c1"
      "(if \<not> denied c1 then evolve c1 [SetStatus STATUS_ALLOWED] else Inr c1) = Inr c'"
    using run by (auto simp: run_pre_pipeline_def bindR_eq_Inr)
  have e1: "ctx_ok c1" "evolves (rt_ident rt) c c1"
    using context_stages.run_evolves[OF pre_invoke_stages[OF id wf(1)] wf(2,3) c1(1)] by auto
  show ?thesis
  proof (cases "denied c1")
    case False
    then have ev: "evolve c1 [SetStatus STATUS_ALLOWED] = Inr c'" using c1(2) by simp
    then have f: "c' = c1\<lparr>cx_status := STATUS_ALLOWED\<rparr>" "ctx_ok c'"
      using evolve_Inr[OF ev] by auto
    then have "evolves (rt_ident rt) c1 c'"
      using False e1(1) by (auto simp: evolves_def same_request_identity identity_fields_def
          history_extends_same tightens_def risk_score_refl)
    then show ?thesis using f e1 object_identity.evolves_trans[OF id] by blast
  qed (use c1 e1 in auto)
qed

text \<open>An allowed result means every gating middleware ran, returned, and was accepted.\<close>

lemma allowed_gating_ran:
  assumes id: "object_identity (rt_ident rt)" and wf: "hooks_wf (rt_hooks rt)" "list_all stage_wf ss" "ctx_ok c"
    and run: "run_pre_pipeline rt ro ss c = Inr c'" and nd: "\<not> denied c'"
    and s: "s \<in> set ss" "mw_kind (st_middleware s) = GATING"
      "ro \<longrightarrow> mm_replayable (mw_metadata (st_middleware s))"
  shows "\<exists>c1 c2. evolves (rt_ident rt) c c1 \<and> mw_process (st_middleware s) c1 = Inr c2 \<and>
           validate_middleware_transition (rt_ident rt) c1 c2 GATING = Inr c2 \<and> \<not> denied c2"
proof -
  obtain c1 where c1: "pipeline_run (pre_include ro) (pre_invoke rt) ss c = Inr c1" "\<not> denied c1"
    using run nd by (auto simp: run_pre_pipeline_def bindR_eq_Inr split: if_splits)
  have "pre_include ro s x" if "\<not> denied x" for x
    using s that by (simp add: pre_include_def Let_def)
  then obtain a b where ab: "\<not> denied a" "ctx_ok a" "evolves (rt_ident rt) c a"
      "pre_invoke rt s a = Inr b" "\<not> denied b"
    using context_stages.allowed_run_stage[OF pre_invoke_stages[OF id wf(1)] wf(2,3) c1 s(1)] by blast
  have "stage_wf s" using wf(2) s(1) by (auto simp: list_all_iff)
  show ?thesis
    using ab(4)
  proof (cases rule: pre_invoke_cases)
    case (early e)
    then show ?thesis using pre_failure_evolves[OF ab(2) early] ab(5) s(2) by simp
  next
    case skip
    then show ?thesis using ab(5) by blast
  next
    case (failed x e)
    then show ?thesis
      using pre_failure_evolves[of x s e b] emit_middleware_hook_evolves[OF id wf(1) ab(2) failed(1)]
        ab(5) s(2) by auto
  next
    case (accepted x y)
    have x: "ctx_ok x" "evolves (rt_ident rt) a x"
      using emit_middleware_hook_evolves[OF id wf(1) ab(2) accepted(1)] by auto
    have y: "ctx_ok y" using \<open>stage_wf s\<close> accepted(2) by (auto simp: stage_wf_def)
    have "evolves (rt_ident rt) y b"
      using accepted(4) emit_middleware_hook_evolves[OF id wf(1) y] pre_failure_evolves[OF y] by blast
    then have "\<not> denied y" using ab(5) by (auto simp: evolves_def tightens_def)
    then show ?thesis
      using accepted s(2) x(2) ab(3) object_identity.evolves_trans[OF id] by metis
  qed
qed

interpretation hook_stages: context_stages "(=)" "hook_step (=) now p b" hook_wf for now p b
  by unfold_locales (use value_identity.hook_step_evolves in blast)

section \<open>Admission is sound\<close>

lemma enforce_required_approval_Inr:
  assumes "ctx_ok c" "enforce_required_approval rt str_other now did c = Inr c'"
  shows "ctx_ok c' \<and> evolves ident c c' \<and>
    (\<not> denied c' \<longrightarrow> c' = c \<and> (cx_requires_approval c \<longrightarrow> has_bound_approval rt str_other now c))"
  using assms deny_with_Inr[OF _ assms(1)] evolves_refl[OF assms(1)]
  by (auto simp: enforce_required_approval_def split: if_splits)

lemma enforce_idempotency_key_Inr:
  assumes "ctx_ok c" "enforce_idempotency_key now did c = Inr c'"
  shows "ctx_ok c' \<and> evolves ident c c' \<and>
    (\<not> denied c' \<longrightarrow> c' = c \<and> (cx_execution_mode c = IDEMPOTENT \<longrightarrow> truthy (cx_idempotency_key c)))"
  using assms deny_with_Inr[OF _ assms(1)] evolves_refl[OF assms(1)]
  by (auto simp: enforce_idempotency_key_def split: if_splits)

lemma evolves_denied: "evolves ident c c' \<Longrightarrow> \<not> denied c' \<Longrightarrow> \<not> denied c"
  by (auto simp: evolves_def tightens_def)

lemma admit_pipeline_Inr:
  assumes id: "object_identity (rt_ident rt)" and wf: "hooks_wf (rt_hooks rt)" "list_all stage_wf ss" "ctx_ok c"
    and run: "admit_pipeline rt nows dids ss c = Inr c'"
  shows "ctx_ok c' \<and> evolves (rt_ident rt) c c' \<and>
    (\<not> denied c' \<longrightarrow> (\<exists>c1 c2. evolves (rt_ident rt) c c1 \<and> ctx_ok c1 \<and> run_pre_pipeline rt False ss c1 = Inr c2 \<and>
        \<not> denied c2))"
proof -
  obtain c1 c2 where s: "emit_hook rt (nows 1) (dids 1) BEFORE_PIPELINE c True = Inr c1"
      "(if \<not> denied c1 then run_pre_pipeline rt False ss c1 else Inr c1) = Inr c2"
      "(if \<not> denied c2 then emit_hook rt (nows 2) (dids 2) AFTER_PIPELINE c2 True else Inr c2) = Inr c'"
    using run unfolding admit_pipeline_def bindR_eq_Inr by blast
  have 1: "ctx_ok c1" "evolves (rt_ident rt) c c1"
    using emit_hook_evolves[OF id wf(1,3) s(1)] by auto
  have 2: "ctx_ok c2" "evolves (rt_ident rt) c1 c2"
    using s(2) run_pre_pipeline_evolves[OF id wf(1,2) 1(1)] evolves_refl[OF 1(1)] 1(1)
    by (auto split: if_splits)
  have 3: "ctx_ok c'" "evolves (rt_ident rt) c2 c'"
    using s(3) emit_hook_evolves[OF id wf(1) 2(1)] evolves_refl[OF 2(1)] 2(1) by (auto split: if_splits)
  note tr = object_identity.evolves_trans[OF id]
  have "\<not> denied c2 \<and> run_pre_pipeline rt False ss c1 = Inr c2" if "\<not> denied c'"
    using that evolves_denied[OF 3(2)] evolves_denied[OF 2(2)] s(2) by auto
  moreover have "evolves (rt_ident rt) c c'" using tr[OF tr[OF 1(2) 2(2)] 3(2)] .
  ultimately show ?thesis using 1 3(1) by blast
qed

lemma admit_start_Inr:
  assumes id: "object_identity (rt_ident rt)" and wf: "hooks_wf (rt_hooks rt)" "ctx_ok c" "\<not> denied c"
    and run: "admit_start rt nows dids c = Inr c'"
  shows "ctx_ok c' \<and> evolves (rt_ident rt) c c' \<and> (\<not> denied c' \<longrightarrow> cx_status c' = STATUS_EXECUTING)"
proof -
  obtain d c1 where s: "evolve c [SetStatus STATUS_EXECUTING, SetDecision (Some d)] = Inr c1"
      "emit_hook rt (nows 5) (dids 5) BEFORE_EXECUTE c1 True = Inr c'"
    using run unfolding admit_start_def bindR_eq_Inr by blast
  have c1: "c1 = c\<lparr>cx_status := STATUS_EXECUTING, cx_decision := Some d\<rparr>" "ctx_ok c1"
    using evolve_Inr[OF s(1)] by auto
  have 1: "evolves (rt_ident rt) c c1"
    using c1(1) wf(2,3) by (auto simp: evolves_def same_request_identity identity_fields_def
        history_extends_same tightens_def risk_score_refl)
  have 2: "ctx_ok c'" "evolves (rt_ident rt) c1 c'" "\<not> denied c' \<longrightarrow> governance_state_eq c' c1"
    using emit_hook_evolves[OF id wf(1) c1(2) s(2)] by auto
  show ?thesis
    using 2 c1(1) object_identity.evolves_trans[OF id 1 2(2)] by (simp add: governance_state_eq_def)
qed

lemma admit_sound:
  assumes id: "object_identity (rt_ident rt)" and wf: "hooks_wf (rt_hooks rt)" "list_all stage_wf ss" "ctx_ok c"
    and run: "admit rt str_other nows dids ss c = Inr (Admitted c')"
  shows "evolves (rt_ident rt) c c' \<and> \<not> denied c' \<and> cx_status c' = STATUS_EXECUTING \<and>
    (cx_requires_approval c' \<longrightarrow> has_bound_approval rt str_other (nows 6) c') \<and>
    (cx_execution_mode c = IDEMPOTENT \<longrightarrow> truthy (cx_idempotency_key c)) \<and>
    (\<exists>c1 c2. evolves (rt_ident rt) c c1 \<and> ctx_ok c1 \<and> run_pre_pipeline rt False ss c1 = Inr c2 \<and> \<not> denied c2)"
proof -
  obtain c1 where s1: "enforce_idempotency_key (nows 0) (dids 0) c = Inr c1" "\<not> denied c1"
    and r1: "bindR (admit_pipeline rt nows dids ss c1) (\<lambda>c.
       bindR (enforce_required_approval rt str_other (nows 3) (dids 3) c) (\<lambda>c.
       if denied c then Inr (Denied c) else
       bindR (admit_start rt nows dids c) (\<lambda>c.
       bindR (enforce_required_approval rt str_other (nows 6) (dids 6) c) (\<lambda>c.
       Inr (admission_of c))))) = Inr (Admitted c')"
    using run by (auto simp: admit_def bindR_eq_Inr[of "enforce_idempotency_key (nows 0) (dids 0) c"] split: if_splits)
  have e1: "c1 = c" "cx_execution_mode c = IDEMPOTENT \<longrightarrow> truthy (cx_idempotency_key c)"
    using enforce_idempotency_key_Inr[OF wf(3) s1(1)] s1(2) by auto
  obtain c2 c3 where s2: "admit_pipeline rt nows dids ss c = Inr c2"
      "enforce_required_approval rt str_other (nows 3) (dids 3) c2 = Inr c3" "\<not> denied c3"
    and r2: "bindR (admit_start rt nows dids c3) (\<lambda>c.
       bindR (enforce_required_approval rt str_other (nows 6) (dids 6) c) (\<lambda>c.
       Inr (admission_of c))) = Inr (Admitted c')"
    using r1 e1(1) by (fastforce simp: bindR_eq_Inr split: if_splits)
  note p = admit_pipeline_Inr[OF id wf s2(1)]
  have c3: "c3 = c2" using enforce_required_approval_Inr[OF _ s2(2)] p s2(3) by blast
  obtain c4 c5 where s3: "admit_start rt nows dids c2 = Inr c4"
      "enforce_required_approval rt str_other (nows 6) (dids 6) c4 = Inr c5" "admission_of c5 = Admitted c'"
    using r2 c3 by (auto simp: bindR_eq_Inr)
  have nd: "\<not> denied c5" "c5 = c'" using s3(3) by (auto simp: admission_of_def split: if_splits)
  have nd2: "\<not> denied c2" using c3 s2(3) by simp
  have q: "ctx_ok c4" "evolves (rt_ident rt) c2 c4" "\<not> denied c4 \<longrightarrow> cx_status c4 = STATUS_EXECUTING"
    using admit_start_Inr[OF id wf(1) _ nd2 s3(1)] p by auto
  have "c' = c4" "cx_requires_approval c4 \<longrightarrow> has_bound_approval rt str_other (nows 6) c4"
    using enforce_required_approval_Inr[OF q(1) s3(2)] nd by auto
  moreover have "evolves (rt_ident rt) c c4"
    using object_identity.evolves_trans[OF id _ q(2)] p by blast
  ultimately show ?thesis
    using p q(3) nd nd2 e1(2) by simp
qed

lemma execute_gate_sound:
  assumes id: "object_identity (rt_ident rt)" and ok: "ctx_ok a" "ctx_ok cur"
    and run: "execute_gate rt str_other now did a cur = Inr (Admitted c')"
  shows "c' = cur \<and> evolves (rt_ident rt) a cur \<and> governance_state_eq cur a \<and> \<not> denied cur \<and>
    (cx_requires_approval cur \<longrightarrow> has_bound_approval rt str_other now cur)"
proof (cases "validate_middleware_transition (rt_ident rt) a cur EXECUTION")
  case (Inl e)
  then show ?thesis using run by (auto simp: execute_gate_def bindR_eq_Inr)
next
  case (Inr x)
  then have x: "x = cur" by (rule validate_transition_id)
  obtain y where y: "enforce_required_approval rt str_other now did cur = Inr y" "admission_of y = Admitted c'"
    using run Inr x by (auto simp: execute_gate_def bindR_eq_Inr)
  then have "\<not> denied y" "y = c'" by (auto simp: admission_of_def split: if_splits)
  then show ?thesis
    using enforce_required_approval_Inr[OF ok(2) y(1)]
      object_identity.transition_evolves[OF id Inr ok]
      object_identity.observer_keeps_governance[OF id Inr] x by auto
qed

section \<open>Fail closed, and where it is not\<close>

lemma pre_failure_total:
  assumes "ctx_ok c" "IDENTIFIER (st_did s)" "IDENTIFIER (''observer:'' @ mw_name (st_middleware s))"
    and "pre_failure s c e = Inl e'"
  shows "e' = CancelledError"
proof -
  have len: "length (mw_name (st_middleware s)) \<le> 256"
    using assms(3) by (auto simp: IDENTIFIER_def dest: ident_like_length)
  have "IDENTIFIER ''runtime''"
    by (simp add: IDENTIFIER_def ident_like_def is_alnum_def is_lower_def is_digit_def is_upper_def ccode_def)
  then have "\<exists>c'. deny_with now (st_did s) c (''gating middleware '' @ py_repr (mw_name (st_middleware s)) @
      '' failed closed'') ''runtime'' h = Inr c'" for now h
    using assms(1,2) len
    by (intro deny_with_total) (auto simp: is_blank_def py_isspace_def ccode_def Let_def py_repr_def)
  moreover have "\<exists>c'. deny_with now (st_did s) c (''critical observer '' @ py_repr (mw_name (st_middleware s)) @
      '' failed closed'') (''observer:'' @ mw_name (st_middleware s)) h = Inr c'" for now h
    using assms(1,2,3) len
    by (intro deny_with_total) (auto simp: is_blank_def py_isspace_def ccode_def Let_def py_repr_def)
  ultimately have "deny_with now (st_did s) c (''gating middleware '' @ py_repr (mw_name (st_middleware s)) @
      '' failed closed'') ''runtime'' h \<noteq> Inl x"
    "deny_with now (st_did s) c (''critical observer '' @ py_repr (mw_name (st_middleware s)) @
      '' failed closed'') (''observer:'' @ mw_name (st_middleware s)) h \<noteq> Inl x" for now h x
    by (metis sum.distinct(1))+
  then show ?thesis
    using assms(4) unfolding pre_failure_def Let_def by (simp only: split: if_splits) auto
qed

text \<open>
  A stage whose middleware has an identifier for a name never raises, except to pass on a
  cancellation: every other failure becomes a denial or a recorded, ignored observer error.
\<close>

definition stage_named :: "stage \<Rightarrow> bool" where
  "stage_named s = (IDENTIFIER (st_did s) \<and> IDENTIFIER (''observer:'' @ mw_name (st_middleware s)))"

lemma pre_invoke_total:
  assumes id: "object_identity (rt_ident rt)" and wf: "hooks_wf (rt_hooks rt)" "stage_wf s" "ctx_ok c"
    and named: "stage_named s" and run: "pre_invoke rt s c = Inl e'"
  shows "e' = CancelledError"
proof -
  let ?hook = "emit_middleware_hook rt (st_now s) (st_did s) (mw_name (st_middleware s))"
  have total: "e' = CancelledError" if "ctx_ok x" "pre_failure s x e = Inl e'" for x e
    using pre_failure_total[OF that(1) _ _ that(2)] named by (simp add: stage_named_def)
  show ?thesis
  proof (cases "?hook c True")
    case (Inl e)
    then show ?thesis using run total[OF wf(3)] by (simp add: pre_invoke_def Let_def)
  next
    case (Inr c1)
    have ok1: "ctx_ok c1" using emit_middleware_hook_evolves[OF id wf(1,3) Inr] by blast
    have "(\<exists>e. pre_failure s c1 e = Inl e') \<or> (\<exists>c2 e. ctx_ok c2 \<and> pre_failure s c2 e = Inl e')"
      using run Inr wf(2)
      by (auto simp: pre_invoke_def Let_def bindR_eq_Inr await_stage_def stage_wf_def
               dest!: validate_transition_id split: if_splits sum.splits)
    then show ?thesis using total ok1 by blast
  qed
qed

lemma run_pre_pipeline_total:
  assumes id: "object_identity (rt_ident rt)" and wf: "hooks_wf (rt_hooks rt)" "list_all stage_wf ss" "ctx_ok c"
    and named: "list_all stage_named ss" and run: "run_pre_pipeline rt ro ss c = Inl e'"
  shows "e' = CancelledError"
proof -
  have stages: "x = CancelledError"
    if "list_all stage_wf ss" "list_all stage_named ss" "ctx_ok c"
      "pipeline_run (pre_include ro) (pre_invoke rt) ss c = Inl x" for x
    using that
  proof (induction ss arbitrary: c)
    case (Cons s ss)
    show ?case
    proof (cases "pre_include ro s c \<and> (\<exists>c1. pre_invoke rt s c = Inr c1)")
      case True
      then obtain c1 where c1: "pre_invoke rt s c = Inr c1" by blast
      have "ctx_ok c1" using pre_invoke_evolves[OF id wf(1) _ Cons.prems(3) c1] Cons.prems(1) by simp
      then show ?thesis using Cons True c1 by simp
    next
      case False
      then show ?thesis
        using Cons pre_invoke_total[OF id wf(1) _ Cons.prems(3), of s x]
        by (cases "pre_invoke rt s c") (auto split: if_splits)
    qed
  qed simp
  show ?thesis
  proof (cases "pipeline_run (pre_include ro) (pre_invoke rt) ss c")
    case (Inl x)
    then show ?thesis using stages[OF wf(2) named wf(3) Inl] run by (simp add: run_pre_pipeline_def)
  next
    case (Inr c1)
    have "ctx_ok c1"
      using context_stages.run_evolves[OF pre_invoke_stages[OF id wf(1)] wf(2,3) Inr] by blast
    then have "\<exists>c2. evolve c1 [SetStatus STATUS_ALLOWED] = Inr c2" if "\<not> denied c1"
      using that by (auto simp: evolve_def forbidden_fields_def post_init_ctx ctx_ok_iff)
    then show ?thesis using run Inr by (auto simp: run_pre_pipeline_def split: if_splits)
  qed
qed

text \<open>
  A critical observer whose name is not an identifier (registration only asks for a non-blank name)
  does not fail closed: building the denial raises.
\<close>

lemma critical_observer_raises:
  assumes "mw_kind (st_middleware s) = OBSERVING" "mw_is_critical (st_middleware s) c"
    and "e \<noteq> CancelledError" "IDENTIFIER (st_did s)" "length (mw_name (st_middleware s)) \<le> 2000"
    and "\<not> IDENTIFIER (''observer:'' @ mw_name (st_middleware s))"
  shows "pre_failure s c e = Inl (ValueError ''source must be a stable 1-256 character identifier'')"
proof -
  let ?r = "''critical observer '' @ py_repr (mw_name (st_middleware s)) @ '' failed closed''"
  have "\<not> is_blank ?r" "length ?r \<le> 2048"
    using assms(5) by (auto simp: is_blank_def py_isspace_def ccode_def Let_def py_repr_def)
  then have "DecisionRecord_post_init (fresh_decision (st_now s) (st_did s) DENY ?r
               (''observer:'' @ mw_name (st_middleware s)) None) =
             Inl (ValueError ''source must be a stable 1-256 character identifier'')"
    using assms(4,6)
    unfolding DecisionRecord_post_init_def fresh_decision_def
    by (simp only: DecisionRecord.select_convs seq_all.simps decision_validators option.case raise_if_def
                   sum.case if_True if_False not_True_eq_False not_False_eq_True bindR_Inl not_le simp_thms) simp
  then show ?thesis
    using assms(1,2,3) by (simp add: pre_failure_def deny_with_def Let_def)
qed

end
