(* ===== verification/Effects.thy ===== *)
theory Effects
  imports Prelude
begin

text \<open>
  Code that changes state and may raise, as functions \<open>'s \<Rightarrow> 's \<times> ('e + 'a)\<close>: the changes made before an
  exception stay, as in Python.  \<open>keeps P m\<close> says that \<open>m\<close> preserves \<open>P\<close> whether it returns or raises, and
  \<open>triple P m Q E\<close> is the Hoare triple with a postcondition \<open>Q\<close> for a value and \<open>E\<close> for an exception.  The
  rules of the collections \<open>keeps_intros\<close> and \<open>triple_intros\<close> follow the shape of the program.
\<close>

named_theorems keeps_intros "invariants of effectful programs"
named_theorems triple_intros "Hoare rules of effectful programs"

type_synonym ('s, 'e, 'a) prog = "'s \<Rightarrow> 's \<times> ('e + 'a)"

definition returnX :: "'a \<Rightarrow> ('s, 'e, 'a) prog" where
  "returnX a = (\<lambda>s. (s, Inr a))"

definition raiseX :: "'e \<Rightarrow> ('s, 'e, 'a) prog" where
  "raiseX e = (\<lambda>s. (s, Inl e))"

definition liftX :: "'e + 'a \<Rightarrow> ('s, 'e, 'a) prog" where
  "liftX r = (\<lambda>s. (s, r))"

definition getX :: "('s \<Rightarrow> 'a) \<Rightarrow> ('s, 'e, 'a) prog" where
  "getX f = (\<lambda>s. (s, Inr (f s)))"

definition modX :: "('s \<Rightarrow> 's) \<Rightarrow> ('s, 'e, unit) prog" where
  "modX f = (\<lambda>s. (f s, Inr ()))"

definition bindX :: "('s, 'e, 'a) prog \<Rightarrow> ('a \<Rightarrow> ('s, 'e, 'b) prog) \<Rightarrow> ('s, 'e, 'b) prog" where
  "bindX m f = (\<lambda>s. case m s of (s', Inl e) \<Rightarrow> (s', Inl e) | (s', Inr a) \<Rightarrow> f a s')"

abbreviation thenX :: "('s, 'e, 'a) prog \<Rightarrow> ('s, 'e, 'b) prog \<Rightarrow> ('s, 'e, 'b) prog" where
  "thenX m n \<equiv> bindX m (\<lambda>_. n)"

text \<open>\<open>try: m except: h\<close>, where the handler raises again what it does not handle.\<close>

definition catchX :: "('s, 'e, 'a) prog \<Rightarrow> ('e \<Rightarrow> ('s, 'e, 'a) prog) \<Rightarrow> ('s, 'e, 'a) prog" where
  "catchX m h = (\<lambda>s. case m s of (s', Inl e) \<Rightarrow> h e s' | (s', Inr a) \<Rightarrow> (s', Inr a))"

section \<open>Evaluation\<close>

lemma returnX_run [simp]: "returnX a s = (s, Inr a)"
  by (simp add: returnX_def)

lemma raiseX_run [simp]: "raiseX e s = (s, Inl e)"
  by (simp add: raiseX_def)

lemma liftX_run [simp]: "liftX r s = (s, r)"
  by (simp add: liftX_def)

lemma getX_run [simp]: "getX f s = (s, Inr (f s))"
  by (simp add: getX_def)

lemma modX_run [simp]: "modX f s = (f s, Inr ())"
  by (simp add: modX_def)

lemma bindX_Inr: "m s = (s', Inr a) \<Longrightarrow> bindX m f s = f a s'"
  by (simp add: bindX_def)

lemma bindX_Inl: "m s = (s', Inl e) \<Longrightarrow> bindX m f s = (s', Inl e)"
  by (simp add: bindX_def)

lemma catchX_Inr: "m s = (s', Inr a) \<Longrightarrow> catchX m h s = (s', Inr a)"
  by (simp add: catchX_def)

lemma catchX_Inl: "m s = (s', Inl e) \<Longrightarrow> catchX m h s = h e s'"
  by (simp add: catchX_def)

lemma bindX_basic [simp]:
  "bindX (returnX a) f = f a" "bindX (raiseX e) f = raiseX e"
  "bindX (getX g) f s = f (g s) s" "bindX (modX h) k s = k () (h s)"
  "bindX (liftX (Inr a)) f = f a" "bindX (liftX (Inl e)) f = raiseX e"
  by (auto simp: bindX_def returnX_def raiseX_def getX_def modX_def liftX_def)

lemma bindX_assoc: "bindX (bindX m f) g = bindX m (\<lambda>x. bindX (f x) g)"
  by (rule ext) (simp add: bindX_def split: prod.splits sum.splits)

section \<open>Invariants\<close>

definition keeps :: "('s \<Rightarrow> bool) \<Rightarrow> ('s, 'e, 'a) prog \<Rightarrow> bool" where
  "keeps P m = (\<forall>s. P s \<longrightarrow> P (fst (m s)))"

lemma keepsI: "(\<And>s. P s \<Longrightarrow> P (fst (m s))) \<Longrightarrow> keeps P m"
  by (simp add: keeps_def)

lemma keepsD: "keeps P m \<Longrightarrow> P s \<Longrightarrow> P (fst (m s))"
  by (simp add: keeps_def)

lemma keeps_basic [keeps_intros]:
  "keeps P (returnX a)" "keeps P (raiseX e)" "keeps P (liftX r)" "keeps P (getX g)"
  by (simp_all add: keeps_def)

lemma keeps_modX [keeps_intros]: "(\<And>s. P s \<Longrightarrow> P (f s)) \<Longrightarrow> keeps P (modX f)"
  by (simp add: keeps_def)

lemma keeps_bindX [keeps_intros]: "keeps P m \<Longrightarrow> (\<And>a. keeps P (f a)) \<Longrightarrow> keeps P (bindX m f)"
  by (rule keepsI) (simp add: bindX_def keeps_def split: prod.split sum.split, metis fst_conv)

lemma keeps_catchX [keeps_intros]: "keeps P m \<Longrightarrow> (\<And>e. keeps P (h e)) \<Longrightarrow> keeps P (catchX m h)"
  by (rule keepsI) (simp add: catchX_def keeps_def split: prod.split sum.split, metis fst_conv)

lemma keeps_If [keeps_intros]: "(b \<Longrightarrow> keeps P m) \<Longrightarrow> (\<not> b \<Longrightarrow> keeps P n) \<Longrightarrow> keeps P (if b then m else n)"
  by simp

lemma keeps_option [keeps_intros]:
  "keeps P m \<Longrightarrow> (\<And>a. x = Some a \<Longrightarrow> keeps P (f a)) \<Longrightarrow> keeps P (case x of None \<Rightarrow> m | Some a \<Rightarrow> f a)"
  by (simp split: option.splits)

lemma keeps_sum [keeps_intros]:
  "(\<And>e. x = Inl e \<Longrightarrow> keeps P (f e)) \<Longrightarrow> (\<And>a. x = Inr a \<Longrightarrow> keeps P (g a)) \<Longrightarrow>
   keeps P (case x of Inl e \<Rightarrow> f e | Inr a \<Rightarrow> g a)"
  by (simp split: sum.splits)

lemma keeps_prod [keeps_intros]: "(\<And>a b. x = (a, b) \<Longrightarrow> keeps P (f a b)) \<Longrightarrow> keeps P (case x of (a, b) \<Rightarrow> f a b)"
  by (simp split: prod.splits)

lemma keeps_conj: "keeps P m \<Longrightarrow> keeps Q m \<Longrightarrow> keeps (\<lambda>s. P s \<and> Q s) m"
  by (simp add: keeps_def)

text \<open>Runs, one step at a time: a bind that returned, and what holds in the end state of a bind.\<close>

lemma bindX_returned:
  assumes "bindX m f s = (s', Inr b)"
  shows "\<exists>s1 a. m s = (s1, Inr a) \<and> f a s1 = (s', Inr b)"
  using assms by (cases "m s"; cases "snd (m s)") (auto simp: bindX_def)

lemma catchX_returned:
  "catchX m h s = (s', Inr a) \<Longrightarrow>
   m s = (s', Inr a) \<or> (\<exists>s1 e. m s = (s1, Inl e) \<and> h e s1 = (s', Inr a))"
  by (auto simp: catchX_def split: prod.splits sum.splits)

lemma bindX_end:
  assumes "P (fst (m s))" "\<And>s1 a. m s = (s1, Inr a) \<Longrightarrow> P (fst (f a s1))"
  shows "P (fst (bindX m f s))"
proof (cases "m s")
  case (Pair s1 r)
  then show ?thesis using assms by (cases r) (simp_all add: bindX_Inl bindX_Inr)
qed

lemma catchX_end:
  assumes "\<And>s1 a. m s = (s1, Inr a) \<Longrightarrow> P s1" "\<And>s1 e. m s = (s1, Inl e) \<Longrightarrow> P (fst (h e s1))"
  shows "P (fst (catchX m h s))"
proof (cases "m s")
  case (Pair s1 r)
  then show ?thesis using assms by (cases r) (simp_all add: catchX_Inl catchX_Inr)
qed

section \<open>Hoare triples\<close>

definition triple ::
  "('s \<Rightarrow> bool) \<Rightarrow> ('s, 'e, 'a) prog \<Rightarrow> ('a \<Rightarrow> 's \<Rightarrow> bool) \<Rightarrow> ('e \<Rightarrow> 's \<Rightarrow> bool) \<Rightarrow> bool" where
  "triple P m Q E =
     (\<forall>s. P s \<longrightarrow> (case snd (m s) of Inl e \<Rightarrow> E e (fst (m s)) | Inr a \<Rightarrow> Q a (fst (m s))))"

lemma tripleI:
  "(\<And>s s' a. P s \<Longrightarrow> m s = (s', Inr a) \<Longrightarrow> Q a s') \<Longrightarrow> (\<And>s s' e. P s \<Longrightarrow> m s = (s', Inl e) \<Longrightarrow> E e s') \<Longrightarrow>
   triple P m Q E"
  unfolding triple_def by (metis prod.collapse sum.case sum.exhaust)

lemma tripleD_Inr: "triple P m Q E \<Longrightarrow> P s \<Longrightarrow> m s = (s', Inr a) \<Longrightarrow> Q a s'"
  unfolding triple_def by (metis fst_conv snd_conv sum.case(2))

lemma tripleD_Inl: "triple P m Q E \<Longrightarrow> P s \<Longrightarrow> m s = (s', Inl e) \<Longrightarrow> E e s'"
  unfolding triple_def by (metis fst_conv snd_conv sum.case(1))

lemma triple_return [triple_intros]: "(\<And>s. P s \<Longrightarrow> Q a s) \<Longrightarrow> triple P (returnX a) Q E"
  by (simp add: triple_def)

lemma triple_raise [triple_intros]: "(\<And>s. P s \<Longrightarrow> E e s) \<Longrightarrow> triple P (raiseX e) Q E"
  by (simp add: triple_def)

lemma triple_lift:
  "(\<And>s a. P s \<Longrightarrow> r = Inr a \<Longrightarrow> Q a s) \<Longrightarrow> (\<And>s e. P s \<Longrightarrow> r = Inl e \<Longrightarrow> E e s) \<Longrightarrow> triple P (liftX r) Q E"
  by (cases r) (simp_all add: triple_def)

lemma triple_get [triple_intros]: "(\<And>s. P s \<Longrightarrow> Q (g s) s) \<Longrightarrow> triple P (getX g) Q E"
  by (simp add: triple_def)

lemma triple_mod [triple_intros]: "(\<And>s. P s \<Longrightarrow> Q () (f s)) \<Longrightarrow> triple P (modX f) Q E"
  by (simp add: triple_def)

lemma triple_bind:
  assumes "triple P m R E" "\<And>a. triple (R a) (f a) Q E"
  shows "triple P (bindX m f) Q E"
proof (rule tripleI)
  fix s s' a assume P: "P s" and run: "bindX m f s = (s', Inr a)"
  then obtain s1 b where "m s = (s1, Inr b)" "f b s1 = (s', Inr a)"
    by (auto simp: bindX_def split: prod.splits sum.splits)
  then show "Q a s'" using tripleD_Inr[OF assms(1) P] tripleD_Inr[OF assms(2)] by blast
next
  fix s s' e assume P: "P s" and run: "bindX m f s = (s', Inl e)"
  show "E e s'"
  proof (cases "snd (m s)")
    case (Inl x)
    then have "m s = (s', Inl e)" using run by (auto simp: bindX_def split: prod.splits)
    then show ?thesis by (rule tripleD_Inl[OF assms(1) P])
  next
    case (Inr b)
    then have "m s = (fst (m s), Inr b)" "f b (fst (m s)) = (s', Inl e)"
      using run by (auto simp: bindX_def split: prod.splits)
    then show ?thesis using tripleD_Inr[OF assms(1) P] tripleD_Inl[OF assms(2)] by blast
  qed
qed

lemma triple_catch:
  assumes "triple P m Q R" "\<And>e. triple (R e) (h e) Q E"
  shows "triple P (catchX m h) Q E"
proof (rule tripleI)
  fix s s' a assume P: "P s" and run: "catchX m h s = (s', Inr a)"
  show "Q a s'"
  proof (cases "snd (m s)")
    case (Inl e)
    then have "m s = (fst (m s), Inl e)" "h e (fst (m s)) = (s', Inr a)"
      using run by (auto simp: catchX_def split: prod.splits)
    then show ?thesis using tripleD_Inl[OF assms(1) P] tripleD_Inr[OF assms(2)] by blast
  next
    case (Inr b)
    then have "m s = (s', Inr a)" using run by (auto simp: catchX_def split: prod.splits)
    then show ?thesis by (rule tripleD_Inr[OF assms(1) P])
  qed
next
  fix s s' e assume P: "P s" and run: "catchX m h s = (s', Inl e)"
  then obtain s1 x where "m s = (s1, Inl x)" "h x s1 = (s', Inl e)"
    by (auto simp: catchX_def split: prod.splits sum.splits)
  then show "E e s'" using tripleD_Inl[OF assms(1) P] tripleD_Inl[OF assms(2)] by blast
qed

text \<open>Reading the state fixes the value read.\<close>

lemma triple_get_bind:
  assumes "\<And>x. triple (\<lambda>s. P s \<and> g s = x) (f x) Q E"
  shows "triple P (bindX (getX g) f) Q E"
  by (rule tripleI) (use tripleD_Inr[OF assms] tripleD_Inl[OF assms] in auto)

text \<open>What a program returns, whatever state it starts in.\<close>

definition returns :: "('s, 'e, 'a) prog \<Rightarrow> ('a \<Rightarrow> bool) \<Rightarrow> bool" where
  "returns m F = (\<forall>s s' a. m s = (s', Inr a) \<longrightarrow> F a)"

lemma returnsI: "(\<And>s s' a. m s = (s', Inr a) \<Longrightarrow> F a) \<Longrightarrow> returns m F"
  by (auto simp: returns_def)

lemma returnsD: "returns m F \<Longrightarrow> m s = (s', Inr a) \<Longrightarrow> F a"
  by (auto simp: returns_def)

lemma returns_bind:
  assumes "returns m G" "\<And>a. G a \<Longrightarrow> returns (f a) F"
  shows "returns (bindX m f) F"
proof (rule returnsI)
  fix s s' b assume "bindX m f s = (s', Inr b)"
  then obtain s1 a where "m s = (s1, Inr a)" "f a s1 = (s', Inr b)"
    by (auto simp: bindX_def split: prod.splits sum.splits)
  then show "F b" using assms returnsD by metis
qed

lemma returns_catch:
  assumes "returns m F" "\<And>e. returns (h e) F"
  shows "returns (catchX m h) F"
proof (rule returnsI)
  fix s s' b assume run: "catchX m h s = (s', Inr b)"
  show "F b"
  proof (cases "m s")
    case (Pair s1 r)
    then show ?thesis using run assms by (cases r) (auto simp: catchX_def returns_def)
  qed
qed

lemma returns_basic [simp]:
  "returns (returnX a) F = F a" "returns (raiseX e) F" "returns (liftX r) F = (\<forall>a. r = Inr a \<longrightarrow> F a)"
  "returns m (\<lambda>_. True)"
  by (auto simp: returns_def)

lemma triple_returns: "triple P m Q E \<Longrightarrow> returns m F \<Longrightarrow> triple P m (\<lambda>a s. Q a s \<and> F a) E"
  by (rule tripleI) (use tripleD_Inr tripleD_Inl returnsD in fast)+

lemma triple_If [triple_intros]:
  "(b \<Longrightarrow> triple P m Q E) \<Longrightarrow> (\<not> b \<Longrightarrow> triple P n Q E) \<Longrightarrow> triple P (if b then m else n) Q E"
  by simp

lemma triple_option [triple_intros]:
  "(x = None \<Longrightarrow> triple P m Q E) \<Longrightarrow> (\<And>a. x = Some a \<Longrightarrow> triple P (f a) Q E) \<Longrightarrow>
   triple P (case x of None \<Rightarrow> m | Some a \<Rightarrow> f a) Q E"
  by (cases x) simp_all

lemma triple_sum [triple_intros]:
  "(\<And>a. x = Inl a \<Longrightarrow> triple P (f a) Q E) \<Longrightarrow> (\<And>a. x = Inr a \<Longrightarrow> triple P (g a) Q E) \<Longrightarrow>
   triple P (case x of Inl a \<Rightarrow> f a | Inr a \<Rightarrow> g a) Q E"
  by (cases x) simp_all

lemma triple_prod [triple_intros]:
  "(\<And>a b. x = (a, b) \<Longrightarrow> triple P (f a b) Q E) \<Longrightarrow> triple P (case x of (a, b) \<Rightarrow> f a b) Q E"
  by (cases x) simp

lemma triple_keeps: "keeps P m \<Longrightarrow> triple P m (\<lambda>_. P) (\<lambda>_. P)"
  by (rule tripleI) (metis fst_conv keepsD)+

lemma keeps_triple: "triple P m (\<lambda>_. P) (\<lambda>_. P) \<Longrightarrow> keeps P m"
  by (rule keepsI) (metis prod.collapse sum.exhaust tripleD_Inl tripleD_Inr)

lemma triple_conseq:
  assumes "triple P m Q E" "\<And>s. P' s \<Longrightarrow> P s" "\<And>a s. Q a s \<Longrightarrow> Q' a s" "\<And>e s. E e s \<Longrightarrow> E' e s"
  shows "triple P' m Q' E'"
  by (rule tripleI) (use assms tripleD_Inr[OF assms(1)] tripleD_Inl[OF assms(1)] in blast)+

lemma triple_pre: "triple P m Q E \<Longrightarrow> (\<And>s. P' s \<Longrightarrow> P s) \<Longrightarrow> triple P' m Q E"
  by (rule triple_conseq)

lemma triple_post:
  "triple P m Q E \<Longrightarrow> (\<And>a s. Q a s \<Longrightarrow> Q' a s) \<Longrightarrow> (\<And>e s. E e s \<Longrightarrow> E' e s) \<Longrightarrow> triple P m Q' E'"
  by (rule triple_conseq)

lemma triple_conj:
  assumes "triple P m Q E" "triple P' m Q' E'"
  shows "triple (\<lambda>s. P s \<and> P' s) m (\<lambda>a s. Q a s \<and> Q' a s) (\<lambda>e s. E e s \<and> E' e s)"
  by (rule tripleI) (use tripleD_Inr[OF assms(1)] tripleD_Inr[OF assms(2)]
      tripleD_Inl[OF assms(1)] tripleD_Inl[OF assms(2)] in blast)+

end
