(* ===== verification/DecisionGate.thy ===== *)
theory DecisionGate
  imports ApprovalContract Governance Effects
begin

text \<open>
  The decision middleware (\<open>middleware/decision.py\<close>): it asks a provider or an approval store for the human
  decision on a call that requires one, keeps the reservation of an allowed call in memory, commits it at the
  execution boundary and releases it when the call does not run.  The store is a machine on the operations of
  \<open>ApprovalContract\<close>.  Each method reads its clocks, fresh identifiers and tokens from the record numbered by
  the calls made so far.
\<close>

section \<open>Configuration and state\<close>

record clock_readings =
  ck_now :: "nat \<Rightarrow> time"
  ck_monotonic :: time
  ck_did :: "nat \<Rightarrow> string"
  ck_token :: string

record 'st decision_config =
  dc_provider :: "(ExecutionContext \<Rightarrow> ApprovalRequest \<Rightarrow> DecisionRecord res) option"
  dc_store :: "('st \<Rightarrow> approval_op \<Rightarrow> 'st \<times> approval_out) option"
  dc_approval_ttl :: int
  dc_reservation_ttl :: int
  dc_require_approver :: bool
  dc_digest_arguments :: "dict \<Rightarrow> string"
  dc_str_other :: "json \<Rightarrow> string"
  dc_clock :: "nat \<Rightarrow> clock_readings"

text \<open>
  \<open>DecisionMiddleware.__init__\<close> on durations in microseconds.  The outcome of the provider includes its
  timeout, so the timeout itself is only checked.
\<close>

definition DecisionMiddleware_init ::
  "'st decision_config \<Rightarrow> int option \<Rightarrow> int option \<Rightarrow> int \<Rightarrow> bool \<Rightarrow> 'st decision_config res" where
  "DecisionMiddleware_init cfg provider_timeout approval_ttl reservation_ttl has_identity_provider =
     seqR (seq_all
       [raise_if (dc_provider cfg = None \<and> dc_store cfg = None) (ValueError ''provider or store is required''),
        raise_if (case provider_timeout of None \<Rightarrow> False | Some t \<Rightarrow> t \<le> 0)
          (ValueError ''provider_timeout_seconds must be greater than zero''),
        raise_if (case approval_ttl of None \<Rightarrow> False | Some t \<Rightarrow> t \<le> 0)
          (ValueError ''approval_ttl_seconds must be greater than zero''),
        raise_if (reservation_ttl \<le> 0) (ValueError ''reservation_ttl_seconds must be greater than zero''),
        raise_if has_identity_provider
          (ValueError ''identity_provider must be configured on Runtime so identity is verified once at the trust boundary'')])
     (Inr (cfg\<lparr>dc_approval_ttl := (case approval_ttl of None \<Rightarrow> 300000000 | Some t \<Rightarrow> t),
               dc_reservation_ttl := reservation_ttl\<rparr>))"

record 'st decision_gate =
  dg_store :: 'st
  dg_reservations :: "string \<rightharpoonup> ApprovalRequest \<times> string \<times> time"
  dg_calls :: nat

type_synonym ('st, 'a) gprog = "('st decision_gate, exn, 'a) prog"

definition readings :: "'st decision_config \<Rightarrow> ('st, clock_readings) gprog" where
  "readings cfg = (\<lambda>g. (g\<lparr>dg_calls := Suc (dg_calls g)\<rparr>, Inr (dc_clock cfg (dg_calls g))))"

section \<open>Calls of the store\<close>

definition store_call :: "'st decision_config \<Rightarrow> approval_op \<Rightarrow> ('st, approval_out) gprog" where
  "store_call cfg op =
     (\<lambda>g. case dc_store cfg of
        None \<Rightarrow> (g, Inl AssertionError)
      | Some ex \<Rightarrow> (case ex (dg_store g) op of (st, out) \<Rightarrow> (g\<lparr>dg_store := st\<rparr>, Inr out)))"

definition store_pending :: "'st decision_config \<Rightarrow> clock_readings \<Rightarrow> ApprovalRequest \<Rightarrow> ('st, unit) gprog" where
  "store_pending cfg k r =
     bindX (store_call cfg (Pending (ck_now k 2) (ck_did k 0) r))
       (\<lambda>out. liftX (case out of Done \<Rightarrow> Inr () | Raised e \<Rightarrow> Inl e | _ \<Rightarrow> Inl AssertionError))"

definition store_decide ::
  "'st decision_config \<Rightarrow> clock_readings \<Rightarrow> string \<Rightarrow> DecisionRecord \<Rightarrow> ('st, DecisionRecord) gprog" where
  "store_decide cfg k rid d =
     bindX (store_call cfg (Decide (ck_now k 4) rid d))
       (\<lambda>out. liftX (case out of Decided d' \<Rightarrow> Inr d' | Raised e \<Rightarrow> Inl e | _ \<Rightarrow> Inl AssertionError))"

definition store_reserve ::
  "'st decision_config \<Rightarrow> clock_readings \<Rightarrow> ApprovalRequest \<Rightarrow> ('st, ApprovalReservation) gprog" where
  "store_reserve cfg k r =
     bindX (store_call cfg (Reserve (ck_now k 5) (ck_did k 1) (ck_token k) r (dc_reservation_ttl cfg)))
       (\<lambda>out. liftX (case out of Reserved rv \<Rightarrow> Inr rv | Raised e \<Rightarrow> Inl e | _ \<Rightarrow> Inl AssertionError))"

definition store_commit ::
  "'st decision_config \<Rightarrow> clock_readings \<Rightarrow> ApprovalRequest \<Rightarrow> string \<Rightarrow> ('st, DecisionRecord) gprog" where
  "store_commit cfg k r tok =
     bindX (store_call cfg (Commit (ck_now k 0) (ck_did k 0) r tok))
       (\<lambda>out. liftX (case out of Decided d \<Rightarrow> Inr d | Raised e \<Rightarrow> Inl e | _ \<Rightarrow> Inl AssertionError))"

definition store_release :: "'st decision_config \<Rightarrow> string \<Rightarrow> string \<Rightarrow> ('st, bool) gprog" where
  "store_release cfg rid tok =
     bindX (store_call cfg (Release rid tok))
       (\<lambda>out. liftX (case out of Released b \<Rightarrow> Inr b | Raised e \<Rightarrow> Inl e | _ \<Rightarrow> Inl AssertionError))"

section \<open>Reservations\<close>

definition prune_expired_reservations ::
  "time \<Rightarrow> (string \<rightharpoonup> ApprovalRequest \<times> string \<times> time) \<Rightarrow> (string \<rightharpoonup> ApprovalRequest \<times> string \<times> time)" where
  "prune_expired_reservations now m =
     (\<lambda>key. case m key of None \<Rightarrow> None | Some (r, tok, deadline) \<Rightarrow> if deadline \<le> now then None else Some (r, tok, deadline))"

definition remember_reservation ::
  "'st decision_config \<Rightarrow> clock_readings \<Rightarrow> string \<Rightarrow> ApprovalRequest \<Rightarrow> string \<Rightarrow> ('st, unit) gprog" where
  "remember_reservation cfg k trace_id r tok =
     modX (\<lambda>g. g\<lparr>dg_reservations :=
       (prune_expired_reservations (ck_monotonic k) (dg_reservations g))
         (trace_id \<mapsto> (r, tok, ck_monotonic k + dc_reservation_ttl cfg))\<rparr>)"

definition pop_reservation :: "clock_readings \<Rightarrow> string \<Rightarrow> ('st, (ApprovalRequest \<times> string) option) gprog" where
  "pop_reservation k trace_id =
     (\<lambda>g. let m = prune_expired_reservations (ck_monotonic k) (dg_reservations g) in
        (g\<lparr>dg_reservations := m(trace_id := None)\<rparr>,
         Inr (map_option (\<lambda>(r, tok, deadline). (r, tok)) (m trace_id))))"

section \<open>Asking for the decision\<close>

definition is_value_error :: "exn \<Rightarrow> bool" where
  "is_value_error e = (case e of ValueError _ \<Rightarrow> True | ReconciliationValidationError _ \<Rightarrow> True | _ \<Rightarrow> False)"

definition is_timeout_error :: "exn \<Rightarrow> bool" where
  "is_timeout_error e = (case e of TimeoutError _ \<Rightarrow> True | StageTimeoutError _ \<Rightarrow> True | _ \<Rightarrow> False)"

definition gate_denial :: "clock_readings \<Rightarrow> nat \<Rightarrow> ApprovalRequest \<Rightarrow> string \<Rightarrow> DecisionRecord res" where
  "gate_denial k i r reason = denial_for_request (ck_now k i) (ck_did k i) r reason ''decision''"

text \<open>\<open>_decide\<close>\<close>

definition provider_decision ::
  "clock_readings \<Rightarrow> (ExecutionContext \<Rightarrow> ApprovalRequest \<Rightarrow> DecisionRecord res) \<Rightarrow> ExecutionContext \<Rightarrow> ApprovalRequest
     \<Rightarrow> DecisionRecord res" where
  "provider_decision k provider c r =
     (case bindR (provider c r) (\<lambda>d.
             if dr_outcome d = REQUIRE_HUMAN
             then gate_denial k 3 r ''human decision provider must return allow or deny''
             else bind_to (ck_now k 3) d r None) of
        Inr d \<Rightarrow> Inr d
      | Inl e \<Rightarrow>
          if is_timeout_error e then gate_denial k 3 r ''decision provider timed out''
          else if is_value_error e then gate_denial k 3 r ''decision provider returned an invalid decision''
          else Inl e)"

definition approval_request ::
  "'st decision_config \<Rightarrow> clock_readings \<Rightarrow> ExecutionContext \<Rightarrow> ApprovalRequest res" where
  "approval_request cfg k c =
     ApprovalRequest_post_init (dc_digest_arguments cfg)
       \<lparr>ar_trace_id = cx_trace_id c,
        ar_tool_name = tc_name (cx_tool_call c),
        ar_arguments =
          (case cx_bound_action c of
             Some a \<Rightarrow> [(''parameters'', JObj (ba_parameters a))]
           | None \<Rightarrow> [(''args'', JList (tc_args (cx_tool_call c))), (''kwargs'', JObj (tc_kwargs (cx_tool_call c)))]),
        ar_risk_tier = tier_name (cx_risk_tier c),
        ar_reason = ''tool requires human decision'',
        ar_request_id = cx_request_id c,
        ar_issued_at = ck_now k 1,
        ar_expires_at = Some (ck_now k 0 + dc_approval_ttl cfg),
        ar_arguments_digest = [],
        ar_policy_version = metadata_text (dc_str_other cfg) (cx_metadata c) ''policy_version'',
        ar_subject = cx_user c,
        ar_tenant = cx_tenant c,
        ar_identity_issuer = metadata_text (dc_str_other cfg) (cx_metadata c) ''identity_issuer'',
        ar_arguments_redacted = False,
        ar_policy_digest = metadata_text (dc_str_other cfg) (cx_metadata c) ''policy_digest'',
        ar_action_digest = map_option ba_action_digest (cx_bound_action c)\<rparr>"

definition optional_json :: "string option \<Rightarrow> json" where
  "optional_json x = (case x of None \<Rightarrow> JNull | Some s \<Rightarrow> JStr s)"

definition reserve_decision ::
  "'st decision_config \<Rightarrow> clock_readings \<Rightarrow> ExecutionContext \<Rightarrow> ApprovalRequest \<Rightarrow> ('st, DecisionRecord) gprog" where
  "reserve_decision cfg k c r =
     bindX (store_reserve cfg k r) (\<lambda>rv.
     thenX (case rv_token rv of
              None \<Rightarrow> returnX ()
            | Some tok \<Rightarrow> remember_reservation cfg k (cx_trace_id c) r tok)
       (returnX (rv_decision rv)))"

definition obtain_decision ::
  "'st decision_config \<Rightarrow> clock_readings \<Rightarrow> ExecutionContext \<Rightarrow> ApprovalRequest \<Rightarrow> ('st, DecisionRecord) gprog" where
  "obtain_decision cfg k c r =
     (case dc_provider cfg of
        Some provider \<Rightarrow>
          bindX (liftX (provider_decision k provider c r)) (\<lambda>d.
          if dc_store cfg = None then returnX d
          else thenX (store_decide cfg k (ar_request_id r) d) (reserve_decision cfg k c r))
      | None \<Rightarrow> reserve_decision cfg k c r)"

text \<open>The decision that counts: valid for the request, and with an approver if one is required.\<close>

definition accepted_decision ::
  "'st decision_config \<Rightarrow> clock_readings \<Rightarrow> ApprovalRequest \<Rightarrow> DecisionRecord \<Rightarrow> DecisionRecord res" where
  "accepted_decision cfg k r d =
     bindR (case seqR (raise_if (is_expired (ar_expires_at r) (ck_now k 6)) (ValueError ''approval request expired''))
                   (validate_for (ck_now k 6) d r) of
              Inr _ \<Rightarrow> Inr d
            | Inl e \<Rightarrow> if is_value_error e then gate_denial k 6 r (exn_msg e) else Inl e)
       (\<lambda>d. if dr_outcome d = ALLOW \<and> dc_require_approver cfg \<and> \<not> truthy (dr_approver d)
            then gate_denial k 7 r ''approval allow decision requires an approver''
            else Inr d)"

section \<open>The methods of the middleware\<close>

definition release_approval :: "'st decision_config \<Rightarrow> ExecutionContext \<Rightarrow> ('st, ExecutionContext) gprog" where
  "release_approval cfg c =
     bindX (readings cfg) (\<lambda>k.
     bindX (pop_reservation k (cx_trace_id c)) (\<lambda>rv.
     case rv of
       None \<Rightarrow> returnX c
     | Some (r, tok) \<Rightarrow>
         if dc_store cfg = None then returnX c
         else catchX
           (thenX (store_release cfg (ar_request_id r) tok)
             (returnX (append_history c (history_entry (ck_now k 0) ''decision'' ''released''
                ''approval reservation released before execution'' []))))
           (\<lambda>e. if e = CancelledError then raiseX e
                else returnX (append_history c (history_entry (ck_now k 0) ''decision'' ''error''
                  ''approval reservation release failed; lease recovery required'' [])))))"

definition missing_reservation :: "'st decision_config \<Rightarrow> clock_readings \<Rightarrow> ExecutionContext \<Rightarrow> ExecutionContext res" where
  "missing_reservation cfg k c =
     bindR (DecisionRecord_post_init
       ((fresh_decision (ck_now k 0) (ck_did k 0) DENY
           ''approval reservation was unavailable at the execution boundary'' ''decision'' None)
        \<lparr>dr_request_id := cx_approval_request_id c, dr_tool_name := Some (tc_name (cx_tool_call c)),
         dr_subject := cx_user c, dr_tenant := cx_tenant c,
         dr_identity_issuer := metadata_text (dc_str_other cfg) (cx_metadata c) ''identity_issuer''\<rparr>)) (\<lambda>d.
     bindR (with_decision c d) (\<lambda>c'.
     Inr (append_history c' (history_entry (ck_now k 0) ''decision'' ''deny'' (dr_reason d)
            [(''request_id'', optional_json (dr_request_id d))]))))"

text \<open>The body of the try statement of \<open>commit_approval\<close>.\<close>

definition commit_decision ::
  "'st decision_config \<Rightarrow> clock_readings \<Rightarrow> ExecutionContext \<Rightarrow> ApprovalRequest \<Rightarrow> string \<Rightarrow> ('st, DecisionRecord) gprog" where
  "commit_decision cfg k c r tok =
     bindX (store_commit cfg k r tok) (\<lambda>d.
     thenX (liftX (validate_for (ck_now k 1) d r))
     (if (case cx_decision c of None \<Rightarrow> True | Some d' \<Rightarrow> dr_decision_id d' \<noteq> dr_decision_id d)
      then raiseX (ValueError ''approval decision changed before execution'')
      else returnX d))"

definition committed_context ::
  "clock_readings \<Rightarrow> ExecutionContext \<Rightarrow> ApprovalRequest \<Rightarrow> DecisionRecord \<Rightarrow> ExecutionContext res" where
  "committed_context k c r d =
     bindR (with_decision c d) (\<lambda>c'.
     Inr (append_history c'
       (history_entry (ck_now k 2) ''decision''
          (if dr_outcome d = ALLOW then ''committed'' else ''deny'')
          (if dr_outcome d = ALLOW then ''approval consumed at execution boundary'' else dr_reason d)
          [(''request_id'', JStr (ar_request_id r))])))"

definition commit_approval :: "'st decision_config \<Rightarrow> ExecutionContext \<Rightarrow> ('st, ExecutionContext) gprog" where
  "commit_approval cfg c =
     bindX (readings cfg) (\<lambda>k.
     bindX (pop_reservation k (cx_trace_id c)) (\<lambda>rv.
     if dc_store cfg = None then returnX c
     else case rv of
       None \<Rightarrow> if \<not> cx_approval_granted c then returnX c else liftX (missing_reservation cfg k c)
     | Some (r, tok) \<Rightarrow>
         bindX (catchX (commit_decision cfg k c r tok)
           (\<lambda>e. if e = CancelledError then raiseX e
                else thenX (store_release cfg (ar_request_id r) tok)
                       (liftX (gate_denial k 1 r ''approval reservation could not be committed''))))
         (\<lambda>d. liftX (committed_context k c r d))))"

text \<open>The context \<open>process\<close> returns for a decision.\<close>

definition decided_context ::
  "clock_readings \<Rightarrow> ExecutionContext \<Rightarrow> ApprovalRequest \<Rightarrow> DecisionRecord \<Rightarrow> ExecutionContext res" where
  "decided_context k c r d =
     bindR (with_decision c d) (\<lambda>c'.
     bindR (if dr_outcome d = ALLOW
            then evolve c' [SetApprovalGranted True, SetApprovalRequestId (Some (ar_request_id r)),
                            SetApprovalDecisionId (Some (dr_decision_id d))]
            else Inr c') (\<lambda>c'.
     Inr (append_history c'
       (history_entry (ck_now k 8) ''decision''
          (case dr_outcome d of ALLOW \<Rightarrow> ''allow'' | DENY \<Rightarrow> ''deny'' | REQUIRE_HUMAN \<Rightarrow> ''require_human'')
          (dr_reason d)
          [(''request_id'', JStr (ar_request_id r)), (''decision_id'', JStr (dr_decision_id d)),
           (''arguments_digest'', JStr (ar_arguments_digest r)),
           (''policy_version'', optional_json (ar_policy_version r)),
           (''policy_digest'', optional_json (ar_policy_digest r)),
           (''action_digest'', optional_json (ar_action_digest r)),
           (''approver'', optional_json (dr_approver d))]))))"

definition unusable_request ::
  "clock_readings \<Rightarrow> ExecutionContext \<Rightarrow> ApprovalRequest \<Rightarrow> exn \<Rightarrow> ExecutionContext res" where
  "unusable_request k c r e =
     bindR (gate_denial k 2 r (exn_msg e)) (\<lambda>d.
     bindR (with_decision c d) (\<lambda>c'.
     Inr (append_history c' (history_entry (ck_now k 2) ''decision'' ''deny'' (dr_reason d)
            [(''request_id'', JStr (ar_request_id r)), (''action_digest'', optional_json (ar_action_digest r))]))))"

definition decide_request ::
  "'st decision_config \<Rightarrow> clock_readings \<Rightarrow> ExecutionContext \<Rightarrow> ApprovalRequest \<Rightarrow> ('st, ExecutionContext) gprog" where
  "decide_request cfg k c r =
     bindX (obtain_decision cfg k c r) (\<lambda>d.
     bindX (liftX (accepted_decision cfg k r d)) (\<lambda>d.
     bindX (if dr_outcome d \<noteq> ALLOW then release_approval cfg c else returnX c) (\<lambda>c.
     liftX (decided_context k c r d))))"

definition process_decision :: "'st decision_config \<Rightarrow> ExecutionContext \<Rightarrow> ('st, ExecutionContext) gprog" where
  "process_decision cfg c =
     bindX (readings cfg) (\<lambda>k.
     if \<not> cx_requires_approval c then
       returnX (append_history c (history_entry (ck_now k 0) ''decision'' ''skip'' ''human decision not required'' []))
     else
       bindX (liftX (approval_request cfg k c)) (\<lambda>r.
       bindX (if dc_store cfg = None then returnX None
              else catchX (thenX (store_pending cfg k r) (returnX None))
                     (\<lambda>e. if is_value_error e then returnX (Some e) else raiseX e)) (\<lambda>refused.
       case refused of
         Some e \<Rightarrow> liftX (unusable_request k c r e)
       | None \<Rightarrow> decide_request cfg k c r)))"

end
