(* ===== verification/Policies.thy ===== *)
theory Policies
  imports Pipelines
begin

text \<open>
  The built-in policy middleware: \<open>PolicyMiddleware\<close> (\<open>policy.py\<close>) and \<open>RuleMiddleware\<close>
  (\<open>middleware/rule.py\<close>) with the controls they record (\<open>decision_explanations.py\<close>), and the retry
  middleware (\<open>middleware/retry.py\<close>).  A compiled regular expression is its \<open>search\<close> predicate.
\<close>

section \<open>Recorded controls\<close>

record DecisionControl =
  dc_control_id :: string
  dc_control_version :: int
  dc_effect :: string
  dc_result :: string
  dc_reason_code :: string

text \<open>\<open>DecisionControl.__post_init__\<close>; \<open>DecisionExplanationValidationError\<close> is a \<open>ValueError\<close>.\<close>

definition DecisionControl_post_init :: "DecisionControl \<Rightarrow> DecisionControl res" where
  "DecisionControl_post_init x =
     seqR (seq_all
       [validate_identifier ''control_id'' (dc_control_id x),
        raise_if (dc_control_version x < 1) (ValueError ''control_version must be a positive integer''),
        raise_if (dc_effect x \<notin> set [''allow'', ''deny'', ''require_approval'', ''risk''])
          (ValueError ''control effect is not supported''),
        raise_if (dc_result x \<notin> set [''matched'', ''not_matched'', ''not_applicable''])
          (ValueError ''control result is not supported''),
        validate_identifier ''reason_code'' (dc_reason_code x)])
     (Inr x)"

definition control_dict :: "DecisionControl \<Rightarrow> json" where
  "control_dict x = JObj
     [(''control_id'', JStr (dc_control_id x)), (''control_version'', JInt (dc_control_version x)),
      (''effect'', JStr (dc_effect x)), (''result'', JStr (dc_result x)),
      (''reason_code'', JStr (dc_reason_code x))]"

definition decision_controls_history_data :: "DecisionControl list \<Rightarrow> dict" where
  "decision_controls_history_data xs =
     [(''decision_explanation_controls'', JList (map control_dict xs))]"

definition matched_control :: "string \<Rightarrow> string \<Rightarrow> string \<Rightarrow> DecisionControl res" where
  "matched_control cid effect code = DecisionControl_post_init
     \<lparr>dc_control_id = cid, dc_control_version = 1, dc_effect = effect, dc_result = ''matched'',
      dc_reason_code = code\<rparr>"

section \<open>PolicyMiddleware\<close>

record SimplePolicy =
  sp_denied_tools :: "string set"
  sp_approval_tools :: "string set"
  sp_admin_only :: "string set"
  sp_required_permissions :: "(string \<times> string set) list"
  sp_risk_overrides :: "(string \<times> RiskTier) list"

record PolicyMiddleware =
  pm_policy :: SimplePolicy
  pm_version :: "string option"
  pm_digest :: "string option"
  pm_namespace :: string

definition PolicyMiddleware_init ::
  "SimplePolicy \<Rightarrow> string option \<Rightarrow> string option \<Rightarrow> string \<Rightarrow> PolicyMiddleware res" where
  "PolicyMiddleware_init p version digest namespace =
     (if (version = None) \<noteq> (digest = None) then
        Inl (ValueError ''policy version and digest must be provided together'')
      else if (case version of None \<Rightarrow> False | Some v \<Rightarrow> \<not> IDENTIFIER v) then
        Inl (ValueError ''policy version is invalid'')
      else if (case digest of None \<Rightarrow> False | Some v \<Rightarrow> \<not> is_digest v) then
        Inl (ValueError ''policy digest must be a SHA-256 hex digest'')
      else if \<not> IDENTIFIER namespace then
        Inl (ValueError ''policy explanation_namespace is invalid'')
      else Inr \<lparr>pm_policy = p, pm_version = version, pm_digest = digest, pm_namespace = namespace\<rparr>)"

definition action_policy_identity :: "PolicyMiddleware \<Rightarrow> (string \<times> string) option" where
  "action_policy_identity pm =
     (case (pm_version pm, pm_digest pm) of (Some v, Some d) \<Rightarrow> Some (v, d) | _ \<Rightarrow> None)"

definition policy_metadata :: "PolicyMiddleware \<Rightarrow> dict" where
  "policy_metadata pm =
     (case pm_version pm of None \<Rightarrow> [] | Some v \<Rightarrow> [(''policy_version'', JStr v)]) @
     (case pm_digest pm of None \<Rightarrow> [] | Some d \<Rightarrow> [(''policy_digest'', JStr d)])"

text \<open>\<open>{**a, **b}\<close>\<close>

definition dict_merge :: "dict \<Rightarrow> dict \<Rightarrow> dict" where
  "dict_merge a b = AList.updates (map fst b) (map snd b) a"

definition policy_control :: "PolicyMiddleware \<Rightarrow> string \<Rightarrow> string \<Rightarrow> string \<Rightarrow> DecisionControl res" where
  "policy_control pm name effect code = matched_control (pm_namespace pm @ ''.'' @ name) effect code"

definition policy_deny ::
  "PolicyMiddleware \<Rightarrow> time \<Rightarrow> string \<Rightarrow> ExecutionContext \<Rightarrow> string \<Rightarrow> DecisionControl list
     \<Rightarrow> ExecutionContext res" where
  "policy_deny pm now did c reason controls =
     bindR (DecisionRecord_post_init (fresh_decision now did DENY reason ''policy'' None)) (\<lambda>d.
     bindR (with_decision c d) (\<lambda>c'.
     Inr (append_history c' (history_entry now ''policy'' ''deny'' reason
            (dict_merge (policy_metadata pm) (decision_controls_history_data controls))))))"

text \<open>The overrides a policy applies before it decides: the changes and their controls.\<close>

definition policy_changes :: "PolicyMiddleware \<Rightarrow> string \<Rightarrow> (change list \<times> DecisionControl list) res" where
  "policy_changes pm tool =
     bindR (if tool \<in> sp_approval_tools (pm_policy pm)
            then bindR (policy_control pm ''approval'' ''require_approval'' ''approval_required'')
                   (\<lambda>x. Inr ([SetRequiresApproval True], [x]))
            else Inr ([], [])) (\<lambda>(ch, xs).
     (case map_of (sp_risk_overrides (pm_policy pm)) tool of
        None \<Rightarrow> Inr (ch, xs)
      | Some t \<Rightarrow> bindR (policy_control pm ''risk'' ''risk'' ''risk_overridden'')
          (\<lambda>x. Inr (ch @ [SetRiskTier t], xs @ [x]))))"

definition policy_process ::
  "PolicyMiddleware \<Rightarrow> time \<Rightarrow> string \<Rightarrow> ExecutionContext \<Rightarrow> ExecutionContext res" where
  "policy_process pm now did c =
     (let p = pm_policy pm; tool = tc_name (cx_tool_call c) in
      bindR (if policy_metadata pm \<noteq> []
             then evolve c [SetMetadata (dict_merge (cx_metadata c) (policy_metadata pm))]
             else Inr c) (\<lambda>c.
      bindR (policy_changes pm tool) (\<lambda>(changes, controls).
      bindR (if changes \<noteq> [] then evolve c changes else Inr c) (\<lambda>updated.
      if tool \<in> sp_denied_tools p then
        bindR (policy_control pm ''deny-tool'' ''deny'' ''tool_denied'')
          (\<lambda>x. policy_deny pm now did updated ''tool denied by policy'' (controls @ [x]))
      else if tool \<in> sp_admin_only p \<and> ''admin'' \<notin> cx_permissions updated then
        bindR (policy_control pm ''admin'' ''deny'' ''admin_permission_missing'')
          (\<lambda>x. policy_deny pm now did updated ''admin permission required'' (controls @ [x]))
      else
        let required = (case map_of (sp_required_permissions p) tool of None \<Rightarrow> {} | Some r \<Rightarrow> r);
            missing = required - cx_permissions updated
        in if missing \<noteq> {} then
             bindR (policy_control pm ''permissions'' ''deny'' ''required_permissions_missing'')
               (\<lambda>x. policy_deny pm now did updated
                      (''missing permissions: '' @ join '', '' (sorted_list_of_set missing)) (controls @ [x]))
           else
             bindR (policy_control pm ''allow'' ''allow'' ''policy_allowed'') (\<lambda>x.
             Inr (append_history updated (history_entry now ''policy'' ''allow'' ''python policy allowed''
                    (dict_merge (policy_metadata pm)
                      (decision_controls_history_data (controls @ [x]))))))))))"

section \<open>RuleMiddleware\<close>

record Rule =
  ru_name :: string
  ru_search :: "string \<Rightarrow> bool"
  ru_reason :: string

definition RuleMiddleware_init :: "Rule list \<Rightarrow> Rule list res" where
  "RuleMiddleware_init rules =
     (if \<not> distinct (map ru_name rules) then Inl (ValueError ''rule names must be unique'') else Inr rules)"

definition rule_control :: "(string \<Rightarrow> string) \<Rightarrow> Rule \<Rightarrow> bool \<Rightarrow> DecisionControl res" where
  "rule_control sha r matched = DecisionControl_post_init
     \<lparr>dc_control_id = ''rule.'' @ sha (ru_name r), dc_control_version = 1, dc_effect = ''deny'',
      dc_result = (if matched then ''matched'' else ''not_matched''),
      dc_reason_code = (if matched then ''rule_matched'' else ''rule_not_matched'')\<rparr>"

text \<open>The loop of \<open>process\<close>, with the controls collected so far.\<close>

fun rule_process_list ::
  "(string \<Rightarrow> string) \<Rightarrow> time \<Rightarrow> string \<Rightarrow> Rule list \<Rightarrow> DecisionControl list \<Rightarrow> ExecutionContext
     \<Rightarrow> ExecutionContext res" where
  "rule_process_list sha now did [] controls c =
     bindR (matched_control ''rule.allow'' ''allow'' ''no_rule_matched'') (\<lambda>x.
     Inr (append_history c (history_entry now ''rule'' ''allow'' ''no rule matched''
            (decision_controls_history_data (controls @ [x])))))"
| "rule_process_list sha now did (r # rs) controls c =
     (let matched = ru_search r (cx_input_text c) in
      bindR (rule_control sha r matched) (\<lambda>x.
      if matched then
        bindR (DecisionRecord_post_init
                 (fresh_decision now did DENY (ru_reason r) (''rule:'' @ ru_name r) None)) (\<lambda>d.
        bindR (with_decision c d) (\<lambda>c'.
        Inr (append_history c' (history_entry now ''rule'' ''deny'' (ru_reason r)
               (dict_merge [(''rule'', JStr (ru_name r))]
                 (decision_controls_history_data (controls @ [x])))))))
      else rule_process_list sha now did rs (controls @ [x]) c))"

definition rule_process ::
  "(string \<Rightarrow> string) \<Rightarrow> time \<Rightarrow> string \<Rightarrow> Rule list \<Rightarrow> ExecutionContext \<Rightarrow> ExecutionContext res" where
  "rule_process sha now did rules c = rule_process_list sha now did rules [] c"

section \<open>RetryMiddleware\<close>

text \<open>
  What a call of the wrapped execution gives: a context and a value, or an exception.
  \<open>ControlError\<close> is \<open>ExecutionControlError(context, cause)\<close>, whose message is that of its cause.
\<close>

datatype failure = Plain exn | ControlError ExecutionContext failure

primrec failure_msg :: "failure \<Rightarrow> string" where
  "failure_msg (Plain e) = exn_msg e"
| "failure_msg (ControlError c e) = failure_msg e"

datatype exec_outcome = Returned ExecutionContext json | Raised failure

record RetryMiddleware =
  rm_max_attempts :: nat
  rm_retry_on :: "failure \<Rightarrow> bool"

definition RetryMiddleware_init :: "int \<Rightarrow> int \<Rightarrow> (failure \<Rightarrow> bool) \<Rightarrow> RetryMiddleware res" where
  "RetryMiddleware_init max_attempts backoff retry_on =
     (if max_attempts < 1 then Inl (ValueError ''max_attempts must be at least 1'')
      else if backoff < 0 then Inl (ValueError ''backoff_seconds cannot be negative'')
      else Inr \<lparr>rm_max_attempts = nat max_attempts, rm_retry_on = retry_on\<rparr>)"

definition can_retry :: "ExecutionContext \<Rightarrow> bool" where
  "can_retry c =
     (cx_execution_mode c = READ_ONLY \<or>
      (cx_execution_mode c = IDEMPOTENT \<and> cx_idempotency_key c \<noteq> None))"

definition skip_reason :: "ExecutionContext \<Rightarrow> string" where
  "skip_reason c =
     (if cx_execution_mode c = IDEMPOTENT
      then ''idempotent tool requires an idempotency_key before retry''
      else ''mutating tool is not retried automatically'')"

text \<open>
  The attempt loop.  \<open>call n\<close> is the \<open>n\<close>-th invocation of \<open>call_next\<close>; the second component counts the
  invocations made.  \<open>left\<close> is the number of attempts that remain after the current one.
\<close>

fun retry_loop ::
  "RetryMiddleware \<Rightarrow> time \<Rightarrow> (nat \<Rightarrow> ExecutionContext \<Rightarrow> exec_outcome) \<Rightarrow> nat \<Rightarrow> nat \<Rightarrow> ExecutionContext
     \<Rightarrow> exec_outcome \<times> nat" where
  "retry_loop rm now call attempt left c =
     (case call attempt c of
        Returned rc v \<Rightarrow>
          (Returned (if 1 < attempt
                     then append_history rc (history_entry now ''retry'' ''recovered''
                            (''succeeded on attempt '' @ digits_of attempt) [])
                     else rc) v, attempt)
      | Raised e \<Rightarrow>
          if \<not> rm_retry_on rm e then (Raised e, attempt)
          else
            let cur = append_history c (history_entry now ''retry''
                        (if left = 0 then ''exhausted'' else ''retry'')
                        (''attempt '' @ digits_of attempt @ '': '' @ failure_msg e) [])
            in (case left of
                  0 \<Rightarrow> (Raised (ControlError cur e), attempt)
                | Suc k \<Rightarrow> retry_loop rm now call (Suc attempt) k cur))"

definition retry_execute ::
  "RetryMiddleware \<Rightarrow> time \<Rightarrow> (nat \<Rightarrow> ExecutionContext \<Rightarrow> exec_outcome) \<Rightarrow> ExecutionContext
     \<Rightarrow> exec_outcome \<times> nat" where
  "retry_execute rm now call c =
     (if \<not> can_retry c then
        (case call 1 c of
           Raised e \<Rightarrow>
             (Raised (if rm_retry_on rm e
                then ControlError (append_history c
                       (history_entry now ''retry'' ''skipped'' (skip_reason c) [])) e
                else e), 1)
         | Returned rc v \<Rightarrow> (Returned rc v, 1))
      else retry_loop rm now call 1 (rm_max_attempts rm - 1) c)"

section \<open>Laws\<close>

definition policy_denies :: "SimplePolicy \<Rightarrow> ExecutionContext \<Rightarrow> bool" where
  "policy_denies p c =
     (let tool = tc_name (cx_tool_call c) in
      tool \<in> sp_denied_tools p \<or>
      (tool \<in> sp_admin_only p \<and> ''admin'' \<notin> cx_permissions c) \<or>
      (\<exists>r. map_of (sp_required_permissions p) tool = Some r \<and> \<not> r \<subseteq> cx_permissions c))"

lemma policy_deny_Inr:
  assumes "policy_deny pm now did c reason xs = Inr c'"
  shows "denied c' \<and> cx_status c' = STATUS_DENIED \<and> cx_requires_approval c' = cx_requires_approval c \<and>
    cx_risk_tier c' = cx_risk_tier c \<and> identity_fields c' = identity_fields c"
proof -
  let ?d = "fresh_decision now did DENY reason ''policy'' None"
  obtain c1 e where "with_decision c ?d = Inr c1" "c' = append_history c1 e"
    using assms by (auto simp: policy_deny_def bindR_eq_Inr post_init_eq_Inr)
  moreover have "dr_outcome ?d = DENY" by (simp add: fresh_decision_def)
  ultimately show ?thesis using with_decision_Inr[of c ?d c1] by simp
qed

lemma policy_changes_Inr:
  "policy_changes pm tool = Inr (ch, xs) \<Longrightarrow>
     ch = (if tool \<in> sp_approval_tools (pm_policy pm) then [SetRequiresApproval True] else []) @
          (case map_of (sp_risk_overrides (pm_policy pm)) tool of None \<Rightarrow> [] | Some t \<Rightarrow> [SetRiskTier t])"
  by (auto simp: policy_changes_def bindR_eq_Inr split: if_splits option.splits)

text \<open>What the overrides leave behind.\<close>

lemma policy_overrides_Inr:
  assumes "policy_changes pm tool = Inr (ch, xs)"
    and "(if ch \<noteq> [] then evolve c ch else Inr c) = Inr u"
  shows "identity_fields u = identity_fields c \<and> denied u = denied c \<and>
    cx_requires_approval u = (cx_requires_approval c \<or> tool \<in> sp_approval_tools (pm_policy pm)) \<and>
    cx_risk_tier u = (case map_of (sp_risk_overrides (pm_policy pm)) tool of
       None \<Rightarrow> cx_risk_tier c | Some t \<Rightarrow> t)"
  using assms(2) evolve_Inr[of c ch u] unfolding policy_changes_Inr[OF assms(1)]
  by (auto simp: denied_def split: if_splits option.splits)

lemma policy_process_Inr:
  assumes run: "policy_process pm now did c = Inr c'" and nd: "\<not> denied c"
  shows "(denied c' \<longleftrightarrow> policy_denies (pm_policy pm) c) \<and> identity_fields c' = identity_fields c \<and>
    cx_requires_approval c' =
      (cx_requires_approval c \<or> tc_name (cx_tool_call c) \<in> sp_approval_tools (pm_policy pm)) \<and>
    cx_risk_tier c' = (case map_of (sp_risk_overrides (pm_policy pm)) (tc_name (cx_tool_call c)) of
       None \<Rightarrow> cx_risk_tier c | Some t \<Rightarrow> t)"
proof -
  let ?p = "pm_policy pm" and ?tool = "tc_name (cx_tool_call c)"
  obtain c1 where c1: "(if policy_metadata pm \<noteq> []
      then evolve c [SetMetadata (dict_merge (cx_metadata c) (policy_metadata pm))] else Inr c) = Inr c1"
    using run by (auto simp: policy_process_def Let_def bindR_eq_Inr)
  have k1: "identity_fields c1 = identity_fields c" "denied c1 = denied c"
      "cx_requires_approval c1 = cx_requires_approval c" "cx_risk_tier c1 = cx_risk_tier c"
    using c1 evolve_Inr[of c "[SetMetadata (dict_merge (cx_metadata c) (policy_metadata pm))]" c1]
    by (auto simp: denied_def split: if_splits)
  obtain ch xs u where u: "policy_changes pm ?tool = Inr (ch, xs)"
      "(if ch \<noteq> [] then evolve c1 ch else Inr c1) = Inr u"
    and rest: "(if ?tool \<in> sp_denied_tools ?p then
        bindR (policy_control pm ''deny-tool'' ''deny'' ''tool_denied'')
          (\<lambda>x. policy_deny pm now did u ''tool denied by policy'' (xs @ [x]))
      else if ?tool \<in> sp_admin_only ?p \<and> ''admin'' \<notin> cx_permissions u then
        bindR (policy_control pm ''admin'' ''deny'' ''admin_permission_missing'')
          (\<lambda>x. policy_deny pm now did u ''admin permission required'' (xs @ [x]))
      else
        let required = (case map_of (sp_required_permissions ?p) ?tool of None \<Rightarrow> {} | Some r \<Rightarrow> r);
            missing = required - cx_permissions u
        in if missing \<noteq> {} then
             bindR (policy_control pm ''permissions'' ''deny'' ''required_permissions_missing'')
               (\<lambda>x. policy_deny pm now did u
                      (''missing permissions: '' @ join '', '' (sorted_list_of_set missing)) (xs @ [x]))
           else
             bindR (policy_control pm ''allow'' ''allow'' ''policy_allowed'') (\<lambda>x.
             Inr (append_history u (history_entry now ''policy'' ''allow'' ''python policy allowed''
                    (dict_merge (policy_metadata pm)
                      (decision_controls_history_data (xs @ [x]))))))) = Inr c'"
    using run c1 unfolding policy_process_def Let_def by (auto simp only: bindR_eq_Inr split_paired_all prod.case)
  note o = policy_overrides_Inr[OF u]
  have perms: "cx_permissions u = cx_permissions c"
    using o k1(1) by (simp add: identity_fields_def)
  have "(denied c' \<longleftrightarrow> policy_denies ?p c) \<and> identity_fields c' = identity_fields u \<and>
      cx_requires_approval c' = cx_requires_approval u \<and> cx_risk_tier c' = cx_risk_tier u"
    using rest o nd k1(2) unfolding perms policy_denies_def Let_def
    by (auto simp: bindR_eq_Inr dest!: policy_deny_Inr split: if_splits option.splits)
  then show ?thesis using o unfolding k1 by simp
qed

lemma rule_process_list_Inr:
  assumes "rule_process_list sha now did rs xs c = Inr c'" "\<not> denied c"
  shows "(denied c' \<longleftrightarrow> list_ex (\<lambda>r. ru_search r (cx_input_text c)) rs) \<and>
    identity_fields c' = identity_fields c \<and>
    (\<forall>r. find (\<lambda>r. ru_search r (cx_input_text c)) rs = Some r \<longrightarrow>
       (\<exists>d. cx_decision c' = Some d \<and> dr_outcome d = DENY \<and> dr_reason d = ru_reason r \<and>
            dr_source d = ''rule:'' @ ru_name r))"
  using assms(1)
proof (induction rs arbitrary: xs)
  case Nil
  then show ?case using assms(2) by (auto simp: bindR_eq_Inr)
next
  case (Cons r rs)
  show ?case
  proof (cases "ru_search r (cx_input_text c)")
    case True
    let ?d = "fresh_decision now did DENY (ru_reason r) (''rule:'' @ ru_name r) None"
    obtain c1 e where c1: "with_decision c ?d = Inr c1" "c' = append_history c1 e"
      using Cons.prems True by (auto simp: bindR_eq_Inr post_init_eq_Inr)
    have "dr_outcome ?d = DENY" "dr_reason ?d = ru_reason r" "dr_source ?d = ''rule:'' @ ru_name r"
      by (simp_all add: fresh_decision_def)
    then show ?thesis
      using with_decision_Inr[OF c1(1)] c1(2) True by simp
  next
    case False
    then obtain xs' where "rule_process_list sha now did rs xs' c = Inr c'"
      using Cons.prems by (auto simp: bindR_eq_Inr)
    from Cons.IH[OF this] show ?thesis using False by simp
  qed
qed

lemma retry_loop_bound:
  assumes "retry_loop rm now call a l c = (r, n)"
  shows "a \<le> n \<and> n \<le> a + l \<and>
    (\<forall>k. a \<le> k \<and> k < n \<longrightarrow> (\<exists>c e. call k c = Raised e \<and> rm_retry_on rm e))"
  using assms
proof (induction l arbitrary: a c)
  case 0
  then show ?case by (auto simp: Let_def split: exec_outcome.splits if_splits)
next
  case (Suc l)
  show ?case
  proof (cases "\<exists>e. call a c = Raised e \<and> rm_retry_on rm e")
    case True
    then obtain e c1 where e: "call a c = Raised e" "rm_retry_on rm e"
        and step: "retry_loop rm now call (Suc a) l c1 = (r, n)"
      using Suc.prems by (auto simp: Let_def)
    note IH = Suc.IH[OF step]
    have "\<exists>c e. call k c = Raised e \<and> rm_retry_on rm e" if "a \<le> k" "k < n" for k
      using that IH e by (cases "k = a") auto
    then show ?thesis using IH by auto
  next
    case False
    then have "n = a" using Suc.prems by (auto simp: Let_def split: exec_outcome.splits if_splits)
    then show ?thesis by auto
  qed
qed

end
