(* ===== verification/Contracts.thy ===== *)
theory Contracts
  imports Values
begin

text \<open>
  \<open>contracts.py\<close>: the normalisation of JSON-compatible values that precedes schema validation,
  hashing and durable storage.  On JSON trees the byte encoders and \<open>json.loads\<close> are inverse to each
  other, so \<open>canonical_json_bytes\<close> is represented by the normalised value.
\<close>

fun contract_normalize :: "string \<Rightarrow> nat \<Rightarrow> json \<Rightarrow> json res"
  and contract_normalize_list :: "string \<Rightarrow> nat \<Rightarrow> nat \<Rightarrow> json list \<Rightarrow> json list res"
  and contract_normalize_items :: "string \<Rightarrow> nat \<Rightarrow> dict \<Rightarrow> dict res" where
  "contract_normalize path depth v =
     (if 100 < depth then Inl (ContractValidationError (path @ '' contract violation: maximum nesting depth exceeded''))
      else case v of
        JFloat f \<Rightarrow>
          if f \<in> {NaN, PosInf, NegInf}
          then Inl (ContractValidationError (path @ '' contract violation: non-finite numbers are not valid JSON''))
          else Inr v
      | JObj xs \<Rightarrow> bindR (contract_normalize_items path (Suc depth) xs) (\<lambda>ys. Inr (JObj ys))
      | JList xs \<Rightarrow> bindR (contract_normalize_list path (Suc depth) 0 xs) (\<lambda>ys. Inr (JList ys))
      | JTuple xs \<Rightarrow> bindR (contract_normalize_list path (Suc depth) 0 xs) (\<lambda>ys. Inr (JList ys))
      | _ \<Rightarrow> Inr v)"
| "contract_normalize_list path depth i [] = Inr []"
| "contract_normalize_list path depth i (x # xs) =
     bindR (contract_normalize (path @ ''['' @ digits_of i @ '']'') depth x) (\<lambda>y.
     bindR (contract_normalize_list path depth (Suc i) xs) (\<lambda>ys. Inr (y # ys)))"
| "contract_normalize_items path depth [] = Inr []"
| "contract_normalize_items path depth ((k, x) # xs) =
     bindR (contract_normalize (path @ ''.'' @ k) depth x) (\<lambda>y.
     bindR (contract_normalize_items path depth xs) (\<lambda>ys. Inr ((k, y) # ys)))"

definition canonical_json :: "string \<Rightarrow> json \<Rightarrow> json res" where
  "canonical_json label v = contract_normalize label 0 v"

declare contract_normalize.simps [simp del]

text \<open>How deep a value nests.\<close>

fun height :: "json \<Rightarrow> nat" where
  "height (JList xs) = foldr (\<lambda>x. max (Suc (height x))) xs 0"
| "height (JTuple xs) = foldr (\<lambda>x. max (Suc (height x))) xs 0"
| "height (JObj xs) = foldr (\<lambda>p. max (Suc (height (snd p)))) xs 0"
| "height _ = 0"

lemma foldr_max_le: "foldr (\<lambda>x. max (Suc (f x))) xs 0 \<le> (n::nat) \<longleftrightarrow> (\<forall>x\<in>set xs. Suc (f x) \<le> n)"
  by (induction xs) auto

lemma contract_list_Inr:
  assumes "\<And>x p r. x \<in> set xs \<Longrightarrow>
     contract_normalize p d x = Inr r \<longleftrightarrow> finite_json x \<and> d + height x \<le> 100 \<and> r = thaw x"
  shows "contract_normalize_list p d i xs = Inr ys \<longleftrightarrow>
     list_all finite_json xs \<and> (\<forall>x\<in>set xs. d + height x \<le> 100) \<and> ys = map thaw xs"
  using assms by (induction xs arbitrary: i ys) (auto simp: bindR_eq_Inr)

lemma contract_items_Inr:
  assumes "\<And>k x p r. (k, x) \<in> set xs \<Longrightarrow>
     contract_normalize p d x = Inr r \<longleftrightarrow> finite_json x \<and> d + height x \<le> 100 \<and> r = thaw x"
  shows "contract_normalize_items p d xs = Inr ys \<longleftrightarrow>
     list_all (\<lambda>q. finite_json (snd q)) xs \<and> (\<forall>q\<in>set xs. d + height (snd q) \<le> 100) \<and>
     ys = map (\<lambda>q. (fst q, thaw (snd q))) xs"
  using assms
proof (induction xs arbitrary: ys)
  case (Cons kx xs)
  obtain k x where kx: "kx = (k, x)" by (cases kx)
  have x: "contract_normalize q d x = Inr r \<longleftrightarrow> finite_json x \<and> d + height x \<le> 100 \<and> r = thaw x" for q r
    by (rule Cons.prems[of k]) (simp add: kx)
  have "contract_normalize_items p d xs = Inr zs \<longleftrightarrow>
     list_all (\<lambda>q. finite_json (snd q)) xs \<and> (\<forall>q\<in>set xs. d + height (snd q) \<le> 100) \<and>
     zs = map (\<lambda>q. (fst q, thaw (snd q))) xs" for zs
    by (rule Cons.IH) (rule Cons.prems, rule list.set_intros(2))
  then show ?case by (auto simp: kx bindR_eq_Inr x)
qed auto

text \<open>The normaliser accepts exactly the finite values of depth at most 100, and thaws them.\<close>

lemma contract_normalize_Inr:
  "contract_normalize p d v = Inr r \<longleftrightarrow> finite_json v \<and> d + height v \<le> 100 \<and> r = thaw v"
proof (induction v arbitrary: p d r)
  case (JFloat f)
  then show ?case by (cases f) (auto simp: contract_normalize.simps)
next
  case (JList xs)
  have "d + height (JList xs) \<le> 100 \<longleftrightarrow> d \<le> 100 \<and> (\<forall>x\<in>set xs. Suc d + height x \<le> 100)"
    using foldr_max_le[of height xs "100 - d"] by fastforce
  moreover have "contract_normalize_list p (Suc d) 0 xs = Inr ys \<longleftrightarrow>
     list_all finite_json xs \<and> (\<forall>x\<in>set xs. Suc d + height x \<le> 100) \<and> ys = map thaw xs" for ys
    by (rule contract_list_Inr) (rule JList)
  ultimately show ?case
    by (auto simp: contract_normalize.simps bindR_eq_Inr simp del: height.simps)
next
  case (JTuple xs)
  have "d + height (JTuple xs) \<le> 100 \<longleftrightarrow> d \<le> 100 \<and> (\<forall>x\<in>set xs. Suc d + height x \<le> 100)"
    using foldr_max_le[of height xs "100 - d"] by fastforce
  moreover have "contract_normalize_list p (Suc d) 0 xs = Inr ys \<longleftrightarrow>
     list_all finite_json xs \<and> (\<forall>x\<in>set xs. Suc d + height x \<le> 100) \<and> ys = map thaw xs" for ys
    by (rule contract_list_Inr) (rule JTuple)
  ultimately show ?case
    by (auto simp: contract_normalize.simps bindR_eq_Inr simp del: height.simps)
next
  case (JObj xs)
  have "d + height (JObj xs) \<le> 100 \<longleftrightarrow> d \<le> 100 \<and> (\<forall>q\<in>set xs. Suc d + height (snd q) \<le> 100)"
    using foldr_max_le[of "\<lambda>q. height (snd q)" xs "100 - d"] by fastforce
  moreover have "contract_normalize_items p (Suc d) xs = Inr ys \<longleftrightarrow>
     list_all (\<lambda>q. finite_json (snd q)) xs \<and> (\<forall>q\<in>set xs. Suc d + height (snd q) \<le> 100) \<and>
     ys = map (\<lambda>q. (fst q, thaw (snd q))) xs" for ys
    by (rule contract_items_Inr) (rule JObj, auto)
  ultimately show ?case
    by (auto simp: contract_normalize.simps bindR_eq_Inr simp del: height.simps)
qed (auto simp: contract_normalize.simps)

end
