(* ===== verification/Requests.thy ===== *)
theory Requests
  imports Governance Policies Contracts
begin

text \<open>
  From a call of \<open>Runtime.arun\<close> to a governed request: the tool specification (\<open>registry.py\<close>), the
  invocation options, the verified principal (\<open>identity.py\<close>), the context built from them, the
  validation of parameters and results, and the namespace and fingerprint of an idempotent call
  (\<open>runtime.py\<close>).  JSON Schema validation, the length of the JSON text of a value and SHA-256 over that text
  are the fields of \<open>encoders\<close>.
\<close>

record encoders =
  en_check_schema :: "json \<Rightarrow> string option"
  en_schema_error :: "json \<Rightarrow> json \<Rightarrow> string option"
  en_size :: "json \<Rightarrow> nat"
  en_sha256 :: "json \<Rightarrow> string"

section \<open>Tool specifications\<close>

record ToolSpec =
  ts_name :: string
  ts_risk :: RiskTier
  ts_requires_approval :: bool
  ts_execution_mode :: ExecutionMode
  ts_parameters_schema :: "json option"
  ts_result_schema :: "json option"
  ts_max_parameters_bytes :: "int option"
  ts_max_result_bytes :: "int option"
  ts_action_contract :: "json option"
  ts_probe_schema :: "json option"

text \<open>The regular expression \<open>[A-Za-z_][A-Za-z0-9_.:-]{0,127}\<close>, matched in full.\<close>

definition TOOL_NAME :: "string \<Rightarrow> bool" where
  "TOOL_NAME s =
     (case s of
        [] \<Rightarrow> False
      | c # cs \<Rightarrow> (is_upper c \<or> is_lower c \<or> c = CHR ''_'') \<and> length cs \<le> 127 \<and>
          list_all (\<lambda>x. is_alnum x \<or> x \<in> set ''_.:-'') cs)"

text \<open>\<open>validate_schema\<close> of \<open>contracts.py\<close>\<close>

definition validate_schema :: "encoders \<Rightarrow> json \<Rightarrow> string \<Rightarrow> unit res" where
  "validate_schema en sc label =
     (case en_check_schema en sc of
        None \<Rightarrow> Inr ()
      | Some msg \<Rightarrow> Inl (RegistryError (''invalid '' @ label @ '' JSON Schema: '' @ msg)))"

definition ToolSpec_post_init :: "encoders \<Rightarrow> ToolSpec \<Rightarrow> ToolSpec res" where
  "ToolSpec_post_init en t =
     seqR (seq_all
       [raise_if (\<not> TOOL_NAME (ts_name t)) (ValueError ''tool name must be a 1-128 character stable identifier''),
        raise_if (case ts_max_parameters_bytes t of None \<Rightarrow> False | Some n \<Rightarrow> n < 1)
          (ValueError ''max_parameters_bytes must be greater than zero''),
        raise_if (case ts_max_result_bytes t of None \<Rightarrow> False | Some n \<Rightarrow> n < 1)
          (ValueError ''max_result_bytes must be greater than zero''),
        (case ts_parameters_schema t of None \<Rightarrow> Inr () | Some sc \<Rightarrow> validate_schema en sc ''parameters''),
        (case ts_result_schema t of None \<Rightarrow> Inr () | Some sc \<Rightarrow> validate_schema en sc ''result''),
        (case ts_probe_schema t of None \<Rightarrow> Inr () | Some sc \<Rightarrow> validate_schema en sc ''reconciliation probe'')])
     (Inr t)"

section \<open>Validation of parameters and results\<close>

text \<open>\<open>validate_instance\<close> of \<open>contracts.py\<close>; \<open>en_schema_error\<close> formats the first error.\<close>

definition contract_validate_instance :: "encoders \<Rightarrow> json \<Rightarrow> json option \<Rightarrow> string \<Rightarrow> json res" where
  "contract_validate_instance en v schema label =
     bindR (contract_normalize label 0 v) (\<lambda>n.
       case schema of
         None \<Rightarrow> Inr n
       | Some sc \<Rightarrow>
           (case en_schema_error en sc n of
              None \<Rightarrow> Inr n
            | Some msg \<Rightarrow> Inl (ContractValidationError (label @ '' contract violation: '' @ msg))))"

definition enforce_size_limit :: "encoders \<Rightarrow> string \<Rightarrow> json \<Rightarrow> int option \<Rightarrow> unit res" where
  "enforce_size_limit en label v limit =
     (case limit of
        None \<Rightarrow> Inr ()
      | Some n \<Rightarrow>
          bindR (canonical_json label v) (\<lambda>x.
          raise_if (n < int (en_size en x))
            (ValueError (label @ (if label = ''result'' then '' exceeds '' else '' exceed '') @ digits_of (nat n)
               @ '' bytes ('' @ digits_of (en_size en x) @ '' bytes)''))))"

text \<open>
  The fields of an action's contract; \<open>None\<close> and a missing key are the same to the code that reads them.
\<close>

definition contract_field :: "BoundAction \<Rightarrow> string \<Rightarrow> json" where
  "contract_field a key =
     (case ba_contract a of
        JObj xs \<Rightarrow> (case map_of xs key of None \<Rightarrow> JNull | Some v \<Rightarrow> v)
      | _ \<Rightarrow> JNull)"

definition receipt_schema :: "BoundAction option \<Rightarrow> json option" where
  "receipt_schema action =
     (case action of
        None \<Rightarrow> None
      | Some a \<Rightarrow> (case contract_field a ''receipt_schema'' of JNull \<Rightarrow> None | sc \<Rightarrow> Some sc))"

definition normalize_result :: "encoders \<Rightarrow> ToolSpec \<Rightarrow> json \<Rightarrow> BoundAction option \<Rightarrow> json res" where
  "normalize_result en spec v action =
     (if ts_result_schema spec \<noteq> None \<or> ts_max_result_bytes spec \<noteq> None
         \<or> ts_execution_mode spec = IDEMPOTENT \<or> receipt_schema action \<noteq> None
      then bindR (contract_validate_instance en v (ts_result_schema spec) ''result'') (\<lambda>n.
             case receipt_schema action of
               None \<Rightarrow> Inr n
             | Some sc \<Rightarrow> contract_validate_instance en n (Some sc) ''action receipt'')
      else Inr v)"

section \<open>Idempotency keys\<close>

definition fingerprint :: "encoders \<Rightarrow> string \<Rightarrow> dict \<Rightarrow> string res" where
  "fingerprint en name parameters =
     bindR (canonical_json ''idempotency fingerprint''
              (JObj [(''tool'', JStr name), (''parameters'', JObj parameters)]))
       (\<lambda>x. Inr (en_sha256 en x))"

definition idempotency_fingerprint ::
  "encoders \<Rightarrow> ExecutionContext \<Rightarrow> string \<Rightarrow> dict \<Rightarrow> string res" where
  "idempotency_fingerprint en c name parameters =
     (case cx_bound_action c of
        Some a \<Rightarrow> Inr (ba_action_digest a)
      | None \<Rightarrow> fingerprint en name parameters)"

definition idempotency_namespace :: "encoders \<Rightarrow> ExecutionContext \<Rightarrow> string res" where
  "idempotency_namespace en c =
     (case cx_bound_action c of
        Some a \<Rightarrow>
          (case cx_tenant c of
             None \<Rightarrow> Inl (ValueError ''verified tenant is required for action idempotency'')
           | Some t \<Rightarrow>
               bindR (canonical_json ''idempotency tenant partition''
                 (JObj [(''domain'', JStr ''arg.idempotency-tenant-partition''), (''version'', JInt 1),
                        (''tenant'', JStr t)])) (\<lambda>tp.
               bindR (canonical_json ''idempotency contract partition''
                 (JObj [(''domain'', JStr ''arg.idempotency-contract-partition''), (''version'', JInt 1),
                        (''contract_id'', contract_field a ''contract_id'')])) (\<lambda>cp.
               Inr (''action/v1:'' @ en_sha256 en tp @ '':'' @ en_sha256 en cp))))
      | None \<Rightarrow>
          Inr ((if truthy (cx_tenant c) then the (cx_tenant c) else ''global'') @ '':'' @ tc_name (cx_tool_call c)))"

section \<open>Invocation options and identity\<close>

record InvocationOptions =
  io_input_text :: string
  io_user :: "string option"
  io_tenant :: "string option"
  io_permissions :: "string set"
  io_task_id :: "string option"
  io_conversation_id :: "string option"
  io_request_id :: "string option"
  io_metadata :: dict
  io_identity_claims :: "dict option"
  io_idempotency_key :: "string option"
  io_deadline :: "time option"

definition InvocationOptions_post_init :: "InvocationOptions \<Rightarrow> InvocationOptions res" where
  "InvocationOptions_post_init x =
     seqR (seq_all
       [raise_if (case io_idempotency_key x of None \<Rightarrow> False | Some k \<Rightarrow> is_blank k)
          (ValueError ''idempotency_key cannot be empty''),
        raise_if (case io_request_id x of None \<Rightarrow> False | Some k \<Rightarrow> is_blank k)
          (ValueError ''request_id cannot be empty'')])
     (Inr x)"

record VerifiedPrincipal =
  vp_issuer :: string
  vp_subject :: string
  vp_tenant :: string
  vp_permissions :: "string set"
  vp_source :: string
  vp_verified_at :: string

text \<open>
  The runtime's identity configuration: the provider, given by what awaiting its \<open>verify\<close> yields (\<open>None\<close> is
  a value that is no principal), and whether a verified identity is required.
\<close>

record identity_config =
  ic_provider :: "(dict option \<Rightarrow> VerifiedPrincipal option res) option"
  ic_required :: bool

definition verify_identity ::
  "runtime \<Rightarrow> time \<Rightarrow> identity_config \<Rightarrow> InvocationOptions \<Rightarrow> (VerifiedPrincipal option \<times> string option) res" where
  "verify_identity rt now ic opts =
     (case ic_provider ic of
        None \<Rightarrow> Inr (None, if ic_required ic then Some ''verified identity is required'' else None)
      | Some verify \<Rightarrow>
          (case bindR (bounded_timeout rt now (io_deadline opts) (rt_middleware_timeout rt)
                         ''identity verification'')
                  (\<lambda>t. verify (io_identity_claims opts)) of
             Inl e \<Rightarrow> if e = CancelledError then Inl e else Inr (None, Some ''identity verification failed'')
           | Inr None \<Rightarrow> Inr (None, Some ''identity provider returned an invalid principal'')
           | Inr (Some p) \<Rightarrow> Inr (Some p, None)))"

text \<open>The caller's metadata without the keys that only the runtime may set.\<close>

definition caller_metadata :: "dict \<Rightarrow> dict" where
  "caller_metadata m =
     filter (\<lambda>(k, v). lower k \<notin> set [''duration_ms''] \<and>
                      \<not> startswith_any GOVERNANCE_METADATA_PREFIXES (lower k)) m"

definition identity_metadata :: "VerifiedPrincipal option \<Rightarrow> string option \<Rightarrow> dict" where
  "identity_metadata prin identity_error =
     (case prin of
        Some p \<Rightarrow>
          [(''identity_verified'', JBool True), (''identity_issuer'', JStr (vp_issuer p)),
           (''identity_subject'', JStr (vp_subject p)), (''identity_source'', JStr (vp_source p)),
           (''identity_verified_at'', JStr (vp_verified_at p))]
      | None \<Rightarrow>
          (case identity_error of
             None \<Rightarrow> []
           | Some e \<Rightarrow> [(''identity_verified'', JBool False), (''identity_error'', JStr e)]))"

text \<open>\<open>_create_context\<close>; \<open>ids\<close> are the fresh trace, span and request identifiers.\<close>

definition create_context ::
  "runtime \<Rightarrow> time \<Rightarrow> string \<Rightarrow> (nat \<Rightarrow> string) \<Rightarrow> identity_config \<Rightarrow> ToolSpec \<Rightarrow> json list \<Rightarrow> dict
     \<Rightarrow> InvocationOptions \<Rightarrow> ExecutionContext res" where
  "create_context rt now did ids ic spec args kwargs opts =
     bindR (verify_identity rt now ic opts) (\<lambda>(prin, identity_error).
     let metadata = dict_merge (caller_metadata (io_metadata opts)) (identity_metadata prin identity_error);
         (user, tenant, permissions) =
           (case prin of
              Some p \<Rightarrow> (Some (vp_subject p), Some (vp_tenant p), vp_permissions p)
            | None \<Rightarrow> if identity_error \<noteq> None then (None, None, {})
                      else (io_user opts, io_tenant opts, io_permissions opts))
     in bindR (context_create (ids 0) (ids 1) (ids 2)
                 \<lparr>tc_name = ts_name spec, tc_args = args, tc_kwargs = kwargs\<rparr>
                 (io_request_id opts) (io_input_text opts) user tenant permissions (io_task_id opts)
                 (io_conversation_id opts) None (ts_execution_mode spec) (io_idempotency_key opts)
                 (io_deadline opts) (ts_risk spec) (ts_requires_approval spec) metadata) (\<lambda>c.
        case identity_error of
          None \<Rightarrow> Inr c
        | Some e \<Rightarrow> deny_with now did c e ''identity''
            (history_entry now ''identity'' ''deny'' e [(''verified'', JBool False)])))"

section \<open>Parameters and the bound action\<close>

text \<open>
  \<open>_prepare_parameters\<close>; \<open>bound\<close> is the outcome of binding the call to the function's signature.
\<close>

definition prepare_parameters ::
  "runtime \<Rightarrow> encoders \<Rightarrow> time \<Rightarrow> ToolSpec \<Rightarrow> dict res \<Rightarrow> time option \<Rightarrow> dict res" where
  "prepare_parameters rt en now spec bound deadline =
     bindR (bounded_timeout rt now deadline (rt_middleware_timeout rt) ''request'') (\<lambda>_.
     bindR bound (\<lambda>parameters.
     bindR (if ts_parameters_schema spec \<noteq> None \<or> ts_max_parameters_bytes spec \<noteq> None
               \<or> ts_execution_mode spec = IDEMPOTENT
            then contract_validate_instance en (JObj parameters) (ts_parameters_schema spec) ''parameters''
            else Inr (JObj parameters)) (\<lambda>v.
     bindR (enforce_size_limit en ''parameters'' v (ts_max_parameters_bytes spec)) (\<lambda>_.
     (case v of JObj xs \<Rightarrow> Inr xs | _ \<Rightarrow> Inl AssertionError)))))"

definition deny_action_binding ::
  "time \<Rightarrow> string \<Rightarrow> ExecutionContext \<Rightarrow> string \<Rightarrow> ExecutionContext res" where
  "deny_action_binding now did c reason =
     deny_with now did c reason ''action_contract''
       (history_entry now ''action_contract'' ''deny'' reason
          [(''action_digest'', (case cx_bound_action c of None \<Rightarrow> JNull | Some a \<Rightarrow> JStr (ba_action_digest a)))])"

text \<open>
  \<open>_bind_action\<close>; \<open>build\<close> is the outcome of \<open>_build_bound_action\<close>, and a \<open>RuntimeError\<close> stands for
  \<open>_ActionBindingError\<close>, a subclass with the same message.
\<close>

definition optional_text :: "string option \<Rightarrow> json" where
  "optional_text x = (case x of None \<Rightarrow> JNull | Some s \<Rightarrow> JStr s)"

definition binding_refused :: "exn \<Rightarrow> string" where
  "binding_refused e =
     (case e of
        ContractValidationError _ \<Rightarrow> ''action.binding_failed''
      | TypeError _ \<Rightarrow> ''action.binding_failed''
      | ValueError _ \<Rightarrow> ''action.binding_failed''
      | ReconciliationValidationError _ \<Rightarrow> ''action.binding_failed''
      | StageTimeoutError _ \<Rightarrow> ''action.binding_failed''
      | _ \<Rightarrow> ''action.binding_provider_failed'')"

definition bind_contract_action ::
  "runtime \<Rightarrow> ToolSpec \<Rightarrow> BoundAction res \<Rightarrow> ExecutionContext \<Rightarrow> ExecutionContext res" where
  "bind_contract_action rt spec build c =
     (if ts_action_contract spec = None \<or> denied c then Inr c
      else case bindR build (\<lambda>a. bindR (bind_action (rt_ident rt) c a) (\<lambda>c'.
                 evolve c' [SetMetadata (dict_merge (cx_metadata c)
                   [(''policy_version'', optional_text (ba_policy_version a)),
                    (''policy_digest'', optional_text (ba_policy_digest a))])])) of
             Inr c' \<Rightarrow> Inr c'
           | Inl e \<Rightarrow> if e = CancelledError then Inl e else Inl (RuntimeError (binding_refused e)))"

section \<open>Replay\<close>

text \<open>\<open>_areplay\<close>; a runtime that accepts work, with the tool found in its registry.\<close>

definition is_parameter_error :: "exn \<Rightarrow> bool" where
  "is_parameter_error e =
     (case e of
        ContractValidationError _ \<Rightarrow> True
      | StageTimeoutError _ \<Rightarrow> True
      | ValueError _ \<Rightarrow> True
      | ReconciliationValidationError _ \<Rightarrow> True
      | _ \<Rightarrow> False)"

definition areplay ::
  "runtime \<Rightarrow> (json \<Rightarrow> string) \<Rightarrow> encoders \<Rightarrow> (nat \<Rightarrow> time) \<Rightarrow> (nat \<Rightarrow> string) \<Rightarrow> stage list \<Rightarrow> ToolSpec
     \<Rightarrow> dict res \<Rightarrow> ExecutionContext \<Rightarrow> ExecutionContext res" where
  "areplay rt str_other en nows dids ss spec bound c =
     bindR (reset_for_replay c (Some (ts_risk spec)) (Some (ts_requires_approval spec))
              (Some (ts_execution_mode spec))) (\<lambda>clean.
     bindR (evolve clean [SetMetadata (dict_merge (cx_metadata clean)
              [(''replay_mode'', JStr ''analysis''), (''replay_authoritative'', JBool False)])]) (\<lambda>clean.
     case prepare_parameters rt en (nows 0) spec bound (cx_deadline clean) of
       Inl e \<Rightarrow>
         if is_parameter_error e
         then deny_with (nows 0) (dids 0) clean ''replay.parameter_validation_failed'' ''replay''
                (history_entry (nows 0) ''replay'' ''deny'' ''replay.parameter_validation_failed'' [])
         else Inl e
     | Inr _ \<Rightarrow>
         bindR (enforce_idempotency_key (nows 1) (dids 1) clean) (\<lambda>clean.
         if denied clean then Inr clean
         else bindR (run_pre_pipeline rt True ss clean) (\<lambda>replayed.
                enforce_required_approval rt str_other (nows 2) (dids 2) replayed))))"

end
