(* ===== verification/ReconValues.thy ===== *)
theory ReconValues
  imports Context Contracts
begin

text \<open>
  The bounded values of the reconciliation protocol (\<open>reconciliation.py\<close>): JSON normalisation under a
  depth and node budget, the sensitive-key check, and the validated dataclasses for unknown actions,
  attempts, findings, manual resolutions, transitions, records and heads.  The RFC 8785 encoder and
  the JSON Schema validator are third-party code: fields of \<open>recon_env\<close>.
\<close>

section \<open>Enumerations\<close>

datatype ReconciliationState = UNKNOWN | CONFIRMED_SUCCEEDED | CONFIRMED_NOT_APPLIED | MANUAL_REVIEW

datatype ReconciliationEventKind = ATTEMPT_STARTED | ATTEMPT_FINISHED | STATE_TRANSITION

datatype ReconciliationAttemptOutcome =
  SUCCESS | INCONCLUSIVE | UNAVAILABLE | ERROR | TIMEOUT | CANCELLED | RECOVERY_REQUIRED

datatype ReconciliationDisposition =
  BLOCKED_UNKNOWN | BLOCKED_MANUAL_REVIEW | COMPLETED | APPLIED_NO_RESULT | RETRY_ALLOWED

datatype ReconciliationTransitionSource = PROVIDER | MANUAL | RECOVERY

primrec state_value :: "ReconciliationState \<Rightarrow> string" where
  "state_value UNKNOWN = ''UNKNOWN''"
| "state_value CONFIRMED_SUCCEEDED = ''CONFIRMED_SUCCEEDED''"
| "state_value CONFIRMED_NOT_APPLIED = ''CONFIRMED_NOT_APPLIED''"
| "state_value MANUAL_REVIEW = ''MANUAL_REVIEW''"

primrec outcome_value :: "ReconciliationAttemptOutcome \<Rightarrow> string" where
  "outcome_value SUCCESS = ''success''"
| "outcome_value INCONCLUSIVE = ''inconclusive''"
| "outcome_value UNAVAILABLE = ''unavailable''"
| "outcome_value ERROR = ''error''"
| "outcome_value TIMEOUT = ''timeout''"
| "outcome_value CANCELLED = ''cancelled''"
| "outcome_value RECOVERY_REQUIRED = ''recovery_required''"

primrec disposition_value :: "ReconciliationDisposition \<Rightarrow> string" where
  "disposition_value BLOCKED_UNKNOWN = ''blocked_unknown''"
| "disposition_value BLOCKED_MANUAL_REVIEW = ''blocked_manual_review''"
| "disposition_value COMPLETED = ''completed''"
| "disposition_value APPLIED_NO_RESULT = ''applied_no_result''"
| "disposition_value RETRY_ALLOWED = ''retry_allowed''"

primrec source_value :: "ReconciliationTransitionSource \<Rightarrow> string" where
  "source_value PROVIDER = ''provider''"
| "source_value MANUAL = ''manual''"
| "source_value RECOVERY = ''recovery''"

text \<open>Protocol versions are strings or integers.\<close>

datatype version = VStr string | VInt int

fun version_json :: "version \<Rightarrow> json" where
  "version_json (VStr s) = JStr s"
| "version_json (VInt i) = JInt i"

text \<open>Code outside the repository.\<close>

record recon_env =
  re_dumps :: "json \<Rightarrow> string option"
  re_validate_schema :: "json \<Rightarrow> string option"
  re_validate_instance :: "json \<Rightarrow> json \<Rightarrow> string option"
  re_sha256 :: "string \<Rightarrow> string"
  re_canonical_sha256 :: "json \<Rightarrow> string"

section \<open>Field validators\<close>

abbreviation invalid :: "string \<Rightarrow> exn" where
  "invalid \<equiv> ReconciliationValidationError"

definition require_identifier :: "string \<Rightarrow> string \<Rightarrow> unit res" where
  "require_identifier label v =
     raise_if (\<not> IDENTIFIER v) (invalid (label @ '' must be a stable 1-256 character identifier''))"

fun require_protocol_version :: "version \<Rightarrow> unit res" where
  "require_protocol_version (VInt n) =
     raise_if (n < 1) (invalid ''protocol_version must be a stable 1-256 character identifier'')"
| "require_protocol_version (VStr s) = require_identifier ''protocol_version'' s"

text \<open>\<open>[A-Za-z0-9][A-Za-z0-9._:-]{0,255}\<close>\<close>

definition EXECUTION_RECORD_ID :: "string \<Rightarrow> bool" where
  "EXECUTION_RECORD_ID = ident_like is_alnum (\<lambda>c. is_alnum c \<or> c \<in> set ''._:-'')"

definition require_execution_record_id :: "string \<Rightarrow> unit res" where
  "require_execution_record_id v =
     raise_if (\<not> EXECUTION_RECORD_ID v)
       (invalid ''execution_record_id must be an opaque 1-256 character identifier'')"

definition require_digest :: "string \<Rightarrow> string \<Rightarrow> unit res" where
  "require_digest label v =
     raise_if (\<not> is_digest v) (invalid (label @ '' must be a lowercase SHA-256 hex digest''))"

definition require_bounded_text :: "string \<Rightarrow> string \<Rightarrow> nat \<Rightarrow> unit res" where
  "require_bounded_text label v max_bytes =
     (if v = [] then Inl (invalid (label @ '' must be a non-empty string''))
      else raise_if (max_bytes < utf8_size v)
        (invalid (label @ '' must not exceed '' @ digits_of max_bytes @ '' UTF-8 bytes'')))"

section \<open>Bounded JSON\<close>

definition MAX_VALUE_DEPTH :: nat where "MAX_VALUE_DEPTH = 32"
definition MAX_VALUE_NODES :: nat where "MAX_VALUE_NODES = 10000"
definition MAX_SAFE_INTEGER :: int where "MAX_SAFE_INTEGER = 2 ^ 53 - 1"
definition MAX_REASON_BYTES :: nat where "MAX_REASON_BYTES = 2048"
definition MAX_ERROR_BYTES :: nat where "MAX_ERROR_BYTES = 2048"
definition MAX_METADATA_BYTES :: nat where "MAX_METADATA_BYTES = 16384"
definition MAX_EVIDENCE_BYTES :: nat where "MAX_EVIDENCE_BYTES = 65536"
definition MAX_RESULT_BYTES :: nat where "MAX_RESULT_BYTES = 1048576"
definition MAX_SCHEMA_BYTES :: nat where "MAX_SCHEMA_BYTES = 1048576"

text \<open>
  \<open>_normalize_reconciliation_json\<close> with the node budget passed along; the values are trees, so the
  cycle checks never fire.  A tuple is not a \<open>list\<close>, and is refused.
\<close>

fun normalize_json :: "string \<Rightarrow> nat \<Rightarrow> nat \<Rightarrow> json \<Rightarrow> (json \<times> nat) res"
  and normalize_list :: "string \<Rightarrow> nat \<Rightarrow> nat \<Rightarrow> nat \<Rightarrow> json list \<Rightarrow> (json list \<times> nat) res"
  and normalize_items :: "string \<Rightarrow> nat \<Rightarrow> nat \<Rightarrow> dict \<Rightarrow> (dict \<times> nat) res" where
  "normalize_json path depth budget v =
     (if MAX_VALUE_DEPTH < depth then Inl (invalid (path @ '' exceeds maximum depth 32''))
      else case budget of
        0 \<Rightarrow> Inl (invalid (path @ '' exceeds maximum node count 10000''))
      | Suc b \<Rightarrow>
          (case v of
             JNull \<Rightarrow> Inr (v, b)
           | JBool _ \<Rightarrow> Inr (v, b)
           | JStr _ \<Rightarrow> Inr (v, b)
           | JInt i \<Rightarrow>
               if - MAX_SAFE_INTEGER \<le> i \<and> i \<le> MAX_SAFE_INTEGER then Inr (v, b)
               else Inl (invalid (path @ '' exceeds the interoperable integer range''))
           | JFloat f \<Rightarrow>
               (case f of
                  Finite _ \<Rightarrow> Inr (v, b)
                | NegZero \<Rightarrow> Inl (invalid (path @ '' contains ambiguous negative zero''))
                | _ \<Rightarrow> Inl (invalid (path @ '' contains a non-finite number'')))
           | JObj xs \<Rightarrow> bindR (normalize_items path (Suc depth) b xs) (\<lambda>(ys, b'). Inr (JObj ys, b'))
           | JList xs \<Rightarrow> bindR (normalize_list path (Suc depth) b 0 xs) (\<lambda>(ys, b'). Inr (JList ys, b'))
           | JTuple _ \<Rightarrow> Inl (invalid (path @ '' contains unsupported type builtins.tuple''))))"
| "normalize_list path depth budget i [] = Inr ([], budget)"
| "normalize_list path depth budget i (x # xs) =
     bindR (normalize_json (path @ ''['' @ digits_of i @ '']'') depth budget x) (\<lambda>(y, b).
     bindR (normalize_list path depth b (Suc i) xs) (\<lambda>(ys, b'). Inr (y # ys, b')))"
| "normalize_items path depth budget [] = Inr ([], budget)"
| "normalize_items path depth budget ((k, x) # xs) =
     bindR (normalize_json (path @ ''.'' @ k) depth budget x) (\<lambda>(y, b).
     bindR (normalize_items path depth b xs) (\<lambda>(ys, b'). Inr ((k, y) # ys, b')))"

definition casefold :: "string \<Rightarrow> string" where
  "casefold s = concat (map (\<lambda>c. if ccode c = 223 then ''ss''
                              else if ccode c = 181 then [c] else [lower_char c]) s)"

definition FORBIDDEN_EVIDENCE_KEYS :: "string list" where
  "FORBIDDEN_EVIDENCE_KEYS =
     [''api_key'', ''access_token'', ''authorization'', ''cookie'', ''credential'', ''idempotency_key'',
      ''identity'', ''namespace'', ''operator_identity_digest'', ''password'', ''principal'', ''provider_id'',
      ''raw_identity'', ''raw_key'', ''raw_principal'', ''refresh_token'', ''secret'', ''subject'', ''tenant'']"

text \<open>The first sensitive key met in document order.\<close>

fun sensitive_key :: "json \<Rightarrow> string option"
  and sensitive_list :: "json list \<Rightarrow> string option"
  and sensitive_items :: "dict \<Rightarrow> string option" where
  "sensitive_key (JObj xs) = sensitive_items xs"
| "sensitive_key (JList xs) = sensitive_list xs"
| "sensitive_key (JTuple xs) = sensitive_list xs"
| "sensitive_key _ = None"
| "sensitive_list [] = None"
| "sensitive_list (x # xs) = (case sensitive_key x of Some k \<Rightarrow> Some k | None \<Rightarrow> sensitive_list xs)"
| "sensitive_items [] = None"
| "sensitive_items ((k, x) # xs) =
     (if casefold k \<in> set FORBIDDEN_EVIDENCE_KEYS then Some k
      else case sensitive_key x of Some k' \<Rightarrow> Some k' | None \<Rightarrow> sensitive_items xs)"

definition reject_sensitive_keys :: "json \<Rightarrow> string \<Rightarrow> unit res" where
  "reject_sensitive_keys v label =
     (case sensitive_key v of None \<Rightarrow> Inr ()
      | Some k \<Rightarrow> Inl (invalid (label @ '' contains forbidden sensitive field '' @ py_repr k)))"

definition bounded_value :: "recon_env \<Rightarrow> json \<Rightarrow> string \<Rightarrow> nat \<Rightarrow> json res" where
  "bounded_value env v label max_bytes =
     bindR (normalize_json label 0 MAX_VALUE_NODES v) (\<lambda>(n, _).
     case re_dumps env n of
       None \<Rightarrow> Inl (invalid ''value cannot be canonicalized'')
     | Some t \<Rightarrow>
         if max_bytes < length t
         then Inl (invalid (label @ '' exceeds '' @ digits_of max_bytes @ '' bytes''))
         else Inr (freeze n))"

fun as_items :: "json \<Rightarrow> dict" where
  "as_items (JObj xs) = xs"
| "as_items _ = []"

definition bounded_mapping ::
  "recon_env \<Rightarrow> dict \<Rightarrow> string \<Rightarrow> nat \<Rightarrow> bool \<Rightarrow> bool \<Rightarrow> dict res" where
  "bounded_mapping env xs label max_bytes allow_empty reject_sensitive =
     bindR (bounded_value env (JObj xs) label max_bytes) (\<lambda>n.
     let plain = thaw n in
     if \<not> allow_empty \<and> as_items plain = [] then Inl (invalid (label @ '' cannot be empty''))
     else seqR (if reject_sensitive then reject_sensitive_keys plain label else Inr ())
            (Inr (as_items (freeze plain))))"

definition bounded_schema :: "recon_env \<Rightarrow> dict \<Rightarrow> string \<Rightarrow> dict res" where
  "bounded_schema env xs label =
     (let plain = thaw (JObj xs) in
      case re_validate_schema env plain of
        Some msg \<Rightarrow> Inl (invalid msg)
      | None \<Rightarrow> bounded_mapping env (as_items plain) label MAX_SCHEMA_BYTES True False)"

text \<open>\<open>_dump\<close>: the canonical text of a storage column.\<close>

definition dump :: "recon_env \<Rightarrow> json \<Rightarrow> string res" where
  "dump env v =
     bindR (normalize_json ''reconciliation storage'' 0 MAX_VALUE_NODES v) (\<lambda>(n, _).
     case re_dumps env n of
       None \<Rightarrow> Inl (invalid ''value cannot be canonicalized'')
     | Some t \<Rightarrow> Inr t)"

section \<open>Unknown actions\<close>

record UnknownAction =
  ua_execution_record_id :: string
  ua_action_digest :: string
  ua_tool_name :: string
  ua_contract_id :: string
  ua_contract_version :: int
  ua_namespace_digest :: string
  ua_uncertainty_reason :: string
  ua_attempted_at :: time
  ua_tenant_partition_digest :: "string option"
  ua_receipt_schema :: "dict option"
  ua_probe_schema :: "dict option"
  ua_result_schema :: "dict option"
  ua_provider_id :: "string option"
  ua_protocol_version :: "version option"
  ua_evidence_kinds :: "string list"
  ua_max_evidence_bytes :: int
  ua_max_result_bytes :: int
  ua_metadata :: dict

definition byte_limit_ok :: "string \<Rightarrow> int \<Rightarrow> unit res" where
  "byte_limit_ok name v =
     raise_if (v < 1 \<or> int MAX_RESULT_BYTES < v) (invalid (name @ '' must be between 1 and 1048576''))"

fun optional_schema :: "recon_env \<Rightarrow> string \<Rightarrow> dict option \<Rightarrow> dict option res" where
  "optional_schema env name None = Inr None"
| "optional_schema env name (Some xs) = bindR (bounded_schema env xs name) (\<lambda>ys. Inr (Some ys))"

definition provider_binding_ok :: "UnknownAction \<Rightarrow> string list res" where
  "provider_binding_ok a =
     (case ua_provider_id a of
        None \<Rightarrow>
          if ua_protocol_version a \<noteq> None \<or> ua_evidence_kinds a \<noteq> []
          then Inl (invalid ''reconciliation provider metadata requires a provider ID'')
          else Inr (ua_evidence_kinds a)
      | Some pid \<Rightarrow>
          seqR (require_identifier ''reconciliation_provider_id'' pid)
          (case ua_protocol_version a of
             None \<Rightarrow> Inl (invalid ''reconciliation provider metadata requires a protocol version'')
           | Some v \<Rightarrow>
               seqR (require_protocol_version v)
               (seqR (seq_all (map (require_identifier ''supported reconciliation evidence kind'')
                                 (ua_evidence_kinds a)))
               (if ua_evidence_kinds a = []
                then Inl (invalid ''reconciliation provider metadata requires supported evidence kinds'')
                else if \<not> distinct (ua_evidence_kinds a)
                then Inl (invalid ''reconciliation provider metadata cannot contain duplicate evidence kinds'')
                else Inr (sort (ua_evidence_kinds a))))))"

definition action_fields_ok :: "UnknownAction \<Rightarrow> unit res" where
  "action_fields_ok a =
     seq_all
       [require_execution_record_id (ua_execution_record_id a),
        require_digest ''action_digest'' (ua_action_digest a),
        require_identifier ''tool_name'' (ua_tool_name a),
        require_identifier ''contract_id'' (ua_contract_id a),
        raise_if (ua_contract_version a < 1) (invalid ''contract_version must be a positive integer''),
        require_digest ''idempotency_namespace_digest'' (ua_namespace_digest a),
        (case ua_tenant_partition_digest a of
           None \<Rightarrow> Inr () | Some d \<Rightarrow> require_digest ''tenant_partition_digest'' d),
        require_bounded_text ''uncertainty_reason'' (ua_uncertainty_reason a) MAX_REASON_BYTES,
        byte_limit_ok ''max_evidence_bytes'' (ua_max_evidence_bytes a),
        byte_limit_ok ''max_result_bytes'' (ua_max_result_bytes a)]"

definition UnknownAction_post_init :: "recon_env \<Rightarrow> UnknownAction \<Rightarrow> UnknownAction res" where
  "UnknownAction_post_init env a =
     seqR (action_fields_ok a)
     (bindR (optional_schema env ''receipt_schema'' (ua_receipt_schema a)) (\<lambda>receipt.
      bindR (optional_schema env ''probe_schema'' (ua_probe_schema a)) (\<lambda>probe.
      bindR (optional_schema env ''result_schema'' (ua_result_schema a)) (\<lambda>result.
      bindR (provider_binding_ok a) (\<lambda>kinds.
      bindR (bounded_mapping env (ua_metadata a) ''unknown action metadata'' MAX_METADATA_BYTES True True)
        (\<lambda>meta.
      Inr (a\<lparr>ua_receipt_schema := receipt, ua_probe_schema := probe, ua_result_schema := result,
             ua_evidence_kinds := kinds, ua_metadata := meta\<rparr>)))))))"

text \<open>The dataclass equality: the JSON fields compare by Python value equality.\<close>

definition schema_eq :: "dict option \<Rightarrow> dict option \<Rightarrow> bool" where
  "schema_eq s t = (case (s, t) of
      (None, None) \<Rightarrow> True
    | (Some x, Some y) \<Rightarrow> dict_eq (=) x y
    | _ \<Rightarrow> False)"

definition UnknownAction_eq :: "UnknownAction \<Rightarrow> UnknownAction \<Rightarrow> bool" where
  "UnknownAction_eq a b =
     (ua_execution_record_id a = ua_execution_record_id b \<and>
      ua_action_digest a = ua_action_digest b \<and>
      ua_tool_name a = ua_tool_name b \<and>
      ua_contract_id a = ua_contract_id b \<and>
      ua_contract_version a = ua_contract_version b \<and>
      ua_namespace_digest a = ua_namespace_digest b \<and>
      ua_uncertainty_reason a = ua_uncertainty_reason b \<and>
      ua_attempted_at a = ua_attempted_at b \<and>
      ua_tenant_partition_digest a = ua_tenant_partition_digest b \<and>
      schema_eq (ua_receipt_schema a) (ua_receipt_schema b) \<and>
      schema_eq (ua_probe_schema a) (ua_probe_schema b) \<and>
      schema_eq (ua_result_schema a) (ua_result_schema b) \<and>
      ua_provider_id a = ua_provider_id b \<and>
      ua_protocol_version a = ua_protocol_version b \<and>
      ua_evidence_kinds a = ua_evidence_kinds b \<and>
      ua_max_evidence_bytes a = ua_max_evidence_bytes b \<and>
      ua_max_result_bytes a = ua_max_result_bytes b \<and>
      dict_eq (=) (ua_metadata a) (ua_metadata b))"

fun optional_json :: "dict option \<Rightarrow> json" where
  "optional_json None = JNull"
| "optional_json (Some xs) = thaw (JObj xs)"

fun optional_str :: "string option \<Rightarrow> json" where
  "optional_str None = JNull"
| "optional_str (Some s) = JStr s"

definition UnknownAction_to_dict :: "UnknownAction \<Rightarrow> dict" where
  "UnknownAction_to_dict a =
     [(''execution_record_id'', JStr (ua_execution_record_id a)),
      (''action_digest'', JStr (ua_action_digest a)),
      (''tool_name'', JStr (ua_tool_name a)),
      (''contract_id'', JStr (ua_contract_id a)),
      (''contract_version'', JInt (ua_contract_version a)),
      (''idempotency_namespace_digest'', JStr (ua_namespace_digest a)),
      (''uncertainty_reason'', JStr (ua_uncertainty_reason a)),
      (''attempted_at'', JStr (isoformat (ua_attempted_at a))),
      (''receipt_schema'', optional_json (ua_receipt_schema a)),
      (''probe_schema'', optional_json (ua_probe_schema a)),
      (''result_schema'', optional_json (ua_result_schema a)),
      (''max_evidence_bytes'', JInt (ua_max_evidence_bytes a)),
      (''max_result_bytes'', JInt (ua_max_result_bytes a)),
      (''metadata'', thaw (JObj (ua_metadata a)))] @
     (case ua_tenant_partition_digest a of
        None \<Rightarrow> [] | Some d \<Rightarrow> [(''tenant_partition_digest'', JStr d)]) @
     (case ua_provider_id a of
        None \<Rightarrow> []
      | Some p \<Rightarrow>
          [(''reconciliation_provider_id'', JStr p),
           (''reconciliation_protocol_version'',
              (case ua_protocol_version a of None \<Rightarrow> JNull | Some v \<Rightarrow> version_json v)),
           (''reconciliation_supported_evidence_kinds'', JList (map JStr (ua_evidence_kinds a)))])"

section \<open>Attempts, findings and providers\<close>

record AttemptContext =
  at_attempt_id :: string
  at_deadline :: time
  at_protocol_version :: version
  at_action :: UnknownAction

definition AttemptContext_post_init :: "AttemptContext \<Rightarrow> AttemptContext res" where
  "AttemptContext_post_init c =
     seqR (require_identifier ''attempt_id'' (at_attempt_id c))
     (seqR (require_protocol_version (at_protocol_version c)) (Inr c))"

record Finding =
  fi_proposed_state :: ReconciliationState
  fi_evidence_kind :: string
  fi_evidence :: dict
  fi_observed_at :: time
  fi_retry_safe :: bool
  fi_result_available :: bool
  fi_result :: json

text \<open>
  The tail the two decision classes share: a result that is given counts as available, a retry-safe
  assertion goes with \<open>CONFIRMED_NOT_APPLIED\<close> and a result with \<open>CONFIRMED_SUCCEEDED\<close>.
\<close>

definition resolved_fields ::
  "recon_env \<Rightarrow> ReconciliationState \<Rightarrow> bool \<Rightarrow> bool \<Rightarrow> json \<Rightarrow> (bool \<times> json) res" where
  "resolved_fields env state retry_safe available result =
     (let available = (available \<or> result \<noteq> JNull) in
      if state = CONFIRMED_NOT_APPLIED \<and> \<not> retry_safe
      then Inl (invalid ''CONFIRMED_NOT_APPLIED requires an explicit retry-safe assertion'')
      else if retry_safe \<and> state \<noteq> CONFIRMED_NOT_APPLIED
      then Inl (invalid ''retry_safe is valid only for CONFIRMED_NOT_APPLIED'')
      else if available then
        (if state \<noteq> CONFIRMED_SUCCEEDED
         then Inl (invalid ''resolved_result is valid only for CONFIRMED_SUCCEEDED'')
         else bindR (bounded_value env result ''resolved result'' MAX_RESULT_BYTES)
                (\<lambda>r. Inr (True, r)))
      else Inr (False, result))"

definition Finding_post_init :: "recon_env \<Rightarrow> Finding \<Rightarrow> Finding res" where
  "Finding_post_init env f =
     (if fi_proposed_state f = UNKNOWN
      then Inl (invalid ''an inconclusive finding is an attempt outcome, not a state transition'')
      else seqR (require_identifier ''evidence_kind'' (fi_evidence_kind f))
        (bindR (bounded_mapping env (fi_evidence f) ''reconciliation evidence'' MAX_EVIDENCE_BYTES False True)
          (\<lambda>evidence.
         bindR (resolved_fields env (fi_proposed_state f) (fi_retry_safe f) (fi_result_available f)
                  (fi_result f)) (\<lambda>(available, result).
         Inr (f\<lparr>fi_evidence := evidence, fi_result_available := available, fi_result := result\<rparr>)))))"

definition Finding_to_dict :: "Finding \<Rightarrow> dict" where
  "Finding_to_dict f =
     [(''proposed_state'', JStr (state_value (fi_proposed_state f))),
      (''evidence_kind'', JStr (fi_evidence_kind f)),
      (''evidence'', thaw (JObj (fi_evidence f))),
      (''observed_at'', JStr (isoformat (fi_observed_at f))),
      (''retry_safe'', JBool (fi_retry_safe f)),
      (''resolved_result_available'', JBool (fi_result_available f)),
      (''resolved_result'', thaw (fi_result f))]"

record ProviderDescriptor =
  pd_provider_id :: string
  pd_protocol_version :: version
  pd_evidence_kinds :: "string list"

definition ProviderDescriptor_post_init :: "ProviderDescriptor \<Rightarrow> ProviderDescriptor res" where
  "ProviderDescriptor_post_init p =
     seqR (require_identifier ''provider_id'' (pd_provider_id p))
     (seqR (require_protocol_version (pd_protocol_version p))
     (seqR (seq_all (map (require_identifier ''supported evidence kind'') (pd_evidence_kinds p)))
     (if pd_evidence_kinds p = [] then Inl (invalid ''supported_evidence_kinds cannot be empty'')
      else if \<not> distinct (pd_evidence_kinds p)
      then Inl (invalid ''supported_evidence_kinds cannot contain duplicates'')
      else Inr (p\<lparr>pd_evidence_kinds := sort (pd_evidence_kinds p)\<rparr>))))"

section \<open>Manual resolutions\<close>

record ManualResolution =
  ml_execution_record_id :: string
  ml_operator_identity_digest :: string
  ml_reason :: string
  ml_expected_state :: ReconciliationState
  ml_expected_revision :: int
  ml_new_state :: ReconciliationState
  ml_resolved_at :: time
  ml_evidence_kind :: string
  ml_evidence :: dict
  ml_retry_safe :: bool
  ml_result_available :: bool
  ml_result :: json

definition ManualResolution_post_init :: "recon_env \<Rightarrow> ManualResolution \<Rightarrow> ManualResolution res" where
  "ManualResolution_post_init env r =
     seqR (seq_all
       [require_execution_record_id (ml_execution_record_id r),
        require_digest ''operator_identity_digest'' (ml_operator_identity_digest r),
        require_bounded_text ''manual resolution reason'' (ml_reason r) MAX_REASON_BYTES,
        raise_if (ml_expected_state r \<noteq> MANUAL_REVIEW)
          (invalid ''manual resolution requires expected_state MANUAL_REVIEW''),
        raise_if (ml_expected_revision r < 0)
          (invalid ''expected_revision must be a non-negative integer''),
        raise_if (ml_new_state r \<notin> {CONFIRMED_SUCCEEDED, CONFIRMED_NOT_APPLIED})
          (InvalidReconciliationTransitionError ''manual resolution must select a confirmed terminal state''),
        require_identifier ''evidence_kind'' (ml_evidence_kind r)])
     (bindR (bounded_mapping env (ml_evidence r) ''manual resolution evidence'' MAX_EVIDENCE_BYTES False True)
        (\<lambda>evidence.
      bindR (resolved_fields env (ml_new_state r) (ml_retry_safe r) (ml_result_available r) (ml_result r))
        (\<lambda>(available, result).
      Inr (r\<lparr>ml_evidence := evidence, ml_result_available := available, ml_result := result\<rparr>))))"

section \<open>Transitions\<close>

record Transition =
  tn_execution_record_id :: string
  tn_expected_state :: ReconciliationState
  tn_expected_revision :: int
  tn_new_state :: ReconciliationState
  tn_source :: ReconciliationTransitionSource
  tn_evidence_kind :: string
  tn_evidence :: dict
  tn_occurred_at :: time
  tn_retry_safe :: bool
  tn_result_available :: bool
  tn_provider_id :: "string option"
  tn_attempt_id :: "string option"
  tn_operator_identity_digest :: "string option"
  tn_reason :: "string option"
  tn_result :: json

definition optional_check :: "('a \<Rightarrow> unit res) \<Rightarrow> 'a option \<Rightarrow> unit res" where
  "optional_check f v = (case v of None \<Rightarrow> Inr () | Some x \<Rightarrow> f x)"

text \<open>The result of a transition or head: bounded again, and only where it is available.\<close>

definition bounded_result :: "recon_env \<Rightarrow> nat \<Rightarrow> bool \<Rightarrow> json \<Rightarrow> json res" where
  "bounded_result env max_bytes available result =
     (if result \<noteq> JNull \<and> \<not> available
      then Inl (invalid ''resolved_result requires resolved_result_available'')
      else if available then bounded_value env result ''resolved result'' max_bytes
      else Inr result)"

definition transition_source_ok :: "Transition \<Rightarrow> unit res" where
  "transition_source_ok t =
     (case tn_source t of
        PROVIDER \<Rightarrow>
          if tn_provider_id t = None \<or> tn_attempt_id t = None
          then Inl (invalid ''provider transition requires provider_id and attempt_id'')
          else raise_if (tn_operator_identity_digest t \<noteq> None)
            (invalid ''provider transition cannot carry operator identity'')
      | RECOVERY \<Rightarrow>
          if tn_provider_id t \<noteq> None \<or> tn_attempt_id t \<noteq> None \<or> tn_operator_identity_digest t \<noteq> None
          then Inl (invalid ''recovery transition cannot carry provider or operator identity'')
          else if tn_reason t = None then Inl (invalid ''recovery transition requires a reason'')
          else raise_if (tn_new_state t \<noteq> MANUAL_REVIEW)
            (invalid ''recovery transition must enter MANUAL_REVIEW'')
      | MANUAL \<Rightarrow>
          raise_if (tn_operator_identity_digest t = None \<or> tn_reason t = None)
            (invalid ''manual transition requires operator identity and reason''))"

definition Transition_post_init :: "recon_env \<Rightarrow> Transition \<Rightarrow> Transition res" where
  "Transition_post_init env t =
     seqR (seq_all
       [require_execution_record_id (tn_execution_record_id t),
        raise_if (tn_expected_revision t < 0)
          (invalid ''expected_revision must be a non-negative integer''),
        require_identifier ''evidence_kind'' (tn_evidence_kind t)])
     (bindR (bounded_mapping env (tn_evidence t) ''transition evidence'' MAX_EVIDENCE_BYTES False True)
        (\<lambda>evidence.
      seqR (seq_all
        [optional_check (require_identifier ''provider_id'') (tn_provider_id t),
         optional_check (require_identifier ''attempt_id'') (tn_attempt_id t),
         optional_check (require_digest ''operator_identity_digest'') (tn_operator_identity_digest t),
         optional_check (\<lambda>r. require_bounded_text ''transition reason'' r MAX_REASON_BYTES) (tn_reason t)])
      (bindR (bounded_result env MAX_RESULT_BYTES (tn_result_available t) (tn_result t)) (\<lambda>result.
       seqR (transition_source_ok t)
         (Inr (t\<lparr>tn_evidence := evidence, tn_result := result\<rparr>))))))"

definition Transition_to_dict :: "Transition \<Rightarrow> dict" where
  "Transition_to_dict t =
     [(''execution_record_id'', JStr (tn_execution_record_id t)),
      (''expected_state'', JStr (state_value (tn_expected_state t))),
      (''expected_revision'', JInt (tn_expected_revision t)),
      (''new_state'', JStr (state_value (tn_new_state t))),
      (''source'', JStr (source_value (tn_source t))),
      (''evidence_kind'', JStr (tn_evidence_kind t)),
      (''evidence'', thaw (JObj (tn_evidence t))),
      (''occurred_at'', JStr (isoformat (tn_occurred_at t))),
      (''retry_safe'', JBool (tn_retry_safe t)),
      (''resolved_result_available'', JBool (tn_result_available t)),
      (''provider_id'', optional_str (tn_provider_id t)),
      (''attempt_id'', optional_str (tn_attempt_id t)),
      (''operator_identity_digest'', optional_str (tn_operator_identity_digest t)),
      (''reason'', optional_str (tn_reason t)),
      (''resolved_result'', thaw (tn_result t))]"

section \<open>Records and heads\<close>

text \<open>
  The payload of a record has one of three shapes; \<open>payload_dict\<close> is the mapping the code stores, which
  is what the size bound is checked on.
\<close>

datatype payload =
    StartPayload (pl_attempt: string) (pl_deadline: time) (pl_version: version) (pl_provider: string)
  | FinishPayload (pl_attempt: string) (pl_provider: string) (pl_outcome: ReconciliationAttemptOutcome)
      (pl_finding: "Finding option") (pl_error: "string option")
  | TransitionPayload (pl_transition: Transition)

fun payload_dict :: "payload \<Rightarrow> dict" where
  "payload_dict (StartPayload a d v p) =
     [(''attempt_id'', JStr a), (''deadline'', JStr (isoformat d)),
      (''protocol_version'', version_json v), (''provider_id'', JStr p)]"
| "payload_dict (FinishPayload a p out f e) =
     [(''attempt_id'', JStr a), (''provider_id'', JStr p), (''outcome'', JStr (outcome_value out)),
      (''finding'', (case f of None \<Rightarrow> JNull | Some x \<Rightarrow> JObj (Finding_to_dict x))),
      (''error'', optional_str e)]"
| "payload_dict (TransitionPayload t) = [(''transition'', JObj (Transition_to_dict t))]"

text \<open>\<open>payload.get("attempt_id")\<close>\<close>

fun payload_attempt :: "payload \<Rightarrow> string option" where
  "payload_attempt (StartPayload a d v p) = Some a"
| "payload_attempt (FinishPayload a p out f e) = Some a"
| "payload_attempt (TransitionPayload t) = None"

text \<open>\<open>payload.get("provider_id")\<close>\<close>

fun payload_provider :: "payload \<Rightarrow> string option" where
  "payload_provider (StartPayload a d v p) = Some p"
| "payload_provider (FinishPayload a p out f e) = Some p"
| "payload_provider (TransitionPayload t) = None"

record Record =
  rc_event_id :: string
  rc_execution_record_id :: string
  rc_revision :: int
  rc_kind :: ReconciliationEventKind
  rc_state_before :: ReconciliationState
  rc_state_after :: ReconciliationState
  rc_occurred_at :: time
  rc_payload :: payload

definition Record_post_init :: "recon_env \<Rightarrow> Record \<Rightarrow> Record res" where
  "Record_post_init env r =
     seqR (seq_all
       [require_execution_record_id (rc_event_id r),
        require_execution_record_id (rc_execution_record_id r),
        raise_if (rc_revision r < 1) (invalid ''record revision must be positive'')])
     (bindR (bounded_mapping env (payload_dict (rc_payload r)) ''reconciliation record payload''
               MAX_RESULT_BYTES True False) (\<lambda>_. Inr r))"

record Head =
  hd_action :: UnknownAction
  hd_state :: ReconciliationState
  hd_revision :: int
  hd_disposition :: ReconciliationDisposition
  hd_updated_at :: time
  hd_result_available :: bool
  hd_result :: json

definition Head_post_init :: "recon_env \<Rightarrow> Head \<Rightarrow> Head res" where
  "Head_post_init env h =
     seqR (raise_if (hd_revision h < 0) (invalid ''head revision must be a non-negative integer''))
     (bindR (bounded_result env (nat (ua_max_result_bytes (hd_action h))) (hd_result_available h) (hd_result h))
        (\<lambda>result. Inr (h\<lparr>hd_result := result\<rparr>)))"

section \<open>What the bounds accept\<close>

text \<open>
  Interoperable JSON: no tuples, integers in the safe range, no infinities, NaN or negative zero.
\<close>

fun interoperable :: "json \<Rightarrow> bool" where
  "interoperable (JInt i) = (\<bar>i\<bar> \<le> MAX_SAFE_INTEGER)"
| "interoperable (JFloat f) = (\<exists>q. f = Finite q)"
| "interoperable (JList xs) = list_all interoperable xs"
| "interoperable (JTuple xs) = False"
| "interoperable (JObj xs) = list_all (\<lambda>p. interoperable (snd p)) xs"
| "interoperable _ = True"

fun nodes :: "json \<Rightarrow> nat" where
  "nodes (JList xs) = Suc (sum_list (map nodes xs))"
| "nodes (JTuple xs) = Suc (sum_list (map nodes xs))"
| "nodes (JObj xs) = Suc (sum_list (map (\<lambda>p. nodes (snd p)) xs))"
| "nodes _ = 1"

definition within_bounds :: "nat \<Rightarrow> nat \<Rightarrow> json \<Rightarrow> bool" where
  "within_bounds d b v \<longleftrightarrow> interoperable v \<and> d + height v \<le> MAX_VALUE_DEPTH \<and> nodes v \<le> b"

declare normalize_json.simps [simp del]

lemma normalize_list_Inr:
  assumes "\<And>x p b r. x \<in> set xs \<Longrightarrow>
             normalize_json p d b x = Inr r \<longleftrightarrow> within_bounds d b x \<and> r = (x, b - nodes x)"
  shows "normalize_list p d b i xs = Inr r \<longleftrightarrow>
           list_all interoperable xs \<and> (\<forall>x\<in>set xs. d + height x \<le> MAX_VALUE_DEPTH) \<and>
           sum_list (map nodes xs) \<le> b \<and> r = (xs, b - sum_list (map nodes xs))"
  using assms
proof (induction xs arbitrary: b i r)
  case (Cons x xs)
  have x: "normalize_json p' d b' x = Inr s \<longleftrightarrow> within_bounds d b' x \<and> s = (x, b' - nodes x)" for p' b' s
    using Cons.prems by simp
  have IH: "normalize_list p d b' j xs = Inr s \<longleftrightarrow>
           list_all interoperable xs \<and> (\<forall>x\<in>set xs. d + height x \<le> MAX_VALUE_DEPTH) \<and>
           sum_list (map nodes xs) \<le> b' \<and> s = (xs, b' - sum_list (map nodes xs))" for b' j s
    using Cons.IH Cons.prems by simp
  show ?case
    by (auto simp: bindR_eq_Inr x IH within_bounds_def)
qed auto

lemma normalize_items_Inr:
  assumes "\<And>k x p b r. (k, x) \<in> set xs \<Longrightarrow>
             normalize_json p d b x = Inr r \<longleftrightarrow> within_bounds d b x \<and> r = (x, b - nodes x)"
  shows "normalize_items p d b xs = Inr r \<longleftrightarrow>
           list_all (\<lambda>q. interoperable (snd q)) xs \<and> (\<forall>q\<in>set xs. d + height (snd q) \<le> MAX_VALUE_DEPTH) \<and>
           sum_list (map (\<lambda>q. nodes (snd q)) xs) \<le> b \<and> r = (xs, b - sum_list (map (\<lambda>q. nodes (snd q)) xs))"
  using assms
proof (induction xs arbitrary: b r)
  case (Cons kx xs)
  obtain k x where kx: "kx = (k, x)" by (cases kx)
  have x: "normalize_json p' d b' x = Inr s \<longleftrightarrow> within_bounds d b' x \<and> s = (x, b' - nodes x)" for p' b' s
    by (rule Cons.prems[of k]) (simp add: kx)
  have IH: "normalize_items p d b' xs = Inr s \<longleftrightarrow>
           list_all (\<lambda>q. interoperable (snd q)) xs \<and> (\<forall>q\<in>set xs. d + height (snd q) \<le> MAX_VALUE_DEPTH) \<and>
           sum_list (map (\<lambda>q. nodes (snd q)) xs) \<le> b' \<and> s = (xs, b' - sum_list (map (\<lambda>q. nodes (snd q)) xs))"
    for b' s
    by (rule Cons.IH) (rule Cons.prems, rule list.set_intros(2))
  show ?case
    by (auto simp: kx bindR_eq_Inr x IH within_bounds_def)
qed auto

lemma normalize_json_Inr:
  "normalize_json p d b v = Inr r \<longleftrightarrow> within_bounds d b v \<and> r = (v, b - nodes v)"
proof (induction v arbitrary: p d b r)
  case (JFloat f)
  then show ?case by (cases f) (auto simp: normalize_json.simps within_bounds_def split: nat.splits)
next
  case (JList xs)
  have "normalize_list p (Suc d) b' 0 xs = Inr s \<longleftrightarrow>
           list_all interoperable xs \<and> (\<forall>x\<in>set xs. Suc d + height x \<le> MAX_VALUE_DEPTH) \<and>
           sum_list (map nodes xs) \<le> b' \<and> s = (xs, b' - sum_list (map nodes xs))" for b' s
    by (rule normalize_list_Inr) (rule JList)
  moreover have "d + height (JList xs) \<le> MAX_VALUE_DEPTH \<longleftrightarrow>
      d \<le> MAX_VALUE_DEPTH \<and> (\<forall>x\<in>set xs. Suc d + height x \<le> MAX_VALUE_DEPTH)"
    using foldr_max_le[of height xs "MAX_VALUE_DEPTH - d"] by fastforce
  ultimately show ?case
    by (auto simp: normalize_json.simps within_bounds_def bindR_eq_Inr simp del: height.simps split: nat.splits)
next
  case (JObj xs)
  have "normalize_items p (Suc d) b' xs = Inr s \<longleftrightarrow>
           list_all (\<lambda>q. interoperable (snd q)) xs \<and> (\<forall>q\<in>set xs. Suc d + height (snd q) \<le> MAX_VALUE_DEPTH) \<and>
           sum_list (map (\<lambda>q. nodes (snd q)) xs) \<le> b' \<and> s = (xs, b' - sum_list (map (\<lambda>q. nodes (snd q)) xs))"
    for b' s
    by (rule normalize_items_Inr) (rule JObj, auto)
  moreover have "d + height (JObj xs) \<le> MAX_VALUE_DEPTH \<longleftrightarrow>
      d \<le> MAX_VALUE_DEPTH \<and> (\<forall>q\<in>set xs. Suc d + height (snd q) \<le> MAX_VALUE_DEPTH)"
    using foldr_max_le[of "\<lambda>q. height (snd q)" xs "MAX_VALUE_DEPTH - d"] by fastforce
  ultimately show ?case
    by (auto simp: normalize_json.simps within_bounds_def bindR_eq_Inr simp del: height.simps split: nat.splits)
qed (auto simp: normalize_json.simps within_bounds_def split: nat.splits)

lemma interoperable_plain: "interoperable v \<Longrightarrow> plain_json v"
  by (induction v) (auto simp: list_all_iff)

fun has_array :: "json \<Rightarrow> bool" where
  "has_array (JList xs) = True"
| "has_array (JTuple xs) = True"
| "has_array (JObj xs) = list_ex (\<lambda>p. has_array (snd p)) xs"
| "has_array _ = False"

lemma interoperable_freeze: "interoperable (freeze v) \<longleftrightarrow> interoperable v \<and> \<not> has_array v"
  by (induction v) (force simp: list_all_iff list_ex_iff)+

lemma freeze_array_free: "\<not> has_array v \<Longrightarrow> freeze v = v"
proof (induction v)
  case (JObj xs)
  then show ?case by (auto simp: list_ex_iff intro!: map_items_id)
qed auto

lemma bounded_value_Inr:
  "bounded_value env v label m = Inr r \<longleftrightarrow>
     within_bounds 0 MAX_VALUE_NODES v \<and> (\<exists>t. re_dumps env v = Some t \<and> length t \<le> m) \<and> r = freeze v"
  by (auto simp: bounded_value_def bindR_eq_Inr normalize_json_Inr split: option.splits if_splits)

lemma as_items_freeze [simp]: "JObj (as_items (freeze (JObj xs))) = freeze (JObj xs)"
  by simp

text \<open>The keys at every level of a value.\<close>

fun all_keys :: "json \<Rightarrow> string list" where
  "all_keys (JList xs) = concat (map all_keys xs)"
| "all_keys (JTuple xs) = concat (map all_keys xs)"
| "all_keys (JObj xs) = concat (map (\<lambda>p. fst p # all_keys (snd p)) xs)"
| "all_keys _ = []"

definition no_sensitive :: "json \<Rightarrow> bool" where
  "no_sensitive v \<longleftrightarrow> (\<forall>k\<in>set (all_keys v). casefold k \<notin> set FORBIDDEN_EVIDENCE_KEYS)"

lemma no_sensitive_simps [simp]:
  "no_sensitive (JList xs) \<longleftrightarrow> (\<forall>x\<in>set xs. no_sensitive x)"
  "no_sensitive (JTuple xs) \<longleftrightarrow> (\<forall>x\<in>set xs. no_sensitive x)"
  "no_sensitive (JObj ys) \<longleftrightarrow>
     (\<forall>p\<in>set ys. casefold (fst p) \<notin> set FORBIDDEN_EVIDENCE_KEYS \<and> no_sensitive (snd p))"
  by (auto simp: no_sensitive_def)

lemma sensitive_key_None:
  "sensitive_key v = None \<longleftrightarrow> no_sensitive v"
  "sensitive_list xs = None \<longleftrightarrow> (\<forall>x\<in>set xs. no_sensitive x)"
  "sensitive_items ys = None \<longleftrightarrow>
     (\<forall>p\<in>set ys. casefold (fst p) \<notin> set FORBIDDEN_EVIDENCE_KEYS \<and> no_sensitive (snd p))"
proof (induction v and xs and ys rule: sensitive_key_sensitive_list_sensitive_items.induct)
qed (auto simp: no_sensitive_def split: option.splits)

lemma all_keys_freeze: "set (all_keys (freeze v)) = set (all_keys v)"
  by (induction v) auto

lemma no_sensitive_freeze [simp]: "no_sensitive (freeze v) = no_sensitive v"
  by (simp add: no_sensitive_def all_keys_freeze)

lemma reject_sensitive_Inr: "reject_sensitive_keys v label = Inr u \<longleftrightarrow> no_sensitive v"
  by (simp add: reject_sensitive_keys_def sensitive_key_None[symmetric] split: option.splits)

lemma bounded_mapping_Inr:
  "bounded_mapping env xs label m allow_empty reject = Inr ys \<longleftrightarrow>
     within_bounds 0 MAX_VALUE_NODES (JObj xs) \<and> (\<exists>t. re_dumps env (JObj xs) = Some t \<and> length t \<le> m) \<and>
     (allow_empty \<or> xs \<noteq> []) \<and> (reject \<longrightarrow> no_sensitive (JObj xs)) \<and> ys = as_items (freeze (JObj xs))"
proof -
  have t: "thaw (freeze (JObj xs)) = JObj xs" if "within_bounds 0 MAX_VALUE_NODES (JObj xs)"
    using that by (intro thaw_freeze interoperable_plain) (simp add: within_bounds_def)
  show ?thesis
    unfolding bounded_mapping_def bindR_eq_Inr bounded_value_Inr Let_def
    by (cases "within_bounds 0 MAX_VALUE_NODES (JObj xs)")
       (auto simp: t bindR_eq_Inr reject_sensitive_Inr simp del: freeze.simps no_sensitive_simps
             split: if_splits)
qed

text \<open>
  Bounding a bounded value again succeeds exactly when the value has no arrays: freezing turned them
  into tuples, which the normaliser refuses.
\<close>

lemma rebound_value:
  "bounded_value env v label m = Inr r \<Longrightarrow> \<not> has_array v \<Longrightarrow> bounded_value env r label' m = Inr r"
  by (auto simp: bounded_value_Inr freeze_array_free)

lemma bounded_array_refused:
  assumes "has_array v"
  shows "bounded_value env (freeze v) label m \<noteq> Inr r"
  using assms by (simp add: bounded_value_Inr within_bounds_def interoperable_freeze)

lemma bounded_mapping_array_refused:
  assumes "has_array (JObj xs)"
  shows "bounded_mapping env (as_items (freeze (JObj xs))) label m e s \<noteq> Inr r"
  using assms unfolding bounded_mapping_Inr within_bounds_def as_items_freeze interoperable_freeze by simp

lemma rebound_mapping:
  "bounded_mapping env xs label m e s = Inr ys \<Longrightarrow> \<not> has_array (JObj xs) \<Longrightarrow>
   ys = xs \<and> bounded_mapping env ys label' m e s = Inr ys"
  by (auto simp: bounded_mapping_Inr freeze_array_free simp del: freeze.simps has_array.simps)

end
