(* ===== verification/Ledger.thy ===== *)
theory Ledger
  imports ReconValues
begin

text \<open>
  The reconciliation ledger of \<open>reconciliation.py\<close>: the checks shared by its two implementations, and
  \<open>InMemoryReconciliationLedger\<close>.  Every operation is guarded by one lock, so an operation is one step
  on the ledger; it returns the state it leaves behind together with its result or the exception
  raised.  The clock and the random identifiers are arguments.
\<close>

section \<open>Claims\<close>

record IdempotencyClaim =
  cl_namespace :: string
  cl_key :: string
  cl_fingerprint :: string
  cl_owner :: bool
  cl_future :: nat
  cl_owner_token :: "string option"
  cl_lease_seconds :: "time option"
  cl_execution_record_id :: "string option"
  cl_generation :: "nat option"

definition idempotency_namespace_digest :: "recon_env \<Rightarrow> string \<Rightarrow> string res" where
  "idempotency_namespace_digest env namespace =
     seqR (require_identifier ''idempotency namespace'' namespace)
       (Inr (re_canonical_sha256 env (JObj
          [(''domain'', JStr ''arg.idempotency-namespace''), (''version'', JInt 1),
           (''namespace'', JStr namespace)])))"

section \<open>Attempts\<close>

definition validate_attempt :: "AttemptContext \<Rightarrow> ProviderDescriptor \<Rightarrow> unit res" where
  "validate_attempt ctx p =
     raise_if (at_protocol_version ctx \<noteq> pd_protocol_version p)
       (invalid ''provider and attempt protocol versions do not match'')"

definition finish_payload ::
  "AttemptContext \<Rightarrow> ProviderDescriptor \<Rightarrow> ReconciliationAttemptOutcome \<Rightarrow> Finding option \<Rightarrow>
   string option \<Rightarrow> time \<Rightarrow> (payload \<times> time) res" where
  "finish_payload ctx p out finding error finished_at =
     seqR (seq_all
       [(case finding of
           None \<Rightarrow> Inr ()
         | Some f \<Rightarrow> raise_if (fi_evidence_kind f \<notin> set (pd_evidence_kinds p))
             (invalid ''provider does not support the finding evidence kind'')),
        raise_if (out = SUCCESS \<and> finding = None) (invalid ''successful attempt requires a finding''),
        raise_if (out \<noteq> SUCCESS \<and> finding \<noteq> None)
          (invalid ''only a successful attempt may carry a conclusive finding''),
        optional_check (\<lambda>e. require_bounded_text ''attempt error'' e MAX_ERROR_BYTES) error])
     (Inr (FinishPayload (at_attempt_id ctx) (pd_provider_id p) out finding error, finished_at))"

text \<open>
  \<open>_unmatched_attempt_start_records\<close>: the loop over the records carries the starts seen so far, in
  insertion order, and the identifiers of the finished attempts.
\<close>

type_synonym scan = "(string \<times> Record) list \<times> string list"

fun scan_step :: "scan \<Rightarrow> Record \<Rightarrow> scan res" where
  "scan_step (starts, finished) r =
     (case payload_attempt (rc_payload r) of
        None \<Rightarrow> Inl (ReconciliationError ''persisted reconciliation attempt lacks attempt_id'')
      | Some a \<Rightarrow>
          (case rc_kind r of
             ATTEMPT_STARTED \<Rightarrow>
               if a \<in> fst ` set starts
               then Inl (ReconciliationError ''persisted reconciliation attempt_id is duplicated'')
               else Inr (starts @ [(a, r)], finished)
           | ATTEMPT_FINISHED \<Rightarrow>
               if a \<notin> fst ` set starts \<or> a \<in> set finished
               then Inl (ReconciliationError ''persisted reconciliation attempt finish has no unique start'')
               else Inr (starts, finished @ [a])
           | STATE_TRANSITION \<Rightarrow> Inr (starts, finished)))"

fun scan_records :: "scan \<Rightarrow> Record list \<Rightarrow> scan res" where
  "scan_records s [] = Inr s"
| "scan_records s (r # rs) = bindR (scan_step s r) (\<lambda>s'. scan_records s' rs)"

definition unmatched_attempt_start_records :: "Record list \<Rightarrow> Record list res" where
  "unmatched_attempt_start_records rs =
     bindR (scan_records ([], []) rs) (\<lambda>(starts, finished).
       Inr (map snd (filter (\<lambda>(a, r). a \<notin> set finished) starts)))"

definition validate_attempt_append ::
  "Record list \<Rightarrow> ReconciliationEventKind \<Rightarrow> payload \<Rightarrow> unit res" where
  "validate_attempt_append records kind pl =
     (let matching = filter (\<lambda>r. payload_attempt (rc_payload r) = payload_attempt pl) records in
      if kind = ATTEMPT_STARTED then
        (if matching \<noteq> [] then Inl (ReconciliationConflictError ''attempt_id has already been persisted'')
         else bindR (unmatched_attempt_start_records records) (\<lambda>open.
           raise_if (open \<noteq> [])
             (ReconciliationConflictError ''a previous reconciliation attempt is still unfinished'')))
      else
        (let starts = filter (\<lambda>r. rc_kind r = ATTEMPT_STARTED) matching;
             finishes = filter (\<lambda>r. rc_kind r = ATTEMPT_FINISHED) matching in
         if length starts \<noteq> 1 \<or> finishes \<noteq> []
         then Inl (ReconciliationConflictError ''attempt finish requires one unmatched persisted start'')
         else raise_if (payload_provider (rc_payload (hd starts)) \<noteq> payload_provider pl)
           (invalid ''attempt finish provider does not match the persisted start'')))"

text \<open>
  \<open>_unfinished_attempt_contexts\<close>: any error while a context is rebuilt becomes a
  \<open>ReconciliationError\<close>.
\<close>

definition unfinished_context ::
  "UnknownAction \<Rightarrow> Record \<Rightarrow> (Record \<times> AttemptContext \<times> ProviderDescriptor) res" where
  "unfinished_context action r =
     (let built = (case rc_payload r of
            StartPayload attempt deadline version provider \<Rightarrow>
              bindR (AttemptContext_post_init
                \<lparr>at_attempt_id = attempt, at_deadline = deadline, at_protocol_version = version,
                 at_action = action\<rparr>) (\<lambda>ctx.
              bindR (ProviderDescriptor_post_init
                \<lparr>pd_provider_id = provider, pd_protocol_version = at_protocol_version ctx,
                 pd_evidence_kinds = (if ua_evidence_kinds action = [] then [''runtime'']
                                      else ua_evidence_kinds action)\<rparr>) (\<lambda>p.
              Inr (r, ctx, p)))
          | _ \<Rightarrow> Inl (KeyError ''deadline''))
      in case built of
           Inl _ \<Rightarrow> Inl (ReconciliationError ''persisted unfinished reconciliation attempt is invalid'')
         | Inr x \<Rightarrow> Inr x)"

fun unfinished_contexts ::
  "UnknownAction \<Rightarrow> Record list \<Rightarrow> (Record \<times> AttemptContext \<times> ProviderDescriptor) list res" where
  "unfinished_contexts action [] = Inr []"
| "unfinished_contexts action (r # rs) =
     bindR (unfinished_context action r) (\<lambda>x.
     bindR (unfinished_contexts action rs) (\<lambda>xs. Inr (x # xs)))"

definition unfinished_attempt_contexts ::
  "UnknownAction \<Rightarrow> Record list \<Rightarrow> (Record \<times> AttemptContext \<times> ProviderDescriptor) list res" where
  "unfinished_attempt_contexts action records =
     bindR (unmatched_attempt_start_records records) (unfinished_contexts action)"

section \<open>Transitions\<close>

definition recovery_transition :: "recon_env \<Rightarrow> Head \<Rightarrow> nat \<Rightarrow> time \<Rightarrow> Transition res" where
  "recovery_transition env h count recovered_at =
     (if count < 1 then Inl (invalid ''unfinished_attempt_count must be a positive integer'')
      else Transition_post_init env
        \<lparr>tn_execution_record_id = ua_execution_record_id (hd_action h),
         tn_expected_state = hd_state h, tn_expected_revision = hd_revision h,
         tn_new_state = MANUAL_REVIEW, tn_source = RECOVERY, tn_evidence_kind = ''runtime'',
         tn_evidence = [(''reason_code'', JStr ''expired_unfinished_reconciliation_attempt''),
                        (''unfinished_attempt_count'', JInt (int count))],
         tn_occurred_at = recovered_at, tn_retry_safe = False, tn_result_available = False,
         tn_provider_id = None, tn_attempt_id = None, tn_operator_identity_digest = None,
         tn_reason = Some ''expired reconciliation attempt requires manual review'',
         tn_result = JNull\<rparr>)"

definition finished_with :: "string \<Rightarrow> ProviderDescriptor \<Rightarrow> Finding \<Rightarrow> Record \<Rightarrow> bool" where
  "finished_with attempt p finding r =
     (rc_kind r = ATTEMPT_FINISHED \<and>
      (case rc_payload r of
         FinishPayload a pid out f e \<Rightarrow>
           a = attempt \<and> pid = pd_provider_id p \<and> out = SUCCESS \<and>
           (case f of None \<Rightarrow> False
            | Some g \<Rightarrow> py_eq (=) (thaw (JObj (Finding_to_dict g))) (JObj (Finding_to_dict finding)))
       | _ \<Rightarrow> False))"

definition require_finished_attempt ::
  "Record list \<Rightarrow> string option \<Rightarrow> ProviderDescriptor option \<Rightarrow> Finding \<Rightarrow> unit res" where
  "require_finished_attempt records attempt provider finding =
     (case (attempt, provider) of
        (Some a, Some p) \<Rightarrow>
          raise_if (\<not> list_ex (finished_with a p finding) records)
            (ReconciliationConflictError ''provider transition has no matching successful attempt finish'')
      | _ \<Rightarrow> Inr ())"

datatype decision = ByFinding Finding | ByManual ManualResolution

fun build_transition ::
  "recon_env \<Rightarrow> Head \<Rightarrow> decision \<Rightarrow> ProviderDescriptor option \<Rightarrow> string option \<Rightarrow> Transition res" where
  "build_transition env h (ByFinding f) provider attempt =
     (case provider of
        None \<Rightarrow> Inl (invalid ''provider findings require a trusted ProviderDescriptor'')
      | Some p \<Rightarrow>
          if hd_state h = MANUAL_REVIEW
          then Inl (InvalidReconciliationTransitionError
                 ''MANUAL_REVIEW can be resolved only by ManualResolution'')
          else if fi_evidence_kind f \<notin> set (pd_evidence_kinds p)
          then Inl (invalid ''provider does not support the finding evidence kind'')
          else if attempt = None
          then Inl (invalid ''provider transition requires the persisted attempt_id'')
          else Transition_post_init env
            \<lparr>tn_execution_record_id = ua_execution_record_id (hd_action h),
             tn_expected_state = hd_state h, tn_expected_revision = hd_revision h,
             tn_new_state = fi_proposed_state f, tn_source = PROVIDER,
             tn_evidence_kind = fi_evidence_kind f, tn_evidence = fi_evidence f,
             tn_occurred_at = fi_observed_at f, tn_retry_safe = fi_retry_safe f,
             tn_result_available = fi_result_available f,
             tn_provider_id = Some (pd_provider_id p), tn_attempt_id = attempt,
             tn_operator_identity_digest = None, tn_reason = None, tn_result = fi_result f\<rparr>)"
| "build_transition env h (ByManual m) provider attempt =
     (if provider \<noteq> None \<or> attempt \<noteq> None
      then Inl (invalid ''manual resolution cannot carry provider attempt identity'')
      else if ml_execution_record_id m \<noteq> ua_execution_record_id (hd_action h)
      then Inl (invalid ''manual resolution targets a different execution record'')
      else if ml_expected_state m \<noteq> hd_state h \<or> ml_expected_revision m \<noteq> hd_revision h
      then Inl (ReconciliationConflictError ''manual resolution expected state or revision is stale'')
      else Transition_post_init env
        \<lparr>tn_execution_record_id = ua_execution_record_id (hd_action h),
         tn_expected_state = hd_state h, tn_expected_revision = hd_revision h,
         tn_new_state = ml_new_state m, tn_source = MANUAL,
         tn_evidence_kind = ml_evidence_kind m, tn_evidence = ml_evidence m,
         tn_occurred_at = ml_resolved_at m, tn_retry_safe = ml_retry_safe m,
         tn_result_available = ml_result_available m,
         tn_provider_id = None, tn_attempt_id = None,
         tn_operator_identity_digest = Some (ml_operator_identity_digest m),
         tn_reason = Some (ml_reason m), tn_result = ml_result m\<rparr>)"

definition evidence_schema :: "UnknownAction \<Rightarrow> string \<Rightarrow> dict option" where
  "evidence_schema action kind =
     (if kind = ''receipt'' then ua_receipt_schema action
      else if kind = ''probe'' then ua_probe_schema action else None)"

definition validate_instance :: "recon_env \<Rightarrow> string \<Rightarrow> json \<Rightarrow> dict option \<Rightarrow> unit res" where
  "validate_instance env label v schema =
     (case schema of
        None \<Rightarrow> Inr ()
      | Some s \<Rightarrow>
          (case contract_normalize label 0 v of
             Inl e \<Rightarrow> Inl (invalid (exn_msg e))
           | Inr n \<Rightarrow>
               (case re_validate_instance env n (JObj s) of
                  None \<Rightarrow> Inr ()
                | Some msg \<Rightarrow> Inl (invalid (label @ '' contract violation: '' @ msg)))))"

definition validate_transition_evidence :: "recon_env \<Rightarrow> UnknownAction \<Rightarrow> Transition \<Rightarrow> unit res" where
  "validate_transition_evidence env action t =
     (let evidence = thaw (JObj (tn_evidence t)) in
      bindR (dump env evidence) (\<lambda>encoded.
      seqR (raise_if (ua_max_evidence_bytes action < int (length encoded))
              (invalid (''reconciliation evidence exceeds '' @
                 digits_of (nat (ua_max_evidence_bytes action)) @ '' bytes'')))
      (seqR (validate_instance env ''reconciliation evidence'' evidence (evidence_schema action (tn_evidence_kind t)))
      (if \<not> tn_result_available t then Inr ()
       else let result = thaw (tn_result t) in
         bindR (dump env result) (\<lambda>encoded.
         seqR (raise_if (ua_max_result_bytes action < int (length encoded))
                 (invalid (''resolved result exceeds '' @
                    digits_of (nat (ua_max_result_bytes action)) @ '' bytes'')))
         (validate_instance env ''resolved result'' result (ua_result_schema action)))))))"

definition legal_transition :: "ReconciliationState \<Rightarrow> ReconciliationState \<Rightarrow> bool" where
  "legal_transition cur new =
     (case cur of
        UNKNOWN \<Rightarrow> new \<in> {CONFIRMED_SUCCEEDED, CONFIRMED_NOT_APPLIED, MANUAL_REVIEW}
      | MANUAL_REVIEW \<Rightarrow> new \<in> {CONFIRMED_SUCCEEDED, CONFIRMED_NOT_APPLIED}
      | _ \<Rightarrow> False)"

definition require_legal_transition :: "ReconciliationState \<Rightarrow> ReconciliationState \<Rightarrow> unit res" where
  "require_legal_transition cur new =
     raise_if (\<not> legal_transition cur new)
       (InvalidReconciliationTransitionError
          (''illegal reconciliation transition '' @ state_value cur @ '' -> '' @ state_value new))"

definition require_cas :: "Head \<Rightarrow> ReconciliationState \<Rightarrow> int \<Rightarrow> unit res" where
  "require_cas h expected_state expected_revision =
     (if expected_revision < 0 then Inl (invalid ''expected_revision must be a non-negative integer'')
      else raise_if (hd_state h \<noteq> expected_state \<or> hd_revision h \<noteq> expected_revision)
        (ReconciliationConflictError
           ''reconciliation state or revision does not match the expected CAS value''))"

definition disposition_of :: "ReconciliationState \<Rightarrow> bool \<Rightarrow> ReconciliationDisposition" where
  "disposition_of state available =
     (if state = UNKNOWN then BLOCKED_UNKNOWN
      else if state = MANUAL_REVIEW then BLOCKED_MANUAL_REVIEW
      else if state = CONFIRMED_NOT_APPLIED then RETRY_ALLOWED
      else if \<not> available then APPLIED_NO_RESULT
      else COMPLETED)"

definition transition_record ::
  "recon_env \<Rightarrow> string \<Rightarrow> Head \<Rightarrow> Transition \<Rightarrow> (Record \<times> Head) res" where
  "transition_record env new_id h t =
     seqR (require_legal_transition (hd_state h) (tn_new_state t))
     (bindR (Record_post_init env
        \<lparr>rc_event_id = new_id, rc_execution_record_id = ua_execution_record_id (hd_action h),
         rc_revision = hd_revision h + 1, rc_kind = STATE_TRANSITION,
         rc_state_before = hd_state h, rc_state_after = tn_new_state t,
         rc_occurred_at = tn_occurred_at t, rc_payload = TransitionPayload t\<rparr>) (\<lambda>r.
      bindR (Head_post_init env
        \<lparr>hd_action = hd_action h, hd_state = tn_new_state t, hd_revision = rc_revision r,
         hd_disposition = disposition_of (tn_new_state t) (tn_result_available t),
         hd_updated_at = rc_occurred_at r, hd_result_available = tn_result_available t,
         hd_result = tn_result t\<rparr>) (\<lambda>updated.
      Inr (r, updated))))"

section \<open>\<open>InMemoryReconciliationLedger\<close>\<close>

record ledger =
  lg_heads :: "string \<rightharpoonup> Head"
  lg_events :: "string \<rightharpoonup> Record list"
  lg_prepared :: "string \<rightharpoonup> UnknownAction"

definition empty_ledger :: ledger where
  "empty_ledger = \<lparr>lg_heads = Map.empty, lg_events = Map.empty, lg_prepared = Map.empty\<rparr>"

definition head_locked :: "ledger \<Rightarrow> string \<Rightarrow> Head res" where
  "head_locked l eid =
     seqR (require_execution_record_id eid)
       (case lg_heads l eid of
          Some h \<Rightarrow> Inr h
        | None \<Rightarrow> Inl (ReconciliationNotFoundError (''unknown execution record '' @ py_repr eid)))"

definition events_at :: "ledger \<Rightarrow> string \<Rightarrow> Record list res" where
  "events_at l eid = (case lg_events l eid of Some rs \<Rightarrow> Inr rs | None \<Rightarrow> Inl (KeyError eid))"

definition claim_matches :: "recon_env \<Rightarrow> IdempotencyClaim \<Rightarrow> UnknownAction \<Rightarrow> unit res" where
  "claim_matches env c action =
     (if \<not> cl_owner c
      then Inl (ReconciliationConflictError ''only the current idempotency owner can prepare reconciliation'')
      else if cl_execution_record_id c \<noteq> Some (ua_execution_record_id action)
      then Inl (invalid ''prepared action execution record does not match the idempotency claim'')
      else if cl_fingerprint c \<noteq> ua_action_digest action
      then Inl (invalid ''prepared action digest does not match the idempotency claim'')
      else bindR (idempotency_namespace_digest env (cl_namespace c)) (\<lambda>d.
        raise_if (d \<noteq> ua_namespace_digest action)
          (invalid ''prepared action namespace does not match the idempotency claim'')))"

definition lg_prepare_action ::
  "recon_env \<Rightarrow> ledger \<Rightarrow> IdempotencyClaim \<Rightarrow> UnknownAction \<Rightarrow> ledger \<times> unit res" where
  "lg_prepare_action env l c action =
     (case claim_matches env c action of
        Inl e \<Rightarrow> (l, Inl e)
      | Inr _ \<Rightarrow>
          (case lg_prepared l (ua_execution_record_id action) of
             Some existing \<Rightarrow>
               if \<not> UnknownAction_eq existing action
               then (l, Inl (ReconciliationConflictError ''a different reconciliation action is already prepared''))
               else (l\<lparr>lg_prepared := (lg_prepared l)(ua_execution_record_id action \<mapsto> action)\<rparr>, Inr ())
           | None \<Rightarrow>
               (l\<lparr>lg_prepared := (lg_prepared l)(ua_execution_record_id action \<mapsto> action)\<rparr>, Inr ())))"

definition unknown_head :: "UnknownAction \<Rightarrow> time \<Rightarrow> Head" where
  "unknown_head action updated_at =
     \<lparr>hd_action = action, hd_state = UNKNOWN, hd_revision = 0, hd_disposition = BLOCKED_UNKNOWN,
      hd_updated_at = updated_at, hd_result_available = False, hd_result = JNull\<rparr>"

definition lg_create_unknown :: "recon_env \<Rightarrow> ledger \<Rightarrow> UnknownAction \<Rightarrow> ledger \<times> Head res" where
  "lg_create_unknown env l action =
     (let eid = ua_execution_record_id action in
      if lg_heads l eid \<noteq> None
      then (l, Inl (ReconciliationConflictError
                 ''a reconciliation head already exists for this execution record''))
      else case Head_post_init env (unknown_head action (ua_attempted_at action)) of
             Inl e \<Rightarrow> (l, Inl e)
           | Inr h \<Rightarrow>
               (l\<lparr>lg_heads := (lg_heads l)(eid \<mapsto> h), lg_events := (lg_events l)(eid \<mapsto> [])\<rparr>, Inr h))"

text \<open>The checks of \<open>_append_attempt_locked\<close>, then the record, then the new head.\<close>

definition attempt_record ::
  "recon_env \<Rightarrow> string \<Rightarrow> Head \<Rightarrow> Record list \<Rightarrow> string \<Rightarrow> UnknownAction \<Rightarrow> int \<Rightarrow>
   ReconciliationEventKind \<Rightarrow> time \<Rightarrow> payload \<Rightarrow> Record res" where
  "attempt_record env new_id h records eid action expected_revision kind occurred_at pl =
     (if \<not> UnknownAction_eq (hd_action h) action
      then Inl (invalid ''attempt context action does not match the persisted unknown action'')
      else if kind = ATTEMPT_STARTED \<and> hd_state h \<noteq> UNKNOWN
      then Inl (InvalidReconciliationTransitionError
             ''provider attempts are valid only while state is UNKNOWN'')
      else seqR (require_cas h (hd_state h) expected_revision)
        (seqR (validate_attempt_append records kind pl)
        (Record_post_init env
           \<lparr>rc_event_id = new_id, rc_execution_record_id = eid, rc_revision = hd_revision h + 1,
            rc_kind = kind, rc_state_before = hd_state h, rc_state_after = hd_state h,
            rc_occurred_at = occurred_at, rc_payload = pl\<rparr>)))"

definition advanced_head :: "recon_env \<Rightarrow> Head \<Rightarrow> Record \<Rightarrow> Head res" where
  "advanced_head env h r =
     Head_post_init env
       \<lparr>hd_action = hd_action h, hd_state = hd_state h, hd_revision = rc_revision r,
        hd_disposition = hd_disposition h, hd_updated_at = rc_occurred_at r,
        hd_result_available = hd_result_available h, hd_result = hd_result h\<rparr>"

definition append_attempt_locked ::
  "recon_env \<Rightarrow> string \<Rightarrow> ledger \<Rightarrow> string \<Rightarrow> UnknownAction \<Rightarrow> int \<Rightarrow> ReconciliationEventKind \<Rightarrow>
   time \<Rightarrow> payload \<Rightarrow> ledger \<times> Record res" where
  "append_attempt_locked env new_id l eid action expected_revision kind occurred_at pl =
     (case bindR (head_locked l eid) (\<lambda>h. bindR (events_at l eid) (\<lambda>rs.
             bindR (attempt_record env new_id h rs eid action expected_revision kind occurred_at pl)
               (\<lambda>r. Inr (h, rs, r)))) of
        Inl e \<Rightarrow> (l, Inl e)
      | Inr (h, rs, r) \<Rightarrow>
          (let l1 = l\<lparr>lg_events := (lg_events l)(eid \<mapsto> rs @ [r])\<rparr> in
           case advanced_head env h r of
             Inl e \<Rightarrow> (l1, Inl e)
           | Inr h' \<Rightarrow> (l1\<lparr>lg_heads := (lg_heads l1)(eid \<mapsto> h')\<rparr>, Inr r)))"

definition start_payload :: "AttemptContext \<Rightarrow> ProviderDescriptor \<Rightarrow> payload" where
  "start_payload ctx p =
     StartPayload (at_attempt_id ctx) (at_deadline ctx) (at_protocol_version ctx) (pd_provider_id p)"

definition lg_start_attempt ::
  "recon_env \<Rightarrow> string \<Rightarrow> time \<Rightarrow> ledger \<Rightarrow> AttemptContext \<Rightarrow> ProviderDescriptor \<Rightarrow> int \<Rightarrow>
   ledger \<times> Record res" where
  "lg_start_attempt env new_id now l ctx p expected_revision =
     (case validate_attempt ctx p of
        Inl e \<Rightarrow> (l, Inl e)
      | Inr _ \<Rightarrow>
          append_attempt_locked env new_id l (ua_execution_record_id (at_action ctx)) (at_action ctx)
            expected_revision ATTEMPT_STARTED now (start_payload ctx p))"

definition lg_finish_attempt ::
  "recon_env \<Rightarrow> string \<Rightarrow> time \<Rightarrow> ledger \<Rightarrow> AttemptContext \<Rightarrow> ProviderDescriptor \<Rightarrow>
   ReconciliationAttemptOutcome \<Rightarrow> int \<Rightarrow> Finding option \<Rightarrow> string option \<Rightarrow> time option \<Rightarrow>
   ledger \<times> Record res" where
  "lg_finish_attempt env new_id now l ctx p out expected_revision finding error finished_at =
     (case seqR (validate_attempt ctx p)
             (finish_payload ctx p out finding error
                (case finished_at of Some t \<Rightarrow> t | None \<Rightarrow> now)) of
        Inl e \<Rightarrow> (l, Inl e)
      | Inr (pl, occurred_at) \<Rightarrow>
          append_attempt_locked env new_id l (ua_execution_record_id (at_action ctx)) (at_action ctx)
            expected_revision ATTEMPT_FINISHED occurred_at pl)"

definition transition_step ::
  "recon_env \<Rightarrow> string \<Rightarrow> ledger \<Rightarrow> string \<Rightarrow> Record list \<Rightarrow> Head \<Rightarrow> Transition \<Rightarrow> ledger \<times> Head res" where
  "transition_step env new_id l eid rs h t =
     (case seqR (validate_transition_evidence env (hd_action h) t) (transition_record env new_id h t) of
        Inl e \<Rightarrow> (l, Inl e)
      | Inr (r, updated) \<Rightarrow>
          (l\<lparr>lg_events := (lg_events l)(eid \<mapsto> rs @ [r]),
             lg_heads := (lg_heads l)(eid \<mapsto> updated)\<rparr>, Inr updated))"

definition lg_compare_and_append ::
  "recon_env \<Rightarrow> string \<Rightarrow> ledger \<Rightarrow> string \<Rightarrow> ReconciliationState \<Rightarrow> int \<Rightarrow> decision \<Rightarrow>
   ProviderDescriptor option \<Rightarrow> string option \<Rightarrow> ledger \<times> Head res" where
  "lg_compare_and_append env new_id l eid expected_state expected_revision dec provider attempt =
     (case bindR (head_locked l eid) (\<lambda>h.
             seqR (require_cas h expected_state expected_revision)
             (bindR (build_transition env h dec provider attempt) (\<lambda>t.
              bindR (events_at l eid) (\<lambda>rs.
              seqR (case dec of
                      ByFinding f \<Rightarrow> require_finished_attempt rs attempt provider f
                    | ByManual _ \<Rightarrow> Inr ())
              (Inr (h, t, rs)))))) of
        Inl e \<Rightarrow> (l, Inl e)
      | Inr (h, t, rs) \<Rightarrow> transition_step env new_id l eid rs h t)"

text \<open>
  \<open>recover_unfinished_attempts\<close>: close each expired attempt, then quarantine the action.  The
  \<open>i\<close>-th random identifier of the operation is \<open>new_id i\<close>.
\<close>

fun close_attempts ::
  "recon_env \<Rightarrow> (nat \<Rightarrow> string) \<Rightarrow> time \<Rightarrow> string \<Rightarrow> UnknownAction \<Rightarrow> nat \<Rightarrow> ledger \<Rightarrow>
   (Record \<times> AttemptContext \<times> ProviderDescriptor) list \<Rightarrow> ledger \<times> unit res" where
  "close_attempts env new_id recovered_at eid action i l [] = (l, Inr ())"
| "close_attempts env new_id recovered_at eid action i l ((s, ctx, p) # rest) =
     (case finish_payload ctx p RECOVERY_REQUIRED None
             (Some ''provider attempt expired before a terminal record was persisted'') recovered_at of
        Inl e \<Rightarrow> (l, Inl e)
      | Inr (pl, occurred_at) \<Rightarrow>
          (case lg_heads l eid of
             None \<Rightarrow> (l, Inl (KeyError eid))
           | Some h \<Rightarrow>
               (case append_attempt_locked env (new_id i) l eid action (hd_revision h) ATTEMPT_FINISHED
                       occurred_at pl of
                  (l', Inl e) \<Rightarrow> (l', Inl e)
                | (l', Inr _) \<Rightarrow> close_attempts env new_id recovered_at eid action (Suc i) l' rest)))"

definition recover_transition ::
  "recon_env \<Rightarrow> string \<Rightarrow> time \<Rightarrow> ledger \<Rightarrow> string \<Rightarrow> nat \<Rightarrow> ledger \<times> Head option res" where
  "recover_transition env new_id recovered_at l eid count =
     (case bindR (head_locked l eid) (\<lambda>h. bindR (events_at l eid) (\<lambda>rs.
             bindR (recovery_transition env h count recovered_at) (\<lambda>t. Inr (h, rs, t)))) of
        Inl e \<Rightarrow> (l, Inl e)
      | Inr (h, rs, t) \<Rightarrow>
          (case transition_step env new_id l eid rs h t of
             (l', Inl e) \<Rightarrow> (l', Inl e)
           | (l', Inr h') \<Rightarrow> (l', Inr (Some h'))))"

definition lg_recover ::
  "recon_env \<Rightarrow> (nat \<Rightarrow> string) \<Rightarrow> time \<Rightarrow> ledger \<Rightarrow> string \<Rightarrow> ledger \<times> Head option res" where
  "lg_recover env new_id recovered_at l eid =
     (case bindR (head_locked l eid) (\<lambda>h. bindR (events_at l eid) (\<lambda>rs.
             bindR (unfinished_attempt_contexts (hd_action h) rs) (\<lambda>attempts. Inr (h, attempts)))) of
        Inl e \<Rightarrow> (l, Inl e)
      | Inr (h, attempts) \<Rightarrow>
          if attempts = [] then (l, Inr None)
          else if hd_state h \<noteq> UNKNOWN
          then (l, Inl (ReconciliationError ''a non-UNKNOWN reconciliation head has an unfinished attempt''))
          else if list_ex (\<lambda>(_, ctx, _). recovered_at < at_deadline ctx) attempts then (l, Inr (Some h))
          else (case close_attempts env new_id recovered_at eid (hd_action h) 0 l attempts of
                  (l', Inl e) \<Rightarrow> (l', Inl e)
                | (l', Inr _) \<Rightarrow>
                    recover_transition env (new_id (length attempts)) recovered_at l' eid
                      (length attempts)))"

definition lg_history :: "ledger \<Rightarrow> string \<Rightarrow> Record list res" where
  "lg_history l eid = seqR (bindR (head_locked l eid) (\<lambda>_. Inr ())) (events_at l eid)"

definition is_attempt :: "Record \<Rightarrow> bool" where
  "is_attempt r = (rc_kind r \<in> {ATTEMPT_STARTED, ATTEMPT_FINISHED})"

definition lg_attempts :: "ledger \<Rightarrow> string \<Rightarrow> Record list res" where
  "lg_attempts l eid = bindR (lg_history l eid) (\<lambda>rs. Inr (filter is_attempt rs))"

end
