(* ===== verification/Database.thy ===== *)
theory Database
  imports Ledger
begin

text \<open>
  The SQLite database that \<open>SQLiteIdempotencyStore\<close> (\<open>registry.py\<close>) and \<open>SQLiteReconciliationLedger\<close>
  (\<open>reconciliation.py\<close>) share, with the constraints their schemas declare.  A JSON column holds the
  value its text encodes.  An operation runs in one \<open>BEGIN IMMEDIATE\<close> transaction: it is a function
  from the database to a result, and raising rolls back.
\<close>

section \<open>Tables\<close>

datatype idem_state = IS_PENDING | IS_COMPLETED | IS_UNKNOWN | IS_MANUAL_REVIEW | IS_APPLIED_NO_RESULT
  | IS_NOT_APPLIED

record idem_row =
  ir_eid :: string
  ir_namespace :: string
  ir_key :: string
  ir_generation :: nat
  ir_fingerprint :: string
  ir_state :: idem_state
  ir_result :: "json option"
  ir_error :: "string option"
  ir_owner_token :: "string option"
  ir_lease :: "time option"
  ir_updated_at :: time

text \<open>The \<open>CHECK\<close> constraints of \<open>idempotency_records\<close>.\<close>

definition idem_check :: "idem_row \<Rightarrow> bool" where
  "idem_check r \<longleftrightarrow>
     1 \<le> ir_generation r \<and>
     (ir_state r = IS_PENDING \<and> ir_owner_token r \<noteq> None \<and> ir_lease r \<noteq> None \<or>
      ir_state r \<noteq> IS_PENDING \<and> ir_owner_token r = None \<and> ir_lease r = None) \<and>
     (ir_state r = IS_COMPLETED \<and> ir_result r \<noteq> None \<and> ir_error r = None \<or>
      ir_state r \<noteq> IS_COMPLETED \<and> ir_result r = None)"

record outbox_row =
  ob_outbox_id :: string
  ob_eid :: string
  ob_revision :: int
  ob_event_type :: string
  ob_event :: json
  ob_digest :: string
  ob_created_at :: time
  ob_delivery_attempts :: int
  ob_delivered_at :: "time option"
  ob_last_error_class :: "string option"
  ob_alerted_at :: "time option"

text \<open>The future a claim carries, with what its waiters see.\<close>

datatype future =
    NotDone
  | Resolved json
  | OutcomeUnknown string "string option"
  | AlreadyApplied string
  | InProgress string
  | Failed exn

record db =
  db_has_idempotency :: bool
  db_has_ledger :: bool
  db_idem :: "idem_row list"
  db_prepared :: "string \<rightharpoonup> UnknownAction"
  db_heads :: "string \<rightharpoonup> Head"
  db_events :: "Record list"
  db_outbox :: "outbox_row list"
  db_futures :: "nat \<Rightarrow> future"

text \<open>Commit the result of a transaction, or roll back.\<close>

definition commit :: "db \<Rightarrow> (db \<times> 'a) res \<Rightarrow> db \<times> 'a res" where
  "commit d r = (case r of Inl e \<Rightarrow> (d, Inl e) | Inr (d', x) \<Rightarrow> (d', Inr x))"

lemma commit_cases:
  assumes "commit d x = (d', r)"
  obtains "d' = d" | y where "x = Inr (d', y)" "r = Inr y"
  using assms by (cases x) (auto simp: commit_def)

definition insert_idem :: "idem_row \<Rightarrow> db \<Rightarrow> db res" where
  "insert_idem row d =
     (if \<not> idem_check row \<or> list_ex (\<lambda>r. ir_eid r = ir_eid row) (db_idem d) \<or>
        list_ex (\<lambda>r. ir_namespace r = ir_namespace row \<and> ir_key r = ir_key row \<and>
                     ir_generation r = ir_generation row) (db_idem d)
      then Inl (IntegrityError ''idempotency_records'')
      else Inr (d\<lparr>db_idem := db_idem d @ [row]\<rparr>))"

definition update_idem :: "(idem_row \<Rightarrow> bool) \<Rightarrow> (idem_row \<Rightarrow> idem_row) \<Rightarrow> db \<Rightarrow> (db \<times> nat) res" where
  "update_idem P f d =
     (if list_ex (\<lambda>r. P r \<and> \<not> idem_check (f r)) (db_idem d) then Inl (IntegrityError ''idempotency_records'')
      else Inr (d\<lparr>db_idem := upd_where P f (db_idem d)\<rparr>, rowcount P (db_idem d)))"

definition insert_prepared :: "UnknownAction \<Rightarrow> db \<Rightarrow> db res" where
  "insert_prepared a d =
     (if db_prepared d (ua_execution_record_id a) \<noteq> None
      then Inl (IntegrityError ''reconciliation_prepared_actions'')
      else Inr (d\<lparr>db_prepared := (db_prepared d)(ua_execution_record_id a \<mapsto> a)\<rparr>))"

definition insert_head :: "string \<Rightarrow> Head \<Rightarrow> db \<Rightarrow> db res" where
  "insert_head eid h d =
     (if db_heads d eid \<noteq> None then Inl (IntegrityError ''reconciliation_heads'')
      else Inr (d\<lparr>db_heads := (db_heads d)(eid \<mapsto> h)\<rparr>))"

definition insert_event :: "recon_env \<Rightarrow> Record \<Rightarrow> db \<Rightarrow> db res" where
  "insert_event env r d =
     bindR (dump env (thaw (JObj (payload_dict (rc_payload r))))) (\<lambda>_.
     if list_ex (\<lambda>x. rc_event_id x = rc_event_id r) (db_events d) \<or>
        list_ex (\<lambda>x. rc_execution_record_id x = rc_execution_record_id r \<and> rc_revision x = rc_revision r)
          (db_events d) \<or>
        db_heads d (rc_execution_record_id r) = None
     then Inl (IntegrityError ''reconciliation_events'')
     else Inr (d\<lparr>db_events := db_events d @ [r]\<rparr>))"

definition claim_row :: "IdempotencyClaim \<Rightarrow> idem_row \<Rightarrow> bool" where
  "claim_row c r \<longleftrightarrow>
     Some (ir_eid r) = cl_execution_record_id c \<and> ir_namespace r = cl_namespace c \<and> ir_key r = cl_key c \<and>
     ir_fingerprint r = cl_fingerprint c \<and> ir_owner_token r = cl_owner_token c \<and> cl_owner_token c \<noteq> None \<and>
     ir_state r = IS_PENDING"

definition set_future :: "nat \<Rightarrow> future \<Rightarrow> db \<Rightarrow> db" where
  "set_future i f d = (if db_futures d i = NotDone then d\<lparr>db_futures := (db_futures d)(i := f)\<rparr> else d)"

section \<open>The audit outbox\<close>

fun str_version :: "version \<Rightarrow> string" where
  "str_version (VStr s) = s"
| "str_version (VInt n) = (if n < 0 then ''-'' @ digits_of (nat (- n)) else digits_of (nat n))"

definition only_string :: "json option \<Rightarrow> json" where
  "only_string v = (case v of Some (JStr s) \<Rightarrow> JStr s | _ \<Rightarrow> JNull)"

text \<open>
  \<open>_reconciliation_audit_payload\<close>: a fixed set of lineage fields; evidence appears only as a digest.
\<close>

definition audit_payload ::
  "recon_env \<Rightarrow> Head \<Rightarrow> string \<Rightarrow> ProviderDescriptor option \<Rightarrow> string option \<Rightarrow>
   ReconciliationAttemptOutcome option \<Rightarrow> string option \<Rightarrow> dict option \<Rightarrow> string option \<Rightarrow> dict res" where
  "audit_payload env h event_type provider attempt out evidence_kind evidence operator =
     (let a = hd_action h in
      bindR (case evidence of
               None \<Rightarrow> Inr JNull
             | Some ev \<Rightarrow>
                 bindR (canonical_json ''reconciliation audit evidence digest''
                          (JObj [(''evidence'', thaw (JObj ev))]))
                   (\<lambda>v. Inr (JStr (re_canonical_sha256 env v)))) (\<lambda>digest.
      Inr
       [(''schema_version'', JInt 1),
        (''timestamp'', JStr (isoformat (hd_updated_at h))),
        (''stage'', JStr ''reconciliation''),
        (''event_type'', JStr event_type),
        (''trace_id'', only_string (map_of (ua_metadata a) ''trace_id'')),
        (''request_id'', only_string (map_of (ua_metadata a) ''request_id'')),
        (''execution_record_id'', JStr (ua_execution_record_id a)),
        (''tool_name'', JStr (ua_tool_name a)),
        (''contract_id'', JStr (ua_contract_id a)),
        (''contract_version'', JInt (ua_contract_version a)),
        (''action_digest'', JStr (ua_action_digest a)),
        (''idempotency_namespace_digest'', JStr (ua_namespace_digest a)),
        (''tenant_partition_digest'', optional_str (ua_tenant_partition_digest a)),
        (''state'', JStr (state_value (hd_state h))),
        (''revision'', JInt (hd_revision h)),
        (''disposition'', JStr (disposition_value (hd_disposition h))),
        (''provider'',
           (case provider of
              None \<Rightarrow> JNull
            | Some p \<Rightarrow> JObj
                [(''provider_id'', JStr (pd_provider_id p)),
                 (''protocol_version'', JStr (str_version (pd_protocol_version p))),
                 (''supported_evidence_kinds'', JList (map JStr (pd_evidence_kinds p)))])),
        (''attempt_id'', optional_str attempt),
        (''outcome'', (case out of None \<Rightarrow> JNull | Some x \<Rightarrow> JStr (outcome_value x))),
        (''evidence_kind'', optional_str evidence_kind),
        (''evidence_digest'', digest),
        (''operator_identity_digest'', optional_str operator)]))"

definition enqueue_outbox ::
  "recon_env \<Rightarrow> string \<Rightarrow> time \<Rightarrow> Head \<Rightarrow> string \<Rightarrow> ProviderDescriptor option \<Rightarrow> string option \<Rightarrow>
   ReconciliationAttemptOutcome option \<Rightarrow> Finding option \<Rightarrow> string option \<Rightarrow> dict option \<Rightarrow>
   string option \<Rightarrow> db \<Rightarrow> (db \<times> string) res" where
  "enqueue_outbox env new_id now h event_type provider attempt out finding evidence_kind evidence operator d =
     (let kind = (case finding of None \<Rightarrow> evidence_kind | Some f \<Rightarrow> Some (fi_evidence_kind f));
          ev = (case finding of None \<Rightarrow> evidence | Some f \<Rightarrow> Some (fi_evidence f));
          eid = ua_execution_record_id (hd_action h) in
      seqR (require_identifier ''reconciliation audit event type'' event_type)
      (seqR (optional_check (require_digest ''operator_identity_digest'') operator)
      (bindR (audit_payload env h event_type provider attempt out kind ev operator) (\<lambda>pl.
       bindR (dump env (JObj pl)) (\<lambda>encoded.
       (let digest = re_sha256 env encoded in
        case select_one (\<lambda>r. ob_eid r = eid \<and> ob_revision r = hd_revision h \<and> ob_event_type r = event_type)
               (db_outbox d) of
          Some r \<Rightarrow>
            if ob_digest r \<noteq> digest
            then Inl (ReconciliationConflictError
                   ''reconciliation audit outbox event identity was reused with different content'')
            else Inr (d, ob_outbox_id r)
        | None \<Rightarrow>
            if list_ex (\<lambda>r. ob_outbox_id r = new_id) (db_outbox d) \<or> db_heads d eid = None
            then Inl (IntegrityError ''reconciliation_audit_outbox'')
            else Inr (d\<lparr>db_outbox := db_outbox d @
              [\<lparr>ob_outbox_id = new_id, ob_eid = eid, ob_revision = hd_revision h,
                ob_event_type = event_type, ob_event = JObj pl, ob_digest = digest,
                ob_created_at = now, ob_delivery_attempts = 0, ob_delivered_at = None,
                ob_last_error_class = None, ob_alerted_at = None\<rparr>]\<rparr>, new_id)))))))"

end
