(* ===== verification/Execution.thy ===== *)
theory Execution
  imports Requests Database Effects
begin

text \<open>
  The execution phase of \<open>Runtime._arun_admitted\<close> (\<open>runtime.py\<close>): the idempotency claim, the commitment of
  approvals, the execution middleware around the tool, the settlement of the claim and the four exception
  handlers, with the observers that run at the end.  The local variables of the method are the fields of
  \<open>xstate\<close>; the stores, the approval middleware and the tool act on a world \<open>'w\<close> through the fields of
  \<open>exec_env\<close>, each given by what one awaited call does and gives (\<open>xe_acquire\<close> includes the preparation of
  the unknown action where store and ledger share a database).  The state also keeps a trace of the calls
  that matter outside the process, newest first.  A counter numbers the points where the code reads the
  clock or draws an identifier.
\<close>

section \<open>Exceptions and state\<close>

text \<open>
  The exceptions that carry a context, over the others.  \<open>GovernanceCancelledError\<close> is a subclass of
  \<open>CancelledError\<close>, which \<open>except Exception\<close> does not catch.
\<close>

datatype xexn =
    Exn exn
  | GovernanceDenied ExecutionContext
  | ExecutionControlError ExecutionContext xexn
  | ToolExecutionError ExecutionContext xexn
  | AuditDeliveryError ExecutionContext exn bool
  | GovernanceCancelledError ExecutionContext

fun is_cancel :: "xexn \<Rightarrow> bool" where
  "is_cancel (Exn CancelledError) = True"
| "is_cancel (GovernanceCancelledError c) = True"
| "is_cancel e = False"

text \<open>\<open>str(exc)\<close>\<close>

fun xmsg :: "xexn \<Rightarrow> string" where
  "xmsg (Exn e) = exn_msg e"
| "xmsg (GovernanceDenied c) = (case cx_decision c of None \<Rightarrow> ''denied'' | Some d \<Rightarrow> dr_reason d)"
| "xmsg (ExecutionControlError c e) = xmsg e"
| "xmsg (ToolExecutionError c e) = ''tool '' @ py_repr (tc_name (cx_tool_call c)) @ '' failed: '' @ xmsg e"
| "xmsg (AuditDeliveryError c e post) =
     ''critical audit delivery failed '' @ (if post then ''after execution'' else ''before execution'') @
     '': '' @ exn_msg e"
| "xmsg (GovernanceCancelledError c) = ''governed execution cancelled''"

text \<open>What happens outside the process, as far as the properties are concerned.\<close>

datatype xevent =
    Acquired IdempotencyClaim
  | Committed ExecutionContext
  | Started ExecutionContext
  | Completing IdempotencyClaim json
  | Failing IdempotencyClaim
  | MarkingUnknown IdempotencyClaim
  | Observing ExecutionContext

record 'w xstate =
  xs_world :: 'w
  xs_tick :: nat
  xs_ctx :: ExecutionContext
  xs_claim :: "IdempotencyClaim option"
  xs_heartbeat :: "IdempotencyClaim option"
  xs_returned :: bool
  xs_started :: bool
  xs_trace :: "xevent list"

type_synonym ('w, 'a) xprog = "('w xstate, xexn, 'a) prog"

text \<open>
  What an execution middleware does with its \<open>call_next\<close>: it finishes with an outcome, or calls the next
  stage with a context and goes on with the outcome of that call.
\<close>

type_synonym xoutcome = "xexn + ExecutionContext \<times> json"

datatype mw_prog = Finish xoutcome | CallNext ExecutionContext "xoutcome \<Rightarrow> mw_prog"

text \<open>A middleware of the pipeline with \<open>commit_approval\<close> and \<open>release_approval\<close>.\<close>

record 'w approver =
  ap_commit :: "'w \<Rightarrow> ExecutionContext \<Rightarrow> 'w \<times> ExecutionContext res"
  ap_release :: "'w \<Rightarrow> ExecutionContext \<Rightarrow> 'w \<times> ExecutionContext res"

record 'w exec_env =
  xe_rt :: runtime
  xe_en :: encoders
  xe_str_other :: "json \<Rightarrow> string"
  xe_type :: "xexn \<Rightarrow> string"
  xe_now :: "nat \<Rightarrow> time"
  xe_did :: "nat \<Rightarrow> string"
  xe_duration :: "nat \<Rightarrow> json"
  xe_execution_timeout :: int
  xe_spec :: ToolSpec
  xe_parameters :: dict
  xe_pipeline :: "nat \<Rightarrow> stage list"
  xe_aborts :: "nat \<Rightarrow> (string \<times> bool) list"
  xe_middleware :: "(nat \<Rightarrow> ExecutionContext \<Rightarrow> mw_prog) list"
  xe_approvers :: "'w approver list"
  xe_has_ledger :: bool
  xe_compat_prepare :: bool
  xe_acquire :: "'w \<Rightarrow> ExecutionContext \<Rightarrow> string \<Rightarrow> string \<Rightarrow> string \<Rightarrow> 'w \<times> IdempotencyClaim res"
  xe_wait :: "'w \<Rightarrow> IdempotencyClaim \<Rightarrow> 'w \<times> json res"
  xe_prepare :: "'w \<Rightarrow> IdempotencyClaim \<Rightarrow> ExecutionContext \<Rightarrow> 'w \<times> bool res"
  xe_complete :: "'w \<Rightarrow> IdempotencyClaim \<Rightarrow> json \<Rightarrow> 'w \<times> unit res"
  xe_fail :: "'w \<Rightarrow> IdempotencyClaim \<Rightarrow> xexn \<Rightarrow> 'w \<times> unit res"
  xe_mark_unknown :: "'w \<Rightarrow> IdempotencyClaim \<Rightarrow> xexn \<Rightarrow> 'w \<times> unit res"
  xe_record_unknown :: "'w \<Rightarrow> IdempotencyClaim \<Rightarrow> ExecutionContext \<Rightarrow> xexn \<Rightarrow> 'w \<times> string res"
  xe_heartbeat :: "'w \<Rightarrow> IdempotencyClaim \<Rightarrow> 'w \<times> exn option"
  xe_rebuild :: "'w \<Rightarrow> ExecutionContext \<Rightarrow> 'w \<times> string res"
  xe_tool :: "'w \<Rightarrow> ExecutionContext \<Rightarrow> 'w \<times> bool \<times> (xexn + json)"

definition raised :: "'a res \<Rightarrow> xexn + 'a" where
  "raised r = (case r of Inl e \<Rightarrow> Inl (Exn e) | Inr a \<Rightarrow> Inr a)"

definition checked :: "'a res \<Rightarrow> ('w, 'a) xprog" where
  "checked r = liftX (raised r)"

definition tick :: "('w, nat) xprog" where
  "tick = (\<lambda>s. (s\<lparr>xs_tick := Suc (xs_tick s)\<rparr>, Inr (xs_tick s)))"

definition emit :: "xevent \<Rightarrow> ('w, unit) xprog" where
  "emit ev = modX (\<lambda>s. s\<lparr>xs_trace := ev # xs_trace s\<rparr>)"

definition set_ctx :: "ExecutionContext \<Rightarrow> ('w, unit) xprog" where
  "set_ctx c = modX (\<lambda>s. s\<lparr>xs_ctx := c\<rparr>)"

text \<open>One call on the world.\<close>

definition service :: "('w \<Rightarrow> 'w \<times> 'a res) \<Rightarrow> ('w, 'a) xprog" where
  "service f = (\<lambda>s. case f (xs_world s) of (w, r) \<Rightarrow> (s\<lparr>xs_world := w\<rparr>, raised r))"

text \<open>
  \<open>await_stage\<close> around a program: an overrun keeps what the program did up to its cancellation.
\<close>

definition staged :: "runtime \<Rightarrow> string \<Rightarrow> int \<Rightarrow> ExecutionContext \<Rightarrow> ('w, 'a) xprog \<Rightarrow> ('w, 'a) xprog" where
  "staged rt stg t c m =
     (\<lambda>s. if t \<le> 0 then (s, Inl (Exn (stage_timeout rt stg (max 0 t))))
          else case m s of (s', r) \<Rightarrow>
            (s', if rt_overrun rt stg c then Inl (Exn (stage_timeout rt stg t)) else r))"

section \<open>Observers\<close>

text \<open>
  One observing middleware of \<open>_run_observers\<close>: the context and, if it is critical, its failure.
\<close>

definition observe_failure :: "stage \<Rightarrow> ExecutionContext \<Rightarrow> exn \<Rightarrow> (ExecutionContext \<times> exn option) res" where
  "observe_failure s c e =
     (let m = st_middleware s in
      if e = CancelledError then Inl e
      else if mw_is_critical m c
      then Inr (append_history c (history_entry (st_now s) (mw_name m) ''critical_error''
                  (''critical observer failed: '' @ exn_msg e) []), Some e)
      else Inr (append_history c (history_entry (st_now s) (mw_name m) ''error''
                  (''observer ignored: '' @ exn_msg e) []), None))"

definition observe_one ::
  "runtime \<Rightarrow> bool \<Rightarrow> stage \<Rightarrow> ExecutionContext \<Rightarrow> (ExecutionContext \<times> exn option) res" where
  "observe_one rt ignore_deadline s c =
     (let m = st_middleware s; now = st_now s; stg = ''observer:'' @ mw_name m in
      case emit_middleware_hook rt now (st_did s) (mw_name m) c True of
        Inl e \<Rightarrow> observe_failure s c e
      | Inr c1 \<Rightarrow>
          (case bindR (bounded_timeout rt now (if ignore_deadline then None else cx_deadline c1)
                         (rt_observer_timeout rt) stg)
                  (\<lambda>t. bindR (await_stage rt stg t c1 (mw_process m c1))
                    (\<lambda>candidate. validate_middleware_transition (rt_ident rt) c1 candidate OBSERVING)) of
             Inl e \<Rightarrow> observe_failure s c1 e
           | Inr c2 \<Rightarrow>
               (case emit_middleware_hook rt now (st_did s) (mw_name m) c2 False of
                  Inl e \<Rightarrow> observe_failure s c2 e
                | Inr c3 \<Rightarrow> Inr (c3, None))))"

fun observe_list ::
  "runtime \<Rightarrow> bool \<Rightarrow> stage list \<Rightarrow> exn option \<Rightarrow> ExecutionContext \<Rightarrow> (ExecutionContext \<times> exn option) res" where
  "observe_list rt ign [] failure c = Inr (c, failure)"
| "observe_list rt ign (s # ss) failure c =
     (if mw_kind (st_middleware s) \<noteq> OBSERVING then observe_list rt ign ss failure c
      else bindR (observe_one rt ign s c) (\<lambda>(c', f).
             observe_list rt ign ss (case failure of None \<Rightarrow> f | Some x \<Rightarrow> Some x) c'))"

text \<open>\<open>_run_observers(post=True)\<close>\<close>

definition run_observers :: "'w exec_env \<Rightarrow> bool \<Rightarrow> ExecutionContext \<Rightarrow> ('w, ExecutionContext) xprog" where
  "run_observers env ign c =
     thenX (emit (Observing c)) (bindX tick (\<lambda>n.
     bindX (checked (observe_list (xe_rt env) ign (xe_pipeline env n) None c)) (\<lambda>(c', failure).
     case failure of
       None \<Rightarrow> returnX c'
     | Some e \<Rightarrow>
         (let post = (cx_status c' \<in> {STATUS_EXECUTING, STATUS_SUCCEEDED, STATUS_FAILED, STATUS_UNKNOWN}) in
          bindX (if post \<and> \<not> denied c'
                 then checked (evolve c' [SetStatus STATUS_UNKNOWN,
                        SetError (Some (xe_type env (Exn e) @ '': critical observer failed''))])
                 else returnX c') (\<lambda>c''.
          raiseX (AuditDeliveryError c'' e post))))))"

section \<open>Approvals\<close>

fun commit_list :: "'w exec_env \<Rightarrow> 'w approver list \<Rightarrow> ExecutionContext \<Rightarrow> ('w, ExecutionContext) xprog" where
  "commit_list env [] c = returnX c"
| "commit_list env (a # as) c =
     bindX tick (\<lambda>n.
     bindX (checked (bounded_timeout (xe_rt env) (xe_now env n) (cx_deadline c)
              (rt_middleware_timeout (xe_rt env)) ''approval commit'')) (\<lambda>t.
     bindX (staged (xe_rt env) ''approval commit'' t c (service (\<lambda>w. ap_commit a w c))) (\<lambda>c'.
     if denied c' then returnX c' else commit_list env as c')))"

definition commit_approvals :: "'w exec_env \<Rightarrow> ExecutionContext \<Rightarrow> ('w, ExecutionContext) xprog" where
  "commit_approvals env c = commit_list env (xe_approvers env) c"

fun release_list :: "'w exec_env \<Rightarrow> 'w approver list \<Rightarrow> ExecutionContext \<Rightarrow> ('w, ExecutionContext) xprog" where
  "release_list env [] c = returnX c"
| "release_list env (a # as) c =
     bindX tick (\<lambda>n.
     bindX (catchX
       (bindX (checked (bounded_timeout (xe_rt env) (xe_now env n) (cx_deadline c)
                 (rt_middleware_timeout (xe_rt env)) ''approval release'')) (\<lambda>t.
        staged (xe_rt env) ''approval release'' t c (service (\<lambda>w. ap_release a w c))))
       (\<lambda>e. if is_cancel e then raiseX e
            else returnX (append_history c (history_entry (xe_now env n) ''runtime'' ''approval_cleanup_error''
                   (''approval release bounded: '' @ xe_type env e) []))))
     (\<lambda>c'. release_list env as c'))"

definition release_approvals :: "'w exec_env \<Rightarrow> ExecutionContext \<Rightarrow> ('w, ExecutionContext) xprog" where
  "release_approvals env c = release_list env (xe_approvers env) c"

text \<open>\<open>_enforce_required_approval\<close> at the next clock reading.\<close>

definition enforce_approval :: "'w exec_env \<Rightarrow> ExecutionContext \<Rightarrow> ('w, ExecutionContext) xprog" where
  "enforce_approval env c =
     bindX tick (\<lambda>n. checked (enforce_required_approval (xe_rt env) (xe_str_other env) (xe_now env n) (xe_did env n) c))"

text \<open>
  The two statements that follow each other on every path to the tool: commit the approvals, then enforce
  the required one on what the commit returned.
\<close>

definition commit_and_enforce :: "'w exec_env \<Rightarrow> ('w, ExecutionContext) xprog" where
  "commit_and_enforce env =
     bindX (getX xs_ctx) (\<lambda>c.
     bindX (commit_approvals env c) (\<lambda>c.
     thenX (set_ctx c)
     (bindX (enforce_approval env c) (\<lambda>c.
     thenX (set_ctx c) (thenX (emit (Committed c)) (returnX c))))))"

section \<open>Settlement\<close>

definition finish_idempotency ::
  "'w exec_env \<Rightarrow> IdempotencyClaim option \<Rightarrow> ExecutionContext \<Rightarrow> xexn option \<Rightarrow> json \<Rightarrow> ('w, string option) xprog" where
  "finish_idempotency env claim c error v =
     (case claim of
        None \<Rightarrow> returnX None
      | Some cl \<Rightarrow>
          (case error of
             None \<Rightarrow>
               thenX (emit (Completing cl v))
                 (thenX (service (\<lambda>w. xe_complete env w cl v)) (returnX None))
           | Some e \<Rightarrow>
               if cx_status c = STATUS_UNKNOWN then
                 thenX (emit (MarkingUnknown cl))
                   (if xe_has_ledger env
                    then bindX (service (\<lambda>w. xe_record_unknown env w cl c e)) (\<lambda>eid. returnX (Some eid))
                    else thenX (service (\<lambda>w. xe_mark_unknown env w cl e)) (returnX None))
               else
                 thenX (emit (Failing cl))
                   (thenX (service (\<lambda>w. xe_fail env w cl e)) (returnX None))))"

text \<open>The context that records a failed settlement.\<close>

definition settlement_failed :: "'w exec_env \<Rightarrow> time \<Rightarrow> ExecutionContext \<Rightarrow> xexn \<Rightarrow> ExecutionContext res" where
  "settlement_failed env now c e =
     bindR (evolve c
       ([SetError (Some (xe_type env e @ '': idempotency ledger could not record the final outcome''))] @
        (case e of
           Exn (AuditDeliveryPendingError eid oid msg) \<Rightarrow>
             [SetMetadata (dict_merge (cx_metadata c)
                [(''execution_record_id'', JStr eid), (''reconciliation_audit_outbox_id'', JStr oid)])]
         | _ \<Rightarrow> []) @
        (if \<not> denied c then [SetStatus STATUS_UNKNOWN] else [])))
     (\<lambda>c'. Inr (append_history c' (history_entry now ''idempotency'' ''unknown''
              (''ledger settlement failed: '' @ xmsg e) [])))"

definition settlement_recorded :: "time \<Rightarrow> ExecutionContext \<Rightarrow> string \<Rightarrow> ExecutionContext res" where
  "settlement_recorded now c eid =
     bindR (evolve c [SetMetadata (dict_merge (cx_metadata c) [(''execution_record_id'', JStr eid)])])
     (\<lambda>c'. Inr (append_history c' (history_entry now ''reconciliation'' ''recorded''
              ''UNKNOWN outcome was recorded for explicit reconciliation''
              [(''execution_record_id'', JStr eid)])))"

definition settle_idempotency ::
  "'w exec_env \<Rightarrow> IdempotencyClaim option \<Rightarrow> ExecutionContext \<Rightarrow> xexn \<Rightarrow> ('w, ExecutionContext) xprog" where
  "settle_idempotency env claim c error =
     bindX tick (\<lambda>n.
     bindX (catchX
       (bindX (finish_idempotency env claim c (Some error) JNull) (\<lambda>head. returnX (Inr head)))
       (\<lambda>e. if is_cancel e then raiseX e else returnX (Inl e)))
     (\<lambda>r. case r of
        Inl e \<Rightarrow> checked (settlement_failed env (xe_now env n) c e)
      | Inr None \<Rightarrow> returnX c
      | Inr (Some eid) \<Rightarrow> checked (settlement_recorded (xe_now env n) c eid)))"

section \<open>The heartbeat\<close>

definition start_heartbeat :: "IdempotencyClaim \<Rightarrow> ('w, unit) xprog" where
  "start_heartbeat cl =
     modX (\<lambda>s. s\<lparr>xs_heartbeat := (if cl_owner cl \<and> cl_lease_seconds cl \<noteq> None then Some cl else None)\<rparr>)"

text \<open>
  \<open>_stop_idempotency_heartbeat\<close>; \<open>xe_heartbeat\<close> is what the renewals did up to here and the exception they
  ended with, if any.  Stopping a finished task again has no effect.
\<close>

definition stop_heartbeat :: "'w exec_env \<Rightarrow> bool \<Rightarrow> ('w, unit) xprog" where
  "stop_heartbeat env raise_on_failure =
     bindX (getX xs_heartbeat) (\<lambda>hb.
     case hb of
       None \<Rightarrow> returnX ()
     | Some cl \<Rightarrow>
         bindX (service (\<lambda>w. case xe_heartbeat env w cl of (w', r) \<Rightarrow> (w', Inr r))) (\<lambda>failure.
         thenX (modX (\<lambda>s. s\<lparr>xs_heartbeat := None\<rparr>))
         (if raise_on_failure \<and> failure \<noteq> None \<and> failure \<noteq> Some CancelledError
         then raiseX (Exn (IdempotencyOutcomeUnknownError ''idempotency lease renewal failed'' None))
          else returnX ())))"

section \<open>The tool and its middleware\<close>

definition refuse_action :: "'w exec_env \<Rightarrow> nat \<Rightarrow> ExecutionContext \<Rightarrow> string \<Rightarrow> ('w, 'a) xprog" where
  "refuse_action env n c reason =
     bindX (checked (deny_action_binding (xe_now env n) (xe_did env n) c reason)) (\<lambda>c'.
     raiseX (GovernanceDenied c'))"

definition revalidate_bound_action :: "'w exec_env \<Rightarrow> ExecutionContext \<Rightarrow> ('w, ExecutionContext) xprog" where
  "revalidate_bound_action env c =
     (case cx_bound_action c of
        None \<Rightarrow> returnX c
      | Some expected \<Rightarrow>
          bindX tick (\<lambda>n.
          bindX (catchX (service (\<lambda>w. xe_rebuild env w c))
            (\<lambda>e. if is_cancel e then raiseX e
                 else refuse_action env n c ''action.executor_revalidation_failed'')) (\<lambda>digest.
          if digest \<noteq> ba_action_digest expected
          then refuse_action env n c ''action.executor_digest_mismatch''
          else returnX c)))"

text \<open>The call of the function itself; \<open>xe_tool\<close> says whether it was started, and what awaiting it gave.\<close>

definition invoke_tool :: "'w exec_env \<Rightarrow> ExecutionContext \<Rightarrow> ('w, ExecutionContext \<times> json) xprog" where
  "invoke_tool env c =
     (\<lambda>s. case xe_tool env (xs_world s) c of (w, started, r) \<Rightarrow>
        (s\<lparr>xs_world := w, xs_started := xs_started s \<or> started,
           xs_trace := (if started then [Started c] else []) @ xs_trace s\<rparr>,
         (case r of Inl e \<Rightarrow> Inl e | Inr v \<Rightarrow> Inr (c, v))))"

text \<open>\<open>execute_tool\<close>: the innermost call.\<close>

definition execute_tool ::
  "'w exec_env \<Rightarrow> ExecutionContext \<Rightarrow> ExecutionContext \<Rightarrow> ('w, ExecutionContext \<times> json) xprog" where
  "execute_tool env admitted current =
     bindX tick (\<lambda>n.
     bindX (checked (execute_gate (xe_rt env) (xe_str_other env) (xe_now env n) (xe_did env n) admitted current))
     (\<lambda>adm. case adm of
        Denied c \<Rightarrow> raiseX (GovernanceDenied c)
      | Admitted c \<Rightarrow> bindX (revalidate_bound_action env c) (invoke_tool env)))"

primrec run_mw ::
  "(ExecutionContext \<Rightarrow> ('w, ExecutionContext \<times> json) xprog) \<Rightarrow> mw_prog \<Rightarrow> ('w, ExecutionContext \<times> json) xprog" where
  "run_mw next (Finish r) = liftX r"
| "run_mw next (CallNext c k) = (\<lambda>s. case next c s of (s', r) \<Rightarrow> run_mw next (k r) s')"

fun execution_chain ::
  "'w exec_env \<Rightarrow> ExecutionContext \<Rightarrow> (nat \<Rightarrow> ExecutionContext \<Rightarrow> mw_prog) list \<Rightarrow> ExecutionContext
     \<Rightarrow> ('w, ExecutionContext \<times> json) xprog" where
  "execution_chain env admitted [] current = execute_tool env admitted current"
| "execution_chain env admitted (m # ms) current =
     bindX tick (\<lambda>n.
     bindX (run_mw (execution_chain env admitted ms) (m n current)) (\<lambda>(candidate, v).
     bindX (checked (validate_middleware_transition (rt_ident (xe_rt env)) current candidate EXECUTION)) (\<lambda>c.
     returnX (c, v))))"

definition with_deadline :: "'w exec_env \<Rightarrow> ExecutionContext \<Rightarrow> ('w, ExecutionContext \<times> json) xprog" where
  "with_deadline env c =
     bindX tick (\<lambda>n.
     bindX (checked (bounded_timeout (xe_rt env) (xe_now env n) (cx_deadline c)
              (xe_execution_timeout env) ''tool execution'')) (\<lambda>t.
     staged (xe_rt env) ''tool execution'' t c (execution_chain env c (xe_middleware env) c)))"

section \<open>The body of the try statement\<close>

definition idempotent_call :: "ExecutionContext \<Rightarrow> bool" where
  "idempotent_call c = (cx_execution_mode c = IDEMPOTENT \<and> truthy (cx_idempotency_key c))"

text \<open>The denial of a key that was used with other parameters.\<close>

definition refuse_conflict :: "'w exec_env \<Rightarrow> ExecutionContext \<Rightarrow> string \<Rightarrow> ('w, 'a) xprog" where
  "refuse_conflict env c msg =
     bindX tick (\<lambda>n.
     bindX (checked (deny_with (xe_now env n) (xe_did env n) c msg ''idempotency''
              (history_entry (xe_now env n) ''idempotency'' ''deny'' msg []))) (\<lambda>c.
     thenX (set_ctx c)
     (bindX (release_approvals env c) (\<lambda>c.
     thenX (set_ctx c)
     (bindX (run_observers env False c) (\<lambda>c.
     thenX (set_ctx c) (raiseX (GovernanceDenied c))))))))"

definition request_claim ::
  "'w exec_env \<Rightarrow> ExecutionContext \<Rightarrow> string \<Rightarrow> string \<Rightarrow> ('w, IdempotencyClaim) xprog" where
  "request_claim env c ns fp =
     catchX (service (\<lambda>w. xe_acquire env w c ns (the (cx_idempotency_key c)) fp))
       (\<lambda>e. case e of
          Exn (IdempotencyConflictError msg) \<Rightarrow> refuse_conflict env c msg
        | _ \<Rightarrow> raiseX e)"

definition acquire_claim :: "'w exec_env \<Rightarrow> ExecutionContext \<Rightarrow> ('w, IdempotencyClaim) xprog" where
  "acquire_claim env c =
     bindX (checked (idempotency_fingerprint (xe_en env) c (ts_name (xe_spec env)) (xe_parameters env))) (\<lambda>fp.
     bindX (checked (idempotency_namespace (xe_en env) c)) (\<lambda>ns.
     bindX (request_claim env c ns fp) (\<lambda>cl.
     thenX (modX (\<lambda>s. s\<lparr>xs_claim := Some cl\<rparr>)) (thenX (emit (Acquired cl)) (returnX cl)))))"

text \<open>The success state of the context and the hook that follows it.\<close>

definition succeeded :: "'w exec_env \<Rightarrow> nat \<Rightarrow> ExecutionContext \<Rightarrow> json \<Rightarrow> string \<Rightarrow> string \<Rightarrow> string \<Rightarrow> ExecutionContext res" where
  "succeeded env n c v who outcome reason =
     bindR (evolve c [SetStatus STATUS_SUCCEEDED, SetResult v,
              SetMetadata (dict_merge (cx_metadata c) [(''duration_ms'', xe_duration env n)])])
       (\<lambda>c'. Inr (append_history c' (history_entry (xe_now env n) who outcome reason [])))"

definition hook_at :: "'w exec_env \<Rightarrow> HookPoint \<Rightarrow> ExecutionContext \<Rightarrow> ('w, ExecutionContext) xprog" where
  "hook_at env p c = bindX tick (\<lambda>n. checked (emit_hook (xe_rt env) (xe_now env n) (xe_did env n) p c False))"

definition check_result :: "'w exec_env \<Rightarrow> json \<Rightarrow> ('w, json) xprog" where
  "check_result env v =
     bindX (getX xs_ctx) (\<lambda>c.
     bindX (checked (normalize_result (xe_en env) (xe_spec env) v (cx_bound_action c))) (\<lambda>v.
     thenX (checked (enforce_size_limit (xe_en env) ''result'' v (ts_max_result_bytes (xe_spec env))))
       (returnX v)))"

text \<open>A caller that does not own the key waits for the owner's result and returns it.\<close>

definition cached_result :: "'w exec_env \<Rightarrow> IdempotencyClaim \<Rightarrow> ('w, json) xprog" where
  "cached_result env cl =
     bindX (getX xs_ctx) (\<lambda>c.
     bindX tick (\<lambda>n.
     bindX (checked (bounded_timeout (xe_rt env) (xe_now env n) (cx_deadline c)
              (xe_execution_timeout env) ''idempotency wait'')) (\<lambda>t.
     bindX (staged (xe_rt env) ''idempotency wait'' t c (service (\<lambda>w. xe_wait env w cl))) (\<lambda>v.
     bindX (check_result env v) (\<lambda>v.
     bindX (commit_and_enforce env) (\<lambda>c.
     if denied c then
       bindX (run_observers env False c) (\<lambda>c. thenX (set_ctx c) (raiseX (GovernanceDenied c)))
     else
       bindX tick (\<lambda>n.
       bindX (checked (succeeded env n c v ''idempotency'' ''cached'' ''reused completed result'')) (\<lambda>c.
       thenX (set_ctx c)
       (bindX (hook_at env AFTER_EXECUTE c) (\<lambda>c.
       thenX (set_ctx c)
       (bindX (run_observers env False c) (\<lambda>c.
       thenX (set_ctx c) (returnX v)))))))))))))"

text \<open>The owner's context names its execution record.\<close>

definition record_claim :: "IdempotencyClaim \<Rightarrow> ('w, unit) xprog" where
  "record_claim cl =
     (case cl_execution_record_id cl of
        None \<Rightarrow> returnX ()
      | Some eid \<Rightarrow>
          bindX (getX xs_ctx) (\<lambda>c.
          bindX (checked (evolve c [SetMetadata (dict_merge (cx_metadata c)
            [(''execution_record_id'', JStr eid)])])) set_ctx))"

text \<open>The path for stores that do not share a database with the ledger.\<close>

definition prepare_action :: "'w exec_env \<Rightarrow> IdempotencyClaim \<Rightarrow> ExecutionContext \<Rightarrow> ('w, unit) xprog" where
  "prepare_action env cl c =
     (if xe_compat_prepare env
      then bindX (service (\<lambda>w. xe_prepare env w cl c)) (\<lambda>prepared.
             if \<not> prepared
             then raiseX (Exn (RuntimeError ''reconciliation recovery descriptor was not prepared''))
             else returnX ())
      else returnX ())"

text \<open>
  A denial releases the key.  It is raised with the context it was built from, not with the one the
  observers returned.
\<close>

definition deny_owner :: "'w exec_env \<Rightarrow> IdempotencyClaim \<Rightarrow> ExecutionContext \<Rightarrow> ('w, unit) xprog" where
  "deny_owner env cl c =
     thenX (finish_idempotency env (Some cl) c (Some (GovernanceDenied c)) JNull)
     (thenX (modX (\<lambda>s. s\<lparr>xs_claim := None\<rparr>))
     (bindX (run_observers env False c) (\<lambda>c'.
     thenX (set_ctx c') (raiseX (GovernanceDenied c)))))"

text \<open>The owner commits the approvals, prepares the record of the action and starts the heartbeat.\<close>

definition own_claim :: "'w exec_env \<Rightarrow> IdempotencyClaim \<Rightarrow> ('w, unit) xprog" where
  "own_claim env cl =
     thenX (record_claim cl)
     (bindX (commit_and_enforce env) (\<lambda>c.
      if denied c then deny_owner env cl c
      else thenX (prepare_action env cl c) (start_heartbeat cl)))"

text \<open>What the tool returned is checked and completes the claim.\<close>

definition accept_result :: "'w exec_env \<Rightarrow> ExecutionContext \<Rightarrow> json \<Rightarrow> ('w, json) xprog" where
  "accept_result env c v =
     thenX (modX (\<lambda>s. s\<lparr>xs_ctx := c, xs_returned := True\<rparr>))
     (bindX (check_result env v) (\<lambda>v.
     thenX (stop_heartbeat env True)
     (bindX (getX xs_claim) (\<lambda>claim.
     thenX (finish_idempotency env claim c None v)
     (thenX (modX (\<lambda>s. s\<lparr>xs_claim := None\<rparr>)) (returnX v))))))"

definition execute_and_complete :: "'w exec_env \<Rightarrow> ('w, json) xprog" where
  "execute_and_complete env =
     bindX (getX xs_ctx) (\<lambda>c. bindX (with_deadline env c) (\<lambda>(c, v). accept_result env c v))"

text \<open>The value, and whether it was the result of an earlier execution.\<close>

definition run_body :: "'w exec_env \<Rightarrow> ('w, bool \<times> json) xprog" where
  "run_body env =
     bindX (getX xs_ctx) (\<lambda>c.
     if idempotent_call c then
       bindX (acquire_claim env c) (\<lambda>cl.
       if \<not> cl_owner cl then bindX (cached_result env cl) (\<lambda>v. returnX (True, v))
       else thenX (own_claim env cl) (bindX (execute_and_complete env) (\<lambda>v. returnX (False, v))))
     else
       bindX (commit_and_enforce env) (\<lambda>c.
       if denied c then
         bindX (run_observers env False c) (\<lambda>c. thenX (set_ctx c) (raiseX (GovernanceDenied c)))
       else bindX (execute_and_complete env) (\<lambda>v. returnX (False, v))))"

section \<open>The exception handlers\<close>

text \<open>The exceptions after which the outcome of the tool is not known.\<close>

definition outcome_unknown :: "xexn \<Rightarrow> bool" where
  "outcome_unknown e =
     (case e of
        Exn (TimeoutError _) \<Rightarrow> True
      | Exn (StageTimeoutError _) \<Rightarrow> True
      | Exn (IdempotencyOutcomeUnknownError _ _) \<Rightarrow> True
      | Exn (IdempotencyInProgressError _) \<Rightarrow> True
      | _ \<Rightarrow> False)"

definition failed_context :: "'w exec_env \<Rightarrow> nat \<Rightarrow> ExecutionContext \<Rightarrow> xexn \<Rightarrow> bool \<Rightarrow> ExecutionContext res" where
  "failed_context env n c e uncertain =
     (let status = (if outcome_unknown e \<or> uncertain then STATUS_UNKNOWN else STATUS_FAILED) in
      bindR (evolve c
        ([SetError (Some (xe_type env e @ '': '' @ xmsg e)),
          SetMetadata (dict_merge (cx_metadata c) [(''duration_ms'', xe_duration env n)])] @
         (if \<not> denied c then [SetStatus status] else [])))
      (\<lambda>c'. Inr (append_history c' (history_entry (xe_now env n) ''executor''
               (if status = STATUS_UNKNOWN then ''unknown'' else ''failed'') (xmsg e) []))))"

text \<open>\<open>_abort_observers\<close>: the pairs are a middleware with an abort method and whether calling it failed.\<close>

definition abort_observers :: "time \<Rightarrow> (string \<times> bool) list \<Rightarrow> ExecutionContext \<Rightarrow> ExecutionContext" where
  "abort_observers now xs c =
     foldl (\<lambda>c (name, failed). if failed
              then append_history c (history_entry now name ''error'' ''observer cancellation cleanup failed'' [])
              else c) c xs"

definition cancelled_context :: "'w exec_env \<Rightarrow> nat \<Rightarrow> ExecutionContext \<Rightarrow> bool \<Rightarrow> ExecutionContext res" where
  "cancelled_context env n c uncertain =
     bindR (if denied c then Inr c
            else evolve c
              [SetStatus (if uncertain then STATUS_UNKNOWN else STATUS_FAILED),
               SetError (Some (if uncertain then ''CancelledError: execution outcome is unknown''
                               else ''CancelledError: request cancelled before tool execution'')),
               SetMetadata (dict_merge (cx_metadata c) [(''duration_ms'', xe_duration env n)])])
     (\<lambda>c. Inr (append_history c (history_entry (xe_now env n) ''runtime'' ''cancelled''
            (if uncertain then ''cancellation propagated; execution outcome is unknown''
             else ''cancellation propagated before tool execution'') [])))"

definition handle_cancellation ::
  "'w exec_env \<Rightarrow> ExecutionContext \<Rightarrow> bool \<Rightarrow> IdempotencyClaim option \<Rightarrow> ('w, ExecutionContext) xprog" where
  "handle_cancellation env c uncertain claim =
     bindX tick (\<lambda>n.
     bindX (checked (cancelled_context env n c uncertain)) (\<lambda>c.
     bindX (settle_idempotency env claim c (Exn CancelledError)) (\<lambda>c.
     let c = abort_observers (xe_now env n) (xe_aborts env n) c in
     catchX (run_observers env True c)
       (\<lambda>e. returnX (append_history c (history_entry (xe_now env n) ''runtime'' ''error''
              ''cancellation finalization could not be fully persisted'' []))))))"

definition uncertain_outcome :: "'w xstate \<Rightarrow> ExecutionContext \<Rightarrow> bool" where
  "uncertain_outcome s c =
     (xs_returned s \<and> cx_execution_mode c \<noteq> READ_ONLY \<or> xs_started s \<and> cx_execution_mode c = MUTATING)"

text \<open>The last statements of the two handlers that end in \<open>ToolExecutionError\<close>.\<close>

definition fail_call :: "'w exec_env \<Rightarrow> ExecutionContext \<Rightarrow> xexn \<Rightarrow> ('w, 'a) xprog" where
  "fail_call env c e =
     bindX tick (\<lambda>n.
     bindX (getX (\<lambda>s. uncertain_outcome s c)) (\<lambda>uncertain.
     bindX (checked (failed_context env n c e uncertain)) (\<lambda>c.
     bindX (getX xs_claim) (\<lambda>claim.
     bindX (settle_idempotency env claim c e) (\<lambda>c.
     bindX (hook_at env ON_ERROR c) (\<lambda>c.
     bindX (run_observers env False c) (\<lambda>c.
     raiseX (ToolExecutionError c e))))))))"

definition handle_exception :: "'w exec_env \<Rightarrow> xexn \<Rightarrow> ('w, 'a) xprog" where
  "handle_exception env exc =
     (case exc of
        ExecutionControlError c cause \<Rightarrow>
          thenX (stop_heartbeat env False) (fail_call env c cause)
      | GovernanceDenied c \<Rightarrow>
          thenX (stop_heartbeat env False)
          (bindX (getX xs_claim) (\<lambda>claim.
           bindX (settle_idempotency env claim c exc) (\<lambda>c.
           bindX (run_observers env False c) (\<lambda>c.
           raiseX (GovernanceDenied c)))))
      | _ \<Rightarrow>
          if is_cancel exc then
            thenX (stop_heartbeat env False)
            (bindX (getX (\<lambda>s. (xs_ctx s, xs_started s, xs_claim s))) (\<lambda>(c, started, claim).
             bindX (handle_cancellation env c started claim) (\<lambda>c.
             raiseX (GovernanceCancelledError c))))
          else
            thenX (bindX (getX (\<lambda>s. (xs_started s, xs_ctx s))) (\<lambda>(started, c).
                   if started then returnX () else bindX (release_approvals env c) set_ctx))
            (thenX (stop_heartbeat env False)
            (bindX (getX xs_ctx) (\<lambda>c. fail_call env c exc))))"

section \<open>The execution phase\<close>

text \<open>After the try statement: the success state, the hook and the observers.\<close>

definition finish_success :: "'w exec_env \<Rightarrow> json \<Rightarrow> ('w, json \<times> ExecutionContext) xprog" where
  "finish_success env v =
     bindX (getX xs_ctx) (\<lambda>c.
     bindX tick (\<lambda>n.
     bindX (checked (succeeded env n c v ''executor'' ''succeeded'' ''tool completed'')) (\<lambda>c.
     thenX (set_ctx c)
     (catchX
       (bindX (hook_at env AFTER_EXECUTE c) (\<lambda>c.
        thenX (set_ctx c)
        (bindX (run_observers env False c) (\<lambda>c. returnX (v, c)))))
       (\<lambda>e. if is_cancel e
            then bindX (getX xs_ctx) (\<lambda>c.
                 bindX (handle_cancellation env c True None) (\<lambda>c. raiseX (GovernanceCancelledError c)))
            else raiseX e)))))"

definition run_execution :: "'w exec_env \<Rightarrow> ('w, json \<times> ExecutionContext) xprog" where
  "run_execution env =
     bindX (catchX (run_body env) (handle_exception env)) (\<lambda>(cached, v).
     if cached then bindX (getX xs_ctx) (\<lambda>c. returnX (v, c)) else finish_success env v)"

definition start_state :: "'w \<Rightarrow> ExecutionContext \<Rightarrow> 'w xstate" where
  "start_state w c =
     \<lparr>xs_world = w, xs_tick = 0, xs_ctx = c, xs_claim = None, xs_heartbeat = None, xs_returned = False,
      xs_started = False, xs_trace = []\<rparr>"

end
