(* ===== verification/ExecutionContract.thy ===== *)
theory ExecutionContract
  imports Execution
begin

text \<open>
  Lemmas on the execution phase: which events each program can add to the trace, that the tool starts only
  behind the commitment of the approvals and an owned claim, how claims are settled, and what a run that
  returns has produced.
\<close>

section \<open>Programs and the trace\<close>

named_theorems adds_intros "which events a program may add to the trace"

text \<open>
  \<open>adds A m\<close>: the program \<open>m\<close> extends the trace by events of \<open>A\<close> and leaves the two flags alone.
\<close>

definition extends :: "xevent set \<Rightarrow> 'w xstate \<Rightarrow> 'w xstate \<Rightarrow> bool" where
  "extends A s s' =
     ((\<exists>evs. xs_trace s' = evs @ xs_trace s \<and> set evs \<subseteq> A) \<and> xs_returned s' = xs_returned s \<and>
      xs_started s' = xs_started s)"

definition adds :: "xevent set \<Rightarrow> ('w, 'a) xprog \<Rightarrow> bool" where
  "adds A m = (\<forall>s. extends A s (fst (m s)))"

lemma addsI: "(\<And>s. extends A s (fst (m s))) \<Longrightarrow> adds A m"
  by (simp add: adds_def)

lemma addsD: "adds A m \<Longrightarrow> extends A s (fst (m s))"
  by (simp add: adds_def)

lemma adds_run: "adds A m \<Longrightarrow> m s = (s', r) \<Longrightarrow> extends A s s'"
  using addsD[of A m s] by simp

lemma extends_refl [simp]: "extends A s s"
  by (simp add: extends_def)

lemma extends_trans: "extends A s s1 \<Longrightarrow> extends A s1 s2 \<Longrightarrow> extends A s s2"
  unfolding extends_def by (metis append.assoc le_sup_iff set_append)

lemma extends_mono: "extends A s s' \<Longrightarrow> A \<subseteq> B \<Longrightarrow> extends B s s'"
  unfolding extends_def by blast

lemma extends_mem: "extends A s s' \<Longrightarrow> ev \<in> set (xs_trace s) \<Longrightarrow> ev \<in> set (xs_trace s')"
  unfolding extends_def by force

lemma extends_new: "extends A s s' \<Longrightarrow> ev \<in> set (xs_trace s') \<Longrightarrow> ev \<notin> A \<Longrightarrow> ev \<in> set (xs_trace s)"
  unfolding extends_def by force

lemma adds_mono: "adds A m \<Longrightarrow> A \<subseteq> B \<Longrightarrow> adds B m"
  by (auto simp: adds_def intro: extends_mono)

lemma adds_basic [adds_intros]:
  "adds A (returnX a)" "adds A (raiseX e)" "adds A (liftX r)" "adds A (getX g)" "adds A tick"
  "adds A (set_ctx c)" "adds A (checked q)" "adds A (start_heartbeat cl)"
  by (simp_all add: adds_def extends_def tick_def set_ctx_def checked_def start_heartbeat_def)

lemma adds_service [adds_intros]: "adds A (service f)"
  by (simp add: adds_def extends_def service_def split: prod.split)

lemma adds_modX [adds_intros]:
  "(\<And>s. xs_trace (f s) = xs_trace s \<and> xs_returned (f s) = xs_returned s \<and> xs_started (f s) = xs_started s) \<Longrightarrow>
   adds A (modX f)"
  by (simp add: adds_def extends_def)

lemma adds_emit [adds_intros]: "ev \<in> A \<Longrightarrow> adds A (emit ev)"
  by (simp add: adds_def extends_def emit_def)

lemma adds_bindX [adds_intros]:
  assumes "adds A m" "\<And>a. adds A (f a)"
  shows "adds A (bindX m f)"
proof (rule addsI, rule bindX_end)
  fix s
  show 1: "extends A s (fst (m s))" by (rule addsD[OF assms(1)])
  show "extends A s (fst (f a s1))" if "m s = (s1, Inr a)" for s1 a
    using extends_trans[OF 1] addsD[OF assms(2)] that by auto
qed

lemma adds_catchX [adds_intros]:
  assumes "adds A m" "\<And>e. adds A (h e)"
  shows "adds A (catchX m h)"
proof (rule addsI, rule catchX_end)
  fix s
  have 1: "extends A s (fst (m s))" by (rule addsD[OF assms(1)])
  show "extends A s s1" if "m s = (s1, Inr a)" for s1 a using 1 that by simp
  show "extends A s (fst (h e s1))" if "m s = (s1, Inl e)" for s1 e
    using extends_trans[OF 1] addsD[OF assms(2)] that by auto
qed

lemma adds_If [adds_intros]: "(b \<Longrightarrow> adds A m) \<Longrightarrow> (\<not> b \<Longrightarrow> adds A n) \<Longrightarrow> adds A (if b then m else n)"
  by simp

lemma adds_option [adds_intros]:
  "(x = None \<Longrightarrow> adds A m) \<Longrightarrow> (\<And>a. x = Some a \<Longrightarrow> adds A (f a)) \<Longrightarrow>
   adds A (case x of None \<Rightarrow> m | Some a \<Rightarrow> f a)"
  by (cases x) simp_all

lemma adds_sum [adds_intros]:
  "(\<And>e. x = Inl e \<Longrightarrow> adds A (f e)) \<Longrightarrow> (\<And>a. x = Inr a \<Longrightarrow> adds A (g a)) \<Longrightarrow>
   adds A (case x of Inl e \<Rightarrow> f e | Inr a \<Rightarrow> g a)"
  by (cases x) simp_all

lemma adds_prod [adds_intros]: "(\<And>a b. x = (a, b) \<Longrightarrow> adds A (f a b)) \<Longrightarrow> adds A (case x of (a, b) \<Rightarrow> f a b)"
  by (cases x) simp

lemma adds_staged [adds_intros]: "adds A m \<Longrightarrow> adds A (staged rt stg t c m)"
  unfolding adds_def staged_def by (simp split: prod.split) (metis fst_conv)

lemma adds_stop_heartbeat [adds_intros]: "adds A (stop_heartbeat env b)"
  unfolding stop_heartbeat_def by (intro adds_intros) simp_all

text \<open>Which event a settlement adds.\<close>

definition finish_event :: "IdempotencyClaim \<Rightarrow> ExecutionContext \<Rightarrow> xexn option \<Rightarrow> json \<Rightarrow> xevent" where
  "finish_event cl c error v =
     (if error = None then Completing cl v
      else if cx_status c = STATUS_UNKNOWN then MarkingUnknown cl else Failing cl)"

definition finish_events :: "IdempotencyClaim option \<Rightarrow> ExecutionContext \<Rightarrow> xexn option \<Rightarrow> json \<Rightarrow> xevent set" where
  "finish_events claim c error v = (\<lambda>cl. finish_event cl c error v) ` set_option claim"

lemma adds_finish:
  "finish_events claim c error v \<subseteq> A \<Longrightarrow> adds A (finish_idempotency env claim c error v)"
  unfolding finish_idempotency_def finish_events_def finish_event_def by (intro adds_intros) auto

lemma adds_settle:
  assumes "finish_events claim c (Some e) JNull \<subseteq> A"
  shows "adds A (settle_idempotency env claim c e)"
  unfolding settle_idempotency_def by (intro adds_intros adds_finish[OF assms])

lemma adds_observers [adds_intros]: "range Observing \<subseteq> A \<Longrightarrow> adds A (run_observers env b c)"
  unfolding run_observers_def Let_def by (intro adds_intros) auto

lemma adds_commit_list: "adds A (commit_list env as c)"
  by (induction as arbitrary: c) (auto intro!: adds_intros)

lemma adds_release_list: "adds A (release_list env as c)"
  by (induction as arbitrary: c) (auto intro!: adds_intros)

lemma adds_approvals [adds_intros]:
  "adds A (commit_approvals env c)" "adds A (release_approvals env c)" "adds A (enforce_approval env c)"
  unfolding commit_approvals_def release_approvals_def enforce_approval_def
  by (intro adds_commit_list adds_release_list adds_intros)+

lemma adds_steps [adds_intros]:
  "adds A (hook_at env p c)" "adds A (check_result env v)" "adds A (record_claim cl)"
  "adds A (prepare_action env cl c)" "adds A (refuse_action env n c msg)"
  unfolding hook_at_def check_result_def record_claim_def prepare_action_def refuse_action_def
  by (intro adds_intros)+

lemma adds_commit [adds_intros]: "range Committed \<subseteq> A \<Longrightarrow> adds A (commit_and_enforce env)"
  unfolding commit_and_enforce_def by (intro adds_intros) auto

lemma adds_revalidate [adds_intros]: "adds A (revalidate_bound_action env c)"
  unfolding revalidate_bound_action_def by (intro adds_intros)

lemma adds_refuse_conflict [adds_intros]: "range Observing \<subseteq> A \<Longrightarrow> adds A (refuse_conflict env c msg)"
  unfolding refuse_conflict_def by (intro adds_intros)

text \<open>The events of a run before the tool and those of the handlers.\<close>

abbreviation settling :: "xevent set" where
  "settling \<equiv> range Failing \<union> range MarkingUnknown \<union> range Observing"

lemma finish_settling: "finish_events claim c (Some e) v \<subseteq> settling"
  by (auto simp: finish_events_def finish_event_def)

lemma adds_cancellation:
  assumes "\<And>c'. finish_events claim c' (Some (Exn CancelledError)) JNull \<subseteq> A" "range Observing \<subseteq> A"
  shows "adds A (handle_cancellation env c u claim)"
  unfolding handle_cancellation_def Let_def by (intro adds_intros adds_settle assms)

lemma adds_handle: "adds settling (handle_exception env e)"
  unfolding handle_exception_def fail_call_def
  by (cases e) (auto intro!: adds_intros adds_settle adds_cancellation finish_settling)

lemma adds_success: "adds (range Observing) (finish_success env v)"
  unfolding finish_success_def
  by (intro adds_intros adds_cancellation) (auto simp: finish_events_def)

lemma adds_cached: "adds (range Observing \<union> range Committed) (cached_result env cl)"
  unfolding cached_result_def by (intro adds_intros) auto

lemma adds_request [adds_intros]: "range Observing \<subseteq> A \<Longrightarrow> adds A (request_claim env c ns fp)"
  unfolding request_claim_def
  by (intro adds_intros) (auto intro!: adds_intros split: xexn.split exn.split)

lemma adds_acquire: "adds (range Observing \<union> range Acquired) (acquire_claim env c)"
  unfolding acquire_claim_def by (intro adds_intros) auto

lemma adds_own: "adds (range Observing \<union> range Committed \<union> {Failing cl, MarkingUnknown cl}) (own_claim env cl)"
  unfolding own_claim_def deny_owner_def by (intro adds_intros adds_finish) (auto simp: finish_events_def finish_event_def)

text \<open>Invariants of the trace, kept by a program that adds only harmless events.\<close>

definition on_trace :: "(xevent list \<Rightarrow> bool) \<Rightarrow> 'w xstate \<Rightarrow> bool" where
  "on_trace R s = R (xs_trace s)"

definition quiet :: "(xevent list \<Rightarrow> bool) \<Rightarrow> bool" where
  "quiet R = (\<forall>t ev. R t \<longrightarrow> (\<forall>c. ev \<noteq> Started c) \<longrightarrow> R (ev # t))"

lemma adds_keeps:
  fixes m :: "('w, 'a) xprog"
  assumes "adds A m" "\<And>ev t. ev \<in> A \<Longrightarrow> R t \<Longrightarrow> R (ev # t)"
  shows "keeps (on_trace R) m"
proof (rule keepsI)
  fix s :: "'w xstate" assume R: "on_trace R s"
  obtain evs where evs: "xs_trace (fst (m s)) = evs @ xs_trace s" "set evs \<subseteq> A"
    using addsD[OF assms(1), of s] by (auto simp: extends_def)
  have "R (evs @ xs_trace s)"
    using evs(2) R assms(2) by (induction evs) (simp_all add: on_trace_def)
  then show "on_trace R (fst (m s))" by (simp add: on_trace_def evs(1))
qed

lemma quiet_adds:
  assumes "quiet R" "adds A m" "A \<inter> range Started = {}"
  shows "keeps (on_trace R) m"
proof (rule adds_keeps[OF assms(2)])
  fix ev t assume "ev \<in> A" "R t"
  moreover have "ev \<noteq> Started c" for c using assms(3) \<open>ev \<in> A\<close> by blast
  ultimately show "R (ev # t)" using assms(1) by (simp add: quiet_def)
qed

lemma quiet_programs:
  assumes "quiet R"
  shows "keeps (on_trace R) (acquire_claim env c)" "keeps (on_trace R) (own_claim env cl)"
    "keeps (on_trace R) (commit_and_enforce env)" "keeps (on_trace R) (cached_result env cl)"
    "keeps (on_trace R) (handle_exception env e)" "keeps (on_trace R) (finish_success env v)"
    "keeps (on_trace R) (run_observers env b c)" "keeps (on_trace R) (revalidate_bound_action env c)"
    "keeps (on_trace R) (set_ctx c)"
  by (rule quiet_adds[OF assms adds_acquire] quiet_adds[OF assms adds_own]
      quiet_adds[OF assms adds_commit[OF order_refl]] quiet_adds[OF assms adds_cached]
      quiet_adds[OF assms adds_handle] quiet_adds[OF assms adds_success]
      quiet_adds[OF assms adds_observers[OF order_refl]] quiet_adds[OF assms adds_revalidate[of "{}"]]
      quiet_adds[OF assms adds_basic(6)[of "{}"]]; auto)+

lemma keeps_run_mw:
  assumes "\<And>c. keeps P (next c)"
  shows "keeps P (run_mw next p)"
proof (induction p)
  case (Finish r)
  show ?case by (simp only: run_mw.simps keeps_basic)
next
  case (CallNext c k)
  show ?case
  proof (rule keepsI)
    fix s assume "P s"
    then have "P (fst (next c s))" by (rule keepsD[OF assms])
    then show "P (fst (run_mw next (CallNext c k) s))"
      using keepsD[OF CallNext.IH[OF rangeI]] by (auto split: prod.splits)
  qed
qed

lemma keeps_trace_tick: "keeps (on_trace R) tick" "keeps (on_trace R) (checked r)"
  by (simp_all add: keeps_def on_trace_def tick_def checked_def)

lemma keeps_staged: "keeps P m \<Longrightarrow> keeps P (staged rt stg t c m)"
  unfolding keeps_def staged_def by (simp split: prod.split) (metis fst_conv)

section \<open>The tool starts behind the approvals and the claim\<close>

lemma deny_with_denied: "deny_with now did c reason source e = Inr c' \<Longrightarrow> denied c'"
  unfolding deny_with_def bindR_eq_Inr
  using with_decision_Inr by (fastforce simp: post_init_eq_Inr fresh_decision_def)

lemma enforce_allowed:
  "enforce_required_approval rt so now did c = Inr c' \<Longrightarrow> \<not> denied c' \<Longrightarrow>
   c' = c \<and> (cx_requires_approval c \<longrightarrow> has_bound_approval rt so now c)"
  using deny_with_denied by (auto simp: enforce_required_approval_def split: if_splits)

lemma execution_transition:
  "validate_middleware_transition ident a b EXECUTION = Inr c \<Longrightarrow>
   c = b \<and> request_state_eq ident b a \<and> governance_state_eq b a"
  unfolding validate_middleware_transition_def by (simp split: if_splits sum.splits)

lemma execute_gate_Admitted:
  assumes "execute_gate rt so now did a cur = Inr (Admitted c)"
  shows "c = cur \<and> request_state_eq (rt_ident rt) cur a \<and> governance_state_eq cur a \<and> \<not> denied cur \<and>
    (cx_requires_approval cur \<longrightarrow> has_bound_approval rt so now cur)"
proof (cases "validate_middleware_transition (rt_ident rt) a cur EXECUTION")
  case (Inl e)
  then show ?thesis using assms by (auto simp: execute_gate_def bindR_eq_Inr)
next
  case (Inr x)
  note x = execution_transition[OF Inr]
  obtain y where y: "enforce_required_approval rt so now did cur = Inr y" "admission_of y = Admitted c"
    using assms Inr x by (auto simp: execute_gate_def bindR_eq_Inr)
  then have "\<not> denied y" "y = c" by (auto simp: admission_of_def split: if_splits)
  then show ?thesis using enforce_allowed[OF y(1)] x by blast
qed

text \<open>What the trace has shown before a tool starts with context \<open>c\<close>.\<close>

definition start_ok :: "'w exec_env \<Rightarrow> ExecutionContext \<Rightarrow> xevent list \<Rightarrow> bool" where
  "start_ok env c t =
     (\<not> denied c \<and>
      (\<exists>a. Committed a \<in> set t \<and> \<not> denied a \<and> request_state_eq (rt_ident (xe_rt env)) c a \<and>
           governance_state_eq c a) \<and>
      (cx_requires_approval c \<longrightarrow> (\<exists>n. has_bound_approval (xe_rt env) (xe_str_other env) (xe_now env n) c)) \<and>
      (idempotent_call c \<longrightarrow> (\<exists>cl. Acquired cl \<in> set t \<and> cl_owner cl)))"

fun guarded :: "'w exec_env \<Rightarrow> xevent list \<Rightarrow> bool" where
  "guarded env [] = True"
| "guarded env (ev # t) = (guarded env t \<and> (case ev of Started c \<Rightarrow> start_ok env c t | _ \<Rightarrow> True))"

lemma guardedD: "guarded env (t @ Started c # t') \<Longrightarrow> start_ok env c t'"
  by (induction t) auto

definition cleared :: "ExecutionContext \<Rightarrow> xevent list \<Rightarrow> bool" where
  "cleared a t =
     (\<not> denied a \<and> Committed a \<in> set t \<and> (idempotent_call a \<longrightarrow> (\<exists>cl. Acquired cl \<in> set t \<and> cl_owner cl)))"

lemma quiet_guarded [simp]: "quiet (guarded env)"
  by (auto simp: quiet_def split: xevent.split)

lemma quiet_cleared [simp]: "quiet (\<lambda>t. guarded env t \<and> cleared a t)"
  by (auto simp: quiet_def cleared_def split: xevent.split)

lemma revalidate_same:
  "revalidate_bound_action env c s = (s', Inr c') \<Longrightarrow> c' = c"
  by (auto simp: revalidate_bound_action_def refuse_action_def bindX_def catchX_def tick_def service_def
      checked_def raised_def split: option.splits prod.splits sum.splits if_splits)

lemma start_keeps:
  assumes "cleared a t" "request_state_eq (rt_ident (xe_rt env)) c a" "governance_state_eq c a"
    "cx_requires_approval c \<longrightarrow> has_bound_approval (xe_rt env) (xe_str_other env) (xe_now env n) c"
  shows "start_ok env c t \<and> cleared a (Started c # t)"
proof -
  have "idempotent_call c = idempotent_call a"
    using assms(2) by (simp add: idempotent_call_def request_state_eq_def)
  moreover have "\<not> denied c" using governance_state_denied[OF assms(3)] assms(1) by (simp add: cleared_def)
  ultimately show ?thesis using assms unfolding start_ok_def cleared_def by auto
qed

lemma invoke_tool_keeps:
  assumes "on_trace (\<lambda>t. guarded env t \<and> cleared a t) s"
    "execute_gate (xe_rt env) (xe_str_other env) (xe_now env n) (xe_did env n) a cur = Inr (Admitted c)"
  shows "on_trace (\<lambda>t. guarded env t \<and> cleared a t) (fst (invoke_tool env c s))"
  using assms(1) execute_gate_Admitted[OF assms(2)] start_keeps[of a "xs_trace s" env c n]
  by (auto simp: invoke_tool_def on_trace_def split: prod.split)

lemma revalidate_then_invoke:
  fixes env :: "'w exec_env"
  assumes "execute_gate (xe_rt env) (xe_str_other env) (xe_now env n) (xe_did env n) a cur = Inr (Admitted c)"
  shows "keeps (on_trace (\<lambda>t. guarded env t \<and> cleared a t)) (bindX (revalidate_bound_action env c) (invoke_tool env))"
proof (rule keepsI)
  fix s :: "'w xstate" assume "on_trace (\<lambda>t. guarded env t \<and> cleared a t) s"
  then have 1: "on_trace (\<lambda>t. guarded env t \<and> cleared a t) (fst (revalidate_bound_action env c s))"
    by (rule keepsD[OF quiet_programs(8)[OF quiet_cleared]])
  show "on_trace (\<lambda>t. guarded env t \<and> cleared a t)
          (fst (bindX (revalidate_bound_action env c) (invoke_tool env) s))"
  proof (cases "revalidate_bound_action env c s")
    case (Pair s1 r)
    then show ?thesis
      using 1 invoke_tool_keeps[OF _ assms, of s1] revalidate_same[of env c s s1]
      by (cases r) (auto simp: bindX_Inl bindX_Inr)
  qed
qed

lemma keeps_execute_tool:
  "keeps (on_trace (\<lambda>t. guarded env t \<and> cleared a t)) (execute_tool env a cur)"
  unfolding execute_tool_def
proof (rule keeps_bindX, rule keeps_trace_tick)
  fix n
  let ?g = "execute_gate (xe_rt env) (xe_str_other env) (xe_now env n) (xe_did env n) a cur"
  show "keeps (on_trace (\<lambda>t. guarded env t \<and> cleared a t)) (bindX (checked ?g) (\<lambda>adm. case adm of
        Denied c \<Rightarrow> raiseX (GovernanceDenied c)
      | Admitted c \<Rightarrow> bindX (revalidate_bound_action env c) (invoke_tool env)))"
    using revalidate_then_invoke[of env n a cur]
    by (cases ?g) (auto simp: checked_def raised_def keeps_basic split: admission.split)
qed

lemma keeps_execution_chain:
  "keeps (on_trace (\<lambda>t. guarded env t \<and> cleared a t)) (execution_chain env a ms current)"
proof (induction ms arbitrary: current)
  case Nil
  show ?case by (simp only: execution_chain.simps) (rule keeps_execute_tool)
next
  case (Cons m ms)
  show ?case by (simp only: execution_chain.simps) (intro keeps_intros keeps_run_mw keeps_trace_tick Cons.IH)
qed

lemma guarded_execute:
  "keeps (on_trace (\<lambda>t. guarded env t \<and> cleared a t)) (with_deadline env a)"
  unfolding with_deadline_def by (intro keeps_intros keeps_trace_tick keeps_staged keeps_execution_chain)

text \<open>
  The contract of a middleware that commits approvals: it returns a context of the same request that has
  passed its constructor.
\<close>

definition approver_wf :: "'w approver \<Rightarrow> bool" where
  "approver_wf a =
     (\<forall>w c w' c'. ap_commit a w c = (w', Inr c') \<longrightarrow>
        identity_fields c' = identity_fields c \<and> (ctx_ok c \<longrightarrow> ctx_ok c'))"

definition env_wf :: "'w exec_env \<Rightarrow> bool" where
  "env_wf env = list_all approver_wf (xe_approvers env)"

lemma deny_with_identity:
  assumes "deny_with now did c reason source e = Inr c'"
  shows "identity_fields c' = identity_fields c \<and> ctx_ok c'"
proof -
  obtain d c1 where w: "with_decision c d = Inr c1" and c': "c' = append_history c1 e"
    using assms unfolding deny_with_def bindR_eq_Inr by auto
  show ?thesis using with_decision_Inr(2,3)[OF w] c' by simp
qed

lemma enforce_identity:
  "enforce_required_approval rt so now did c = Inr c' \<Longrightarrow>
   identity_fields c' = identity_fields c \<and> (ctx_ok c \<longrightarrow> ctx_ok c')"
  using deny_with_identity unfolding enforce_required_approval_def by (simp split: if_splits)

lemma checked_returned: "checked r s = (s', Inr a) \<longleftrightarrow> s' = s \<and> r = Inr a"
  by (cases r) (auto simp: checked_def raised_def)

lemma service_returned:
  "service f s = (s', Inr a) \<longleftrightarrow> (\<exists>w. f (xs_world s) = (w, Inr a) \<and> s' = s\<lparr>xs_world := w\<rparr>)"
  by (cases "f (xs_world s)"; cases "snd (f (xs_world s))") (auto simp: service_def raised_def)

lemma staged_returned: "staged rt stg t c m s = (s', Inr a) \<Longrightarrow> m s = (s', Inr a)"
  by (cases "m s") (auto simp: staged_def split: if_splits)

lemma commit_list_identity:
  assumes "list_all approver_wf as" "commit_list env as c s = (s', Inr c')"
  shows "identity_fields c' = identity_fields c \<and> (ctx_ok c \<longrightarrow> ctx_ok c')"
  using assms
proof (induction as arbitrary: c s)
  case (Cons a as)
  from Cons.prems(2) obtain s1 t c1 s2 where
    "staged (xe_rt env) ''approval commit'' t c (service (\<lambda>w. ap_commit a w c)) s1 = (s2, Inr c1)"
    and rest: "(if denied c1 then returnX c1 else commit_list env as c1) s2 = (s', Inr c')"
    by (auto dest!: bindX_returned simp: checked_returned tick_def)
  then have "identity_fields c1 = identity_fields c \<and> (ctx_ok c \<longrightarrow> ctx_ok c1)"
    using Cons.prems(1) by (auto dest!: staged_returned simp: service_returned approver_wf_def)
  then show ?case using rest Cons.IH[of c1 s2] Cons.prems(1) by (auto split: if_splits)
qed simp

lemma commit_returned:
  assumes "env_wf env" "commit_and_enforce env s = (s', Inr c)"
  shows "xs_ctx s' = c \<and> Committed c \<in> set (xs_trace s') \<and> identity_fields c = identity_fields (xs_ctx s) \<and>
    (ctx_ok (xs_ctx s) \<longrightarrow> ctx_ok c)"
proof -
  from assms(2) obtain s1 c1 n where
    1: "commit_list env (xe_approvers env) (xs_ctx s) s = (s1, Inr c1)" and
    2: "enforce_required_approval (xe_rt env) (xe_str_other env) (xe_now env n) (xe_did env n) c1 = Inr c"
    and 3: "xs_ctx s' = c" "Committed c \<in> set (xs_trace s')"
    unfolding commit_and_enforce_def commit_approvals_def enforce_approval_def
    by (auto dest!: bindX_returned simp: checked_returned tick_def set_ctx_def emit_def)
  show ?thesis
    using commit_list_identity[OF _ 1] enforce_identity[OF 2] assms(1) 3 by (simp add: env_wf_def)
qed

lemma idempotent_call_identity: "identity_fields c = identity_fields c' \<Longrightarrow> idempotent_call c = idempotent_call c'"
  by (simp add: idempotent_call_def identity_fields_def)

lemma acquire_returned:
  "acquire_claim env c s = (s', Inr cl) \<Longrightarrow> Acquired cl \<in> set (xs_trace s') \<and> xs_claim s' = Some cl"
  unfolding acquire_claim_def by (auto dest!: bindX_returned simp: emit_def)

lemma record_claim_returned:
  assumes "record_claim cl s = (s', Inr u)"
  shows "identity_fields (xs_ctx s') = identity_fields (xs_ctx s) \<and> (ctx_ok (xs_ctx s) \<longrightarrow> ctx_ok (xs_ctx s')) \<and>
    xs_claim s' = xs_claim s"
  using assms unfolding record_claim_def set_ctx_def
  by (auto dest!: bindX_returned evolve_Inr simp: checked_returned split: option.splits)

lemma prepare_action_returned:
  "prepare_action env cl c s = (s', Inr u) \<Longrightarrow> \<exists>w. s' = s\<lparr>xs_world := w\<rparr>"
  unfolding prepare_action_def
  by (auto dest!: bindX_returned simp: service_returned split: if_splits) (metis xstate.surjective xstate.update_convs(1))+

lemma own_claim_returned:
  assumes "env_wf env" "own_claim env cl s = (s', Inr u)"
  shows "\<not> denied (xs_ctx s') \<and> Committed (xs_ctx s') \<in> set (xs_trace s') \<and>
    identity_fields (xs_ctx s') = identity_fields (xs_ctx s) \<and> (ctx_ok (xs_ctx s) \<longrightarrow> ctx_ok (xs_ctx s'))"
proof -
  from assms(2) obtain s1 u1 c s2 where
    1: "record_claim cl s = (s1, Inr u1)" and 2: "commit_and_enforce env s1 = (s2, Inr c)"
    and nd: "\<not> denied c" and 3: "thenX (prepare_action env cl c) (start_heartbeat cl) s2 = (s', Inr u)"
    unfolding own_claim_def deny_owner_def by (auto dest!: bindX_returned split: if_splits)
  from 3 have "xs_ctx s' = xs_ctx s2" "xs_trace s' = xs_trace s2"
    by (auto dest!: bindX_returned prepare_action_returned simp: start_heartbeat_def)
  then show ?thesis using record_claim_returned[OF 1] commit_returned[OF assms(1) 2] nd by auto
qed

text \<open>The state in which the tool may start.\<close>

definition armed :: "'w exec_env \<Rightarrow> 'w xstate \<Rightarrow> bool" where
  "armed env s = on_trace (\<lambda>t. guarded env t \<and> cleared (xs_ctx s) t) s"

lemma adds_accept_rest:
  "adds (range (case_prod Completing)) (bindX (check_result env v) (\<lambda>v.
     thenX (stop_heartbeat env True)
     (bindX (getX xs_claim) (\<lambda>claim.
     thenX (finish_idempotency env claim c None v)
     (thenX (modX (\<lambda>s. s\<lparr>xs_claim := None\<rparr>)) (returnX v))))))"
  by (intro adds_intros adds_finish) (auto simp: finish_events_def finish_event_def)

lemma quiet_accept: "quiet R \<Longrightarrow> keeps (on_trace R) (accept_result env c v)"
  unfolding accept_result_def
  by (intro keeps_bindX keeps_modX quiet_adds[OF _ adds_accept_rest]) (auto simp: on_trace_def)

lemma guarded_complete:
  assumes "armed env s"
  shows "on_trace (guarded env) (fst (execute_and_complete env s))"
proof -
  have run: "on_trace (guarded env) (fst (with_deadline env (xs_ctx s) s))"
    using keepsD[OF guarded_execute, of env "xs_ctx s" s] assms by (simp add: armed_def on_trace_def)
  have rest: "on_trace (guarded env) (fst ((case x of (c, v) \<Rightarrow> accept_result env c v) s1))"
    if "with_deadline env (xs_ctx s) s = (s1, Inr x)" for s1 x
    using run that keepsD[OF quiet_accept[OF quiet_guarded], of env s1] by (cases x) auto
  show ?thesis
    unfolding execute_and_complete_def bindX_basic(3)
    by (rule bindX_end[where P = "on_trace (guarded env)"]) (use run rest in auto)
qed

lemma guarded_own:
  assumes "env_wf env" "cl_owner cl" "on_trace (\<lambda>t. guarded env t \<and> Acquired cl \<in> set t) s"
  shows "on_trace (guarded env) (fst (thenX (own_claim env cl) (execute_and_complete env) s))"
proof (rule bindX_end[where P = "on_trace (guarded env)"])
  let ?R = "\<lambda>t. guarded env t \<and> Acquired cl \<in> set t"
  have q: "quiet ?R" by (auto simp: quiet_def split: xevent.split)
  have k: "on_trace ?R (fst (own_claim env cl s))" using keepsD[OF quiet_programs(2)[OF q] assms(3)] .
  then show "on_trace (guarded env) (fst (own_claim env cl s))" by (simp add: on_trace_def)
  fix s1 u assume run: "own_claim env cl s = (s1, Inr u)"
  have "armed env s1"
    using k run own_claim_returned[OF assms(1) run] assms(2)
    by (auto simp: armed_def on_trace_def cleared_def)
  then show "on_trace (guarded env) (fst (execute_and_complete env s1))" by (rule guarded_complete)
qed

lemma guarded_plain:
  assumes "env_wf env" "\<not> idempotent_call (xs_ctx s)" "on_trace (guarded env) s"
  shows "on_trace (guarded env) (fst (bindX (commit_and_enforce env) (\<lambda>c.
     if denied c then
       bindX (run_observers env False c) (\<lambda>c. thenX (set_ctx c) (raiseX (GovernanceDenied c)))
     else bindX (execute_and_complete env) (\<lambda>v. returnX (False, v))) s))"
proof (rule bindX_end[where P = "on_trace (guarded env)"])
  show k: "on_trace (guarded env) (fst (commit_and_enforce env s))"
    using keepsD[OF quiet_programs(3)[OF quiet_guarded] assms(3)] .
  fix s1 c assume run: "commit_and_enforce env s = (s1, Inr c)"
  have g: "on_trace (guarded env) s1" using k run by simp
  note cr = commit_returned[OF assms(1) run]
  have "on_trace (guarded env) (fst (bindX (execute_and_complete env) (\<lambda>v. returnX (False, v)) s1))" if "\<not> denied c"
  proof (rule bindX_end[where P = "on_trace (guarded env)"])
    have "armed env s1"
      using g cr that assms(2) idempotent_call_identity[of c "xs_ctx s"]
      by (auto simp: armed_def on_trace_def cleared_def)
    then show 1: "on_trace (guarded env) (fst (execute_and_complete env s1))" by (rule guarded_complete)
    show "on_trace (guarded env) (fst (returnX (False, v) s2))" if "execute_and_complete env s1 = (s2, Inr v)" for s2 v
      using 1 that by simp
  qed
  moreover have "keeps (on_trace (guarded env))
     (bindX (run_observers env False c) (\<lambda>c. thenX (set_ctx c) (raiseX (GovernanceDenied c))))"
    by (intro keeps_intros quiet_programs quiet_guarded)
  ultimately show "on_trace (guarded env) (fst ((if denied c then
       bindX (run_observers env False c) (\<lambda>c. thenX (set_ctx c) (raiseX (GovernanceDenied c)))
     else bindX (execute_and_complete env) (\<lambda>v. returnX (False, v))) s1))"
    using keepsD g by auto
qed

lemma guarded_body:
  fixes env :: "'w exec_env"
  assumes "env_wf env"
  shows "keeps (on_trace (guarded env)) (run_body env)"
proof (rule keepsI)
  fix s :: "'w xstate" assume g: "on_trace (guarded env) s"
  let ?c = "xs_ctx s"
  have idem: "on_trace (guarded env) (fst (bindX (acquire_claim env ?c) (\<lambda>cl.
       if \<not> cl_owner cl then bindX (cached_result env cl) (\<lambda>v. returnX (True, v))
       else thenX (own_claim env cl) (bindX (execute_and_complete env) (\<lambda>v. returnX (False, v)))) s))"
  proof (rule bindX_end[where P = "on_trace (guarded env)"])
    show k: "on_trace (guarded env) (fst (acquire_claim env ?c s))"
      using keepsD[OF quiet_programs(1)[OF quiet_guarded] g] .
    fix s1 cl assume run: "acquire_claim env ?c s = (s1, Inr cl)"
    have g1: "on_trace (guarded env) s1" "Acquired cl \<in> set (xs_trace s1)"
      using k run acquire_returned[OF run] by simp_all
    have own: "on_trace (guarded env)
       (fst (thenX (own_claim env cl) (bindX (execute_and_complete env) (\<lambda>v. returnX (False, v))) s1))"
      if "cl_owner cl"
    proof -
      have 2: "on_trace (guarded env) (fst (thenX (own_claim env cl) (execute_and_complete env) s1))"
        by (rule guarded_own) (use assms that g1 in \<open>auto simp: on_trace_def\<close>)
      show ?thesis
        unfolding bindX_assoc[symmetric]
        by (rule bindX_end[where P = "on_trace (guarded env)"]) (use 2 in \<open>auto simp: bindX_assoc\<close>)
    qed
    have "keeps (on_trace (guarded env)) (bindX (cached_result env cl) (\<lambda>v. returnX (True, v)))"
      by (intro keeps_intros quiet_programs quiet_guarded)
    then show "on_trace (guarded env) (fst ((if \<not> cl_owner cl then bindX (cached_result env cl) (\<lambda>v. returnX (True, v))
       else thenX (own_claim env cl) (bindX (execute_and_complete env) (\<lambda>v. returnX (False, v)))) s1))"
      using own keepsD g1(1) by auto
  qed
  show "on_trace (guarded env) (fst (run_body env s))"
    using idem guarded_plain[OF assms _ g] by (simp add: run_body_def)
qed

lemma guarded_run:
  assumes "env_wf env"
  shows "guarded env (xs_trace (fst (run_execution env (start_state w c))))"
proof -
  have "keeps (on_trace (guarded env)) (run_execution env)"
    unfolding run_execution_def by (intro keeps_intros quiet_programs quiet_guarded guarded_body assms)
  from keepsD[OF this, of "start_state w c"] show ?thesis by (simp add: on_trace_def start_state_def)
qed

end
