(* ===== verification/Settlement.thy ===== *)
theory Settlement
  imports ExecutionContract
begin

text \<open>
  How a run settles its idempotency claim: every handler that ends with an exception carrying a context has
  settled the claim before, and a call that returned completed it.
\<close>

section \<open>Claims are settled\<close>

text \<open>Programs that leave the claim alone.\<close>

definition on_claim :: "IdempotencyClaim option \<Rightarrow> 'w xstate \<Rightarrow> bool" where
  "on_claim x s = (xs_claim s = x)"

text \<open>Invariants that do not look at the world or the clock.\<close>

definition calm :: "('w xstate \<Rightarrow> bool) \<Rightarrow> bool" where
  "calm P = (\<forall>s w n. P s \<longrightarrow> P (s\<lparr>xs_world := w\<rparr>) \<and> P (s\<lparr>xs_tick := n\<rparr>))"

lemma calm_basic:
  assumes "calm P"
  shows "keeps P tick" "keeps P (checked r)" "keeps P (service f)"
  using assms by (auto simp: calm_def keeps_def tick_def checked_def service_def split: prod.split)

lemma calm_revalidate: "calm P \<Longrightarrow> keeps P (revalidate_bound_action env c)"
  unfolding revalidate_bound_action_def refuse_action_def by (intro keeps_intros calm_basic)

lemma calm_commit_list: "calm P \<Longrightarrow> keeps P (commit_list env as c)"
  by (induction as arbitrary: c) (auto intro!: keeps_intros calm_basic keeps_staged)

lemma calm_release_list: "calm P \<Longrightarrow> keeps P (release_list env as c)"
  by (induction as arbitrary: c) (auto intro!: keeps_intros calm_basic keeps_staged)

lemma calm_chain:
  assumes "calm P" "\<And>c. keeps P (invoke_tool env c)"
  shows "keeps P (execution_chain env a ms current)"
proof (induction ms arbitrary: current)
  case Nil
  have "keeps P (case adm of Denied c \<Rightarrow> raiseX (GovernanceDenied c)
      | Admitted c \<Rightarrow> bindX (revalidate_bound_action env c) (invoke_tool env))" for adm
    using assms by (cases adm) (auto intro!: keeps_intros calm_revalidate)
  then show ?case
    unfolding execution_chain.simps execute_tool_def by (intro keeps_bindX calm_basic assms(1))
next
  case (Cons m ms)
  show ?case
    unfolding execution_chain.simps by (intro keeps_intros keeps_run_mw calm_basic Cons.IH assms(1))
qed

lemma calm_execute:
  "calm P \<Longrightarrow> (\<And>c. keeps P (invoke_tool env c)) \<Longrightarrow> keeps P (with_deadline env a)"
  unfolding with_deadline_def by (intro keeps_intros keeps_staged calm_chain calm_basic)

lemma on_claim_basic [simp]: "calm (on_claim x)" "keeps (on_claim x) (invoke_tool env c)"
  by (auto simp: calm_def on_claim_def keeps_def invoke_tool_def split: prod.split)

lemma claim_programs:
  "keeps (on_claim x) (with_deadline env a)" "keeps (on_claim x) (commit_and_enforce env)"
  "keeps (on_claim x) (release_approvals env c)" "keeps (on_claim x) (stop_heartbeat env b)"
  "keeps (on_claim x) (check_result env v)" "keeps (on_claim x) (finish_idempotency env cl' c e v)"
  "keeps (on_claim x) (record_claim cl)" "keeps (on_claim x) (prepare_action env cl c)"
  "keeps (on_claim x) (set_ctx c)" "keeps (on_claim x) (start_heartbeat cl)"
proof -
  have e: "keeps (on_claim x) (emit ev)" and c: "keeps (on_claim x) (set_ctx c)"
    and h: "keeps (on_claim x) (start_heartbeat cl)" for ev c cl
    by (auto simp: keeps_def on_claim_def emit_def set_ctx_def start_heartbeat_def)
  note b = calm_basic[OF on_claim_basic(1)]
  show "keeps (on_claim x) (with_deadline env a)" by (rule calm_execute) simp_all
  show "keeps (on_claim x) (release_approvals env c)"
    unfolding release_approvals_def by (rule calm_release_list) simp
  show "keeps (on_claim x) (commit_and_enforce env)"
    unfolding commit_and_enforce_def commit_approvals_def enforce_approval_def
    by (intro keeps_intros calm_commit_list b e c) simp
  show "keeps (on_claim x) (stop_heartbeat env b)"
    unfolding stop_heartbeat_def by (intro keeps_intros b) (auto simp: on_claim_def)
  show "keeps (on_claim x) (check_result env v)"
    unfolding check_result_def by (intro keeps_intros b)
  show "keeps (on_claim x) (finish_idempotency env cl' c e v)"
    unfolding finish_idempotency_def by (intro keeps_intros b e)
  show "keeps (on_claim x) (record_claim cl)" "keeps (on_claim x) (prepare_action env cl c)"
    unfolding record_claim_def prepare_action_def by (intro keeps_intros b c)+
  show "keeps (on_claim x) (set_ctx c)" "keeps (on_claim x) (start_heartbeat cl)" by (rule c h)+
qed

definition settled :: "IdempotencyClaim \<Rightarrow> xevent list \<Rightarrow> bool" where
  "settled cl t = (Failing cl \<in> set t \<or> MarkingUnknown cl \<in> set t \<or> (\<exists>v. Completing cl v \<in> set t))"

lemma settled_single [simp]:
  "settled cl [Failing cl]" "settled cl [MarkingUnknown cl]" "settled cl [Completing cl v]"
  by (simp_all add: settled_def)

lemma settled_extends: "extends A s s' \<Longrightarrow> settled cl (xs_trace s) \<Longrightarrow> settled cl (xs_trace s')"
  unfolding settled_def using extends_mem by blast

lemma finish_settles: "settled cl (xs_trace (fst (finish_idempotency env (Some cl) c e v s)))"
proof -
  have tail: "settled cl (xs_trace (fst (thenX (emit ev) m s)))" if "adds UNIV m" "settled cl [ev]" for ev m
  proof -
    have "extends UNIV (s\<lparr>xs_trace := ev # xs_trace s\<rparr>) (fst (m (s\<lparr>xs_trace := ev # xs_trace s\<rparr>)))"
      by (rule addsD[OF that(1)])
    then show ?thesis
      using that(2) settled_extends by (fastforce simp: emit_def settled_def)
  qed
  show ?thesis
    unfolding finish_idempotency_def
    by (cases e) (auto intro!: tail adds_intros)
qed

lemma settled_bind:
  assumes "settled cl (xs_trace (fst (m s)))" "\<And>a. adds UNIV (f a)"
  shows "settled cl (xs_trace (fst (bindX m f s)))"
proof (rule bindX_end[where P = "\<lambda>s. settled cl (xs_trace s)"], rule assms(1))
  fix s1 a assume "m s = (s1, Inr a)"
  then show "settled cl (xs_trace (fst (f a s1)))"
    using settled_extends[OF addsD[OF assms(2)]] assms(1) by simp
qed

lemma settled_bind_run:
  "bindX m f s = (s', r) \<Longrightarrow> settled cl (xs_trace (fst (m s))) \<Longrightarrow> (\<And>a. adds UNIV (f a)) \<Longrightarrow> settled cl (xs_trace s')"
  using settled_bind[of cl m s f] by simp

lemma settled_catch:
  assumes "settled cl (xs_trace (fst (m s)))" "\<And>e. adds UNIV (h e)"
  shows "settled cl (xs_trace (fst (catchX m h s)))"
proof (rule catchX_end[where P = "\<lambda>s. settled cl (xs_trace s)"])
  show "settled cl (xs_trace s1)" if "m s = (s1, Inr a)" for s1 a using assms(1) that by simp
  fix s1 e assume "m s = (s1, Inl e)"
  then show "settled cl (xs_trace (fst (h e s1)))"
    using settled_extends[OF addsD[OF assms(2)]] assms(1) by simp
qed

lemma bind_tick: "bindX tick f s = f (xs_tick s) (s\<lparr>xs_tick := Suc (xs_tick s)\<rparr>)"
  by (simp add: bindX_def tick_def)

lemma settle_settles: "settled cl (xs_trace (fst (settle_idempotency env (Some cl) c e s)))"
  unfolding settle_idempotency_def bind_tick
  by (intro settled_bind settled_catch finish_settles adds_intros)

lemma stop_heartbeat_quietly: "stop_heartbeat env False s = (s', r) \<Longrightarrow> r = Inr () \<and> xs_claim s' = xs_claim s"
  unfolding stop_heartbeat_def
  by (auto simp: bindX_def service_def raised_def split: option.splits prod.splits)

text \<open>
  An exception that carries a context leaves a handler only after the claim has been settled; the others are
  cancellations and failed constructions inside the handler itself.
\<close>

definition carries :: "xexn + 'a \<Rightarrow> bool" where
  "carries r = (\<forall>x. r \<noteq> Inl (Exn x))"

lemma checked_bind: "bindX (checked r) f s = (case r of Inl e \<Rightarrow> (s, Inl (Exn e)) | Inr a \<Rightarrow> f a s)"
  by (cases r) (simp_all add: checked_def raised_def)

lemma fail_call_settles:
  assumes "fail_call env c e s = (s', r)" "xs_claim s = Some cl" "carries r"
  shows "settled cl (xs_trace s')"
proof -
  let ?s = "s\<lparr>xs_tick := Suc (xs_tick s)\<rparr>"
  let ?rest = "\<lambda>c. bindX (hook_at env ON_ERROR c) (\<lambda>c. bindX (run_observers env False c) (\<lambda>c.
       raiseX (ToolExecutionError c e)))"
  obtain c1 where "bindX (settle_idempotency env (Some cl) c1 e) ?rest ?s = (s', r)"
    using assms by (auto simp: fail_call_def bind_tick checked_bind carries_def split: sum.splits)
  then show ?thesis by (rule settled_bind_run) (intro settle_settles adds_intros; simp)+
qed

lemma cancellation_settles:
  assumes "handle_cancellation env c u (Some cl) s = (s', r)" "carries r"
  shows "settled cl (xs_trace s')"
proof -
  let ?s = "s\<lparr>xs_tick := Suc (xs_tick s)\<rparr>"
  let ?rest = "\<lambda>c. let c = abort_observers (xe_now env (xs_tick s)) (xe_aborts env (xs_tick s)) c in
     catchX (run_observers env True c)
       (\<lambda>e. returnX (append_history c (history_entry (xe_now env (xs_tick s)) ''runtime'' ''error''
              ''cancellation finalization could not be fully persisted'' [])))"
  obtain c1 where "bindX (settle_idempotency env (Some cl) c1 (Exn CancelledError)) ?rest ?s = (s', r)"
    using assms by (auto simp: handle_cancellation_def bind_tick checked_bind carries_def split: sum.splits)
  then show ?thesis unfolding Let_def by (rule settled_bind_run) (intro settle_settles adds_intros; simp)+
qed

text \<open>Programs whose exceptions carry no context.\<close>

named_theorems plainly_intros "programs that raise plain exceptions only"

definition plainly :: "('w, 'a) xprog \<Rightarrow> bool" where
  "plainly m = (\<forall>s s' e. m s = (s', Inl e) \<longrightarrow> (\<exists>x. e = Exn x))"

lemma plainlyD: "plainly m \<Longrightarrow> m s = (s', Inl e) \<Longrightarrow> \<exists>x. e = Exn x"
  by (auto simp: plainly_def)

lemma plainly_basic [plainly_intros]:
  "plainly (returnX a)" "plainly (raiseX (Exn x))" "plainly (getX g)" "plainly (modX f)" "plainly tick"
  "plainly (set_ctx c)" "plainly (emit ev)" "plainly (checked q)" "plainly (service h)"
  by (auto simp: plainly_def tick_def set_ctx_def emit_def checked_def service_def raised_def
      split: sum.splits prod.splits)

lemma plainly_bindX [plainly_intros]:
  assumes "plainly m" "\<And>a. plainly (f a)"
  shows "plainly (bindX m f)"
  unfolding plainly_def
proof (intro allI impI)
  fix s s' e assume run: "bindX m f s = (s', Inl e)"
  obtain s1 r where "m s = (s1, r)" by (cases "m s")
  then show "\<exists>x. e = Exn x"
    using run plainlyD[OF assms(1)] plainlyD[OF assms(2)] by (cases r) (auto simp: bindX_def)
qed

lemma plainly_catchX [plainly_intros]:
  assumes "plainly m" "\<And>x. plainly (h (Exn x))"
  shows "plainly (catchX m h)"
  unfolding plainly_def
proof (intro allI impI)
  fix s s' e assume run: "catchX m h s = (s', Inl e)"
  obtain s1 r where "m s = (s1, r)" by (cases "m s")
  then show "\<exists>x. e = Exn x"
    using run plainlyD[OF assms(1)] plainlyD[OF assms(2)] by (cases r) (simp_all add: catchX_def, metis)
qed

lemma plainly_cases [plainly_intros]:
  "(b \<Longrightarrow> plainly m) \<Longrightarrow> (\<not> b \<Longrightarrow> plainly n) \<Longrightarrow> plainly (if b then m else n)"
  "(y = None \<Longrightarrow> plainly m) \<Longrightarrow> (\<And>a. y = Some a \<Longrightarrow> plainly (f a)) \<Longrightarrow>
     plainly (case y of None \<Rightarrow> m | Some a \<Rightarrow> f a)"
  "(\<And>a b. z = (a, b) \<Longrightarrow> plainly (g a b)) \<Longrightarrow> plainly (case z of (a, b) \<Rightarrow> g a b)"
  by (simp_all split: option.split prod.split)

lemma plainly_staged [plainly_intros]: "plainly m \<Longrightarrow> plainly (staged rt stg t c m)"
  by (auto simp: plainly_def staged_def split: prod.splits if_splits)

lemma plainly_release_list: "plainly (release_list env as c)"
  by (induction as arbitrary: c) (auto intro!: plainly_intros)

lemma plainly_steps [plainly_intros]:
  "plainly (release_approvals env c)" "plainly (stop_heartbeat env b)" "plainly (check_result env v)"
  "plainly (finish_idempotency env cl c e v)"
  unfolding release_approvals_def stop_heartbeat_def check_result_def finish_idempotency_def
  by (intro plainly_intros plainly_release_list)+

lemma handle_settles:
  assumes run: "handle_exception env e s = (s', r)" and cl: "xs_claim s = Some cl" and ca: "carries r"
  shows "settled cl (xs_trace s')"
proof -
  obtain s1 where stop: "stop_heartbeat env False s = (s1, Inr ())" "xs_claim s1 = Some cl"
    using stop_heartbeat_quietly[of env s] cl by (cases "stop_heartbeat env False s") auto
  consider (control) c cause where "e = ExecutionControlError c cause" | (denied) c where "e = GovernanceDenied c"
    | (cancel) "is_cancel e" "\<forall>c. e \<noteq> GovernanceDenied c" "\<forall>c x. e \<noteq> ExecutionControlError c x"
    | (other) "\<not> is_cancel e" "\<forall>c. e \<noteq> GovernanceDenied c" "\<forall>c x. e \<noteq> ExecutionControlError c x"
    by (cases e) auto
  then show ?thesis
  proof cases
    case control
    then have "fail_call env c cause s1 = (s', r)"
      using run stop by (simp add: handle_exception_def bindX_Inr)
    from fail_call_settles[OF this stop(2) ca] show ?thesis .
  next
    case denied
    let ?rest = "\<lambda>c. bindX (run_observers env False c) (\<lambda>c. raiseX (GovernanceDenied c))"
    have "bindX (settle_idempotency env (Some cl) c e) ?rest s1 = (s', r)"
      using run stop denied by (simp add: handle_exception_def bindX_Inr)
    then show ?thesis by (rule settled_bind_run) (intro settle_settles adds_intros; simp)+
  next
    case cancel
    then have "bindX (handle_cancellation env (xs_ctx s1) (xs_started s1) (Some cl))
        (\<lambda>c. raiseX (GovernanceCancelledError c)) s1 = (s', r)" (is "bindX ?m _ s1 = _")
      using run stop by (cases e) (auto simp: handle_exception_def bindX_Inr)
    then have "xs_trace s' = xs_trace (fst (?m s1))" "carries (snd (?m s1))"
      using ca by (auto simp: bindX_def carries_def split: prod.splits sum.splits)
    then show ?thesis using cancellation_settles[OF prod.collapse[symmetric], of env "xs_ctx s1" "xs_started s1" cl s1]
      by simp
  next
    case other
    define pre :: "('a, unit) xprog" where "pre = bindX (getX (\<lambda>s. (xs_started s, xs_ctx s))) (\<lambda>(started, c).
       if started then returnX () else bindX (release_approvals env c) set_ctx)"
    have "thenX pre (thenX (stop_heartbeat env False) (bindX (getX xs_ctx) (\<lambda>c. fail_call env c e))) s = (s', r)"
      using run other unfolding pre_def by (cases e) (auto simp: handle_exception_def)
    moreover have "plainly pre" unfolding pre_def by (intro plainly_intros)
    ultimately obtain s2 where 2: "pre s = (s2, Inr ())"
        "thenX (stop_heartbeat env False) (bindX (getX xs_ctx) (\<lambda>c. fail_call env c e)) s2 = (s', r)"
      using ca plainlyD[of pre s] by (cases "pre s"; cases "snd (pre s)") (auto simp: bindX_def carries_def)
    have "keeps (on_claim (Some cl)) pre" unfolding pre_def by (intro keeps_intros claim_programs)
    from keepsD[OF this, of s] have c2: "xs_claim s2 = Some cl" using 2(1) cl by (simp add: on_claim_def)
    obtain s3 where "stop_heartbeat env False s2 = (s3, Inr ())" "xs_claim s3 = Some cl"
      using stop_heartbeat_quietly[of env s2] c2 by (cases "stop_heartbeat env False s2") auto
    then have "fail_call env (xs_ctx s3) e s3 = (s', r)" "xs_claim s3 = Some cl"
      using 2(2) by (simp_all add: bindX_Inr)
    from fail_call_settles[OF this ca] show ?thesis .
  qed
qed


section \<open>Every owned claim of a run\<close>

text \<open>Either the program has settled the claim, or it raised and the claim is still held.\<close>

definition held_or_settled :: "IdempotencyClaim \<Rightarrow> 'w xstate \<times> (xexn + 'a) \<Rightarrow> bool" where
  "held_or_settled cl p =
     (settled cl (xs_trace (fst p)) \<or> xs_claim (fst p) = Some cl \<and> (\<exists>e. snd p = Inl e))"

lemma held_bind:
  assumes "keeps (on_claim (Some cl)) m" "xs_claim s = Some cl"
    and "\<And>s1 a. m s = (s1, Inr a) \<Longrightarrow> xs_claim s1 = Some cl \<Longrightarrow> held_or_settled cl (f a s1)"
  shows "held_or_settled cl (bindX m f s)"
proof -
  obtain s1 r where m: "m s = (s1, r)" by (cases "m s")
  then have "xs_claim s1 = Some cl"
    using keepsD[OF assms(1), of s] assms(2) by (simp add: on_claim_def)
  then show ?thesis
    using m assms(3) by (cases r) (auto simp: bindX_Inr bindX_Inl held_or_settled_def)
qed

lemma settled_held: "settled cl (xs_trace (fst p)) \<Longrightarrow> held_or_settled cl p"
  by (simp add: held_or_settled_def)

lemma accept_settles:
  assumes "xs_claim s = Some cl"
  shows "held_or_settled cl (accept_result env c v s)"
proof -
  have "settled cl (xs_trace (fst (bindX (getX xs_claim) (\<lambda>claim. thenX (finish_idempotency env claim c None v)
     (thenX (modX (\<lambda>s. s\<lparr>xs_claim := None\<rparr>)) (returnX v))) s1)))" if "xs_claim s1 = Some cl" for v s1
    using that by (auto intro!: settled_bind finish_settles adds_intros)
  then show ?thesis
    unfolding accept_result_def bindX_basic(4)
    by (intro held_bind claim_programs settled_held) (use assms in auto)
qed

lemma complete_settles:
  assumes "xs_claim s = Some cl"
  shows "held_or_settled cl (execute_and_complete env s)"
  unfolding execute_and_complete_def bindX_basic(3)
  by (rule held_bind[OF claim_programs(1) assms]) (auto intro: accept_settles split: prod.split)

lemma own_claim_end:
  assumes "xs_claim s = Some cl"
  shows "settled cl (xs_trace (fst (own_claim env cl s))) \<or> xs_claim (fst (own_claim env cl s)) = Some cl"
proof -
  let ?T = "\<lambda>s. settled cl (xs_trace s) \<or> xs_claim s = Some cl"
  have deny: "?T (fst (deny_owner env cl c s1))" for c s1
    unfolding deny_owner_def by (intro disjI1 settled_bind finish_settles adds_intros) auto
  have "keeps (on_claim (Some cl)) (thenX (prepare_action env cl c) (start_heartbeat cl))" for c
    by (intro keeps_intros claim_programs)
  then have go: "?T (fst (thenX (prepare_action env cl c) (start_heartbeat cl) s1))" if "xs_claim s1 = Some cl" for c s1
    using that by (auto simp: keeps_def on_claim_def)
  have com: "xs_claim (fst (commit_and_enforce env s1)) = Some cl" if "xs_claim s1 = Some cl" for s1
    using keepsD[OF claim_programs(2), of "Some cl" s1] that by (simp add: on_claim_def)
  have rec: "xs_claim (fst (record_claim cl s)) = Some cl"
    using keepsD[OF claim_programs(7), of "Some cl" s] assms by (simp add: on_claim_def)
  show ?thesis
    unfolding own_claim_def
  proof (rule bindX_end[where P = ?T])
    show "?T (fst (record_claim cl s))" using rec by simp
    fix s1 u assume "record_claim cl s = (s1, Inr u)"
    then have s1: "xs_claim s1 = Some cl" using rec by simp
    show "?T (fst (bindX (commit_and_enforce env) (\<lambda>c.
      if denied c then deny_owner env cl c
      else thenX (prepare_action env cl c) (start_heartbeat cl)) s1))"
    proof (rule bindX_end[where P = ?T])
      show "?T (fst (commit_and_enforce env s1))" using com[OF s1] by simp
      fix s2 c assume "commit_and_enforce env s1 = (s2, Inr c)"
      then have "xs_claim s2 = Some cl" using com[OF s1] by simp
      then show "?T (fst ((if denied c then deny_owner env cl c
        else thenX (prepare_action env cl c) (start_heartbeat cl)) s2))"
        using deny[of c s2] go[of s2 c] by simp
    qed
  qed
qed

lemma own_claim_keeps:
  assumes "own_claim env cl s = (s', Inr u)" "xs_claim s = Some cl"
  shows "xs_claim s' = Some cl"
proof -
  have k: "keeps (on_claim (Some cl)) (thenX (prepare_action env cl c) (start_heartbeat cl))" for c
    by (intro keeps_intros claim_programs)
  from assms(1) obtain s1 u1 c s2 where
    1: "record_claim cl s = (s1, Inr u1)" and 2: "commit_and_enforce env s1 = (s2, Inr c)"
    and 3: "thenX (prepare_action env cl c) (start_heartbeat cl) s2 = (s', Inr u)"
    unfolding own_claim_def deny_owner_def by (auto dest!: bindX_returned split: if_splits)
  have "xs_claim s2 = Some cl"
    using keepsD[OF claim_programs(7), of "Some cl" s cl] keepsD[OF claim_programs(2), of "Some cl" s1 env] 1 2 assms(2)
    by (simp add: on_claim_def)
  then show ?thesis using keepsD[OF k, of s2 c] 3 by (simp add: on_claim_def)
qed

lemma own_settles:
  assumes "xs_claim s = Some cl"
  shows "held_or_settled cl (thenX (own_claim env cl) (execute_and_complete env) s)"
proof -
  obtain s1 r where own: "own_claim env cl s = (s1, r)" by (cases "own_claim env cl s")
  show ?thesis
  proof (cases r)
    case (Inl e)
    then show ?thesis
      using own own_claim_end[OF assms, of env] by (auto simp: bindX_Inl held_or_settled_def)
  next
    case (Inr u)
    then show ?thesis
      using own complete_settles[OF own_claim_keeps[OF _ assms]] by (simp add: bindX_Inr)
  qed
qed

lemma acquire_raised:
  assumes "acquire_claim env c s = (s', Inl e)"
  shows "extends (range Observing) s s'"
proof -
  have "s' = s \<or> (\<exists>ns fp. request_claim env c ns fp s = (s', Inl e))"
    using assms unfolding acquire_claim_def checked_bind
    by (auto simp: bindX_def emit_def split: sum.splits prod.splits)
  then show ?thesis using adds_run[OF adds_request[OF order_refl]] by auto
qed

lemma acquire_only:
  assumes "acquire_claim env c s = (s', Inr cl)" "Acquired cl' \<in> set (xs_trace s')"
  shows "cl' = cl \<or> Acquired cl' \<in> set (xs_trace s)"
proof -
  obtain ns fp s1 where req: "request_claim env c ns fp s = (s1, Inr cl)" "xs_trace s' = Acquired cl # xs_trace s1"
    using assms(1) unfolding acquire_claim_def checked_bind
    by (auto dest!: bindX_returned simp: emit_def split: sum.splits)
  show ?thesis
    using assms(2) req(2) extends_new[OF adds_run[OF adds_request[OF order_refl] req(1)], of "Acquired cl'"] by auto
qed

text \<open>No later program acquires a claim.\<close>

lemma trace_complete:
  fixes env :: "'w exec_env"
  assumes R: "\<And>ev t. ev \<notin> range Acquired \<Longrightarrow> R t \<Longrightarrow> R (ev # t)"
  shows "keeps (on_trace R) (execute_and_complete env)"
proof -
  have "calm (on_trace R :: 'w xstate \<Rightarrow> bool)" by (simp add: calm_def on_trace_def)
  moreover have "keeps (on_trace R) (invoke_tool env c)" for c
    by (rule keepsI) (auto simp: on_trace_def invoke_tool_def intro!: R split: prod.split)
  ultimately have run: "keeps (on_trace R) (with_deadline env c)" for c by (rule calm_execute)
  have acc: "keeps (on_trace R) (accept_result env c v)" for c v
    unfolding accept_result_def
    by (intro keeps_bindX[of _ "modX f" for f] keeps_modX adds_keeps[OF adds_accept_rest] R) (auto simp: on_trace_def)
  show ?thesis
    unfolding execute_and_complete_def by (intro keeps_intros run acc)
qed

lemma no_acquire:
  assumes "Acquired cl \<notin> set (xs_trace s)"
  shows "Acquired cl \<notin> set (xs_trace (fst (execute_and_complete env s)))"
  using keepsD[OF trace_complete[of "\<lambda>t. Acquired cl \<notin> set t" env], of s] assms by (auto simp: on_trace_def)

lemma own_acquires_nothing:
  assumes "Acquired cl \<in> set (xs_trace (fst (thenX (own_claim env cl0) (execute_and_complete env) s)))"
  shows "Acquired cl \<in> set (xs_trace s)"
proof (rule ccontr)
  assume no: "Acquired cl \<notin> set (xs_trace s)"
  let ?P = "\<lambda>s. Acquired cl \<notin> set (xs_trace s)"
  have own: "?P (fst (own_claim env cl0 s))"
    using no extends_new[OF addsD[OF adds_own], of "Acquired cl" env cl0 s] by auto
  have "?P (fst (thenX (own_claim env cl0) (execute_and_complete env) s))"
    by (rule bindX_end[where P = ?P]) (use own no_acquire in auto)
  then show False using assms by simp
qed

lemma held_returned:
  "held_or_settled cl (m s) \<Longrightarrow> (\<And>s1 a. m s = (s1, Inr a) \<Longrightarrow> f a s1 = (s1, Inr (g a))) \<Longrightarrow>
   held_or_settled cl (bindX m f s)"
  by (cases "m s"; cases "snd (m s)") (auto simp: held_or_settled_def bindX_def)

lemma body_settles:
  assumes run: "run_body env s = (s', r)"
    and acq: "Acquired cl \<in> set (xs_trace s')" "Acquired cl \<notin> set (xs_trace s)" "cl_owner cl"
  shows "held_or_settled cl (s', r)"
proof (cases "idempotent_call (xs_ctx s)")
  case True
  let ?go = "\<lambda>cl. if \<not> cl_owner cl then bindX (cached_result env cl) (\<lambda>v. returnX (True, v))
       else thenX (own_claim env cl) (bindX (execute_and_complete env) (\<lambda>v. returnX (False, v)))"
  have b: "bindX (acquire_claim env (xs_ctx s)) ?go s = (s', r)"
    using run True by (simp add: run_body_def)
  obtain s1 q where a: "acquire_claim env (xs_ctx s) s = (s1, q)" by (cases "acquire_claim env (xs_ctx s) s")
  show ?thesis
  proof (cases q)
    case (Inl e)
    then have "s' = s1" using a b by (simp add: bindX_Inl)
    then show ?thesis
      using extends_new[OF acquire_raised, of env "xs_ctx s" s s1 e "Acquired cl"] a Inl acq by auto
  next
    case (Inr cl0)
    have go: "?go cl0 s1 = (s', r)" using a b Inr by (simp add: bindX_Inr)
    have c0: "xs_claim s1 = Some cl0" using acquire_returned a Inr by blast
    have only: "Acquired cl \<in> set (xs_trace s1) \<Longrightarrow> cl = cl0" using acquire_only[of env _ s s1 cl0 cl] a Inr acq(2) by blast
    show ?thesis
    proof (cases "cl_owner cl0")
      case True
      let ?m = "thenX (own_claim env cl0) (execute_and_complete env)"
      have go': "bindX ?m (\<lambda>v. returnX (False, v)) s1 = (s', r)" using go True by (simp add: bindX_assoc)
      have "fst (?m s1) = s'"
        using go' by (cases "?m s1"; cases "snd (?m s1)") (auto simp: bindX_Inl bindX_Inr)
      then have "cl = cl0" using own_acquires_nothing[of cl env cl0 s1] only acq(1) by simp
      moreover have "held_or_settled cl0 (bindX ?m (\<lambda>v. returnX (False, v)) s1)"
        by (rule held_returned[where m = ?m and g = "Pair False"], rule own_settles[OF c0]) simp
      ultimately show ?thesis using go' by simp
    next
      case False
      have "adds (range Observing \<union> range Committed) (bindX (cached_result env cl0) (\<lambda>v. returnX (True, v)))"
        by (intro adds_intros adds_cached)
      from extends_new[OF adds_run[OF this], of s1 s' r "Acquired cl"]
      have "Acquired cl \<in> set (xs_trace s1)" using go False acq(1) by auto
      then show ?thesis using only False acq(3) by simp
    qed
  qed
next
  case False
  let ?P = "\<lambda>s. Acquired cl \<notin> set (xs_trace s)"
  let ?deny = "\<lambda>c. bindX (run_observers env False c) (\<lambda>c. thenX (set_ctx c) (raiseX (GovernanceDenied c)))
    :: ('a, bool \<times> json) xprog"
  have "?P (fst (bindX (commit_and_enforce env) (\<lambda>c.
       if denied c then ?deny c else bindX (execute_and_complete env) (\<lambda>v. returnX (False, v))) s))"
  proof (rule bindX_end[where P = ?P])
    show 1: "?P (fst (commit_and_enforce env s))"
      using extends_new[OF addsD[OF adds_commit[OF order_refl]], of "Acquired cl" env s] acq(2) by auto
    fix s1 c assume "commit_and_enforce env s = (s1, Inr c)"
    then have s1: "?P s1" using 1 by simp
    have "adds (range Observing) (?deny c)" by (intro adds_intros) simp
    from extends_new[OF addsD[OF this], of "Acquired cl" s1] have deny: "?P (fst (?deny c s1))" using s1 by auto
    have go: "?P (fst (bindX (execute_and_complete env) (\<lambda>v. returnX (False, v)) s1))"
      by (rule bindX_end[where P = ?P]) (use no_acquire[OF s1, of env] in auto)
    show "?P (fst ((if denied c then ?deny c else bindX (execute_and_complete env) (\<lambda>v. returnX (False, v))) s1))"
      using deny go by simp
  qed
  then show ?thesis using run False acq(1) by (simp add: run_body_def)
qed

text \<open>A handler always ends with an exception.\<close>

definition raising :: "('w, 'a) xprog \<Rightarrow> bool" where
  "raising m = (\<forall>s. \<exists>e. snd (m s) = Inl e)"

lemma raising_intros:
  "raising (raiseX e)" "(\<And>a. raising (f a)) \<Longrightarrow> raising (bindX m f)"
  "(b \<Longrightarrow> raising n) \<Longrightarrow> (\<not> b \<Longrightarrow> raising n') \<Longrightarrow> raising (if b then n else n')"
  "(\<And>a b. z = (a, b) \<Longrightarrow> raising (g a b)) \<Longrightarrow> raising (case z of (a, b) \<Rightarrow> g a b)"
  by (auto simp: raising_def bindX_def split: prod.split sum.split)

lemma handle_raises: "raising (handle_exception env e)"
proof -
  have f: "raising (fail_call env c x)" for c x unfolding fail_call_def by (intro raising_intros)
  show ?thesis unfolding handle_exception_def by (cases e) (auto intro!: raising_intros f)
qed

lemma run_settles:
  assumes run: "run_execution env (start_state w c) = (s', r)"
    and acq: "Acquired cl \<in> set (xs_trace s')" "cl_owner cl" and ca: "carries r"
  shows "settled cl (xs_trace s')"
proof -
  let ?s = "start_state w c"
  let ?fin = "\<lambda>(cached, v). if cached then bindX (getX xs_ctx) (\<lambda>c. returnX (v, c)) else finish_success env v"
  have fin: "adds (range Observing) (?fin x)" for x
    by (cases x) (auto intro!: adds_intros adds_success)
  obtain s1 q where body: "run_body env ?s = (s1, q)" by (cases "run_body env ?s")
  have rest: "bindX (\<lambda>s. case (s1, q) of (s', Inl e) \<Rightarrow> handle_exception env e s' | (s', Inr a) \<Rightarrow> (s', Inr a)) ?fin ?s = (s', r)"
    using run body by (simp add: run_execution_def catchX_def bindX_def)
  show ?thesis
  proof (cases q)
    case (Inl e)
    define h :: "('a, bool \<times> json) xprog" where "h = handle_exception env e"
    obtain x where x: "snd (h s1) = Inl x" using handle_raises unfolding h_def raising_def by blast
    then have h: "h s1 = (s', Inl x)" "r = Inl x"
      using rest Inl by (auto simp: bindX_def h_def split: prod.splits)
    have e: "extends settling s1 s'" using adds_run[OF adds_handle] h(1) unfolding h_def by blast
    then have "Acquired cl \<in> set (xs_trace s1)" using extends_new acq(1) by blast
    then have "held_or_settled cl (s1, q)" using body_settles[OF body _ _ acq(2)] by (simp add: start_state_def)
    moreover have "settled cl (xs_trace s')" if "xs_claim s1 = Some cl"
      by (rule handle_settles[OF h(1)[unfolded h_def] that]) (use ca h(2) in \<open>simp add: carries_def\<close>)
    ultimately show ?thesis using settled_extends[OF e] by (auto simp: held_or_settled_def)
  next
    case (Inr x)
    then have "?fin x s1 = (s', r)" using rest by (simp add: bindX_def)
    then have e: "extends (range Observing) s1 s'" by (rule adds_run[OF fin])
    then have "Acquired cl \<in> set (xs_trace s1)" using extends_new acq(1) by blast
    then have "held_or_settled cl (s1, q)" using body_settles[OF body _ _ acq(2)] by (simp add: start_state_def)
    then show ?thesis using Inr settled_extends[OF e] by (simp add: held_or_settled_def)
  qed
qed

end
