(* ===== verification/Acceptance.thy ===== *)
theory Acceptance
  imports Settlement
begin

text \<open>
  What a run does with the result of the tool: once the tool has returned, no later failure gives the claim
  back for another execution, and the value a run returns is the one its claim was completed with.
\<close>

section \<open>An accepted result is never given up\<close>

definition no_fail :: "'w xstate \<Rightarrow> bool" where
  "no_fail s = (\<forall>cl. Failing cl \<notin> set (xs_trace s))"

lemma no_fail_extends: "extends A s s' \<Longrightarrow> A \<inter> range Failing = {} \<Longrightarrow> no_fail s \<Longrightarrow> no_fail s'"
  unfolding no_fail_def using extends_new by fastforce

lemma chain_request:
  assumes "execution_chain env a ms a s = (s', Inr (c, v))"
  shows "request_state_eq (rt_ident (xe_rt env)) c a \<and> governance_state_eq c a"
proof (cases ms)
  case Nil
  from assms Nil obtain s1 n adm where
    g: "execute_gate (xe_rt env) (xe_str_other env) (xe_now env n) (xe_did env n) a a = Inr adm" and
    r: "(case adm of Denied c \<Rightarrow> raiseX (GovernanceDenied c)
      | Admitted c \<Rightarrow> bindX (revalidate_bound_action env c) (invoke_tool env)) s1 = (s', Inr (c, v))"
    by (auto simp: execute_tool_def bind_tick checked_bind split: sum.splits)
  then obtain b where b: "adm = Admitted b" by (cases adm) auto
  obtain s2 b' where "revalidate_bound_action env b s1 = (s2, Inr b')" "invoke_tool env b' s2 = (s', Inr (c, v))"
    using r b by (auto dest!: bindX_returned)
  then have "c = b" using revalidate_same by (fastforce simp: invoke_tool_def split: prod.splits sum.splits)
  then show ?thesis using execute_gate_Admitted[of _ _ _ _ a a b] g b by blast
next
  case (Cons m ms')
  from assms Cons obtain cand where
    "validate_middleware_transition (rt_ident (xe_rt env)) a cand EXECUTION = Inr c"
    by (auto dest!: bindX_returned simp: bind_tick checked_returned)
  from execution_transition[OF this] show ?thesis by simp
qed

lemma with_deadline_request:
  assumes "with_deadline env a s = (s', Inr (c, v))"
  shows "request_state_eq (rt_ident (xe_rt env)) c a \<and> governance_state_eq c a"
proof -
  obtain s1 t where "staged (xe_rt env) ''tool execution'' t a (execution_chain env a (xe_middleware env) a) s1 = (s', Inr (c, v))"
    using assms by (auto simp: with_deadline_def bind_tick checked_bind split: sum.splits)
  then have "execution_chain env a (xe_middleware env) a s1 = (s', Inr (c, v))" by (rule staged_returned)
  then show ?thesis by (rule chain_request)
qed

text \<open>The state after a body that got a result from the tool.\<close>

definition accepted :: "'w xstate \<times> (xexn + 'a) \<Rightarrow> bool" where
  "accepted p =
     (no_fail (fst p) \<and> \<not> denied (xs_ctx (fst p)) \<and>
      (xs_claim (fst p) = None \<or> cx_execution_mode (xs_ctx (fst p)) = IDEMPOTENT) \<and>
      (\<forall>e. snd p = Inl e \<longrightarrow> (\<exists>x. e = Exn x)))"

lemma accept_accepted:
  assumes "no_fail s" "\<not> denied c" "xs_claim s = None \<or> cx_execution_mode c = IDEMPOTENT"
  shows "accepted (accept_result env c v s)"
proof -
  let ?s = "s\<lparr>xs_ctx := c, xs_returned := True\<rparr>"
  define rest where "rest = bindX (check_result env v) (\<lambda>v.
     thenX (stop_heartbeat env True)
     (bindX (getX xs_claim) (\<lambda>claim.
     thenX (finish_idempotency env claim c None v)
     (thenX (modX (\<lambda>s. s\<lparr>xs_claim := None\<rparr>)) (returnX v)))))"
  have run: "accept_result env c v s = rest ?s" by (simp add: accept_result_def rest_def)
  let ?P = "\<lambda>s'. xs_ctx s' = c \<and> xs_claim s' \<in> {None, xs_claim s}"
  have cm: "calm ?P" by (simp add: calm_def)
  have em: "keeps ?P (emit ev)" for ev by (simp add: keeps_def emit_def)
  have "keeps ?P rest"
    unfolding rest_def check_result_def stop_heartbeat_def finish_idempotency_def
    by (intro keeps_intros calm_basic[OF cm] em) auto
  from keepsD[OF this, of ?s] have P: "?P (fst (rest ?s))" by simp
  have "plainly rest" unfolding rest_def by (intro plainly_intros)
  then have pl: "\<forall>e. snd (rest ?s) = Inl e \<longrightarrow> (\<exists>x. e = Exn x)" using plainlyD by (metis prod.collapse)
  have "extends (range (case_prod Completing)) ?s (fst (rest ?s))"
    unfolding rest_def by (rule addsD[OF adds_accept_rest])
  then have "no_fail (fst (rest ?s))"
    using no_fail_extends[of _ ?s] assms(1) by (fastforce simp: no_fail_def)
  then show ?thesis using P pl assms(2,3) by (auto simp: accepted_def run)
qed

lemma complete_accepted:
  assumes "\<not> xs_returned s" "no_fail s" "\<not> denied (xs_ctx s)"
    "xs_claim s = None \<or> cx_execution_mode (xs_ctx s) = IDEMPOTENT"
  shows "\<not> xs_returned (fst (execute_and_complete env s)) \<or> accepted (execute_and_complete env s)"
proof -
  let ?P = "\<lambda>s'. \<not> xs_returned s' \<and> no_fail s' \<and> xs_claim s' = xs_claim s"
  have inv: "keeps ?P (invoke_tool env c)" for c
    by (auto simp: keeps_def invoke_tool_def no_fail_def split: prod.split)
  have "calm ?P" by (simp add: calm_def no_fail_def)
  from keepsD[OF calm_execute[OF this inv], of s] have P: "?P (fst (with_deadline env (xs_ctx s) s))" using assms by simp
  obtain s1 q where run: "with_deadline env (xs_ctx s) s = (s1, q)" by (cases "with_deadline env (xs_ctx s) s")
  show ?thesis
  proof (cases q)
    case (Inl e)
    then show ?thesis using run P by (simp add: execute_and_complete_def bindX_Inl)
  next
    case (Inr p)
    obtain c v where p: "p = (c, v)" by (cases p)
    note w = with_deadline_request[OF run[unfolded Inr p]]
    have "accepted (accept_result env c v s1)"
      by (rule accept_accepted)
        (use P run w assms governance_state_denied in \<open>auto simp: request_state_eq_def\<close>)
    then show ?thesis using run Inr p by (simp add: execute_and_complete_def bindX_Inr)
  qed
qed

lemma request_returned:
  fixes env :: "'w exec_env"
  assumes run: "request_claim env c ns fp s = (s1, Inr cl)"
  shows "xs_ctx s1 = xs_ctx s"
proof -
  have "raising (refuse_conflict env c msg :: ('w, IdempotencyClaim) xprog)" for msg
    unfolding refuse_conflict_def by (intro raising_intros)
  then have refuse: "refuse_conflict env c msg s0 \<noteq> (s1, Inr cl)" for msg s0
    unfolding raising_def by (metis Inl_Inr_False snd_conv)
  show ?thesis
    using run by (auto simp: request_claim_def catchX_def service_def raised_def refuse
        split: prod.splits sum.splits xexn.splits exn.splits)
qed

lemma acquire_ctx:
  assumes "acquire_claim env c s = (s', Inr cl)"
  shows "xs_ctx s' = xs_ctx s"
proof -
  obtain ns fp s1 where "request_claim env c ns fp s = (s1, Inr cl)" "xs_ctx s' = xs_ctx s1"
    using assms unfolding acquire_claim_def checked_bind
    by (auto dest!: bindX_returned simp: emit_def split: sum.splits)
  then show ?thesis using request_returned by metis
qed

lemma own_claim_quietly:
  assumes "own_claim env cl s = (s', Inr u)"
  shows "extends (range Committed) s s'"
proof -
  obtain s1 u1 c s2 where
    1: "record_claim cl s = (s1, Inr u1)" and 2: "commit_and_enforce env s1 = (s2, Inr c)"
    and 3: "thenX (prepare_action env cl c) (start_heartbeat cl) s2 = (s', Inr u)"
    using assms unfolding own_claim_def deny_owner_def by (auto dest!: bindX_returned split: if_splits)
  have "adds (range Committed) (thenX (prepare_action env cl c) (start_heartbeat cl))" by (intro adds_intros)
  from adds_run[OF adds_steps(3) 1] adds_run[OF adds_commit[OF order_refl] 2] adds_run[OF this 3]
  show ?thesis by (blast intro: extends_trans)
qed

lemma accepted_bind:
  assumes "\<not> xs_returned (fst (m s)) \<or> accepted (m s)"
    and "\<And>s1 a. m s = (s1, Inr a) \<Longrightarrow> f a s1 = (s1, Inr (g a))"
  shows "\<not> xs_returned (fst (bindX m f s)) \<or> accepted (bindX m f s)"
  using assms by (cases "m s"; cases "snd (m s)") (auto simp: accepted_def bindX_def)

lemma unreturned_adds: "adds A m \<Longrightarrow> \<not> xs_returned s \<Longrightarrow> \<not> xs_returned (fst (m s))"
  using addsD[of A m s] by (simp add: extends_def)

lemma body_accepted:
  assumes env: "env_wf env" and s: "\<not> xs_returned s" "no_fail s" "xs_claim s = None"
  shows "\<not> xs_returned (fst (run_body env s)) \<or> accepted (run_body env s)"
proof -
  let ?ret = "\<lambda>v. returnX (False, v)"
  let ?A = "\<lambda>p. \<not> xs_returned (fst p) \<or> accepted p"
  have own: "?A (thenX (own_claim env cl) (bindX (execute_and_complete env) ?ret) s1)"
    if "\<not> xs_returned s1" "no_fail s1" "idempotent_call (xs_ctx s1)" for cl s1
  proof -
    obtain s2 q where run: "own_claim env cl s1 = (s2, q)" by (cases "own_claim env cl s1")
    have nr: "\<not> xs_returned s2" using unreturned_adds[OF adds_own that(1), of env cl] run by simp
    show ?thesis
    proof (cases q)
      case (Inl e)
      then show ?thesis using run nr by (simp add: bindX_Inl)
    next
      case (Inr u)
      note o = own_claim_returned[OF env run[unfolded Inr]] and e = own_claim_quietly[OF run[unfolded Inr]]
      have "no_fail s2" by (rule no_fail_extends[OF e _ that(2)]) auto
      moreover have "cx_execution_mode (xs_ctx s2) = IDEMPOTENT"
        using o that(3) idempotent_call_identity[of "xs_ctx s2" "xs_ctx s1"] by (simp add: idempotent_call_def)
      ultimately have "?A (execute_and_complete env s2)" using complete_accepted[OF nr] o by blast
      then have "?A (bindX (execute_and_complete env) ?ret s2)" by (rule accepted_bind) simp
      then show ?thesis using run Inr by (simp add: bindX_Inr)
    qed
  qed
  show ?thesis
  proof (cases "idempotent_call (xs_ctx s)")
    case True
    obtain s1 q where run: "acquire_claim env (xs_ctx s) s = (s1, q)" by (cases "acquire_claim env (xs_ctx s) s")
    have e: "extends (range Observing \<union> range Acquired) s s1" by (rule adds_run[OF adds_acquire run])
    have nr: "\<not> xs_returned s1" using e s(1) by (simp add: extends_def)
    have nf: "no_fail s1" by (rule no_fail_extends[OF e _ s(2)]) auto
    show ?thesis
    proof (cases q)
      case (Inl x)
      then show ?thesis using run nr True by (simp add: run_body_def bindX_Inl)
    next
      case (Inr cl)
      have ctx: "xs_ctx s1 = xs_ctx s"
        using run Inr by (auto simp: acquire_ctx)
      have "adds (range Observing \<union> range Committed) (bindX (cached_result env cl) (\<lambda>v. returnX (True, v)))"
        by (intro adds_intros adds_cached)
      from unreturned_adds[OF this nr] show ?thesis
        using run Inr True own[OF nr nf, of cl] ctx by (simp add: run_body_def bindX_Inr)
    qed
  next
    case False
    obtain s1 q where run: "commit_and_enforce env s = (s1, q)" by (cases "commit_and_enforce env s")
    have e: "extends (range Committed) s s1" by (rule adds_run[OF adds_commit[OF order_refl] run])
    have nr: "\<not> xs_returned s1" using e s(1) by (simp add: extends_def)
    have nf: "no_fail s1" by (rule no_fail_extends[OF e _ s(2)]) auto
    have cl: "xs_claim s1 = None"
      using keepsD[OF claim_programs(2), of None s env] run s(3) by (simp add: on_claim_def)
    show ?thesis
    proof (cases q)
      case (Inl x)
      then show ?thesis using run nr False by (simp add: run_body_def bindX_Inl)
    next
      case (Inr c)
      note c = commit_returned[OF env run[unfolded Inr]]
      define deny :: "('a, bool \<times> json) xprog" where
        "deny = bindX (run_observers env False c) (\<lambda>c. thenX (set_ctx c) (raiseX (GovernanceDenied c)))"
      have "adds (range Observing) deny" unfolding deny_def by (intro adds_intros) simp
      from unreturned_adds[OF this nr] have d: "?A (deny s1)" by simp
      have "?A (bindX (execute_and_complete env) ?ret s1)" if "\<not> denied c"
        by (rule accepted_bind[where g = "Pair False"]) (use complete_accepted[OF nr nf] that c cl in auto)
      then show ?thesis using run Inr False d by (simp add: run_body_def bindX_Inr deny_def)
    qed
  qed
qed

text \<open>The handlers, for a call whose tool has returned.\<close>

abbreviation uncertain_events :: "xevent set" where
  "uncertain_events \<equiv> range MarkingUnknown \<union> range Observing"

lemma finish_uncertain:
  "claim = None \<or> cx_status c = STATUS_UNKNOWN \<Longrightarrow> finish_events claim c (Some e) v \<subseteq> uncertain_events"
  by (auto simp: finish_events_def finish_event_def)

lemma failed_context_unknown:
  "failed_context env n c e True = Inr c' \<Longrightarrow> \<not> denied c \<Longrightarrow> cx_status c' = STATUS_UNKNOWN"
  by (auto simp: failed_context_def bindR_eq_Inr dest!: evolve_Inr)

lemma cancelled_context_unknown:
  "cancelled_context env n c True = Inr c' \<Longrightarrow> \<not> denied c \<Longrightarrow> cx_status c' = STATUS_UNKNOWN"
  by (auto simp: cancelled_context_def bindR_eq_Inr dest!: evolve_Inr)

lemma fail_call_uncertain:
  assumes "\<not> denied c" "xs_claim s = None \<or> uncertain_outcome s c"
  shows "extends uncertain_events s (fst (fail_call env c e s))"
proof -
  let ?s = "s\<lparr>xs_tick := Suc (xs_tick s)\<rparr>"
  define rest :: "ExecutionContext \<Rightarrow> ('a, 'b) xprog" where
    "rest c = bindX (settle_idempotency env (xs_claim s) c e) (\<lambda>c.
       bindX (hook_at env ON_ERROR c) (\<lambda>c.
       bindX (run_observers env False c) (\<lambda>c.
       raiseX (ToolExecutionError c e))))" for c
  have u: "uncertain_outcome ?s c = uncertain_outcome s c" by (simp add: uncertain_outcome_def)
  have run: "fail_call env c e s =
      (case failed_context env (xs_tick s) c e (uncertain_outcome s c) of
         Inl x \<Rightarrow> (?s, Inl (Exn x)) | Inr c' \<Rightarrow> rest c' ?s)"
    by (simp add: fail_call_def bind_tick checked_bind u rest_def split: sum.split)
  have "adds uncertain_events (rest c')"
    if "failed_context env (xs_tick s) c e (uncertain_outcome s c) = Inr c'" for c'
    unfolding rest_def
    by (intro adds_intros adds_settle finish_uncertain) (use assms that in \<open>auto dest: failed_context_unknown\<close>)
  then have "extends uncertain_events ?s (fst (rest c' ?s))"
    if "failed_context env (xs_tick s) c e (uncertain_outcome s c) = Inr c'" for c'
    using addsD that by blast
  then show ?thesis by (auto simp: run extends_def split: sum.split)
qed

lemma cancellation_uncertain:
  assumes "\<not> denied c"
  shows "adds uncertain_events (handle_cancellation env c True claim)"
proof (rule addsI)
  fix s :: "'a xstate"
  let ?s = "s\<lparr>xs_tick := Suc (xs_tick s)\<rparr>"
  define rest :: "ExecutionContext \<Rightarrow> ('a, ExecutionContext) xprog" where
    "rest c = bindX (settle_idempotency env claim c (Exn CancelledError)) (\<lambda>c.
     let c = abort_observers (xe_now env (xs_tick s)) (xe_aborts env (xs_tick s)) c in
     catchX (run_observers env True c)
       (\<lambda>e. returnX (append_history c (history_entry (xe_now env (xs_tick s)) ''runtime'' ''error''
              ''cancellation finalization could not be fully persisted'' []))))" for c
  have run: "handle_cancellation env c True claim s =
      (case cancelled_context env (xs_tick s) c True of
         Inl x \<Rightarrow> (?s, Inl (Exn x)) | Inr c' \<Rightarrow> rest c' ?s)"
    by (simp add: handle_cancellation_def bind_tick checked_bind rest_def split: sum.split)
  have "adds uncertain_events (rest c')" if "cancelled_context env (xs_tick s) c True = Inr c'" for c'
    unfolding rest_def Let_def
    by (intro adds_intros adds_settle finish_uncertain) (use assms that in \<open>auto dest: cancelled_context_unknown\<close>)
  then have "extends uncertain_events ?s (fst (rest c' ?s))" if "cancelled_context env (xs_tick s) c True = Inr c'" for c'
    using addsD that by blast
  then show "extends uncertain_events s (fst (handle_cancellation env c True claim s))"
    by (auto simp: run extends_def split: sum.split)
qed

lemma handle_uncertain:
  fixes env :: "'w exec_env" and h :: "('w, 'b) xprog"
  assumes h: "h = handle_exception env e" and "xs_started s" "xs_returned s" "accepted (s, Inl e :: xexn + 'b)"
  shows "extends uncertain_events s (fst (h s))"
proof -
  obtain x where x: "e = Exn x" using assms(4) by (auto simp: accepted_def)
  let ?P = "\<lambda>s'. xs_ctx s' = xs_ctx s \<and> xs_claim s' = xs_claim s"
  obtain s1 r where stop: "stop_heartbeat env False s = (s1, r)" by (cases "stop_heartbeat env False s")
  have cm: "calm ?P" by (simp add: calm_def)
  have "keeps ?P (stop_heartbeat env False)"
    unfolding stop_heartbeat_def by (intro keeps_intros calm_basic[OF cm]) auto
  from keepsD[OF this, of s] have P: "?P s1" by (simp add: stop)
  have e: "extends uncertain_events s s1" by (rule adds_run[OF adds_stop_heartbeat stop])
  then have s1: "xs_started s1" "xs_returned s1" using assms by (simp_all add: extends_def)
  have r: "r = Inr ()" using stop
    by (auto simp: stop_heartbeat_def service_def bindX_def raised_def split: option.splits prod.splits)
  have nd: "\<not> denied (xs_ctx s1)" "xs_claim s1 = None \<or> uncertain_outcome s1 (xs_ctx s1)"
    using assms(4) P s1 by (auto simp: accepted_def uncertain_outcome_def)
  have "extends uncertain_events s1 (fst (h s))"
  proof (cases "x = CancelledError")
    case True
    then have "h s =
        bindX (handle_cancellation env (xs_ctx s1) True (xs_claim s1)) (\<lambda>c. raiseX (GovernanceCancelledError c)) s1"
      using h x stop r s1 by (simp add: handle_exception_def bindX_Inr)
    then show ?thesis
      using addsD[OF adds_bindX[OF cancellation_uncertain[OF nd(1)]]] adds_basic by metis
  next
    case False
    then have "\<not> is_cancel e" using x by (cases x) auto
    then have "h s = fail_call env (xs_ctx s1) e s1"
      using h x stop r assms(2) by (simp add: handle_exception_def bindX_Inr)
    then show ?thesis using fail_call_uncertain[OF nd] by simp
  qed
  then show ?thesis using e extends_trans by blast
qed

lemma run_keeps_result:
  assumes env: "env_wf env" and run: "run_execution env (start_state w c) = (s', r)"
    and ret: "xs_returned s'" "xs_started s'"
  shows "Failing cl \<notin> set (xs_trace s')"
proof -
  obtain s1 q where body: "run_body env (start_state w c) = (s1, q)" by (cases "run_body env (start_state w c)")
  let ?fin = "\<lambda>(cached, v). if cached then bindX (getX xs_ctx) (\<lambda>c. returnX (v, c)) else finish_success env v"
  have fin: "adds (range Observing) (?fin x)" for x
    by (cases x) (auto intro!: adds_intros adds_success)
  have acc: "\<not> xs_returned s1 \<or> accepted (s1, q)"
    using body_accepted[OF env, of "start_state w c"] body by (simp add: start_state_def no_fail_def)
  have "\<exists>A. extends A s1 s' \<and> A \<inter> range Failing = {} \<or> \<not> xs_returned s'"
  proof (cases q)
    case (Inl e)
    obtain s2 q2 where h: "(handle_exception env e :: ('a, bool \<times> json) xprog) s1 = (s2, q2)"
      by (cases "(handle_exception env e :: ('a, bool \<times> json) xprog) s1")
    have "extends settling s1 s2" by (rule adds_run[OF adds_handle h])
    obtain y where "q2 = Inl y" using handle_raises[of env e] h unfolding raising_def by (metis snd_conv)
    then have "s' = s2" using run body Inl h by (simp add: run_execution_def catchX_def bindX_def)
    then have s1: "xs_returned s1" "xs_started s1"
      using \<open>extends settling s1 s2\<close> ret by (simp_all add: extends_def)
    have "extends uncertain_events s1 s2"
      using handle_uncertain[where ?'b = "bool \<times> json", OF refl s1(2,1), of e env] acc s1 Inl h by simp
    then show ?thesis using \<open>s' = s2\<close> by blast
  next
    case (Inr x)
    then have "?fin x s1 = (s', r)" using run body by (simp add: run_execution_def catchX_def bindX_def)
    then show ?thesis using adds_run[OF fin] by blast
  qed
  then obtain A where A: "extends A s1 s'" "A \<inter> range Failing = {}" using ret by blast
  moreover have "no_fail s1" using acc ret A(1) by (auto simp: extends_def accepted_def)
  ultimately have "no_fail s'" using no_fail_extends by blast
  then show ?thesis by (simp add: no_fail_def)
qed

section \<open>The value a run returns\<close>

lemma stop_heartbeat_claim: "stop_heartbeat env b s = (s', r) \<Longrightarrow> xs_claim s' = xs_claim s"
  using keepsD[OF claim_programs(4), of "xs_claim s" s env b] by (simp add: on_claim_def)

lemma check_result_returned:
  "check_result env v s = (s', Inr v') \<Longrightarrow>
   s' = s \<and> normalize_result (xe_en env) (xe_spec env) v (cx_bound_action (xs_ctx s)) = Inr v' \<and>
   (\<exists>u. enforce_size_limit (xe_en env) ''result'' v' (ts_max_result_bytes (xe_spec env)) = Inr u)"
  by (auto simp: check_result_def checked_bind split: sum.splits)

lemma finish_completes:
  fixes s :: "'w xstate"
  assumes "finish_idempotency env (Some cl) c None v s = (s', r)"
  shows "Completing cl v \<in> set (xs_trace s')"
proof -
  let ?s = "s\<lparr>xs_trace := Completing cl v # xs_trace s\<rparr>"
  define m :: "('w, string option) xprog" where "m = thenX (service (\<lambda>w. xe_complete env w cl v)) (returnX None)"
  have "m ?s = (s', r)" using assms by (simp add: finish_idempotency_def emit_def m_def)
  moreover have "adds UNIV m" unfolding m_def by (intro adds_intros)
  ultimately show ?thesis using extends_mem[OF adds_run, of UNIV m ?s s' r "Completing cl v"] by simp
qed

text \<open>A value that passed the checks of the tool's specification.\<close>

definition checked_value :: "'w exec_env \<Rightarrow> json \<Rightarrow> bool" where
  "checked_value env v =
     ((\<exists>raw ba. normalize_result (xe_en env) (xe_spec env) raw ba = Inr v) \<and>
      (\<exists>u. enforce_size_limit (xe_en env) ''result'' v (ts_max_result_bytes (xe_spec env)) = Inr u))"

lemma accept_returned:
  assumes "accept_result env c v s = (s', Inr v')"
  shows "checked_value env v' \<and> (\<forall>cl. xs_claim s = Some cl \<longrightarrow> Completing cl v' \<in> set (xs_trace s'))"
proof -
  let ?s = "s\<lparr>xs_ctx := c, xs_returned := True\<rparr>"
  obtain s1 s2 s3 h where 1: "check_result env v ?s = (s1, Inr v')" and 2: "stop_heartbeat env True s1 = (s2, Inr ())"
    and 3: "finish_idempotency env (xs_claim s2) c None v' s2 = (s3, Inr h)" and 4: "s' = s3\<lparr>xs_claim := None\<rparr>"
    using assms by (auto simp: accept_result_def dest!: bindX_returned)
  have "xs_claim s2 = xs_claim s"
    using stop_heartbeat_claim[OF 2] check_result_returned[OF 1] by simp
  then have "\<forall>cl. xs_claim s = Some cl \<longrightarrow> Completing cl v' \<in> set (xs_trace s')"
    using finish_completes[of env _ c v' s2 s3 "Inr h"] 3 4 by auto
  then show ?thesis using check_result_returned[OF 1] by (auto simp: checked_value_def)
qed

lemma complete_returned:
  assumes "execute_and_complete env s = (s', Inr v)"
  shows "checked_value env v \<and> (\<forall>cl. xs_claim s = Some cl \<longrightarrow> Completing cl v \<in> set (xs_trace s'))"
proof -
  obtain s1 c v0 where 1: "with_deadline env (xs_ctx s) s = (s1, Inr (c, v0))" and 2: "accept_result env c v0 s1 = (s', Inr v)"
    using assms by (auto simp: execute_and_complete_def dest!: bindX_returned)
  have "xs_claim s1 = xs_claim s"
    using keepsD[OF claim_programs(1), of "xs_claim s" s env "xs_ctx s"] 1 by (simp add: on_claim_def)
  then show ?thesis using accept_returned[OF 2] by simp
qed

lemma cached_returned:
  assumes "cached_result env cl s = (s', Inr v)"
  shows "checked_value env v"
proof -
  obtain s1 s2 v0 where "check_result env v0 s1 = (s2, Inr v)"
    using assms unfolding cached_result_def bind_tick checked_bind
    by (auto dest!: bindX_returned split: sum.splits if_splits)
  from check_result_returned[OF this] show ?thesis by (auto simp: checked_value_def)
qed

lemma body_returned:
  assumes "run_body env s = (s', Inr (cached, v))"
  shows "checked_value env v \<and>
    (idempotent_call (xs_ctx s) \<longrightarrow>
      (\<exists>cl. Acquired cl \<in> set (xs_trace s') \<and> cl_owner cl = (\<not> cached) \<and>
        (cl_owner cl \<longrightarrow> Completing cl v \<in> set (xs_trace s'))))"
proof (cases "idempotent_call (xs_ctx s)")
  case True
  then obtain s1 cl where a: "acquire_claim env (xs_ctx s) s = (s1, Inr cl)"
    and rest: "(if \<not> cl_owner cl then bindX (cached_result env cl) (\<lambda>v. returnX (True, v))
       else thenX (own_claim env cl) (bindX (execute_and_complete env) (\<lambda>v. returnX (False, v)))) s1 = (s', Inr (cached, v))"
    using assms by (auto simp: run_body_def dest!: bindX_returned)
  note acq = acquire_returned[OF a]
  show ?thesis
  proof (cases "cl_owner cl")
    case own: True
    then obtain s2 u where o: "own_claim env cl s1 = (s2, Inr u)" and x: "execute_and_complete env s2 = (s', Inr v)" "\<not> cached"
      using rest by (auto dest!: bindX_returned)
    have "xs_claim s2 = Some cl" using own_claim_keeps[OF o] acq by simp
    moreover have "Acquired cl \<in> set (xs_trace s')"
    proof -
      have "Acquired cl \<in> set (xs_trace s2)" using extends_mem[OF adds_run[OF adds_own o]] acq by blast
      moreover have k: "keeps (on_trace (\<lambda>t. Acquired cl \<in> set t)) (execute_and_complete env)"
        by (rule trace_complete) simp
      ultimately show ?thesis using keepsD[OF k, of s2] x(1) by (simp add: on_trace_def)
    qed
    ultimately show ?thesis using complete_returned[OF x(1)] own x(2) by auto
  next
    case False
    then have x: "cached_result env cl s1 = (s', Inr v)" "cached"
      using rest by (auto dest!: bindX_returned)
    then show ?thesis
      using cached_returned[OF x(1)] extends_mem[OF adds_run[OF adds_cached x(1)]] acq False by auto
  qed
next
  case False
  then obtain s1 where "execute_and_complete env s1 = (s', Inr v)"
    using assms by (auto simp: run_body_def dest!: bindX_returned split: if_splits)
  from complete_returned[OF this] show ?thesis using False by simp
qed

lemma finish_success_value:
  assumes "finish_success env v0 s = (s', Inr (v, c'))"
  shows "v = v0"
  using assms by (auto simp: finish_success_def bind_tick checked_bind split: if_splits sum.splits
      dest!: bindX_returned catchX_returned)

lemma run_returned:
  assumes "run_execution env (start_state w c) = (s', Inr (v, c'))"
  shows "checked_value env v \<and>
    (idempotent_call c \<longrightarrow>
      (\<exists>cl. Acquired cl \<in> set (xs_trace s') \<and>
        (cl_owner cl \<longrightarrow> Completing cl v \<in> set (xs_trace s'))))"
proof -
  obtain s1 q where body: "run_body env (start_state w c) = (s1, q)" by (cases "run_body env (start_state w c)")
  let ?fin = "\<lambda>(cached, v). if cached then bindX (getX xs_ctx) (\<lambda>c. returnX (v, c)) else finish_success env v"
  have fin: "adds (range Observing) (?fin x)" for x
    by (cases x) (auto intro!: adds_intros adds_success)
  obtain x where x: "q = Inr x" "?fin x s1 = (s', Inr (v, c'))"
  proof (cases q)
    case (Inl e)
    have "snd ((handle_exception env e :: ('a, bool \<times> json) xprog) s1) \<noteq> Inr a" for a
      using handle_raises[of env e] unfolding raising_def by (metis Inl_Inr_False)
    then show ?thesis
      using assms body Inl by (auto simp: run_execution_def catchX_def dest!: bindX_returned) (metis snd_conv)
  next
    case (Inr x)
    then show ?thesis using assms body that by (simp add: run_execution_def catchX_def bindX_def)
  qed
  obtain b v0 where bv: "x = (b, v0)" by (cases x)
  have v: "v0 = v"
    using x(2) bv by (auto split: if_splits dest: finish_success_value)
  show ?thesis
    using body_returned[of env "start_state w c" s1 b v0] body x(1) bv v extends_mem[OF adds_run[OF fin x(2)]]
    by (auto simp: start_state_def)
qed

end
