(* ===== verification/GateContract.thy ===== *)
theory GateContract
  imports DecisionGate Acceptance
begin

text \<open>
  The decision middleware as the approver of the execution phase.  \<open>single_use_approver\<close> states what a run
  relies on: a commit that lets a call pass whose approval is bound to its request uses that request up, and
  nothing gives it back.  In it, a run whose tool starts under an approval is shown to use up the approval
  of its request, so that over any sequence of calls one approval serves one execution.  The laws are
  discharged for the decision middleware over every approval store that meets its contract.
\<close>

section \<open>The gate keeps the store's invariant\<close>

definition clocks_ok :: "'st decision_config \<Rightarrow> bool" where
  "clocks_ok cfg = (\<forall>n. ck_token (dc_clock cfg n) \<noteq> [])"

definition on_store :: "('st \<Rightarrow> bool) \<Rightarrow> 'st decision_gate \<Rightarrow> bool" where
  "on_store P g = P (dg_store g)"

definition store_keeps :: "'st decision_config \<Rightarrow> ('st \<Rightarrow> bool) \<Rightarrow> bool" where
  "store_keeps cfg P = (\<forall>ex op st. dc_store cfg = Some ex \<longrightarrow> op_ok op \<longrightarrow> P st \<longrightarrow> P (fst (ex st op)))"

lemma keeps_store_call:
  "store_keeps cfg P \<Longrightarrow> op_ok op \<Longrightarrow> keeps (on_store P) (store_call cfg op)"
  unfolding store_call_def store_keeps_def on_store_def keeps_def
  by (auto split: option.split prod.split) (metis fst_conv)

lemma bind_readings:
  "bindX (readings cfg) f g = f (dc_clock cfg (dg_calls g)) (g\<lparr>dg_calls := Suc (dg_calls g)\<rparr>)"
  by (simp add: bindX_def readings_def)

lemma keeps_readings: "keeps (on_store P) (readings cfg)"
  by (simp add: keeps_def on_store_def readings_def)

lemma keeps_pop: "keeps (on_store P) (pop_reservation k t)"
  by (simp add: keeps_def on_store_def pop_reservation_def Let_def)

lemma keeps_remember: "keeps (on_store P) (remember_reservation cfg k t r tok)"
  by (simp add: keeps_def on_store_def remember_reservation_def)

lemmas gate_steps = keeps_intros keeps_readings keeps_pop keeps_remember keeps_store_call

lemma keeps_gate_calls:
  assumes "store_keeps cfg P"
  shows "keeps (on_store P) (store_pending cfg k r)" "keeps (on_store P) (store_decide cfg k rid d)"
    "keeps (on_store P) (store_commit cfg k r tok)" "keeps (on_store P) (store_release cfg rid tok)"
  unfolding store_pending_def store_decide_def store_commit_def store_release_def
  by (intro gate_steps assms; simp)+

lemma keeps_reserve:
  assumes "store_keeps cfg P" "ck_token k \<noteq> []"
  shows "keeps (on_store P) (store_reserve cfg k r)"
  unfolding store_reserve_def by (intro gate_steps assms) (simp add: assms)

lemma gate_keeps_release: "store_keeps cfg P \<Longrightarrow> keeps (on_store P) (release_approval cfg c)"
  unfolding release_approval_def by (intro gate_steps keeps_gate_calls)

lemma gate_keeps_commit: "store_keeps cfg P \<Longrightarrow> keeps (on_store P) (commit_approval cfg c)"
  unfolding commit_approval_def commit_decision_def by (intro gate_steps keeps_gate_calls)

lemma keeps_decide_request:
  assumes "store_keeps cfg P" "ck_token k \<noteq> []"
  shows "keeps (on_store P) (decide_request cfg k c r)"
proof -
  have "keeps (on_store P) (reserve_decision cfg k c r)"
    unfolding reserve_decision_def by (intro gate_steps keeps_reserve assms)
  then show ?thesis
    unfolding decide_request_def obtain_decision_def
    by (intro gate_steps keeps_gate_calls gate_keeps_release assms)
qed

lemma keeps_bind_readings:
  assumes "\<And>n. keeps (on_store P) (f (dc_clock cfg n))"
  shows "keeps (on_store P) (bindX (readings cfg) f)"
proof (rule keepsI)
  fix g assume "on_store P g"
  then show "on_store P (fst (bindX (readings cfg) f g))"
    unfolding bind_readings by (intro keepsD[OF assms]) (simp add: on_store_def)
qed

lemma keeps_process:
  assumes "store_keeps cfg P" "clocks_ok cfg"
  shows "keeps (on_store P) (process_decision cfg c)"
proof -
  have "keeps (on_store P) (decide_request cfg (dc_clock cfg n) c r)" for n r
    using keeps_decide_request[OF assms(1)] assms(2) by (simp add: clocks_ok_def)
  then show ?thesis
    unfolding process_decision_def
    by (intro keeps_bind_readings keeps_intros keeps_gate_calls assms)
qed

section \<open>What a commit grants\<close>

lemma denial_denies:
  "gate_denial k i r reason = Inr d \<Longrightarrow> dr_outcome d = DENY"
  unfolding gate_denial_def by (auto dest: denial_for_request_deny)

lemma committed_context_Inr:
  assumes "committed_context k c r d = Inr c'"
  shows "cx_decision c' = Some d \<and> (dr_outcome d = DENY \<longrightarrow> denied c')"
  using assms with_decision_Inr unfolding committed_context_def bindR_eq_Inr by fastforce

lemma missing_reservation_denies: "missing_reservation cfg k c = Inr c' \<Longrightarrow> denied c'"
  unfolding missing_reservation_def bindR_eq_Inr
  using with_decision_Inr(5) by (fastforce simp: post_init_eq_Inr fresh_decision_def)

lemma store_commit_returned:
  assumes "store_commit cfg k r tok g = (g', Inr d)" "dc_store cfg = Some ex"
  shows "snd (ex (dg_store g) (Commit (ck_now k 0) (ck_did k 0) r tok)) = Decided d \<and>
    dg_store g' = fst (ex (dg_store g) (Commit (ck_now k 0) (ck_did k 0) r tok))"
  using assms
  by (auto simp: store_commit_def store_call_def bindX_def split: prod.splits approval_out.splits)

lemma commit_decision_returned:
  "commit_decision cfg k c r tok g = (g', Inr d) \<Longrightarrow> store_commit cfg k r tok g = (g', Inr d)"
  by (auto simp: commit_decision_def dest!: bindX_returned split: if_splits)

context approval_contract
begin

lemma gate_commit_grants:
  assumes cfg: "dc_store cfg = Some ex" and inv: "inv (dg_store g)"
    and run: "commit_approval cfg c g = (g', Inr c')" and pass: "\<not> denied c'"
    and dec: "cx_approval_granted c'" "cx_decision c' = Some d" "dr_request_id d = Some rid"
  shows "\<not> consumed (look (dg_store g) rid) \<and> consumed (look (dg_store g') rid)"
proof -
  define k where "k = dc_clock cfg (dg_calls g)"
  define m where "m = prune_expired_reservations (ck_monotonic k) (dg_reservations g)"
  define g1 where "g1 = g\<lparr>dg_calls := Suc (dg_calls g), dg_reservations := m(cx_trace_id c := None)\<rparr>"
  have st: "dg_store g1 = dg_store g" by (simp add: g1_def)
  have pop: "pop_reservation k (cx_trace_id c) (g\<lparr>dg_calls := Suc (dg_calls g)\<rparr>) =
      (g1, Inr (map_option (\<lambda>(r, tok, deadline). (r, tok)) (m (cx_trace_id c))))"
    by (simp add: pop_reservation_def Let_def m_def g1_def)
  have run1: "(case map_option (\<lambda>(r, tok, deadline). (r, tok)) (m (cx_trace_id c)) of
       None \<Rightarrow> if \<not> cx_approval_granted c then returnX c else liftX (missing_reservation cfg k c)
     | Some (r, tok) \<Rightarrow>
         bindX (catchX (commit_decision cfg k c r tok)
           (\<lambda>e. if e = CancelledError then raiseX e
                else thenX (store_release cfg (ar_request_id r) tok)
                       (liftX (gate_denial k 1 r ''approval reservation could not be committed''))))
         (\<lambda>d. liftX (committed_context k c r d))) g1 = (g', Inr c')"
    using run cfg unfolding commit_approval_def bind_readings k_def[symmetric] bindX_Inr[where m = "pop_reservation k (cx_trace_id c)", OF pop] by simp
  show ?thesis
  proof (cases "m (cx_trace_id c)")
    case None
    then show ?thesis
      using run1 dec(1) pass missing_reservation_denies by (auto split: if_splits)
  next
    case (Some res)
    obtain r tok dl where res: "res = (r, tok, dl)" by (cases res)
    define h :: "exn \<Rightarrow> ('st, DecisionRecord) gprog" where
      "h = (\<lambda>e. if e = CancelledError then raiseX e
                else thenX (store_release cfg (ar_request_id r) tok)
                       (liftX (gate_denial k 1 r ''approval reservation could not be committed'')))"
    obtain g2 d1 where c1: "catchX (commit_decision cfg k c r tok) h g1 = (g2, Inr d1)"
      and c2: "committed_context k c r d1 = Inr c'" "g' = g2"
      using run1 Some res by (auto simp: h_def dest!: bindX_returned)
    have d1: "d1 = d" "dr_outcome d \<noteq> DENY" using committed_context_Inr[OF c2(1)] dec(2) pass by auto
    have "\<not> (\<exists>e s. h e s = (g2, Inr d1))"
      using d1 denial_denies unfolding h_def by (fastforce dest!: bindX_returned split: if_splits)
    then have "commit_decision cfg k c r tok g1 = (g2, Inr d)" using catchX_returned[OF c1] d1 by blast
    then have "store_commit cfg k r tok g1 = (g2, Inr d)" by (rule commit_decision_returned)
    note sc = store_commit_returned[OF this cfg]
    obtain i u where i: "look (dg_store g) (ar_request_id r) = Some i" "sa_status i = DECIDED" "bound_to d r"
      "consumed (look (dg_store g') (ar_request_id r))"
      using commit_grants[OF inv _ d1(2), of "ck_now k 0" "ck_did k 0" r tok] sc st c2(2) by auto
    moreover have "rid = ar_request_id r" using i(3) dec(3) by (simp add: bound_to_def)
    ultimately show ?thesis by (simp add: consumed_def)
  qed
qed

lemma store_keeps_inv:
  "dc_store cfg = Some ex \<Longrightarrow> store_keeps cfg inv"
  "dc_store cfg = Some ex \<Longrightarrow> store_keeps cfg (\<lambda>st. inv st \<and> consumed (look st rid))"
  using inv_ex consumed_final by (auto simp: store_keeps_def)

end

section \<open>Invariants of the world along a run\<close>

text \<open>
  An invariant \<open>J\<close> of the world and the trace, which calls other than a commitment keep: \<open>moves\<close> says that a
  call on the world keeps it, \<open>tolerant\<close> that every event but a commitment does.
\<close>

definition on_run :: "('w \<Rightarrow> xevent list \<Rightarrow> bool) \<Rightarrow> 'w xstate \<Rightarrow> bool" where
  "on_run J s = J (xs_world s) (xs_trace s)"

definition moves :: "('w \<Rightarrow> xevent list \<Rightarrow> bool) \<Rightarrow> ('w \<Rightarrow> 'w \<times> 'a) \<Rightarrow> bool" where
  "moves J f = (\<forall>w t. J w t \<longrightarrow> J (fst (f w)) t)"

definition tolerant :: "('w \<Rightarrow> xevent list \<Rightarrow> bool) \<Rightarrow> bool" where
  "tolerant J = (\<forall>w t ev. J w t \<longrightarrow> ev \<notin> range Committed \<longrightarrow> J w (ev # t))"

definition services_keep :: "('w \<Rightarrow> xevent list \<Rightarrow> bool) \<Rightarrow> 'w exec_env \<Rightarrow> bool" where
  "services_keep J env =
     ((\<forall>c ns key fp. moves J (\<lambda>w. xe_acquire env w c ns key fp)) \<and> (\<forall>cl. moves J (\<lambda>w. xe_wait env w cl)) \<and>
      (\<forall>cl c. moves J (\<lambda>w. xe_prepare env w cl c)) \<and> (\<forall>cl v. moves J (\<lambda>w. xe_complete env w cl v)) \<and>
      (\<forall>cl e. moves J (\<lambda>w. xe_fail env w cl e)) \<and> (\<forall>cl e. moves J (\<lambda>w. xe_mark_unknown env w cl e)) \<and>
      (\<forall>cl c e. moves J (\<lambda>w. xe_record_unknown env w cl c e)) \<and> (\<forall>cl. moves J (\<lambda>w. xe_heartbeat env w cl)) \<and>
      (\<forall>c. moves J (\<lambda>w. xe_rebuild env w c)) \<and> (\<forall>c. moves J (\<lambda>w. xe_tool env w c)))"

definition approvers_keep :: "('w \<Rightarrow> xevent list \<Rightarrow> bool) \<Rightarrow> 'w exec_env \<Rightarrow> bool" where
  "approvers_keep J env =
     (\<forall>a \<in> set (xe_approvers env). (\<forall>c. moves J (\<lambda>w. ap_commit a w c)) \<and> (\<forall>c. moves J (\<lambda>w. ap_release a w c)))"

lemma keeps_service: "moves J f \<Longrightarrow> keeps (on_run J) (service f)"
  by (auto simp: keeps_def on_run_def moves_def service_def split: prod.split) (metis fst_conv)

lemma keeps_plain_run:
  "keeps (on_run J) tick" "keeps (on_run J) (checked r)" "keeps (on_run J) (set_ctx c)"
  by (auto simp: keeps_def on_run_def tick_def checked_def set_ctx_def)

lemma keeps_emit_run: "tolerant J \<Longrightarrow> ev \<notin> range Committed \<Longrightarrow> keeps (on_run J) (emit ev)"
  by (simp add: keeps_def on_run_def tolerant_def emit_def)

lemmas run_intros = keeps_intros keeps_service keeps_plain_run keeps_emit_run keeps_staged

lemma keeps_commit_list:
  "(\<And>a c. a \<in> set as \<Longrightarrow> moves J (\<lambda>w. ap_commit a w c)) \<Longrightarrow> keeps (on_run J) (commit_list env as c)"
  by (induction as arbitrary: c) (auto intro!: run_intros)

lemma keeps_release_list:
  "(\<And>a c. a \<in> set as \<Longrightarrow> moves J (\<lambda>w. ap_release a w c)) \<Longrightarrow> keeps (on_run J) (release_list env as c)"
  by (induction as arbitrary: c) (auto intro!: run_intros)

lemma keeps_observers: "tolerant J \<Longrightarrow> keeps (on_run J) (run_observers env b c)"
  unfolding run_observers_def Let_def by (intro run_intros) auto

lemma keeps_run_steps:
  assumes "tolerant J" "services_keep J env"
  shows "keeps (on_run J) (finish_idempotency env cl c e v)" "keeps (on_run J) (stop_heartbeat env b)"
    "keeps (on_run J) (revalidate_bound_action env c)" "keeps (on_run J) (prepare_action env cl' c)"
    "keeps (on_run J) (hook_at env p c)" "keeps (on_run J) (check_result env v)" "keeps (on_run J) (record_claim cl')"
    "keeps (on_run J) (start_heartbeat cl')"
proof -
  note s = assms(2)[unfolded services_keep_def]
  have hb: "moves J (\<lambda>w. case xe_heartbeat env w cl of (w', r) \<Rightarrow> (w', Inr r))" for cl
    using s by (auto simp: moves_def split: prod.split) (metis fst_conv)
  show "keeps (on_run J) (finish_idempotency env cl c e v)"
    unfolding finish_idempotency_def by (intro run_intros assms) (use s in auto)
  show "keeps (on_run J) (stop_heartbeat env b)"
    unfolding stop_heartbeat_def by (intro run_intros hb) (auto simp: on_run_def)
  show "keeps (on_run J) (revalidate_bound_action env c)"
    unfolding revalidate_bound_action_def refuse_action_def by (intro run_intros) (use s in auto)
  show "keeps (on_run J) (prepare_action env cl' c)"
    unfolding prepare_action_def by (intro run_intros) (use s in auto)
  show "keeps (on_run J) (hook_at env p c)" "keeps (on_run J) (check_result env v)" "keeps (on_run J) (record_claim cl')"
    unfolding hook_at_def check_result_def record_claim_def by (intro run_intros)+
  show "keeps (on_run J) (start_heartbeat cl')"
    unfolding start_heartbeat_def by (intro run_intros) (simp add: on_run_def)
qed

lemma keeps_invoke:
  assumes "tolerant J" "services_keep J env"
  shows "keeps (on_run J) (invoke_tool env c)"
proof (rule keepsI)
  fix s assume J: "on_run J s"
  obtain w b r where t: "xe_tool env (xs_world s) c = (w, b, r)" by (cases "xe_tool env (xs_world s) c")
  have "moves J (\<lambda>w. xe_tool env w c)" using assms(2) by (simp add: services_keep_def)
  then have "J w (xs_trace s)" using J t unfolding moves_def on_run_def by (metis fst_conv)
  then show "on_run J (fst (invoke_tool env c s))"
    using assms(1) t by (auto simp: invoke_tool_def on_run_def tolerant_def)
qed

lemma keeps_tool_run:
  assumes "tolerant J" "services_keep J env"
  shows "keeps (on_run J) (with_deadline env a)"
proof -
  have tool: "keeps (on_run J) (execute_tool env a c)" for a c
  proof -
    have "keeps (on_run J) (case adm of Denied c \<Rightarrow> raiseX (GovernanceDenied c)
        | Admitted c \<Rightarrow> bindX (revalidate_bound_action env c) (invoke_tool env))" for adm
      using assms by (cases adm) (auto intro!: keeps_intros keeps_run_steps keeps_invoke)
    then show ?thesis unfolding execute_tool_def by (intro keeps_bindX keeps_plain_run)
  qed
  have "keeps (on_run J) (execution_chain env a ms c)" for ms c
    by (induction ms arbitrary: c) (auto intro!: run_intros keeps_run_mw tool)
  then show ?thesis unfolding with_deadline_def by (intro run_intros)
qed

text \<open>A whole run keeps an invariant that the commitment of the approvals keeps.\<close>

lemma keeps_release_approvals: "approvers_keep J env \<Longrightarrow> keeps (on_run J) (release_approvals env c)"
  unfolding release_approvals_def by (rule keeps_release_list) (simp add: approvers_keep_def)

lemma keeps_settle:
  "tolerant J \<Longrightarrow> services_keep J env \<Longrightarrow> keeps (on_run J) (settle_idempotency env claim c e)"
  unfolding settle_idempotency_def by (intro run_intros keeps_run_steps)

lemma keeps_cancellation:
  "tolerant J \<Longrightarrow> services_keep J env \<Longrightarrow> keeps (on_run J) (handle_cancellation env c u claim)"
  unfolding handle_cancellation_def Let_def by (intro run_intros keeps_observers keeps_settle)

lemma keeps_fail_call:
  "tolerant J \<Longrightarrow> services_keep J env \<Longrightarrow> keeps (on_run J) (fail_call env c e)"
  unfolding fail_call_def by (intro run_intros keeps_run_steps keeps_observers keeps_settle)

lemma keeps_handle:
  assumes "tolerant J" "services_keep J env" "approvers_keep J env"
  shows "keeps (on_run J) (handle_exception env e)"
proof -
  note parts = assms keeps_run_steps(2) keeps_observers keeps_settle keeps_cancellation keeps_fail_call
    keeps_release_approvals
  have "keeps (on_run J) (if is_cancel e then
            thenX (stop_heartbeat env False)
            (bindX (getX (\<lambda>s. (xs_ctx s, xs_started s, xs_claim s))) (\<lambda>(c, started, claim).
             bindX (handle_cancellation env c started claim) (\<lambda>c.
             raiseX (GovernanceCancelledError c))))
          else
            thenX (bindX (getX (\<lambda>s. (xs_started s, xs_ctx s))) (\<lambda>(started, c).
                   if started then returnX () else bindX (release_approvals env c) set_ctx))
            (thenX (stop_heartbeat env False)
            (bindX (getX xs_ctx) (\<lambda>c. fail_call env c e))))"
    by (intro run_intros parts)
  moreover have "keeps (on_run J) (thenX (stop_heartbeat env False) (fail_call env c x))" for c x
    by (intro run_intros parts)
  moreover have "keeps (on_run J) (thenX (stop_heartbeat env False)
          (bindX (getX xs_claim) (\<lambda>claim.
           bindX (settle_idempotency env claim c e) (\<lambda>c.
           bindX (run_observers env False c) (\<lambda>c.
           raiseX (GovernanceDenied c))))))" for c
    by (intro run_intros parts)
  ultimately show ?thesis unfolding handle_exception_def by (cases e) (simp_all only: xexn.simps)
qed

lemma keeps_success:
  "tolerant J \<Longrightarrow> services_keep J env \<Longrightarrow> keeps (on_run J) (finish_success env v)"
  unfolding finish_success_def by (intro run_intros keeps_run_steps keeps_observers keeps_cancellation)

lemma keeps_acquire:
  assumes "tolerant J" "services_keep J env" "approvers_keep J env"
  shows "keeps (on_run J) (acquire_claim env c)"
proof -
  have acq: "moves J (\<lambda>w. xe_acquire env w c ns key fp)" for ns key fp
    using assms(2) by (simp add: services_keep_def)
  have refuse: "keeps (on_run J) (refuse_conflict env c msg :: ('a, IdempotencyClaim) xprog)" for msg
    unfolding refuse_conflict_def by (intro run_intros keeps_observers keeps_release_approvals assms)
  have h: "keeps (on_run J) (case e of
          Exn (IdempotencyConflictError msg) \<Rightarrow> refuse_conflict env c msg
        | _ \<Rightarrow> (raiseX e :: ('a, IdempotencyClaim) xprog))" for e
    by (auto split: xexn.split exn.split intro!: refuse keeps_basic)
  have "keeps (on_run J) (request_claim env c ns fp)" for ns fp
    unfolding request_claim_def by (intro run_intros acq h)
  then show ?thesis
    unfolding acquire_claim_def by (intro run_intros assms) (auto simp: on_run_def)
qed

lemma keeps_body:
  assumes J: "tolerant J" "services_keep J env" "approvers_keep J env"
    and commit: "keeps (on_run J) (commit_and_enforce env)"
  shows "keeps (on_run J) (run_body env)"
proof -
  note parts = keeps_run_steps[OF J(1,2)] keeps_observers[OF J(1)]
  have wait: "moves J (\<lambda>w. xe_wait env w cl)" for cl using J(2) by (simp add: services_keep_def)
  have cached: "keeps (on_run J) (cached_result env cl)" for cl
    unfolding cached_result_def by (intro run_intros parts commit wait)
  have "keeps (on_run J) (deny_owner env cl c)" for cl c
    unfolding deny_owner_def by (intro run_intros parts) (simp add: on_run_def)
  then have own: "keeps (on_run J) (own_claim env cl)" for cl
    unfolding own_claim_def by (intro run_intros parts commit)
  have acc: "keeps (on_run J) (accept_result env c v)" for c v
    unfolding accept_result_def by (intro run_intros parts) (simp_all add: on_run_def)
  have ex: "keeps (on_run J) (execute_and_complete env)"
    unfolding execute_and_complete_def by (intro run_intros keeps_tool_run[OF J(1,2)] acc)
  show ?thesis
    unfolding run_body_def by (intro run_intros keeps_acquire J cached own ex commit parts)
qed

lemma keeps_run:
  assumes J: "tolerant J" "services_keep J env" "approvers_keep J env"
    and commit: "keeps (on_run J) (commit_and_enforce env)"
  shows "keeps (on_run J) (run_execution env)"
  unfolding run_execution_def
  by (intro run_intros keeps_body[OF J commit] keeps_handle[OF J] keeps_success[OF J(1,2)])

section \<open>One approval, one start\<close>

text \<open>
  The environment of a run with the approver \<open>ap\<close>: its other services leave approvals alone, that is they
  keep the world well-formed and every used approval used.
\<close>

definition apart :: "'w approver \<Rightarrow> ('w \<Rightarrow> bool) \<Rightarrow> (string \<Rightarrow> 'w \<Rightarrow> bool) \<Rightarrow> 'w exec_env \<Rightarrow> bool" where
  "apart ap ok used env =
     (xe_approvers env = [ap] \<and> services_keep (\<lambda>w t. ok w) env \<and>
      (\<forall>rid. services_keep (\<lambda>w t. ok w \<and> used rid w) env))"

text \<open>What holds along a run from the world \<open>w0\<close>.\<close>

definition uses :: "('w \<Rightarrow> bool) \<Rightarrow> (string \<Rightarrow> 'w \<Rightarrow> bool) \<Rightarrow> 'w \<Rightarrow> 'w \<Rightarrow> xevent list \<Rightarrow> bool" where
  "uses ok used w0 w t =
     (ok w \<and> (\<forall>rid. used rid w0 \<longrightarrow> used rid w) \<and>
      (\<forall>a. Committed a \<in> set t \<longrightarrow> \<not> denied a \<longrightarrow> cx_requires_approval a \<longrightarrow>
         used (cx_request_id a) w \<and> \<not> used (cx_request_id a) w0))"

lemma moves_uses:
  assumes "moves (\<lambda>w t. ok w) f" "\<And>rid. moves (\<lambda>w t. ok w \<and> used rid w) f"
  shows "moves (uses ok used w0) f"
  using assms by (auto simp: moves_def uses_def)

lemma services_keep_uses:
  "apart ap ok used env \<Longrightarrow> services_keep (uses ok used w0) env"
  by (simp add: apart_def services_keep_def moves_uses)

lemma tolerant_uses: "tolerant (uses ok used w0)"
  by (auto simp: tolerant_def uses_def)

lemma start_uses: "ok w \<Longrightarrow> on_run (uses ok used w) (start_state w c)"
  by (simp add: on_run_def uses_def start_state_def)

text \<open>
  What the execution phase relies on: \<open>used rid w\<close> says that the approval of request \<open>rid\<close> has been
  consumed in the world \<open>w\<close>.
\<close>

locale single_use_approver =
  fixes ap :: "'w approver" and ok :: "'w \<Rightarrow> bool" and used :: "string \<Rightarrow> 'w \<Rightarrow> bool"
  assumes ap_wf: "approver_wf ap"
    and commit_ok: "ok w \<Longrightarrow> ok (fst (ap_commit ap w c))"
    and release_ok: "ok w \<Longrightarrow> ok (fst (ap_release ap w c))"
    and commit_used: "ok w \<Longrightarrow> used rid w \<Longrightarrow> used rid (fst (ap_commit ap w c))"
    and release_used: "ok w \<Longrightarrow> used rid w \<Longrightarrow> used rid (fst (ap_release ap w c))"
    and commit_uses: "ok w \<Longrightarrow> ap_commit ap w c = (w', Inr c') \<Longrightarrow> \<not> denied c' \<Longrightarrow> cx_approval_granted c' \<Longrightarrow>
      cx_decision c' = Some d \<Longrightarrow> dr_request_id d = Some rid \<Longrightarrow> \<not> used rid w \<and> used rid w'"
begin

lemma commit_approvals_world:
  assumes "xe_approvers env = [ap]" "commit_approvals env c s = (s', Inr c')"
  shows "ap_commit ap (xs_world s) c = (xs_world s', Inr c')"
proof -
  obtain t where "staged (xe_rt env) ''approval commit'' t c (service (\<lambda>w. ap_commit ap w c))
      (s\<lparr>xs_tick := Suc (xs_tick s)\<rparr>) = (s', Inr c')"
    using assms
    by (auto simp: commit_approvals_def bind_tick checked_bind split: sum.splits if_splits dest!: bindX_returned)
  then have "service (\<lambda>w. ap_commit ap w c) (s\<lparr>xs_tick := Suc (xs_tick s)\<rparr>) = (s', Inr c')"
    by (rule staged_returned)
  then show ?thesis by (auto simp: service_returned)
qed

lemma approvers_keep_uses: "apart ap ok used env \<Longrightarrow> approvers_keep (uses ok used w0) env"
  unfolding approvers_keep_def
  by (auto simp: apart_def intro!: moves_uses) (auto simp: moves_def commit_ok release_ok commit_used release_used)

lemma commit_keeps_uses:
  assumes "apart ap ok used env"
  shows "keeps (on_run (uses ok used w0)) (commit_and_enforce env)"
proof (rule keepsI)
  fix s assume U: "on_run (uses ok used w0) s"
  let ?U = "on_run (uses ok used w0)"
  define rest where "rest = (\<lambda>c. thenX (set_ctx c) (bindX (enforce_approval env c) (\<lambda>c.
     thenX (set_ctx c) (thenX (emit (Committed c)) (returnX c)))))"
  have run: "commit_and_enforce env s = bindX (commit_approvals env (xs_ctx s)) rest s"
    by (simp add: commit_and_enforce_def rest_def)
  have k: "keeps ?U (commit_approvals env (xs_ctx s))"
    unfolding commit_approvals_def
    by (rule keeps_commit_list) (use approvers_keep_uses[OF assms] in \<open>auto simp: approvers_keep_def\<close>)
  have "?U (fst (bindX (commit_approvals env (xs_ctx s)) rest s))"
  proof (rule bindX_end[where P = ?U])
    show "?U (fst (commit_approvals env (xs_ctx s) s))" by (rule keepsD[OF k U])
    fix s1 c1 assume c1: "commit_approvals env (xs_ctx s) s = (s1, Inr c1)"
    then have U1: "?U s1" using keepsD[OF k U] by simp
    have ap: "ap_commit ap (xs_world s) (xs_ctx s) = (xs_world s1, Inr c1)"
      using commit_approvals_world[OF _ c1] assms by (simp add: apart_def)
    have new: "used (cx_request_id c1) (xs_world s1) \<and> \<not> used (cx_request_id c1) w0"
      if nd: "\<not> denied c1" and hb: "has_bound_approval rt so now c1" for rt so now
    proof -
      obtain d where "cx_decision c1 = Some d" "cx_approval_granted c1" "dr_request_id d = Some (cx_request_id c1)"
        using hb by (auto simp: has_bound_approval_def split: option.splits if_splits)
      then show ?thesis
        using commit_uses[OF _ ap nd] U by (auto simp: on_run_def uses_def)
    qed
    show "?U (fst (rest c1 s1))"
    proof (cases "enforce_required_approval (xe_rt env) (xe_str_other env) (xe_now env (xs_tick s1))
        (xe_did env (xs_tick s1)) c1")
      case (Inl e)
      then show ?thesis using U1
        by (simp add: rest_def enforce_approval_def set_ctx_def bindX_def[of "bindX tick _"] bind_tick checked_def raised_def on_run_def)
    next
      case (Inr c2)
      then have "fst (rest c1 s1) = s1\<lparr>xs_ctx := c2, xs_tick := Suc (xs_tick s1), xs_trace := Committed c2 # xs_trace s1\<rparr>"
        by (simp add: rest_def enforce_approval_def set_ctx_def bindX_def[of "bindX tick _"] bind_tick checked_def raised_def emit_def)
      moreover have "used (cx_request_id c2) (xs_world s1) \<and> \<not> used (cx_request_id c2) w0"
        if "\<not> denied c2" "cx_requires_approval c2"
        using enforce_allowed[OF Inr that(1)] that new by blast
      ultimately show ?thesis using U1 by (auto simp: on_run_def uses_def)
    qed
  qed
  then show "?U (fst (commit_and_enforce env s))" by (simp add: run)
qed

end

text \<open>Sequences of calls, with anything that spares approvals between them.\<close>

datatype 'w step = Outside "'w \<Rightarrow> 'w" | Call "'w exec_env" ExecutionContext

primrec run_steps :: "'w step list \<Rightarrow> 'w \<Rightarrow> xevent list list" where
  "run_steps [] w = []"
| "run_steps (st # sts) w =
     (case st of
        Outside f \<Rightarrow> run_steps sts (f w)
      | Call env c \<Rightarrow>
          (case run_execution env (start_state w c) of (s, r) \<Rightarrow> xs_trace s # run_steps sts (xs_world s)))"

definition starts_approved :: "string \<Rightarrow> xevent list \<Rightarrow> bool" where
  "starts_approved rid t =
     list_ex (\<lambda>ev. case ev of Started c \<Rightarrow> cx_requires_approval c \<and> cx_request_id c = rid | _ \<Rightarrow> False) t"

fun step_ok :: "'w approver \<Rightarrow> ('w \<Rightarrow> bool) \<Rightarrow> (string \<Rightarrow> 'w \<Rightarrow> bool) \<Rightarrow> 'w step \<Rightarrow> bool" where
  "step_ok ap ok used (Outside f) = (\<forall>w. ok w \<longrightarrow> ok (f w) \<and> (\<forall>rid. used rid w \<longrightarrow> used rid (f w)))"
| "step_ok ap ok used (Call env c) = apart ap ok used env"

lemma starts_approvedE:
  assumes "starts_approved rid t"
  obtains later c earlier where "t = later @ Started c # earlier" "cx_requires_approval c" "cx_request_id c = rid"
proof -
  obtain ev where ev: "ev \<in> set t"
    "case ev of Started c \<Rightarrow> cx_requires_approval c \<and> cx_request_id c = rid | _ \<Rightarrow> False"
    using assms by (auto simp: starts_approved_def list_ex_iff)
  then obtain c where c: "Started c \<in> set t" "cx_requires_approval c" "cx_request_id c = rid"
    by (auto split: xevent.split_asm)
  then obtain later earlier where "t = later @ Started c # earlier" using split_list by metis
  then show ?thesis using c that by blast
qed

context single_use_approver
begin

lemma run_uses:
  assumes env: "apart ap ok used env" "ok w" and run: "run_execution env (start_state w c) = (s, r)"
  shows "ok (xs_world s)" "used rid w \<Longrightarrow> used rid (xs_world s)"
    "starts_approved rid (xs_trace s) \<Longrightarrow> \<not> used rid w \<and> used rid (xs_world s)"
proof -
  have "keeps (on_run (uses ok used w)) (run_execution env)"
    by (intro keeps_run tolerant_uses services_keep_uses[OF env(1)] approvers_keep_uses[OF env(1)]
        commit_keeps_uses[OF env(1)])
  moreover have "on_run (uses ok used w) (start_state w c)" by (rule start_uses) (rule env)
  ultimately have "on_run (uses ok used w) (fst (run_execution env (start_state w c)))" by (rule keepsD)
  then have U: "uses ok used w (xs_world s) (xs_trace s)" by (simp add: run on_run_def)
  then show "ok (xs_world s)" "used rid w \<Longrightarrow> used rid (xs_world s)" by (simp_all add: uses_def)
  have wf: "env_wf env" using env(1) ap_wf by (simp add: env_wf_def apart_def)
  assume "starts_approved rid (xs_trace s)"
  then obtain later c0 earlier where t: "xs_trace s = later @ Started c0 # earlier"
    and c0: "cx_requires_approval c0" "cx_request_id c0 = rid"
    by (rule starts_approvedE)
  have "start_ok env c0 earlier"
    using guardedD[of env later c0 earlier] guarded_run[OF wf, of w c] run t by simp
  then obtain a where "Committed a \<in> set earlier" "\<not> denied a" "cx_requires_approval a" "cx_request_id a = rid"
    using c0 by (auto simp: start_ok_def request_state_eq_def governance_state_eq_def)
  then show "\<not> used rid w \<and> used rid (xs_world s)" using U t unfolding uses_def by auto
qed

lemma used_never_starts:
  assumes "ok w" "used rid w" "list_all (step_ok ap ok used) sts"
  shows "filter (starts_approved rid) (run_steps sts w) = []"
  using assms
proof (induction sts arbitrary: w)
  case (Cons st sts)
  show ?case
  proof (cases st)
    case (Outside f)
    then show ?thesis using Cons by simp
  next
    case (Call env c)
    obtain s r where run: "run_execution env (start_state w c) = (s, r)" by (cases "run_execution env (start_state w c)")
    have a: "apart ap ok used env" using Cons.prems(3) Call by simp
    note u = run_uses[OF a Cons.prems(1) run]
    have "filter (starts_approved rid) (run_steps sts (xs_world s)) = []"
      by (rule Cons.IH) (use u Cons.prems in auto)
    then show ?thesis using Call run u(3) Cons.prems(2) by auto
  qed
qed simp

lemma one_start:
  assumes "ok w" "list_all (step_ok ap ok used) sts"
  shows "length (filter (starts_approved rid) (run_steps sts w)) \<le> 1"
  using assms
proof (induction sts arbitrary: w)
  case (Cons st sts)
  show ?case
  proof (cases st)
    case (Outside f)
    then show ?thesis using Cons by simp
  next
    case (Call env c)
    obtain s r where run: "run_execution env (start_state w c) = (s, r)" by (cases "run_execution env (start_state w c)")
    have a: "apart ap ok used env" using Cons.prems(2) Call by simp
    note u = run_uses[OF a Cons.prems(1) run]
    have sts: "list_all (step_ok ap ok used) sts" using Cons.prems(2) by simp
    show ?thesis
    proof (cases "starts_approved rid (xs_trace s)")
      case True
      then show ?thesis using Call run used_never_starts[OF u(1) _ sts] u(3) by simp
    next
      case False
      then show ?thesis using Call run Cons.IH[OF u(1) sts] by simp
    qed
  qed
qed simp

end

section \<open>The decision middleware is a single-use approver\<close>

text \<open>The world of a run is the middleware with its store, beside everything else.\<close>

definition on_gate :: "('st, 'a) gprog \<Rightarrow> 'st decision_gate \<times> 'v \<Rightarrow> ('st decision_gate \<times> 'v) \<times> 'a res" where
  "on_gate m w = (case m (fst w) of (g, r) \<Rightarrow> ((g, snd w), r))"

definition gate_approver :: "'st decision_config \<Rightarrow> ('st decision_gate \<times> 'v) approver" where
  "gate_approver cfg =
     \<lparr>ap_commit = (\<lambda>w c. on_gate (commit_approval cfg c) w), ap_release = (\<lambda>w c. on_gate (release_approval cfg c) w)\<rparr>"

lemma decided_identity:
  "missing_reservation cfg k c = Inr c' \<Longrightarrow> identity_fields c' = identity_fields c \<and> ctx_ok c'"
  "committed_context k c r d = Inr c' \<Longrightarrow> identity_fields c' = identity_fields c \<and> ctx_ok c'"
  using with_decision_Inr(2,3)
  by (fastforce simp: missing_reservation_def committed_context_def bindR_eq_Inr)+

lemma commit_approval_identity:
  assumes "commit_approval cfg c g = (g', Inr c')"
  shows "identity_fields c' = identity_fields c \<and> (ctx_ok c \<longrightarrow> ctx_ok c')"
  using assms unfolding commit_approval_def bind_readings
  by (auto dest!: bindX_returned decided_identity split: option.splits if_splits)

lemma gate_approver_wf: "approver_wf (gate_approver cfg)"
  by (auto simp: approver_wf_def gate_approver_def on_gate_def split: prod.splits dest: commit_approval_identity)

lemma on_gate_store:
  "keeps (on_store P) m \<Longrightarrow> P (dg_store (fst w)) \<Longrightarrow> P (dg_store (fst (fst (on_gate m w))))"
  using keepsD[of "on_store P" m "fst w"] by (auto simp: on_gate_def on_store_def split: prod.split)

context approval_contract
begin

lemma gate_single_use:
  assumes cfg: "dc_store cfg = Some ex"
  shows "single_use_approver (gate_approver cfg :: ('st decision_gate \<times> 'v) approver)
    (\<lambda>w. inv (dg_store (fst w))) (\<lambda>rid w. consumed (look (dg_store (fst w)) rid))"
proof
  note k = store_keeps_inv[OF cfg]
  let ?ap = "gate_approver cfg :: ('st decision_gate \<times> 'v) approver"
  fix w :: "'st decision_gate \<times> 'v" and c rid
  show "approver_wf ?ap" by (rule gate_approver_wf)
  assume ok: "inv (dg_store (fst w))"
  show "inv (dg_store (fst (fst (ap_commit ?ap w c))))" "inv (dg_store (fst (fst (ap_release ?ap w c))))"
    using on_gate_store[OF gate_keeps_commit[OF k(1)] ok] on_gate_store[OF gate_keeps_release[OF k(1)] ok]
    by (simp_all add: gate_approver_def)
  { assume u: "consumed (look (dg_store (fst w)) rid)"
    with ok have iu: "inv (dg_store (fst w)) \<and> consumed (look (dg_store (fst w)) rid)" by simp
    show "consumed (look (dg_store (fst (fst (ap_commit ?ap w c)))) rid)"
      "consumed (look (dg_store (fst (fst (ap_release ?ap w c)))) rid)"
      using on_gate_store[OF gate_keeps_commit[OF k(2)], of w rid c] on_gate_store[OF gate_keeps_release[OF k(2)], of w rid c] iu
      by (simp_all add: gate_approver_def) }
  { fix w' c' d
    assume run: "ap_commit ?ap w c = (w', Inr c')" and c': "\<not> denied c'" "cx_approval_granted c'"
      "cx_decision c' = Some d" "dr_request_id d = Some rid"
    obtain g' where g': "commit_approval cfg c (fst w) = (g', Inr c')" "fst w' = g'"
      using run by (auto simp: gate_approver_def on_gate_def split: prod.splits)
    show "\<not> consumed (look (dg_store (fst w)) rid) \<and> consumed (look (dg_store (fst w')) rid)"
      using gate_commit_grants[OF cfg ok g'(1) c'] g'(2) by simp }
qed

end

text \<open>The middleware on the SQLite store.\<close>

definition sqlite_gate :: "sq_config \<Rightarrow> approvals decision_config \<Rightarrow> approvals decision_config" where
  "sqlite_gate sq cfg = cfg\<lparr>dc_store := Some (sq_exec sq)\<rparr>"

lemma sqlite_gate_store [simp]: "dc_store (sqlite_gate sq cfg) = Some (sq_exec sq)"
  by (simp add: sqlite_gate_def)

interpretation sqlite_approver: single_use_approver "gate_approver (sqlite_gate sq cfg)"
  "\<lambda>w. sq_inv sq (dg_store (fst w))" "\<lambda>rid w. consumed (abs_table (dg_store (fst w)) rid)" for sq cfg
  by (rule sq.gate_single_use) simp

text \<open>
  What happens around a database of approvals: a call asks for a decision, anybody uses the store, the rest of
  the world moves, or an admitted call is executed.
\<close>

datatype 'v gate_step =
    Ask ExecutionContext
  | StoreCall approval_op
  | Elsewhere "'v \<Rightarrow> 'v"
  | Execute "(approvals decision_gate \<times> 'v) exec_env" ExecutionContext

fun as_step :: "sq_config \<Rightarrow> approvals decision_config \<Rightarrow> 'v gate_step \<Rightarrow> (approvals decision_gate \<times> 'v) step" where
  "as_step sq cfg (Ask c) = Outside (\<lambda>w. fst (on_gate (process_decision (sqlite_gate sq cfg) c) w))"
| "as_step sq cfg (StoreCall op) = Outside (\<lambda>(g, v). (g\<lparr>dg_store := fst (sq_exec sq (dg_store g) op)\<rparr>, v))"
| "as_step sq cfg (Elsewhere f) = Outside (\<lambda>(g, v). (g, f v))"
| "as_step sq cfg (Execute env c) = Call (env\<lparr>xe_approvers := [gate_approver (sqlite_gate sq cfg)]\<rparr>) c"

text \<open>Tokens are not empty, and the other services of a run leave the middleware and its store alone.\<close>

fun gate_step_ok :: "'v gate_step \<Rightarrow> bool" where
  "gate_step_ok (Ask c) = True"
| "gate_step_ok (StoreCall op) = op_ok op"
| "gate_step_ok (Elsewhere f) = True"
| "gate_step_ok (Execute env c) = (\<forall>g. services_keep (\<lambda>w t. fst w = g) env)"

lemma moves_fst:
  assumes "\<And>g. moves (\<lambda>w t. fst w = g) f"
  shows "moves (\<lambda>w t. P (fst w)) f"
  using assms by (simp add: moves_def)

lemma services_keep_fst:
  "\<forall>g. services_keep (\<lambda>w t. fst w = g) env \<Longrightarrow> services_keep (\<lambda>w t. P (fst w)) (env\<lparr>xe_approvers := as\<rparr>)"
  by (simp add: services_keep_def moves_fst)

lemma as_step_ok:
  fixes st :: "'v gate_step"
  assumes "clocks_ok cfg" "gate_step_ok st"
  shows "step_ok (gate_approver (sqlite_gate sq cfg)) (\<lambda>w. sq_inv sq (dg_store (fst w)))
    (\<lambda>rid w. consumed (abs_table (dg_store (fst w)) rid)) (as_step sq cfg st)"
proof (cases st)
  case (Ask c)
  have "clocks_ok (sqlite_gate sq cfg)" using assms(1) by (simp add: clocks_ok_def sqlite_gate_def)
  note k = keeps_process[OF sq.store_keeps_inv(1)[OF sqlite_gate_store] this]
    keeps_process[OF sq.store_keeps_inv(2)[OF sqlite_gate_store] this]
  have "sq_inv sq (dg_store (fst (fst (on_gate (process_decision (sqlite_gate sq cfg) c) w))))"
    if "sq_inv sq (dg_store (fst w))" for w :: "approvals decision_gate \<times> 'v"
    using on_gate_store[OF k(1), of w c] that by simp
  moreover have "consumed (abs_table (dg_store (fst (fst (on_gate (process_decision (sqlite_gate sq cfg) c) w)))) rid)"
    if "sq_inv sq (dg_store (fst w))" "consumed (abs_table (dg_store (fst w)) rid)"
    for w :: "approvals decision_gate \<times> 'v" and rid
    using on_gate_store[OF k(2), of w rid c] that by simp
  ultimately show ?thesis by (simp add: Ask)
next
  case (StoreCall op)
  then show ?thesis
    using assms(2) by (auto simp: sq.inv_ex sq.consumed_final)
next
  case (Elsewhere f)
  then show ?thesis by auto
next
  case (Execute env c)
  then have e: "\<forall>g. services_keep (\<lambda>w t. fst w = g) env" using assms(2) by simp
  show ?thesis
    using services_keep_fst[OF e, of "\<lambda>g. sq_inv sq (dg_store g)"]
      services_keep_fst[OF e, of "\<lambda>g. sq_inv sq (dg_store g) \<and> consumed (abs_table (dg_store g) rid)" for rid]
    by (simp add: Execute apart_def)
qed

lemma approved_starts:
  assumes "clocks_ok cfg" "sq_inv sq (dg_store g)" "list_all gate_step_ok sts"
  shows "length (filter (starts_approved rid) (run_steps (map (as_step sq cfg) sts) (g, v))) \<le> 1"
  by (rule sqlite_approver.one_start) (use assms as_step_ok in \<open>auto simp: list_all_iff\<close>)

end
