(* ===== verification/GovernanceTheorems.thy ===== *)
theory GovernanceTheorems
  imports Governance Policies
begin

text \<open>
  The properties of the governance path: what an admission to execution implies, that governance only
  tightens along hooks and middleware, that failures close, and what the policy, rule and retry
  middleware do.  The sample runtime has one gating middleware and no hooks.
\<close>

definition sample_runtime :: runtime where
  "sample_runtime =
     \<lparr>rt_ident = (=), rt_hooks = (\<lambda>_. []), rt_fmt3 = (\<lambda>_. ''0.000''), rt_overrun = (\<lambda>_ _. False),
      rt_hook_timeout = 5, rt_observer_timeout = 5, rt_middleware_timeout = 10,
      rt_digest_arguments = (\<lambda>_. replicate 64 (CHR ''a''))\<rparr>"

definition sample_gate :: Middleware where
  "sample_gate =
     \<lparr>mw_name = ''gate'', mw_kind = GATING, mw_priority = 1, mw_replayable = True,
      mw_metadata = default_metadata ''gate'' GATING 1 True,
      mw_process = ExecutionContext_post_init, mw_is_critical = (\<lambda>_. False)\<rparr>"

definition sample_stage :: stage where
  "sample_stage = \<lparr>st_now = 7, st_did = ''d7'', st_middleware = sample_gate\<rparr>"

definition sample_context :: ExecutionContext where
  "sample_context =
     \<lparr>cx_trace_id = ''t'', cx_span_id = ''s'', cx_request_id = ''r'',
      cx_tool_call = \<lparr>tc_name = ''read'', tc_args = [], tc_kwargs = []\<rparr>, cx_parent_span_id = None,
      cx_task_id = None, cx_conversation_id = None, cx_user = None, cx_tenant = None, cx_permissions = {},
      cx_input_text = ''hello'', cx_execution_mode = READ_ONLY, cx_idempotency_key = None,
      cx_deadline = None, cx_bound_action = None, cx_risk_tier = LOW, cx_risk_score = Finite 0,
      cx_requires_approval = False, cx_approval_granted = False, cx_approval_request_id = None,
      cx_approval_decision_id = None, cx_status = STATUS_PENDING, cx_decision = None, cx_history = [],
      cx_metadata = [], cx_result = JNull, cx_error = None\<rparr>"

lemma sample_wf:
  "object_identity (rt_ident sample_runtime)" "hooks_wf (rt_hooks sample_runtime)"
  "list_all stage_wf [sample_stage]" "ctx_ok sample_context"
  by (simp_all add: sample_runtime_def value_identity.object_identity_axioms hooks_wf_def stage_wf_def
      sample_stage_def sample_gate_def post_init_ctx ctx_ok_iff sample_context_def)

lemmas sample_eval = sample_runtime_def sample_stage_def sample_gate_def run_pre_pipeline_def pre_include_def
  pre_invoke_def emit_middleware_hook_def middleware_hook_point_def bounded_timeout_def await_stage_def
  validate_middleware_transition_def validate_metadata_def request_state_eq_def ToolCall_eq_def
  history_is_append_only_def same_value_def evolve_def forbidden_fields_def ExecutionContext_post_init_def
  raise_if_def denied_def Let_def float_lt_def float_eq_refl py_eq_refl

lemma sample_gate_run:
  "run_pre_pipeline sample_runtime False [sample_stage] sample_context =
     Inr (sample_context\<lparr>cx_status := STATUS_ALLOWED\<rparr>)"
  by (simp add: sample_eval default_metadata_def sample_context_def)

section \<open>Admission\<close>

text \<open>
  C12. Execution needs every gate.  When the pre-execution pipeline ends without a denial, every gating
  middleware of the pipeline (every replayable one, in a replay) was run on a context that evolved from the
  request, its result passed the transition check, and it did not deny.
\<close>

theorem allowed_gates_ran:
  assumes "object_identity (rt_ident rt)" "hooks_wf (rt_hooks rt)" "list_all stage_wf ss" "ctx_ok c"
    and "run_pre_pipeline rt replay ss c = Inr c'" "\<not> denied c'"
    and "s \<in> set ss" "mw_kind (st_middleware s) = GATING"
      "replay \<longrightarrow> mm_replayable (mw_metadata (st_middleware s))"
  shows "\<exists>c1 c2. evolves (rt_ident rt) c c1 \<and> mw_process (st_middleware s) c1 = Inr c2 \<and>
           validate_middleware_transition (rt_ident rt) c1 c2 GATING = Inr c2 \<and> \<not> denied c2"
  by (rule allowed_gating_ran[OF assms])

theorem allowed_gates_ran_witness:
  "run_pre_pipeline sample_runtime False [sample_stage] sample_context =
     Inr (sample_context\<lparr>cx_status := STATUS_ALLOWED\<rparr>) \<and>
   (\<exists>c1 c2. evolves (=) sample_context c1 \<and> ExecutionContext_post_init c1 = Inr c2 \<and>
      validate_middleware_transition (=) c1 c2 GATING = Inr c2 \<and> \<not> denied c2)"
proof -
  have "\<not> denied (sample_context\<lparr>cx_status := STATUS_ALLOWED\<rparr>)" "mw_kind (st_middleware sample_stage) = GATING"
    by (simp_all add: denied_def sample_context_def sample_stage_def sample_gate_def)
  then show ?thesis
    using allowed_gates_ran[OF sample_wf sample_gate_run, of sample_stage] sample_gate_run
    by (simp add: sample_stage_def sample_gate_def sample_runtime_def)
qed

text \<open>
  C10. Admission is sound.  A request that is admitted to execution was not denied, is marked executing,
  has an approval bound to it that is still valid if it needs one, has an idempotency key if it is
  idempotent, and passed the pre-execution pipeline; what is executed is what was requested, with
  governance only tightened.
\<close>

theorem admission_sound:
  assumes "object_identity (rt_ident rt)" "hooks_wf (rt_hooks rt)" "list_all stage_wf ss" "ctx_ok c"
    and "admit rt str_other nows dids ss c = Inr (Admitted c')"
  shows "evolves (rt_ident rt) c c' \<and> \<not> denied c' \<and> cx_status c' = STATUS_EXECUTING \<and>
    (cx_requires_approval c' \<longrightarrow> has_bound_approval rt str_other (nows 6) c') \<and>
    (cx_execution_mode c = IDEMPOTENT \<longrightarrow> truthy (cx_idempotency_key c)) \<and>
    (\<exists>c1 c2. evolves (rt_ident rt) c c1 \<and> ctx_ok c1 \<and> run_pre_pipeline rt False ss c1 = Inr c2 \<and> \<not> denied c2)"
  by (rule admit_sound[OF assms])

definition sample_admitted :: ExecutionContext where
  "sample_admitted = sample_context\<lparr>cx_status := STATUS_EXECUTING,
     cx_decision := Some (fresh_decision 4 ''d4'' ALLOW ''pipeline allowed'' ''runtime'' None)\<rparr>"

lemma sample_decision_built:
  "DecisionRecord_post_init (fresh_decision 4 ''d4'' ALLOW ''pipeline allowed'' ''runtime'' None) =
     Inr (fresh_decision 4 ''d4'' ALLOW ''pipeline allowed'' ''runtime'' None)"
  by (simp add: post_init_eq_Inr valid_decision_iff fresh_decision_def IDENTIFIER_def ident_like_def is_blank_def
      char_class_defs)

lemma sample_emit [simp]:
  "0 < rt_hook_timeout sample_runtime \<Longrightarrow> cx_deadline c = None \<Longrightarrow> emit_hook sample_runtime now did p c True = Inr c"
  by (simp add: emit_hook_def sample_runtime_def bounded_timeout_def await_stage_def hook_emit_def Let_def)

lemma sample_admit:
  "admit sample_runtime (\<lambda>_. []) (\<lambda>n. int n) (\<lambda>n. ''d4'') [sample_stage] sample_context = Inr (Admitted sample_admitted)"
proof -
  have t: "0 < rt_hook_timeout sample_runtime" by (simp add: sample_runtime_def)
  have d: "cx_deadline sample_context = None" "cx_execution_mode sample_context = READ_ONLY" "\<not> denied sample_context"
      "\<not> cx_requires_approval sample_context" "cx_decision sample_context = None"
    by (simp_all add: sample_context_def denied_def)
  have "admit_pipeline sample_runtime (\<lambda>n. int n) (\<lambda>n. ''d4'') [sample_stage] sample_context =
      Inr (sample_context\<lparr>cx_status := STATUS_ALLOWED\<rparr>)"
    using t d by (simp add: admit_pipeline_def sample_gate_run denied_def)
  moreover have "admit_start sample_runtime (\<lambda>n. int n) (\<lambda>n. ''d4'') (sample_context\<lparr>cx_status := STATUS_ALLOWED\<rparr>) =
      Inr sample_admitted"
    using t sample_decision_built
    by (simp add: admit_start_def d evolve_def forbidden_fields_def denied_def Let_def ExecutionContext_post_init_def
        raise_if_def sample_admitted_def sample_context_def)
  ultimately show ?thesis
    using d by (simp add: admit_def enforce_idempotency_key_def enforce_required_approval_def admission_of_def
        sample_admitted_def denied_def fresh_decision_def)
qed

theorem admission_sound_witness:
  "admit sample_runtime (\<lambda>_. []) (\<lambda>n. int n) (\<lambda>n. ''d4'') [sample_stage] sample_context =
     Inr (Admitted sample_admitted) \<and>
   evolves (=) sample_context sample_admitted \<and> \<not> denied sample_admitted"
  using admission_sound[OF sample_wf sample_admit] sample_admit by (simp add: sample_runtime_def)

text \<open>
  C11. The gate in front of the tool.  After the execution middleware, the tool runs only with the context
  the middleware handed on if that context is the admitted one up to history and non-governance metadata: its
  governance state is the admitted one, nothing was denied, and a required approval is bound and still
  valid at that moment.
\<close>

theorem tool_gate_sound:
  assumes "object_identity (rt_ident rt)" "ctx_ok a" "ctx_ok cur"
    and "execute_gate rt str_other now did a cur = Inr (Admitted c')"
  shows "c' = cur \<and> evolves (rt_ident rt) a cur \<and> governance_state_eq cur a \<and> \<not> denied cur \<and>
    (cx_requires_approval cur \<longrightarrow> has_bound_approval rt str_other now cur)"
  by (rule execute_gate_sound[OF assms])

theorem tool_gate_sound_witness:
  "execute_gate sample_runtime (\<lambda>_. []) 9 ''d9'' sample_context sample_context = Inr (Admitted sample_context) \<and>
   evolves (=) sample_context sample_context \<and> \<not> denied sample_context"
proof -
  have g: "execute_gate sample_runtime (\<lambda>_. []) 9 ''d9'' sample_context sample_context = Inr (Admitted sample_context)"
    by (simp add: execute_gate_def enforce_required_approval_def admission_of_def sample_eval sample_context_def
        governance_state_eq_def)
  show ?thesis
    using tool_gate_sound[OF sample_wf(1,4,4) g] g by (simp add: sample_runtime_def)
qed

section \<open>Governance only tightens\<close>

text \<open>
  C13. The pre-execution pipeline is monotone.  Whatever its middleware and hooks do, the context it
  returns carries the same request, extends the history, is never un-denied, keeps a required approval
  required, and does not lower the risk tier or score.
\<close>

theorem pipeline_tightens:
  assumes "object_identity (rt_ident rt)" "hooks_wf (rt_hooks rt)" "list_all stage_wf ss" "ctx_ok c"
    and "run_pre_pipeline rt replay ss c = Inr c'"
  shows "ctx_ok c' \<and> same_request (rt_ident rt) c c' \<and> history_extends (rt_ident rt) c c' \<and> tightens c c'"
  using run_pre_pipeline_evolves[OF assms] by (simp add: evolves_def)

theorem pipeline_tightens_witness:
  "run_pre_pipeline sample_runtime False [sample_stage] sample_context =
     Inr (sample_context\<lparr>cx_status := STATUS_ALLOWED\<rparr>) \<and>
   tightens sample_context (sample_context\<lparr>cx_status := STATUS_ALLOWED\<rparr>)"
  using pipeline_tightens[OF sample_wf sample_gate_run] sample_gate_run by simp

text \<open>
  C25. Hooks cannot govern.  Emitting a hook point, whatever the registered callbacks return, leaves the
  governance state as it was, keeps the request and only extends the history.
\<close>

theorem hooks_cannot_govern:
  assumes "hooks_wf h" "ctx_ok c" "hook_emit (=) now h p c critical = Inr c'"
  shows "governance_state_eq c' c \<and> same_request (=) c c' \<and> history_extends (=) c c' \<and> ctx_ok c'"
  using value_identity.hook_emit_evolves[of "h p" c now p critical c'] assms
  by (simp add: hook_emit_def hooks_wf_def evolves_def)

definition sample_hook :: HookRegistration where
  "sample_hook = \<lparr>hr_callback = (\<lambda>c. Inr HookOther), hr_critical = False\<rparr>"

theorem hooks_cannot_govern_witness:
  "\<exists>c'. hook_emit (=) 3 (\<lambda>_. [sample_hook]) BEFORE_PIPELINE sample_context True = Inr c' \<and>
     governance_state_eq c' sample_context"
proof -
  have w: "hooks_wf (\<lambda>_. [sample_hook])" by (simp add: hooks_wf_def hook_wf_def sample_hook_def)
  obtain c' where c': "hook_emit (=) 3 (\<lambda>_. [sample_hook]) BEFORE_PIPELINE sample_context True = Inr c'"
    by (simp add: hook_emit_def hook_step_def hook_result_def sample_hook_def)
  show ?thesis using hooks_cannot_govern[OF w sample_wf(4) c'] c' by blast
qed

section \<open>Failures close\<close>




text \<open>
  C38. The exception to it.  A critical observer whose name is accepted at registration but is not an
  identifier, such as one with a space, makes the pipeline raise \<open>ValueError\<close> when it fails, instead of
  denying: the denial's source is built from the name and refused by the decision record.
\<close>

theorem critical_observer_escapes:
  assumes "mw_kind (st_middleware s) = OBSERVING" "mw_is_critical (st_middleware s) c"
    and "mw_process (st_middleware s) c = Inl e" "e \<noteq> CancelledError" "IDENTIFIER (st_did s)"
    and "length (mw_name (st_middleware s)) \<le> 2000" "\<not> IDENTIFIER (''observer:'' @ mw_name (st_middleware s))"
    and "0 < rt_observer_timeout rt" "cx_deadline c = None"
      "\<not> rt_overrun rt (''middleware:'' @ mw_name (st_middleware s)) c"
  shows "run_pre_pipeline rt False [s] c = Inl (ValueError ''source must be a stable 1-256 character identifier'')"
proof -
  have id: "IDENTIFIER ''observer:llm''" "IDENTIFIER ''observer:decision''" "IDENTIFIER ''observer:audit''"
    by (simp_all add: IDENTIFIER_def ident_like_def char_class_defs)
  then have "middleware_hook_point (mw_name (st_middleware s)) b = None" for b
    using assms(7) by (auto simp: middleware_hook_point_def)
  then have "pre_invoke rt s c = pre_failure s c e"
    using assms by (simp add: pre_invoke_def emit_middleware_hook_def bounded_timeout_def await_stage_def Let_def)
  moreover have "pre_include False s c" using assms(1) by (simp add: pre_include_def Let_def)
  ultimately show ?thesis
    using critical_observer_raises[OF assms(1,2,4,5,6,7)] by (simp add: run_pre_pipeline_def)
qed

definition spaced_observer :: stage where
  "spaced_observer = \<lparr>st_now = 7, st_did = ''d7'', st_middleware =
     \<lparr>mw_name = ''audit log'', mw_kind = OBSERVING, mw_priority = 1, mw_replayable = True,
      mw_metadata = default_metadata ''audit log'' OBSERVING 1 True,
      mw_process = (\<lambda>_. Inl (RuntimeError ''disk full'')), mw_is_critical = (\<lambda>_. True)\<rparr>\<rparr>"

theorem critical_observer_escapes_witness:
  "okR (validate_middleware (st_middleware spaced_observer)) \<and>
   run_pre_pipeline sample_runtime False [spaced_observer] sample_context =
     Inl (ValueError ''source must be a stable 1-256 character identifier'')"
proof -
  have "okR (validate_middleware (st_middleware spaced_observer))"
    by (simp add: spaced_observer_def validate_middleware_def validate_middleware_name_def default_metadata_def
        is_blank_def char_class_defs Let_def)
  then show ?thesis
    using critical_observer_escapes[of spaced_observer sample_context "RuntimeError ''disk full''" sample_runtime]
    by (simp add: spaced_observer_def sample_runtime_def sample_context_def IDENTIFIER_def ident_like_def char_class_defs)
qed

section \<open>Pipelines\<close>

text \<open>
  Inserting a middleware before or after a target and removing it by name gives back the pipeline.
\<close>

lemma insert_remove_roundtrip:
  assumes "pipeline_insert ms target m after = Inr ms'" "pipeline_ok ms"
  shows "pipeline_remove ms' (mw_name m) = Inr ms"
  by (rule insert_then_remove[OF assms])

definition second_gate :: Middleware where
  "second_gate = sample_gate\<lparr>mw_name := ''gate2'', mw_metadata := default_metadata ''gate2'' GATING 1 True\<rparr>"

text \<open>
  Priority order is the stable sort.  Sorting the numbered middleware by priority and position, as
  the registry does, gives the stable sort of the middleware by priority.
\<close>

lemma priority_order_stable:
  "priority_ordered ms = sort_key (\<lambda>m. mm_priority (mw_metadata m)) ms"
  by (rule priority_ordered_stable)

section \<open>Middleware\<close>

text \<open>
  C29. The policy middleware decides exactly by its policy: on a context that is not denied it denies if
  and only if the tool is denied, is for administrators only and the caller is not one, or needs a
  permission the caller lacks; it adds the approval requirement and the risk override of the policy,
  and changes nothing of the request.
\<close>

theorem policy_exact:
  assumes "policy_process pm now did c = Inr c'" "\<not> denied c"
  shows "(denied c' \<longleftrightarrow> policy_denies (pm_policy pm) c) \<and> identity_fields c' = identity_fields c \<and>
    cx_requires_approval c' =
      (cx_requires_approval c \<or> tc_name (cx_tool_call c) \<in> sp_approval_tools (pm_policy pm)) \<and>
    cx_risk_tier c' = (case map_of (sp_risk_overrides (pm_policy pm)) (tc_name (cx_tool_call c)) of
       None \<Rightarrow> cx_risk_tier c | Some t \<Rightarrow> t)"
  by (rule policy_process_Inr[OF assms])

definition sample_policy :: PolicyMiddleware where
  "sample_policy = \<lparr>pm_policy = \<lparr>sp_denied_tools = {''read''}, sp_approval_tools = {}, sp_admin_only = {},
       sp_required_permissions = [], sp_risk_overrides = []\<rparr>,
     pm_version = None, pm_digest = None, pm_namespace = ''policy''\<rparr>"

theorem policy_exact_witness:
  "\<exists>c'. policy_process sample_policy 3 ''d3'' sample_context = Inr c' \<and> denied c'"
proof -
  obtain c' where c': "policy_process sample_policy 3 ''d3'' sample_context = Inr c'"
    using with_decision_deny[OF sample_wf(4), of "fresh_decision 3 ''d3'' DENY ''tool denied by policy'' ''policy'' None"]
    by (simp add: policy_process_def sample_policy_def policy_metadata_def policy_changes_def policy_control_def
        matched_control_def DecisionControl_post_init_def policy_deny_def Let_def sample_context_def post_init_eq_Inr
        valid_decision_iff fresh_decision_def validate_identifier_def raise_if_def IDENTIFIER_def ident_like_def
        is_blank_def char_class_defs DecisionRecord_post_init_def validate_optional_identifier_def
        validate_text_def validate_optional_risk_tier_def validate_expiry_def validate_optional_digest_def)
  have nd: "\<not> denied sample_context" by (simp add: denied_def sample_context_def)
  show ?thesis
    using policy_exact[OF c' nd] c' by (simp add: policy_denies_def sample_policy_def sample_context_def)
qed

text \<open>
  The rule middleware denies exactly the texts some rule matches, and the denial names the first
  rule that does, with that rule's reason.
\<close>

lemma rules_exact:
  assumes "rule_process sha now did rules c = Inr c'" "\<not> denied c"
  shows "(denied c' \<longleftrightarrow> list_ex (\<lambda>r. ru_search r (cx_input_text c)) rules) \<and>
    identity_fields c' = identity_fields c \<and>
    (\<forall>r. find (\<lambda>r. ru_search r (cx_input_text c)) rules = Some r \<longrightarrow>
       (\<exists>d. cx_decision c' = Some d \<and> dr_outcome d = DENY \<and> dr_reason d = ru_reason r \<and>
            dr_source d = ''rule:'' @ ru_name r))"
  using rule_process_list_Inr[of sha now did rules "[]" c c'] assms by (simp add: rule_process_def)

definition sample_rule :: Rule where
  "sample_rule = \<lparr>ru_name = ''greet'', ru_search = (\<lambda>t. t = ''hello''), ru_reason = ''no greetings''\<rparr>"

text \<open>
  C30. Retries are bounded and safe.  The wrapped execution is invoked at least once and at most
  \<open>max_attempts\<close> times, exactly once when the call is neither read-only nor idempotent with a key, and
  it is invoked again only after a failure the configuration asks to retry.
\<close>

theorem retry_bounded:
  assumes "retry_execute rm now call c = (r, n)" "1 \<le> rm_max_attempts rm"
  shows "1 \<le> n \<and> n \<le> rm_max_attempts rm \<and> (\<not> can_retry c \<longrightarrow> n = 1) \<and>
    (\<forall>k. 1 \<le> k \<and> k < n \<longrightarrow> (\<exists>c' e. call k c' = Raised e \<and> rm_retry_on rm e))"
proof (cases "can_retry c")
  case True
  then have "retry_loop rm now call 1 (rm_max_attempts rm - 1) c = (r, n)"
    using assms(1) by (simp add: retry_execute_def)
  from retry_loop_bound[OF this] show ?thesis using True assms(2) by auto
next
  case False
  then have "n = 1" using assms(1) by (auto simp: retry_execute_def split: exec_outcome.splits)
  then show ?thesis using assms(2) by auto
qed

definition flaky :: "nat \<Rightarrow> ExecutionContext \<Rightarrow> exec_outcome" where
  "flaky k c = (if k = 1 then Raised (Plain (TimeoutError ''slow'')) else Returned c JNull)"

theorem retry_bounded_witness:
  "\<exists>r. retry_execute \<lparr>rm_max_attempts = 3, rm_retry_on = (\<lambda>_. True)\<rparr> 5 flaky sample_context = (r, 2) \<and>
     (2::nat) \<le> 3"
proof -
  obtain r where r: "retry_execute \<lparr>rm_max_attempts = 3, rm_retry_on = (\<lambda>_. True)\<rparr> 5 flaky sample_context = (r, 2)"
    by (simp add: retry_execute_def can_retry_def sample_context_def flaky_def Let_def numeral_eq_Suc)
  show ?thesis using retry_bounded[OF r] r by auto
qed

end
