(* ===== verification/ExecutionTheorems.thy ===== *)
theory ExecutionTheorems
  imports Acceptance GovernanceTheorems
begin

text \<open>
  The properties of the execution phase, over the trace of a run, and the run of a sample runtime in which
  an idempotent tool returns a number.
\<close>

section \<open>A sample run\<close>

definition sample_claim :: IdempotencyClaim where
  "sample_claim =
     \<lparr>cl_namespace = ''global:read'', cl_key = ''k'', cl_fingerprint = ''f'', cl_owner = True, cl_future = 0,
      cl_owner_token = Some ''o'', cl_lease_seconds = Some 30, cl_execution_record_id = None, cl_generation = None\<rparr>"

definition sample_spec :: ToolSpec where
  "sample_spec =
     \<lparr>ts_name = ''read'', ts_risk = LOW, ts_requires_approval = False, ts_execution_mode = IDEMPOTENT,
      ts_parameters_schema = None, ts_result_schema = None, ts_max_parameters_bytes = None,
      ts_max_result_bytes = None, ts_action_contract = None, ts_probe_schema = None\<rparr>"

definition sample_encoders :: encoders where
  "sample_encoders =
     \<lparr>en_check_schema = (\<lambda>_. None), en_schema_error = (\<lambda>_ _. None), en_size = (\<lambda>_. 0), en_sha256 = (\<lambda>_. ''f'')\<rparr>"

definition sample_with :: "(xexn + json) \<Rightarrow> 'w exec_env" where
  "sample_with outcome =
     \<lparr>xe_rt = sample_runtime,
      xe_en = sample_encoders,
      xe_str_other = (\<lambda>_. []), xe_type = (\<lambda>_. ''Error''), xe_now = int, xe_did = (\<lambda>_. ''d''),
      xe_duration = (\<lambda>_. JInt 1), xe_execution_timeout = 60, xe_spec = sample_spec, xe_parameters = [],
      xe_pipeline = (\<lambda>_. []), xe_aborts = (\<lambda>_. []), xe_middleware = [], xe_approvers = [], xe_has_ledger = False,
      xe_compat_prepare = False, xe_acquire = (\<lambda>w _ _ _ _. (w, Inr sample_claim)), xe_wait = (\<lambda>w _. (w, Inr JNull)),
      xe_prepare = (\<lambda>w _ _. (w, Inr True)), xe_complete = (\<lambda>w _ _. (w, Inr ())), xe_fail = (\<lambda>w _ _. (w, Inr ())),
      xe_mark_unknown = (\<lambda>w _ _. (w, Inr ())), xe_record_unknown = (\<lambda>w _ _ _. (w, Inr [])),
      xe_heartbeat = (\<lambda>w _. (w, None)), xe_rebuild = (\<lambda>w _. (w, Inr [])),
      xe_tool = (\<lambda>w c. (w, True, outcome))\<rparr>"

abbreviation sample_exec :: "unit exec_env" where
  "sample_exec \<equiv> sample_with (Inr (JInt 7))"

definition sample_call :: ExecutionContext where
  "sample_call = sample_context\<lparr>cx_execution_mode := IDEMPOTENT, cx_idempotency_key := Some ''k'',
     cx_status := STATUS_EXECUTING\<rparr>"

lemma sample_exec_fields [simp]:
  "xe_rt (sample_with x) = sample_runtime" "xe_spec (sample_with x) = sample_spec" "xe_approvers (sample_with x) = []"
  "xe_middleware (sample_with x) = []" "xe_pipeline (sample_with x) n = []" "xe_compat_prepare (sample_with x) = False"
  "xe_acquire (sample_with x) w c ns k fp = (w, Inr sample_claim)" "xe_complete (sample_with x) w cl v = (w, Inr ())"
  "xe_heartbeat (sample_with x) w cl = (w, None)" "xe_execution_timeout (sample_with x) = 60"
  "xe_tool (sample_with x) w c = (w, True, x)" "xe_parameters (sample_with x) = []"
  "xe_en (sample_with x) = sample_encoders" "xe_duration (sample_with x) n = JInt 1" "xe_has_ledger (sample_with x) = False"
  "xe_fail (sample_with x) w cl e = (w, Inr ())" "xe_mark_unknown (sample_with x) w cl e = (w, Inr ())"
  by (simp_all add: sample_with_def)

lemma sample_call_fields [simp]:
  "cx_deadline sample_call = None" "cx_bound_action sample_call = None" "cx_tenant sample_call = None"
  "cx_requires_approval sample_call = False" "denied sample_call = False" "idempotent_call sample_call"
  by (simp_all add: sample_call_def sample_context_def denied_def idempotent_call_def)

lemma sample_gate_admits:
  "execute_gate sample_runtime so now did sample_call sample_call = Inr (Admitted sample_call)"
  by (simp add: execute_gate_def enforce_required_approval_def admission_of_def sample_eval sample_context_def
      sample_call_def governance_state_eq_def)

lemma sample_env_wf: "env_wf (sample_with x)"
  by (simp add: env_wf_def)

definition sample_done :: ExecutionContext where
  "sample_done = append_history (sample_call\<lparr>cx_status := STATUS_SUCCEEDED, cx_result := JInt 7,
     cx_metadata := [(''duration_ms'', JInt 1)]\<rparr>) (history_entry 3 ''executor'' ''succeeded'' ''tool completed'' [])"

lemma sample_succeeded:
  "succeeded (sample_with x) 3 sample_call (JInt 7) ''executor'' ''succeeded'' ''tool completed'' = Inr sample_done"
  by (simp add: succeeded_def sample_eval sample_done_def sample_call_def sample_context_def dict_merge_def sample_with_def
      is_blank_def py_isspace_def ccode_def)

lemma world_same [simp]: "s\<lparr>xs_world := xs_world s\<rparr> = s"
  by simp

lemmas run_defs = bindX_def tick_def checked_def raised_def service_def emit_def set_ctx_def catchX_def
  bounded_timeout_def staged_def

lemma sample_acquire:
  "acquire_claim (sample_with x) sample_call s =
     (s\<lparr>xs_claim := Some sample_claim, xs_trace := Acquired sample_claim # xs_trace s\<rparr>, Inr sample_claim)"
proof -
  have "\<exists>fp. idempotency_fingerprint sample_encoders sample_call (ts_name sample_spec) [] = Inr fp"
    by (simp add: idempotency_fingerprint_def fingerprint_def canonical_json_def contract_normalize.simps)
  moreover have "\<exists>ns. idempotency_namespace sample_encoders sample_call = Inr ns"
    by (simp add: idempotency_namespace_def)
  ultimately show ?thesis
    by (auto simp: acquire_claim_def request_claim_def run_defs)
qed

lemma sample_commit:
  "xs_ctx s = sample_call \<Longrightarrow> commit_and_enforce (sample_with x) s =
     (s\<lparr>xs_tick := Suc (xs_tick s), xs_ctx := sample_call, xs_trace := Committed sample_call # xs_trace s\<rparr>, Inr sample_call)"
  by (simp add: commit_and_enforce_def commit_approvals_def enforce_approval_def run_defs
      enforce_required_approval_def)

lemma sample_own:
  "xs_ctx s = sample_call \<Longrightarrow> own_claim (sample_with x) sample_claim s =
     (s\<lparr>xs_tick := Suc (xs_tick s), xs_ctx := sample_call, xs_trace := Committed sample_call # xs_trace s, xs_heartbeat := Some sample_claim\<rparr>,
      Inr ())"
  by (simp add: own_claim_def record_claim_def sample_commit bindX_Inr prepare_action_def start_heartbeat_def sample_claim_def)

lemma sample_tool:
  "with_deadline (sample_with x) sample_call s =
     (s\<lparr>xs_tick := xs_tick s + 2, xs_started := True, xs_trace := Started sample_call # xs_trace s\<rparr>,
      map_sum id (Pair sample_call) x)"
  by (simp add: with_deadline_def execute_tool_def sample_gate_admits revalidate_bound_action_def invoke_tool_def
      bind_tick checked_bind bounded_timeout_def staged_def sample_runtime_def[THEN arg_cong, of rt_overrun] bindX_Inr
      split: sum.split)

lemma sample_checked: "xs_ctx s = sample_call \<Longrightarrow> check_result (sample_with x) (JInt 7) s = (s, Inr (JInt 7))"
  by (simp add: check_result_def checked_bind normalize_result_def contract_validate_instance_def contract_normalize.simps
      receipt_schema_def enforce_size_limit_def sample_spec_def)

lemma sample_stopped:
  "xs_heartbeat s = Some sample_claim \<Longrightarrow> stop_heartbeat (sample_with x) b s = (s\<lparr>xs_heartbeat := None\<rparr>, Inr ())"
  by (simp add: stop_heartbeat_def run_defs)

lemma sample_completed:
  "finish_idempotency (sample_with x) (Some sample_claim) c None v s =
     (s\<lparr>xs_trace := Completing sample_claim v # xs_trace s\<rparr>, Inr None)"
  by (simp add: finish_idempotency_def run_defs)

lemma sample_accept:
  "xs_claim s = Some sample_claim \<Longrightarrow> xs_heartbeat s = Some sample_claim \<Longrightarrow>
   accept_result (sample_with x) sample_call (JInt 7) s =
     (s\<lparr>xs_ctx := sample_call, xs_returned := True, xs_heartbeat := None, xs_claim := None,
        xs_trace := Completing sample_claim (JInt 7) # xs_trace s\<rparr>, Inr (JInt 7))"
  by (simp add: accept_result_def sample_checked sample_stopped sample_completed bindX_Inr)

lemma sample_observed:
  "run_observers (sample_with x) b c s =
     (s\<lparr>xs_tick := Suc (xs_tick s), xs_trace := Observing c # xs_trace s\<rparr>, Inr c)"
  by (simp add: run_observers_def emit_def bind_tick checked_bind)

lemma sample_hook: "hook_at (sample_with x) AFTER_EXECUTE sample_done s = (s\<lparr>xs_tick := Suc (xs_tick s)\<rparr>, Inr sample_done)"
proof -
  have "emit_hook sample_runtime now did AFTER_EXECUTE sample_done False = Inr sample_done" for now did
    by (simp add: emit_hook_def sample_runtime_def bounded_timeout_def await_stage_def hook_emit_def Let_def
        sample_done_def sample_call_def sample_context_def append_history_def)
  then show ?thesis by (simp add: hook_at_def run_defs)
qed

lemma sample_finish:
  assumes "xs_ctx s = sample_call" "xs_tick s = 3"
  shows "finish_success (sample_with x) (JInt 7) s =
     (s\<lparr>xs_tick := 6, xs_ctx := sample_done, xs_trace := Observing sample_done # xs_trace s\<rparr>, Inr (JInt 7, sample_done))"
  using assms
  by (simp add: finish_success_def bind_tick checked_bind sample_succeeded set_ctx_def catchX_def
      bindX_Inr[OF sample_hook] bindX_Inr[OF sample_observed])

lemma sample_execution:
  "run_execution sample_exec (start_state () sample_call) =
     (\<lparr>xs_world = (), xs_tick = 6, xs_ctx = sample_done, xs_claim = None, xs_heartbeat = None, xs_returned = True,
       xs_started = True, xs_trace = [Observing sample_done, Completing sample_claim (JInt 7), Started sample_call,
         Committed sample_call, Acquired sample_claim]\<rparr>, Inr (JInt 7, sample_done))"
proof -
  have "cl_owner sample_claim" by (simp add: sample_claim_def)
  then show ?thesis
    by (simp add: run_execution_def run_body_def start_state_def sample_acquire sample_own execute_and_complete_def
        sample_tool sample_accept sample_finish bindX_Inr catchX_def)
qed

section \<open>Before the tool\<close>

text \<open>
  C2. The tool starts only behind the approvals and the claim.  Whenever a run starts the tool with a
  context, that context is not denied; the approval middleware were committed before, on a context that was
  not denied and has the same governance state; an approval the context requires is bound to it and valid
  at some clock reading of the run; and an idempotent call had acquired a claim it owns.
\<close>

theorem tool_starts_guarded:
  assumes "env_wf env" "run_execution env (start_state w c) = (s, r)" "xs_trace s = later @ Started c0 # earlier"
  shows "\<not> denied c0 \<and>
    (\<exists>a. Committed a \<in> set earlier \<and> \<not> denied a \<and> governance_state_eq c0 a) \<and>
    (cx_requires_approval c0 \<longrightarrow> (\<exists>n. has_bound_approval (xe_rt env) (xe_str_other env) (xe_now env n) c0)) \<and>
    (idempotent_call c0 \<longrightarrow> (\<exists>cl. Acquired cl \<in> set earlier \<and> cl_owner cl))"
  using guardedD[of env later c0 earlier] guarded_run[OF assms(1), of w c] assms(2,3)
  by (auto simp: start_ok_def)

theorem tool_starts_guarded_witness:
  "\<exists>s r. run_execution sample_exec (start_state () sample_call) = (s, r) \<and>
     xs_trace s = [Observing sample_done, Completing sample_claim (JInt 7)] @ Started sample_call #
       [Committed sample_call, Acquired sample_claim] \<and>
     (\<exists>cl. Acquired cl \<in> set [Committed sample_call, Acquired sample_claim] \<and> cl_owner cl)"
  using tool_starts_guarded[OF sample_env_wf sample_execution, of "[Observing sample_done, Completing sample_claim (JInt 7)]"
      sample_call "[Committed sample_call, Acquired sample_claim]"] sample_execution
  by simp

section \<open>After the tool\<close>







section \<open>Denials inside the phase\<close>

lemma bindX_raised:
  "bindX m f s = (s', Inl e) \<Longrightarrow>
   m s = (s', Inl e) \<or> (\<exists>s1 a. m s = (s1, Inr a) \<and> f a s1 = (s', Inl e))"
  by (auto simp: bindX_def split: prod.splits sum.splits)

lemma observers_run:
  fixes s :: "'w xstate"
  assumes "run_observers env b c s = (s', r)"
  shows "xs_claim s' = xs_claim s \<and> (\<exists>t. xs_trace s' = t @ Observing c # xs_trace s) \<and> r \<noteq> Inl (GovernanceDenied c')"
proof -
  define rest :: "ExecutionContext \<times> exn option \<Rightarrow> ('w, ExecutionContext) xprog" where
    "rest = (\<lambda>(c', failure). case failure of
       None \<Rightarrow> returnX c'
     | Some e \<Rightarrow>
         (let post = (cx_status c' \<in> {STATUS_EXECUTING, STATUS_SUCCEEDED, STATUS_FAILED, STATUS_UNKNOWN}) in
          bindX (if post \<and> \<not> denied c'
                 then checked (evolve c' [SetStatus STATUS_UNKNOWN,
                        SetError (Some (xe_type env (Exn e) @ '': critical observer failed''))])
                 else returnX c') (\<lambda>c''.
          raiseX (AuditDeliveryError c'' e post))))"
  have run: "run_observers env b c s =
      (case observe_list (xe_rt env) b (xe_pipeline env (xs_tick s)) None c of
         Inl e \<Rightarrow> (s\<lparr>xs_trace := Observing c # xs_trace s, xs_tick := Suc (xs_tick s)\<rparr>, Inl (Exn e))
       | Inr p \<Rightarrow> rest p (s\<lparr>xs_trace := Observing c # xs_trace s, xs_tick := Suc (xs_tick s)\<rparr>))"
    by (simp add: run_observers_def emit_def bind_tick checked_bind rest_def split: sum.split)
  have rest: "fst (rest p s0) = s0 \<and> snd (rest p s0) \<noteq> Inl (GovernanceDenied c')" for p s0
    by (cases p; cases "snd p")
      (simp_all add: rest_def checked_def raised_def bindX_def Let_def split: sum.split)
  show ?thesis
  proof (cases "observe_list (xe_rt env) b (xe_pipeline env (xs_tick s)) None c")
    case (Inl e)
    then show ?thesis using assms run by auto
  next
    case (Inr p)
    let ?s = "s\<lparr>xs_trace := Observing c # xs_trace s, xs_tick := Suc (xs_tick s)\<rparr>"
    have "rest p ?s = (s', r)" using assms run Inr by simp
    then have "s' = ?s" "r \<noteq> Inl (GovernanceDenied c')" using rest[of p ?s] by auto
    then show ?thesis by simp
  qed
qed

lemma deny_owner_raised:
  fixes env :: "'w exec_env"
  assumes "deny_owner env cl c s = (s', Inl (GovernanceDenied c'))"
  shows "c' = c \<and> xs_claim s' = None \<and> (\<exists>t t'. xs_trace s' = t @ Observing c # t')"
proof -
  define fin where "fin = finish_idempotency env (Some cl) c (Some (GovernanceDenied c)) JNull"
  define go :: "('w, unit) xprog" where "go = bindX (run_observers env False c) (\<lambda>c'. thenX (set_ctx c') (raiseX (GovernanceDenied c)))"
  have run: "deny_owner env cl c s = thenX fin (thenX (modX (\<lambda>s. s\<lparr>xs_claim := None\<rparr>)) go) s"
    by (simp add: deny_owner_def fin_def go_def)
  obtain s1 h where f: "fin s = (s1, h)" by (cases "fin s")
  have "plainly fin" unfolding fin_def by (rule plainly_steps)
  then have "h \<noteq> Inl (GovernanceDenied c')" using plainlyD f by blast
  then obtain a where "h = Inr a" using assms run f by (cases h) (auto simp: bindX_Inl)
  then have rest: "go (s1\<lparr>xs_claim := None\<rparr>) = (s', Inl (GovernanceDenied c'))"
    using assms run f by (simp add: bindX_Inr)
  obtain s2 q where o: "run_observers env False c (s1\<lparr>xs_claim := None\<rparr>) = (s2, q)"
    by (cases "run_observers env False c (s1\<lparr>xs_claim := None\<rparr>)")
  note obs = observers_run[OF o, of c']
  then obtain c2 where "q = Inr c2" using rest o by (cases q) (auto simp: go_def bindX_Inl)
  then have "s' = s2\<lparr>xs_ctx := c2\<rparr> \<and> c' = c" using rest o by (simp add: go_def bindX_Inr set_ctx_def)
  then show ?thesis using obs by auto
qed

lemma handle_denial_observes:
  fixes env :: "'w exec_env" and r :: "xexn + 'b"
  assumes "handle_exception env (GovernanceDenied c) s = (s', r)" "xs_claim s = None"
  shows "\<exists>t t'. xs_trace s' = t @ Observing c # t' @ xs_trace s"
proof -
  define go :: "('w, 'b) xprog" where "go = bindX (run_observers env False c) (\<lambda>c. raiseX (GovernanceDenied c))"
  obtain s1 where stop: "stop_heartbeat env False s = (s1, Inr ())" "xs_claim s1 = None"
    using stop_heartbeat_quietly[of env s] assms(2) by (cases "stop_heartbeat env False s") auto
  obtain t' where t': "xs_trace s1 = t' @ xs_trace s"
    using adds_run[OF adds_stop_heartbeat stop(1), of "{}"] by (auto simp: extends_def)
  have run: "go (s1\<lparr>xs_tick := Suc (xs_tick s1)\<rparr>) = (s', r)"
    using assms(1) stop
    by (simp add: handle_exception_def bindX_Inr settle_idempotency_def bind_tick finish_idempotency_def go_def catchX_def)
  obtain s2 q where o: "run_observers env False c (s1\<lparr>xs_tick := Suc (xs_tick s1)\<rparr>) = (s2, q)"
    by (cases "run_observers env False c (s1\<lparr>xs_tick := Suc (xs_tick s1)\<rparr>)")
  then have "s' = s2" using run by (cases q) (auto simp: go_def bindX_Inl bindX_Inr)
  then show ?thesis using observers_run[OF o] t' by force
qed

text \<open>
  C39. A denied owner is observed twice.  When the commitment of the approvals denies the owner of a claim,
  the denial is raised with the context from before the observers ran, and its handler runs the observers
  again on that same context, which has no record of their first run.
\<close>

theorem denied_owner_observed_twice:
  assumes "deny_owner env cl c s = (s1, Inl (GovernanceDenied c1))"
    and "handle_exception env (GovernanceDenied c1) s1 = (s2, r)"
  shows "c1 = c \<and> (\<exists>later between earlier. xs_trace s2 = later @ Observing c # between @ Observing c # earlier)"
proof -
  note d = deny_owner_raised[OF assms(1)]
  then obtain t t' where "xs_trace s1 = t @ Observing c # t'" by blast
  moreover obtain u u' where "xs_trace s2 = u @ Observing c # u' @ xs_trace s1"
    using handle_denial_observes[OF assms(2)] d by auto
  ultimately have "xs_trace s2 = u @ Observing c # (u' @ t) @ Observing c # t'" by simp
  then show ?thesis using d by blast
qed

lemma sample_deny:
  "deny_owner sample_exec sample_claim c (start_state () c) =
     ((start_state () c)\<lparr>xs_tick := 1, xs_trace := [Observing c, if cx_status c = STATUS_UNKNOWN
        then MarkingUnknown sample_claim else Failing sample_claim]\<rparr>, Inl (GovernanceDenied c))"
  by (simp add: deny_owner_def finish_idempotency_def sample_observed start_state_def bindX_def emit_def service_def
      raised_def set_ctx_def)

theorem denied_owner_observed_twice_witness:
  "\<exists>s1 s2 r. deny_owner sample_exec sample_claim sample_call (start_state () sample_call) =
       (s1, Inl (GovernanceDenied sample_call)) \<and>
     (handle_exception sample_exec (GovernanceDenied sample_call) :: (unit, json) xprog) s1 = (s2, r) \<and>
     (\<exists>later between earlier. xs_trace s2 = later @ Observing sample_call # between @ Observing sample_call # earlier)"
proof -
  define h :: "(unit, json) xprog" where "h = handle_exception sample_exec (GovernanceDenied sample_call)"
  obtain s1 where s1: "deny_owner sample_exec sample_claim sample_call (start_state () sample_call) =
      (s1, Inl (GovernanceDenied sample_call))" using sample_deny[of sample_call] by blast
  obtain s2 r where "h s1 = (s2, r)" by (cases "h s1")
  then show ?thesis using denied_owner_observed_twice[OF s1, of s2 r] s1 unfolding h_def by blast
qed



end
