(* ===== verification/ApprovalTheorems.thy ===== *)
theory ApprovalTheorems
  imports ApprovalContract
begin

text \<open>
  The properties of approvals: what a bound decision attests, single use, lease exclusion, the
  simulation of the in-memory store by the SQLite store, the path on which an approval is granted, and
  what a tampered record does.  The sample request and decision instantiate them.
\<close>

definition sample_request :: ApprovalRequest where
  "sample_request =
     \<lparr>ar_trace_id = ''t1'', ar_tool_name = ''pay'', ar_arguments = [], ar_risk_tier = ''HIGH'',
      ar_reason = ''refund'', ar_request_id = ''r1'', ar_issued_at = 0, ar_expires_at = Some 1000,
      ar_arguments_digest = replicate 64 (CHR ''a''), ar_policy_version = None, ar_subject = None,
      ar_tenant = None, ar_identity_issuer = None, ar_arguments_redacted = False,
      ar_policy_digest = None, ar_action_digest = None\<rparr>"

definition sample_decision :: DecisionRecord where
  "sample_decision = fresh_decision 1 ''d1'' ALLOW ''looks fine'' ''human'' (Some ''alice'')"

definition sample_config :: sq_config where
  "sample_config = \<lparr>sc_sign_key = Some ''key'', sc_store_arguments = False, sc_mac = (\<lambda>k p. k)\<rparr>"

section \<open>Decisions\<close>

text \<open>
  Binding is sound and exact.  \<open>bind_to\<close> succeeds exactly when every field the decision already
  carries is the request's, its expiry does not outlive the request and the resulting record is valid;
  the result then agrees with the request on every attested field and keeps the decision's outcome,
  identity, reason, source and issue time.
\<close>

lemma bind_to_exact:
  "(bind_to now d r approver = Inr d') =
     (bind_compatible d r \<and> d' = bind_record now d r approver \<and> valid_decision d') \<and>
   bound_to (bind_record now d r approver) r \<and>
   dr_outcome (bind_record now d r approver) = dr_outcome d \<and>
   dr_decision_id (bind_record now d r approver) = dr_decision_id d \<and>
   dr_issued_at (bind_record now d r approver) = dr_issued_at d"
  by (simp add: bind_to_Inr_iff)

section \<open>Stores\<close>

text \<open>
  C9. Single use.  Starting from an empty table, whatever sequence of \<open>pending\<close>, \<open>decide\<close>,
  \<open>reserve\<close>, \<open>commit\<close> and \<open>release\<close> calls arrives, from however many callers, at most one \<open>commit\<close> for a
  request id hands out a decision that is not a denial.
\<close>

theorem approval_single_use:
  assumes "list_all op_ok ops"
  shows "length (filter (grants_commit rid) (snd (run_ops (sq_exec cfg) Map.empty ops))) \<le> 1"
proof -
  have "sq_inv cfg Map.empty" by (simp add: sq_inv_def tags_ok_def wf_items_def abs_table_def)
  then show ?thesis using assms by (rule sq.single_commit)
qed

definition sample_flow :: "approval_op list" where
  "sample_flow =
     [Pending 1 ''e1'' sample_request, Decide 2 ''r1'' sample_decision,
      Reserve 3 ''e2'' ''tok'' sample_request 50, Commit 4 ''e3'' sample_request ''tok'',
      Commit 5 ''e4'' sample_request ''tok'']"

theorem approval_single_use_witness:
  "list_all op_ok sample_flow \<and>
   length (filter (grants_commit ''r1'') (snd (run_ops (sq_exec sample_config) Map.empty sample_flow))) \<le> 1"
  using approval_single_use[of sample_flow "''r1''" sample_config] by (simp add: sample_flow_def)

lemma sq_run_simulates:
  assumes "sq_inv cfg t" "list_all op_ok ops"
  shows "abs_table (fst (run_ops (sq_exec cfg) t ops)) = fst (run_ops im_exec (abs_table t) (map (op_stored cfg) ops)) \<and>
    map snd (snd (run_ops (sq_exec cfg) t ops)) = map snd (snd (run_ops im_exec (abs_table t) (map (op_stored cfg) ops)))"
  using assms
proof (induction ops arbitrary: t)
  case (Cons c cs)
  then show ?case using sq_simulates[of cfg t c] sq_inv_exec[of cfg t c] by (simp add: split_beta Let_def)
qed simp

lemma abs_table_empty: "abs_table Map.empty = Map.empty"
  by (rule ext) (simp add: abs_table_def)

lemma sq_inv_empty: "sq_inv cfg Map.empty"
  by (simp add: sq_inv_def tags_ok_def abs_table_empty)

lemma im_stored: "validate_request now did (stored_request cfg r) r = Inr None"
  by (cases "ar_action_digest r") (simp_all add: validate_request_def)

text \<open>
  C26. An approval is granted.  A request that is recorded, decided by a decision that binds to it,
  reserved with a lease and committed before the lease, the decision and the request run out, with no
  other call in between, yields the bound decision.
\<close>

theorem approval_granted:
  assumes "bind_to t2 d r None = Inr b" "tok \<noteq> []" "0 < lease" "t4 < t3 + lease"
    and "\<not> is_expired (ar_expires_at r) t2" "\<not> is_expired (ar_expires_at r) t3" "\<not> is_expired (dr_expires_at b) t3"
  shows "map snd (snd (run_ops (sq_exec cfg) Map.empty
       [Pending t1 e1 r, Decide t2 (ar_request_id r) d, Reserve t3 e2 tok r lease, Commit t4 e3 r tok])) =
     [Done, Decided b, Reserved \<lparr>rv_decision = b, rv_token = Some tok\<rparr>, Decided b]"
proof -
  have "map snd (snd (run_ops im_exec Map.empty
       [Pending t1 e1 (stored_request cfg r), Decide t2 (ar_request_id r) d, Reserve t3 e2 tok r lease,
        Commit t4 e3 r tok])) =
     [Done, Decided b, Reserved \<lparr>rv_decision = b, rv_token = Some tok\<rparr>, Decided b]"
    using assms
    by (simp add: im_pending_def im_decide_def im_reserve_def im_commit_def out_of_def reservation_expired_def
        Let_def im_stored)
  then show ?thesis
    using sq_run_simulates[OF sq_inv_empty, of "[Pending t1 e1 r, Decide t2 (ar_request_id r) d,
        Reserve t3 e2 tok r lease, Commit t4 e3 r tok]" cfg] assms(2) by (simp add: abs_table_empty)
qed

lemma sample_binds:
  "bind_to 2 sample_decision sample_request None = Inr (bind_record 2 sample_decision sample_request None)"
  by (simp add: bind_to_Inr_iff bind_compatible_def valid_decision_iff sample_decision_def sample_request_def
      fresh_decision_def bind_record_def or_str_def truthy_def IDENTIFIER_def ident_like_def is_digest_def
      is_blank_def risk_tier_names_def is_expired_def char_class_defs list_all_iff)

lemma sample_sel [simp]:
  "ar_request_id sample_request = ''r1''" "ar_expires_at sample_request = Some 1000"
  "dr_expires_at (bind_record 2 sample_decision sample_request None) = Some 1000"
  "ar_action_digest sample_request = None"
  by (simp_all add: sample_request_def sample_decision_def bind_record_def fresh_decision_def is_expired_def)

theorem approval_granted_witness:
  "bind_to 2 sample_decision sample_request None = Inr (bind_record 2 sample_decision sample_request None) \<and>
   map snd (snd (run_ops (sq_exec sample_config) Map.empty
       [Pending 1 ''e1'' sample_request, Decide 2 ''r1'' sample_decision,
        Reserve 3 ''e2'' ''tok'' sample_request 50, Commit 4 ''e3'' sample_request ''tok''])) =
     [Done, Decided (bind_record 2 sample_decision sample_request None),
      Reserved \<lparr>rv_decision = bind_record 2 sample_decision sample_request None, rv_token = Some ''tok''\<rparr>,
      Decided (bind_record 2 sample_decision sample_request None)]"
  using approval_granted[OF sample_binds, of "''tok''" 50 4 3 sample_config 1 "''e1''" "''e2''" "''e3''"] sample_binds
  by (simp add: is_expired_def)

text \<open>
  C19. Lease exclusion.  Once a reservation of a request is handed out with a lease, no second
  reservation of that request is handed out before the lease has run out, as long as nobody commits or
  releases with the first token and no reservation is attempted after the deadline.
\<close>

theorem approval_lease_exclusive:
  assumes "sq_inv cfg t" "tok \<noteq> []" "list_all op_ok ops"
    and "snd (sq_exec cfg t (Reserve now did tok r lease)) = Reserved rv" "rv_token rv \<noteq> None"
    and "list_all (respects_lease (ar_request_id r) tok (now + lease)) ops"
    and "t' = fst (run_ops (sq_exec cfg) (fst (sq_exec cfg t (Reserve now did tok r lease))) ops)"
    and "ar_request_id r' = ar_request_id r"
    and "snd (sq_exec cfg t' (Reserve now' did' tok' r' lease')) = Reserved rv'" "rv_token rv' \<noteq> None"
  shows "now + lease \<le> now'"
  by (rule sq.lease_excludes[OF assms(1) _ assms(3-10)]) (use assms(2) in simp)

definition sample_decided :: approvals where
  "sample_decided = fst (run_ops (sq_exec sample_config) Map.empty
     [Pending 1 ''e1'' sample_request, Decide 2 ''r1'' sample_decision])"

lemmas sample_steps = sample_decided_def sample_binds sq_pending_def sq_decide_def sq_reserve_def sq_get_def
  sq_update_def out_of_def row_item_def row_payload_def is_expired_def reservation_expired_def im_stored
  sample_config_def record_tag_def truthy_def Let_def

theorem approval_lease_exclusive_witness:
  "snd (sq_exec sample_config sample_decided (Reserve 3 ''e2'' ''tok'' sample_request 50)) =
     Reserved \<lparr>rv_decision = bind_record 2 sample_decision sample_request None, rv_token = Some ''tok''\<rparr> \<and>
   snd (sq_exec sample_config
     (fst (run_ops (sq_exec sample_config)
       (fst (sq_exec sample_config sample_decided (Reserve 3 ''e2'' ''tok'' sample_request 50)))
       [Reserve 10 ''e4'' ''tok2'' sample_request 50]))
     (Reserve 60 ''e5'' ''tok3'' sample_request 50)) =
     Reserved \<lparr>rv_decision = bind_record 2 sample_decision sample_request None, rv_token = Some ''tok3''\<rparr> \<and>
   (3::int) + 50 \<le> 60"
proof -
  have inv: "sq_inv sample_config sample_decided"
    unfolding sample_decided_def by (rule sq.inv_run) (simp_all add: sq_inv_empty)
  have 1: "snd (sq_exec sample_config sample_decided (Reserve 3 ''e2'' ''tok'' sample_request 50)) =
     Reserved \<lparr>rv_decision = bind_record 2 sample_decision sample_request None, rv_token = Some ''tok''\<rparr>"
    by (simp add: sample_steps)
  have 2: "snd (sq_exec sample_config
     (fst (run_ops (sq_exec sample_config)
       (fst (sq_exec sample_config sample_decided (Reserve 3 ''e2'' ''tok'' sample_request 50)))
       [Reserve 10 ''e4'' ''tok2'' sample_request 50]))
     (Reserve 60 ''e5'' ''tok3'' sample_request 50)) =
     Reserved \<lparr>rv_decision = bind_record 2 sample_decision sample_request None, rv_token = Some ''tok3''\<rparr>"
    by (simp add: sample_steps)
  have "(3::int) + 50 \<le> 60"
    by (rule approval_lease_exclusive[OF inv _ _ 1 _ _ refl refl 2]) simp_all
  then show ?thesis using 1 2 by simp
qed

text \<open>
  C18. The SQLite store refines the in-memory store.  From an empty table, any sequence of operations
  gives the same results, exceptions included, as the in-memory store run on the requests the SQLite
  store persists, and the table it leaves reads as the in-memory store's items.
\<close>

theorem sqlite_refines_memory:
  assumes "list_all op_ok ops"
  shows "map snd (snd (run_ops (sq_exec cfg) Map.empty ops)) =
           map snd (snd (run_ops im_exec Map.empty (map (op_stored cfg) ops))) \<and>
         abs_table (fst (run_ops (sq_exec cfg) Map.empty ops)) =
           fst (run_ops im_exec Map.empty (map (op_stored cfg) ops))"
  using sq_run_simulates[OF sq_inv_empty assms] by (simp add: abs_table_empty)

theorem sqlite_refines_memory_witness:
  "list_all op_ok sample_flow \<and>
   map snd (snd (run_ops (sq_exec sample_config) Map.empty sample_flow)) =
     map snd (snd (run_ops im_exec Map.empty (map (op_stored sample_config) sample_flow)))"
  using sqlite_refines_memory[of sample_flow sample_config] by (simp add: sample_flow_def)




end
