(* ===== verification/GateTheorems.thy ===== *)
theory GateTheorems
  imports GateContract ExecutionTheorems ApprovalTheorems
begin

text \<open>
  The properties of the decision middleware in a runtime: one approval serves one execution.  The sample is a
  payment whose approval is decided and reserved in the SQLite store.
\<close>

section \<open>A sample payment\<close>

definition sample_gate_config :: "approvals decision_config" where
  "sample_gate_config =
     \<lparr>dc_provider = None, dc_store = None, dc_approval_ttl = 1000, dc_reservation_ttl = 50, dc_require_approver = True,
      dc_digest_arguments = (\<lambda>_. replicate 64 (CHR ''a'')), dc_str_other = (\<lambda>_. []),
      dc_clock = (\<lambda>n. \<lparr>ck_now = (\<lambda>_. 4), ck_monotonic = 4, ck_did = (\<lambda>_. ''e3''), ck_token = ''tok''\<rparr>)\<rparr>"

abbreviation bound_decision :: DecisionRecord where
  "bound_decision \<equiv> bind_record 2 sample_decision sample_request None"

definition reserved_gate :: "approvals decision_gate" where
  "reserved_gate =
     \<lparr>dg_store = fst (sq_exec sample_config sample_decided (Reserve 3 ''e2'' ''tok'' sample_request 50)),
      dg_reservations = [''t1'' \<mapsto> (sample_request, ''tok'', 53)], dg_calls = 0\<rparr>"

definition payment :: ExecutionContext where
  "payment = sample_context
     \<lparr>cx_trace_id := ''t1'', cx_request_id := ''r1'', cx_tool_call := \<lparr>tc_name = ''pay'', tc_args = [], tc_kwargs = []\<rparr>,
      cx_execution_mode := MUTATING, cx_risk_tier := HIGH, cx_requires_approval := True, cx_approval_granted := True,
      cx_approval_request_id := Some ''r1'', cx_approval_decision_id := Some ''d1'',
      cx_decision := Some bound_decision, cx_status := STATUS_EXECUTING\<rparr>"

definition committed_payment :: ExecutionContext where
  "committed_payment = append_history payment (history_entry 4 ''decision'' ''committed''
     ''approval consumed at execution boundary'' [(''request_id'', JStr ''r1'')])"

abbreviation payment_env :: "(approvals decision_gate \<times> unit) exec_env" where
  "payment_env \<equiv> (sample_with (Inr (JInt 7)))\<lparr>xe_approvers := [gate_approver (sqlite_gate sample_config sample_gate_config)]\<rparr>"

lemma bound_decision_valid: "validate_for 4 bound_decision sample_request = Inr ()"
proof -
  have "bind_to 4 bound_decision sample_request None = Inr (bind_record 4 bound_decision sample_request None)"
    by (simp add: bind_to_Inr_iff bind_compatible_def valid_decision_iff sample_decision_def sample_request_def
        fresh_decision_def bind_record_def or_str_def truthy_def IDENTIFIER_def ident_like_def is_digest_def
        is_blank_def risk_tier_names_def is_expired_def char_class_defs list_all_iff)
  then show ?thesis by (simp add: validate_for_def is_expired_def)
qed

lemma payment_ok: "ctx_ok payment" "\<not> denied payment" "cx_decision payment = Some bound_decision"
  by (simp_all add: payment_def sample_context_def ctx_ok_iff denied_def bind_record_def sample_decision_def fresh_decision_def)

lemma payment_committed_context: "committed_context (dc_clock sample_gate_config 0) payment sample_request bound_decision = Inr committed_payment"
proof -
  have a: "dr_outcome bound_decision = ALLOW" by (simp add: bind_record_def sample_decision_def fresh_decision_def)
  then have "with_decision payment bound_decision = Inr payment"
    by (simp add: with_decision_def evolve_def Let_def forbidden_fields_def post_init_ctx payment_ok payment_def sample_context_def ctx_ok_iff denied_def
        bind_record_def sample_decision_def fresh_decision_def)
  then show ?thesis using a by (simp add: committed_context_def committed_payment_def sample_gate_config_def)
qed

lemma payment_popped:
  "pop_reservation (dc_clock sample_gate_config 0) (cx_trace_id payment) (reserved_gate\<lparr>dg_calls := 1\<rparr>) =
     (reserved_gate\<lparr>dg_calls := 1, dg_reservations := Map.empty\<rparr>, Inr (Some (sample_request, ''tok'')))"
  by (auto simp: pop_reservation_def prune_expired_reservations_def sample_gate_config_def reserved_gate_def payment_def)

lemma payment_committed:
  "\<exists>g. commit_approval (sqlite_gate sample_config sample_gate_config) payment reserved_gate = (g, Inr committed_payment)"
proof -
  define cfg where "cfg = sqlite_gate sample_config sample_gate_config"
  define k where "k = dc_clock sample_gate_config 0"
  define g where "g = reserved_gate\<lparr>dg_calls := 1, dg_reservations := Map.empty\<rparr>"
  have k: "dc_clock cfg n = k" for n by (simp add: cfg_def k_def sqlite_gate_def sample_gate_config_def)
  have now: "ck_now k i = 4" "ck_did k i = ''e3''" for i by (simp_all add: k_def sample_gate_config_def)
  have store: "dc_store cfg = Some (sq_exec sample_config)" by (simp add: cfg_def)
  have "snd (sq_exec sample_config (dg_store g) (Commit 4 ''e3'' sample_request ''tok'')) = Decided bound_decision"
    by (simp add: g_def reserved_gate_def sample_steps sq_commit_def)
  then obtain st where st: "sq_exec sample_config (dg_store g) (Commit 4 ''e3'' sample_request ''tok'') = (st, Decided bound_decision)"
    by (metis prod.collapse)
  have com: "commit_decision cfg k payment sample_request ''tok'' g = (g\<lparr>dg_store := st\<rparr>, Inr bound_decision)"
    using st bound_decision_valid
    by (simp add: commit_decision_def store_commit_def store_call_def store now bindX_def payment_ok)
  have pop: "pop_reservation k (cx_trace_id payment) (reserved_gate\<lparr>dg_calls := Suc (dg_calls reserved_gate)\<rparr>) =
      (g, Inr (Some (sample_request, ''tok'')))"
    using payment_popped by (simp add: k_def g_def reserved_gate_def)
  have "commit_approval cfg payment reserved_gate = (g\<lparr>dg_store := st\<rparr>, Inr committed_payment)"
    unfolding commit_approval_def bind_readings k bindX_Inr[where m = "pop_reservation k (cx_trace_id payment)", OF pop]
    using com payment_committed_context
    by (simp add: store catchX_def bindX_def k_def)
  then show ?thesis unfolding cfg_def by blast
qed

lemma sample_with_now [simp]: "xe_now (sample_with x) n = int n"
  by (simp add: sample_with_def)

lemma committed_payment_fields [simp]:
  "cx_deadline committed_payment = None" "cx_bound_action committed_payment = None" "\<not> denied committed_payment"
  "cx_deadline payment = None" "cx_requires_approval committed_payment" "cx_request_id committed_payment = ''r1''"
  "\<not> idempotent_call payment"
  by (simp_all add: committed_payment_def payment_def sample_context_def append_history_def denied_def idempotent_call_def
      bind_record_def sample_decision_def fresh_decision_def)

lemma payment_bound: "now < 1000 \<Longrightarrow> has_bound_approval sample_runtime so now committed_payment"
  by (simp add: has_bound_approval_def committed_payment_def payment_def sample_context_def append_history_def
      bind_record_def sample_decision_def sample_request_def fresh_decision_def is_expired_def sample_runtime_def
      metadata_text_def or_str_def truthy_def)

lemma payment_gate:
  assumes "now < 1000"
  shows "execute_gate sample_runtime so now did committed_payment committed_payment = Inr (Admitted committed_payment)"
proof -
  have "validate_middleware_transition (rt_ident sample_runtime) committed_payment committed_payment EXECUTION = Inr committed_payment"
    by (simp add: sample_eval sample_context_def governance_state_eq_def committed_payment_def payment_def append_history_def
        HistoryEntry_eq_def history_entry_def dict_eq_def)
  moreover have "enforce_required_approval sample_runtime so now did committed_payment = Inr committed_payment"
    using payment_bound[OF assms] by (simp add: enforce_required_approval_def)
  ultimately show ?thesis by (simp add: execute_gate_def admission_of_def)
qed

lemma payment_commits:
  "\<exists>s. commit_and_enforce payment_env (start_state (reserved_gate, ()) payment) = (s, Inr committed_payment) \<and>
     xs_ctx s = committed_payment \<and> xs_tick s = 2"
proof -
  obtain g where g: "commit_approval (sqlite_gate sample_config sample_gate_config) payment reserved_gate = (g, Inr committed_payment)"
    using payment_committed by blast
  let ?s = "start_state (reserved_gate, ()) payment"
  have "commit_approvals payment_env payment ?s = (?s\<lparr>xs_world := (g, ()), xs_tick := 1\<rparr>, Inr committed_payment)"
    using g by (simp add: commit_approvals_def run_defs start_state_def gate_approver_def on_gate_def
        sample_runtime_def[THEN arg_cong, of rt_overrun] sample_runtime_def[THEN arg_cong, of rt_middleware_timeout])
  moreover have "enforce_approval payment_env committed_payment s = (s\<lparr>xs_tick := Suc (xs_tick s)\<rparr>, Inr committed_payment)"
    if "xs_tick s = 1" for s
    using payment_bound[of 1] that by (simp add: enforce_approval_def enforce_required_approval_def run_defs)
  ultimately show ?thesis
    by (simp add: commit_and_enforce_def bindX_Inr set_ctx_def emit_def start_state_def)
qed

lemma payment_tool:
  "xs_tick s = 2 \<Longrightarrow> with_deadline payment_env committed_payment s =
     (s\<lparr>xs_tick := 4, xs_started := True, xs_trace := Started committed_payment # xs_trace s\<rparr>, Inr (committed_payment, JInt 7))"
  by (simp add: with_deadline_def execute_tool_def payment_gate revalidate_bound_action_def invoke_tool_def
      bind_tick checked_bind bounded_timeout_def staged_def sample_runtime_def[THEN arg_cong, of rt_overrun] bindX_Inr)

lemma payment_starts: "Started committed_payment \<in> set (xs_trace (fst (run_execution payment_env (start_state (reserved_gate, ()) payment))))"
proof -
  let ?P = "\<lambda>s. Started committed_payment \<in> set (xs_trace s)" and ?s = "start_state (reserved_gate, ()) payment"
  obtain s1 where s1: "commit_and_enforce payment_env ?s = (s1, Inr committed_payment)" "xs_ctx s1 = committed_payment" "xs_tick s1 = 2"
    using payment_commits by blast
  let ?s2 = "s1\<lparr>xs_tick := 4, xs_started := True, xs_trace := Started committed_payment # xs_trace s1\<rparr>"
  define fin :: "bool \<times> json \<Rightarrow> (approvals decision_gate \<times> unit, json \<times> ExecutionContext) xprog" where
    "fin = (\<lambda>(cached, v). if cached then bindX (getX xs_ctx) (\<lambda>c. returnX (v, c)) else finish_success payment_env v)"
  have run: "run_execution payment_env ?s = bindX (catchX (run_body payment_env) (handle_exception payment_env)) fin ?s"
    by (simp add: run_execution_def fin_def)
  have "run_body payment_env ?s = bindX (accept_result payment_env committed_payment (JInt 7)) (\<lambda>v. returnX (False, v)) ?s2"
    using s1 by (simp add: run_body_def bindX_Inr execute_and_complete_def payment_tool bindX_assoc) (simp add: start_state_def)
  moreover have "keeps (on_trace (\<lambda>t. Started committed_payment \<in> set t))
      (bindX (accept_result payment_env committed_payment (JInt 7)) (\<lambda>v. returnX (False, v)))"
    unfolding accept_result_def
    by (intro keeps_bindX[of _ "modX f" for f] keeps_intros adds_keeps[OF adds_accept_rest]) (auto simp: on_trace_def)
  from keepsD[OF this, of ?s2]
  have "?P (fst (bindX (accept_result payment_env committed_payment (JInt 7)) (\<lambda>v. returnX (False, v)) ?s2))"
    by (simp add: on_trace_def)
  ultimately have body: "?P (fst (run_body payment_env ?s))" by simp
  have "?P (fst (catchX (run_body payment_env) (handle_exception payment_env) ?s))"
  proof (rule catchX_end[where P = ?P])
    show "?P s" if "run_body payment_env ?s = (s, Inr a)" for s a using body that by simp
    show "?P (fst (handle_exception payment_env e s))" if "run_body payment_env ?s = (s, Inl e)" for s e
      by (rule extends_mem[OF addsD[OF adds_handle]]) (use body that in simp)
  qed
  moreover have "adds (range Observing) (fin x)" for x
    unfolding fin_def by (cases x) (auto intro!: adds_intros adds_success)
  ultimately show ?thesis
    unfolding run
  proof (intro bindX_end[where P = ?P])
    fix s x assume "catchX (run_body payment_env) (handle_exception payment_env) ?s = (s, Inr x)"
      "?P (fst (catchX (run_body payment_env) (handle_exception payment_env) ?s))" "\<And>x. adds (range Observing) (fin x)"
    then show "?P (fst (fin x s))" using extends_mem[OF addsD] by fastforce
  qed
qed

section \<open>One approval, one execution\<close>

text \<open>
  C1. One approval serves one execution.  Take any sequence of steps on a database of approvals: calls asking for a
  decision, uses of the store by anybody, movements of the rest of the world, and executions of admitted calls
  by runtimes whose only approver is the decision middleware.  Then at most one execution starts its tool with a
  context that requires an approval and belongs to a given request, however the executions end and whatever their
  other services do, as long as these leave the middleware and its store alone and reservation tokens are not
  empty.  An execution is one step of the sequence; retries of the tool inside it count once.
\<close>

theorem one_approval_one_start:
  assumes "clocks_ok cfg" "sq_inv sq (dg_store g)" "list_all gate_step_ok steps"
  shows "length (filter (starts_approved rid) (run_steps (map (as_step sq cfg) steps) (g, v))) \<le> 1"
  by (rule approved_starts[OF assms])

theorem one_approval_one_start_witness:
  "length (filter (starts_approved ''r1'')
     (run_steps (map (as_step sample_config sample_gate_config)
        [Execute (sample_with (Inr (JInt 7))) payment, Ask payment, Execute (sample_with (Inr (JInt 7))) payment])
        (reserved_gate, ()))) = 1"
proof -
  let ?steps = "[Execute (sample_with (Inr (JInt 7))) payment, Ask payment, Execute (sample_with (Inr (JInt 7))) payment] :: unit gate_step list"
  let ?l = "run_steps (map (as_step sample_config sample_gate_config) ?steps) (reserved_gate, ())"
  have "services_keep (\<lambda>w t. fst w = g) (sample_with (Inr (JInt 7)) :: (approvals decision_gate \<times> unit) exec_env)" for g
    by (simp add: services_keep_def moves_def sample_with_def)
  then have ok: "list_all gate_step_ok ?steps" by simp
  have inv: "sq_inv sample_config (dg_store reserved_gate)"
  proof -
    have "sq_inv sample_config sample_decided"
      unfolding sample_decided_def by (rule sq.inv_run) (simp_all add: sq_inv_empty)
    then show ?thesis unfolding reserved_gate_def by (simp add: sq.inv_ex del: sq_exec.simps)
  qed
  have "length (filter (starts_approved ''r1'') ?l) \<le> 1"
    by (rule one_approval_one_start[OF _ inv ok]) (simp add: clocks_ok_def sample_gate_config_def)
  moreover have "\<exists>t ts. ?l = t # ts \<and> starts_approved ''r1'' t"
  proof -
    obtain s r where run: "run_execution payment_env (start_state (reserved_gate, ()) payment) = (s, r)"
      by (cases "run_execution payment_env (start_state (reserved_gate, ()) payment)")
    then have "Started committed_payment \<in> set (xs_trace s)" using payment_starts by simp
    then have "starts_approved ''r1'' (xs_trace s)" by (force simp: starts_approved_def list_ex_iff)
    then show ?thesis using run by simp
  qed
  then obtain t ts where "?l = t # ts" "starts_approved ''r1'' t" by blast
  ultimately show ?thesis by simp
qed

end
