(* ===== verification/LedgerContract.thy ===== *)
theory LedgerContract
  imports Ledger
begin

text \<open>
  What a reconciliation ledger promises about one execution record, as a step relation on its head and
  its event history; the invariants every reachable entry has; and the proof that each operation of
  the in-memory ledger takes such steps.
\<close>

section \<open>The entry state machine\<close>

type_synonym entry = "Head \<times> Record list"

definition kind_matches :: "Record \<Rightarrow> bool" where
  "kind_matches r \<longleftrightarrow>
     (case rc_payload r of
        StartPayload _ _ _ _ \<Rightarrow> rc_kind r = ATTEMPT_STARTED
      | FinishPayload _ _ _ _ _ \<Rightarrow> rc_kind r = ATTEMPT_FINISHED
      | TransitionPayload _ \<Rightarrow> rc_kind r = STATE_TRANSITION)"

text \<open>
  Where a transition comes from: a provider transition has a recorded successful attempt with the same
  finding and leaves \<open>UNKNOWN\<close>; a manual one is signed by an operator and leaves \<open>MANUAL_REVIEW\<close>; a
  recovery enters \<open>MANUAL_REVIEW\<close>.
\<close>

definition attested :: "Record list \<Rightarrow> Transition \<Rightarrow> bool" where
  "attested rs t \<longleftrightarrow>
     (\<exists>r\<in>set rs. \<exists>a p f g e. rc_payload r = FinishPayload a p SUCCESS (Some g) e \<and>
        tn_attempt_id t = Some a \<and> tn_provider_id t = Some p \<and>
        py_eq (=) (thaw (JObj (Finding_to_dict g))) (JObj (Finding_to_dict f)) \<and>
        fi_proposed_state f = tn_new_state t \<and> fi_evidence_kind f = tn_evidence_kind t \<and>
        fi_retry_safe f = tn_retry_safe t)"

definition justified :: "Record list \<Rightarrow> Transition \<Rightarrow> bool" where
  "justified rs t \<longleftrightarrow>
     (case tn_source t of
        PROVIDER \<Rightarrow> tn_expected_state t = UNKNOWN \<and> attested rs t
      | MANUAL \<Rightarrow> tn_expected_state t = MANUAL_REVIEW \<and> tn_operator_identity_digest t \<noteq> None \<and> tn_reason t \<noteq> None
      | RECOVERY \<Rightarrow> tn_expected_state t = UNKNOWN \<and> tn_new_state t = MANUAL_REVIEW) \<and>
     (tn_retry_safe t \<longleftrightarrow> tn_new_state t = CONFIRMED_NOT_APPLIED) \<and>
     (tn_result_available t \<longrightarrow> tn_new_state t = CONFIRMED_SUCCEEDED)"

inductive entry_step :: "string \<Rightarrow> entry option \<Rightarrow> entry option \<Rightarrow> bool" for eid where
  create: "ua_execution_record_id a = eid \<Longrightarrow> entry_step eid None (Some (unknown_head a t, []))"
| attempt: "\<lbrakk>is_attempt r; kind_matches r; rc_execution_record_id r = eid;
     rc_revision r = hd_revision h + 1; rc_state_before r = hd_state h; rc_state_after r = hd_state h;
     rc_kind r = ATTEMPT_STARTED \<Longrightarrow> hd_state h = UNKNOWN;
     validate_attempt_append (filter is_attempt rs) (rc_kind r) (rc_payload r) = Inr ()\<rbrakk>
   \<Longrightarrow> entry_step eid (Some (h, rs))
         (Some (h\<lparr>hd_revision := hd_revision h + 1, hd_updated_at := rc_occurred_at r\<rparr>, rs @ [r]))"
| transit: "\<lbrakk>rc_kind r = STATE_TRANSITION; rc_payload r = TransitionPayload t;
     rc_execution_record_id r = eid; rc_revision r = hd_revision h + 1;
     rc_state_before r = hd_state h; rc_state_after r = tn_new_state t;
     tn_expected_state t = hd_state h; legal_transition (hd_state h) (tn_new_state t); justified rs t\<rbrakk>
   \<Longrightarrow> entry_step eid (Some (h, rs))
         (Some (\<lparr>hd_action = hd_action h, hd_state = tn_new_state t, hd_revision = hd_revision h + 1,
                 hd_disposition = disposition_of (tn_new_state t) (tn_result_available t),
                 hd_updated_at = rc_occurred_at r, hd_result_available = tn_result_available t,
                 hd_result = tn_result t\<rparr>, rs @ [r]))"

abbreviation entry_steps :: "string \<Rightarrow> entry option \<Rightarrow> entry option \<Rightarrow> bool" where
  "entry_steps eid \<equiv> (entry_step eid)\<^sup>*\<^sup>*"

inductive_cases entry_step_Some: "entry_step eid (Some e) e'"

section \<open>Invariants of reachable entries\<close>

fun replay :: "ReconciliationState \<Rightarrow> Record list \<Rightarrow> ReconciliationState option" where
  "replay s [] = Some s"
| "replay s (r # rs) =
     (if rc_state_before r \<noteq> s then None
      else if is_attempt r then (if rc_state_after r = s then replay s rs else None)
      else if legal_transition s (rc_state_after r) then replay (rc_state_after r) rs
      else None)"

lemma replay_append: "replay s (rs @ [r]) = (case replay s rs of None \<Rightarrow> None | Some s' \<Rightarrow> replay s' [r])"
  by (induction s rs rule: replay.induct) auto

definition numbered :: "string \<Rightarrow> Record list \<Rightarrow> bool" where
  "numbered eid rs \<longleftrightarrow> (\<forall>i<length rs. rc_revision (rs ! i) = int i + 1 \<and> rc_execution_record_id (rs ! i) = eid)"

lemma numbered_append:
  "numbered eid (rs @ [r]) \<longleftrightarrow>
     numbered eid rs \<and> rc_revision r = int (length rs) + 1 \<and> rc_execution_record_id r = eid"
  by (auto simp: numbered_def nth_append less_Suc_eq)

declare scan_step.simps [simp del]

lemma scan_records_append:
  "scan_records s (rs @ [r]) = bindR (scan_records s rs) (\<lambda>s'. scan_step s' r)"
proof (induction rs arbitrary: s)
  case Nil
  show ?case by (cases "scan_step s r") simp_all
next
  case (Cons x rs)
  then show ?case by (cases "scan_step s x") simp_all
qed

text \<open>The attempt bookkeeping: the scan succeeds, and at most one start is unmatched.\<close>

definition open_starts :: "scan \<Rightarrow> (string \<times> Record) list" where
  "open_starts s = filter (\<lambda>(a, r). a \<notin> set (snd s)) (fst s)"

definition attempts_ok :: "Record list \<Rightarrow> bool" where
  "attempts_ok rs \<longleftrightarrow>
     (\<exists>s. scan_records ([], []) (filter is_attempt rs) = Inr s \<and> length (open_starts s) \<le> 1 \<and>
        distinct (map fst (fst s)) \<and> set (snd s) \<subseteq> fst ` set (fst s) \<and>
        (\<forall>a. a \<in> fst ` set (fst s) \<longleftrightarrow>
           (\<exists>r\<in>set rs. rc_kind r = ATTEMPT_STARTED \<and> payload_attempt (rc_payload r) = Some a)) \<and>
        (\<forall>a. a \<in> set (snd s) \<longleftrightarrow>
           (\<exists>r\<in>set rs. rc_kind r = ATTEMPT_FINISHED \<and> payload_attempt (rc_payload r) = Some a)))"

lemma attempts_ok_Nil: "attempts_ok []"
  by (auto simp: attempts_ok_def open_starts_def)

lemma kind_matches_attempt:
  "kind_matches r \<Longrightarrow> is_attempt r \<Longrightarrow> \<exists>a. payload_attempt (rc_payload r) = Some a"
  by (auto simp: kind_matches_def is_attempt_def split: payload.splits)

lemma attempts_ok_start:
  assumes ok: "attempts_ok rs" and r: "rc_kind r = ATTEMPT_STARTED" "kind_matches r"
    and v: "validate_attempt_append (filter is_attempt rs) ATTEMPT_STARTED (rc_payload r) = Inr ()"
  shows "attempts_ok (rs @ [r])"
proof -
  have att: "is_attempt r" using r by (simp add: is_attempt_def)
  obtain a where a: "payload_attempt (rc_payload r) = Some a" using kind_matches_attempt[OF r(2) att] by blast
  obtain st fin where s: "scan_records ([], []) (filter is_attempt rs) = Inr (st, fin)"
      "distinct (map fst st)" "set fin \<subseteq> fst ` set st"
    and S: "\<And>a. a \<in> fst ` set st \<longleftrightarrow>
           (\<exists>r\<in>set rs. rc_kind r = ATTEMPT_STARTED \<and> payload_attempt (rc_payload r) = Some a)"
    and F: "\<And>a. a \<in> set fin \<longleftrightarrow>
           (\<exists>r\<in>set rs. rc_kind r = ATTEMPT_FINISHED \<and> payload_attempt (rc_payload r) = Some a)"
    using ok unfolding attempts_ok_def by auto
  have fresh: "x \<in> set rs \<Longrightarrow> is_attempt x \<Longrightarrow> payload_attempt (rc_payload x) \<noteq> Some a" for x
    using v a by (auto simp: validate_attempt_append_def Let_def filter_empty_conv split: if_splits)
  have opn: "open_starts (st, fin) = []"
    using v s(1) by (auto simp: validate_attempt_append_def Let_def unmatched_attempt_start_records_def
        bindR_eq_Inr raise_if_def open_starts_def split: if_splits)
  have notin: "a \<notin> fst ` set st" using S fresh by (auto simp: is_attempt_def)
  then have notfin: "a \<notin> set fin" using s(3) by blast
  have scan: "scan_records ([], []) (filter is_attempt (rs @ [r])) = Inr (st @ [(a, r)], fin)"
    using s(1) att a r notin by (simp add: scan_records_append scan_step.simps)
  show ?thesis
    unfolding attempts_ok_def
  proof (intro exI conjI allI)
    show "length (open_starts (st @ [(a, r)], fin)) \<le> 1"
      using opn by (simp add: open_starts_def)
  qed (use scan s notin notfin S F a r in \<open>auto\<close>)
qed

lemma attempts_ok_finish:
  assumes ok: "attempts_ok rs" and r: "rc_kind r = ATTEMPT_FINISHED" "kind_matches r"
    and v: "validate_attempt_append (filter is_attempt rs) ATTEMPT_FINISHED (rc_payload r) = Inr ()"
  shows "attempts_ok (rs @ [r])"
proof -
  have att: "is_attempt r" using r by (simp add: is_attempt_def)
  obtain a where a: "payload_attempt (rc_payload r) = Some a" using kind_matches_attempt[OF r(2) att] by blast
  obtain st fin where s: "scan_records ([], []) (filter is_attempt rs) = Inr (st, fin)"
      "distinct (map fst st)" "set fin \<subseteq> fst ` set st" "length (open_starts (st, fin)) \<le> 1"
    and S: "\<And>a. a \<in> fst ` set st \<longleftrightarrow>
           (\<exists>r\<in>set rs. rc_kind r = ATTEMPT_STARTED \<and> payload_attempt (rc_payload r) = Some a)"
    and F: "\<And>a. a \<in> set fin \<longleftrightarrow>
           (\<exists>r\<in>set rs. rc_kind r = ATTEMPT_FINISHED \<and> payload_attempt (rc_payload r) = Some a)"
    using ok unfolding attempts_ok_def by auto
  let ?m = "filter (\<lambda>x. payload_attempt (rc_payload x) = Some a) (filter is_attempt rs)"
  have one: "length (filter (\<lambda>x. rc_kind x = ATTEMPT_STARTED) ?m) = 1"
      and fins: "filter (\<lambda>x. rc_kind x = ATTEMPT_FINISHED) ?m = []"
    using v a by (auto simp: validate_attempt_append_def Let_def split: if_splits)
  have none: "x \<in> set rs \<Longrightarrow> rc_kind x = ATTEMPT_FINISHED \<Longrightarrow> payload_attempt (rc_payload x) \<noteq> Some a" for x
    using fins by (auto simp: filter_empty_conv is_attempt_def)
  have "filter (\<lambda>x. rc_kind x = ATTEMPT_STARTED) ?m \<noteq> []" using one by force
  then obtain x where "x \<in> set rs" "rc_kind x = ATTEMPT_STARTED" "payload_attempt (rc_payload x) = Some a"
    by (auto simp: filter_empty_conv)
  then have isin: "a \<in> fst ` set st" using S by blast
  have notfin: "a \<notin> set fin" using F none by blast
  have scan: "scan_records ([], []) (filter is_attempt (rs @ [r])) = Inr (st, fin @ [a])"
    using s(1) att a r isin notfin by (simp add: scan_records_append scan_step.simps)
  have "length (open_starts (xs, fin @ [a])) \<le> length (open_starts (xs, fin))" for xs
    by (induction xs) (auto simp: open_starts_def)
  from this[of st] have le: "length (open_starts (st, fin @ [a])) \<le> 1" using s(4) by simp
  show ?thesis
    unfolding attempts_ok_def
    by (intro exI[of _ "(st, fin @ [a])"] conjI allI) (use scan le s isin S F a r in \<open>auto\<close>)
qed

lemma attempts_ok_transition:
  "attempts_ok rs \<Longrightarrow> rc_kind r = STATE_TRANSITION \<Longrightarrow> attempts_ok (rs @ [r])"
  by (auto simp: attempts_ok_def is_attempt_def)

text \<open>Every transition of a history is justified by the records before it.\<close>

definition transitions_justified :: "Record list \<Rightarrow> bool" where
  "transitions_justified rs \<longleftrightarrow>
     (\<forall>i<length rs. \<forall>t. rc_payload (rs ! i) = TransitionPayload t \<longrightarrow>
        justified (take i rs) t \<and> tn_new_state t = rc_state_after (rs ! i))"

lemma transitions_justified_append:
  "transitions_justified (rs @ [r]) \<longleftrightarrow> transitions_justified rs \<and>
     (\<forall>t. rc_payload r = TransitionPayload t \<longrightarrow> justified rs t \<and> tn_new_state t = rc_state_after r)"
  by (auto simp: transitions_justified_def nth_append less_Suc_eq)

definition entry_inv :: "string \<Rightarrow> entry \<Rightarrow> bool" where
  "entry_inv eid = (\<lambda>(h, rs).
     ua_execution_record_id (hd_action h) = eid \<and>
     hd_revision h = int (length rs) \<and>
     numbered eid rs \<and>
     replay UNKNOWN rs = Some (hd_state h) \<and>
     hd_disposition h = disposition_of (hd_state h) (hd_result_available h) \<and>
     (hd_result_available h \<longrightarrow> hd_state h = CONFIRMED_SUCCEEDED) \<and>
     list_all kind_matches rs \<and>
     attempts_ok rs \<and>
     transitions_justified rs)"

lemma entry_inv_step:
  assumes "entry_step eid e e'" "\<And>x. e = Some x \<Longrightarrow> entry_inv eid x" "e' = Some y"
  shows "entry_inv eid y"
  using assms
proof (cases rule: entry_step.cases)
  case (create a t)
  then show ?thesis using assms(3)
    by (auto simp: entry_inv_def unknown_head_def numbered_def disposition_of_def attempts_ok_Nil
        transitions_justified_def)
next
  case (attempt r h rs)
  then have inv: "entry_inv eid (h, rs)" using assms(2) by blast
  have ok: "attempts_ok (rs @ [r])"
    using attempt inv attempts_ok_start[of rs r] attempts_ok_finish[of rs r]
    by (auto simp: is_attempt_def entry_inv_def)
  have "\<nexists>t. rc_payload r = TransitionPayload t"
    using attempt(3,4) by (auto simp: kind_matches_def is_attempt_def)
  then show ?thesis using attempt inv ok assms(3)
    by (auto simp: entry_inv_def numbered_append replay_append transitions_justified_append)
next
  case (transit r t h rs)
  then have inv: "entry_inv eid (h, rs)" using assms(2) by blast
  have ok: "attempts_ok (rs @ [r])"
    using transit inv attempts_ok_transition by (auto simp: entry_inv_def)
  have na: "\<not> is_attempt r" using transit(3) by (simp add: is_attempt_def)
  have km: "kind_matches r" using transit(3,4) by (simp add: kind_matches_def)
  have "tn_result_available t \<longrightarrow> tn_new_state t = CONFIRMED_SUCCEEDED"
    using transit(11) by (simp add: justified_def)
  then show ?thesis using transit inv ok na km assms(3)
    by (auto simp: entry_inv_def numbered_append replay_append transitions_justified_append)
qed

lemma entry_inv_steps:
  assumes "entry_steps eid e e'" "\<And>x. e = Some x \<Longrightarrow> entry_inv eid x"
  shows "e' = Some y \<Longrightarrow> entry_inv eid y"
  using assms by (induction arbitrary: y) (use entry_inv_step in blast)+

section \<open>What reachable entries never lose\<close>

definition confirmed :: "ReconciliationState \<Rightarrow> bool" where
  "confirmed s \<longleftrightarrow> s \<in> {CONFIRMED_SUCCEEDED, CONFIRMED_NOT_APPLIED}"

definition same_verdict :: "Head \<Rightarrow> Head \<Rightarrow> bool" where
  "same_verdict h h' \<longleftrightarrow> hd_state h' = hd_state h \<and> hd_disposition h' = hd_disposition h \<and>
     hd_result_available h' = hd_result_available h \<and> hd_result h' = hd_result h"

definition entry_extends :: "entry \<Rightarrow> entry \<Rightarrow> bool" where
  "entry_extends e e' \<longleftrightarrow>
     (\<exists>rs. snd e' = snd e @ rs) \<and> hd_action (fst e') = hd_action (fst e) \<and>
     (confirmed (hd_state (fst e)) \<longrightarrow> same_verdict (fst e) (fst e'))"

lemma entry_extends_refl: "entry_extends e e"
  by (simp add: entry_extends_def same_verdict_def)

lemma entry_extends_trans: "entry_extends a b \<Longrightarrow> entry_extends b c \<Longrightarrow> entry_extends a c"
  unfolding entry_extends_def same_verdict_def by auto

lemma legal_not_confirmed: "legal_transition s t \<Longrightarrow> \<not> confirmed s"
  by (cases s) (auto simp: legal_transition_def confirmed_def)

lemma entry_step_extends: "entry_step eid (Some e) e' \<Longrightarrow> \<exists>y. e' = Some y \<and> entry_extends e y"
  by (erule entry_step_Some) (auto simp: entry_extends_def same_verdict_def dest: legal_not_confirmed)

lemma entry_steps_extends:
  assumes "entry_steps eid (Some e) e'"
  shows "\<exists>y. e' = Some y \<and> entry_extends e y"
  using assms
proof (induction rule: rtranclp_induct)
  case base
  show ?case by (auto intro: entry_extends_refl)
next
  case (step b c)
  then show ?case using entry_step_extends entry_extends_trans by blast
qed

lemma replay_unknown_start: "replay s rs = Some UNKNOWN \<Longrightarrow> s = UNKNOWN"
proof (induction s rs rule: replay.induct)
  case (2 s r rs)
  then show ?case by (auto simp: legal_transition_def split: if_splits ReconciliationState.splits)
qed simp

lemma replay_unknown: "replay s rs = Some UNKNOWN \<Longrightarrow> list_all is_attempt rs"
proof (induction s rs rule: replay.induct)
  case (2 s r rs)
  have "\<not> legal_transition s' UNKNOWN" for s' by (cases s') (auto simp: legal_transition_def)
  then show ?case using 2 replay_unknown_start by (fastforce split: if_splits)
qed simp

section \<open>The in-memory ledger takes entry steps\<close>

definition view :: "ledger \<Rightarrow> string \<Rightarrow> entry option" where
  "view l eid = (case (lg_heads l eid, lg_events l eid) of (Some h, Some rs) \<Rightarrow> Some (h, rs) | _ \<Rightarrow> None)"

definition lg_inv :: "recon_env \<Rightarrow> ledger \<Rightarrow> bool" where
  "lg_inv env l \<longleftrightarrow>
     (\<forall>eid. (lg_heads l eid = None) = (lg_events l eid = None)) \<and>
     (\<forall>eid e. view l eid = Some e \<longrightarrow> entry_inv eid e \<and> Head_post_init env (fst e) = Inr (fst e))"

lemma lg_inv_empty: "lg_inv env empty_ledger"
  by (simp add: lg_inv_def empty_ledger_def view_def)

lemma view_head:
  assumes "lg_inv env l" "lg_heads l eid = Some h"
  obtains rs where "view l eid = Some (h, rs)" "lg_events l eid = Some rs"
proof -
  have "(lg_heads l eid = None) = (lg_events l eid = None)" using assms(1) by (simp add: lg_inv_def)
  then show ?thesis using assms(2) that by (auto simp: view_def)
qed

text \<open>
  A ledger operation is sound when it keeps the invariant and moves every entry by entry steps.
\<close>

definition sound_step :: "recon_env \<Rightarrow> ledger \<Rightarrow> ledger \<Rightarrow> bool" where
  "sound_step env l l' \<longleftrightarrow> lg_inv env l' \<and> (\<forall>eid. entry_steps eid (view l eid) (view l' eid))"

lemma sound_refl: "lg_inv env l \<Longrightarrow> sound_step env l l"
  by (simp add: sound_step_def)

lemma sound_trans: "sound_step env a b \<Longrightarrow> sound_step env b c \<Longrightarrow> sound_step env a c"
  unfolding sound_step_def by (meson rtranclp_trans)

lemma sound_update:
  assumes inv: "lg_inv env l" and step: "entry_step eid (view l eid) (Some (h, rs))"
    and hd: "Head_post_init env h = Inr h"
    and l': "lg_heads l' = (lg_heads l)(eid \<mapsto> h)" "lg_events l' = (lg_events l)(eid \<mapsto> rs)"
  shows "sound_step env l l'"
proof -
  have v: "view l' = (view l)(eid \<mapsto> (h, rs))" using l' by (auto simp: view_def)
  have "entry_inv eid (h, rs)"
    using entry_inv_step[OF step] inv by (auto simp: lg_inv_def)
  then have "lg_inv env l'" using inv l' v hd by (auto simp: lg_inv_def)
  moreover have "entry_steps i (view l i) (view l' i)" for i
    using step v by (cases "i = eid") auto
  ultimately show ?thesis by (simp add: sound_step_def)
qed

lemma prepare_sound:
  "lg_inv env l \<Longrightarrow> lg_prepare_action env l c a = (l', r) \<Longrightarrow> sound_step env l l'"
  by (auto simp: lg_prepare_action_def sound_step_def lg_inv_def view_def
      split: sum.splits option.splits if_splits)

lemma unknown_head_built: "Head_post_init env (unknown_head a t) = Inr (unknown_head a t)"
  by (simp add: Head_post_init_def unknown_head_def bounded_result_def raise_if_def)

lemma create_sound:
  assumes "lg_inv env l" "lg_create_unknown env l a = (l', r)"
  shows "sound_step env l l'"
proof (cases "lg_heads l (ua_execution_record_id a)")
  case None
  then have "view l (ua_execution_record_id a) = None" by (simp add: view_def)
  moreover have "lg_heads l' = (lg_heads l)(ua_execution_record_id a \<mapsto> unknown_head a (ua_attempted_at a))"
      "lg_events l' = (lg_events l)(ua_execution_record_id a \<mapsto> [])"
    using assms(2) None by (auto simp: lg_create_unknown_def Let_def unknown_head_built)
  ultimately show ?thesis
    by (intro sound_update[OF assms(1)]) (auto simp: unknown_head_built intro: entry_step.create)
next
  case (Some h)
  then show ?thesis using assms by (auto simp: lg_create_unknown_def Let_def intro: sound_refl)
qed

lemma Head_post_init_Inr:
  "Head_post_init env h = Inr h' \<longleftrightarrow>
     0 \<le> hd_revision h \<and>
     (\<exists>v. bounded_result env (nat (ua_max_result_bytes (hd_action h))) (hd_result_available h) (hd_result h) = Inr v \<and>
        h' = h\<lparr>hd_result := v\<rparr>)"
  by (auto simp: Head_post_init_def bindR_eq_Inr raise_if_def)

lemma advanced_head_built:
  assumes "Head_post_init env h = Inr h" "rc_revision r = hd_revision h + 1"
  defines "h' \<equiv> h\<lparr>hd_revision := hd_revision h + 1, hd_updated_at := rc_occurred_at r\<rparr>"
  shows "advanced_head env h r = Inr h'" and "Head_post_init env h' = Inr h'"
proof -
  have "bounded_result env (nat (ua_max_result_bytes (hd_action h))) (hd_result_available h) (hd_result h)
          = Inr (hd_result h)" "0 \<le> hd_revision h"
    using assms(1) unfolding Head_post_init_Inr by (cases h; auto)+
  then show "advanced_head env h r = Inr h'" "Head_post_init env h' = Inr h'"
    unfolding advanced_head_def Head_post_init_Inr using assms(2) by (auto simp: h'_def)
qed

lemma attempt_payload_kind:
  "kind_matches r \<Longrightarrow> payload_attempt (rc_payload r) = Some a \<Longrightarrow> is_attempt r"
  by (cases "rc_payload r") (auto simp: kind_matches_def is_attempt_def)

lemma filter_matching_attempts:
  assumes "list_all kind_matches rs"
  shows "filter (\<lambda>r. payload_attempt (rc_payload r) = Some a) (filter is_attempt rs) =
         filter (\<lambda>r. payload_attempt (rc_payload r) = Some a) rs"
proof -
  have "r \<in> set rs \<Longrightarrow> payload_attempt (rc_payload r) = Some a \<Longrightarrow> is_attempt r" for r
    using assms attempt_payload_kind by (auto simp: list_all_iff)
  then show ?thesis unfolding filter_filter by (intro filter_cong) auto
qed

lemma validate_append_attempts:
  assumes inv: "entry_inv eid (h, rs)" and kind: "kind = ATTEMPT_STARTED \<Longrightarrow> hd_state h = UNKNOWN"
    and a: "payload_attempt pl = Some a"
  shows "validate_attempt_append (filter is_attempt rs) kind pl = validate_attempt_append rs kind pl"
proof (cases "kind = ATTEMPT_STARTED")
  case True
  then have "list_all is_attempt rs" using inv kind replay_unknown by (auto simp: entry_inv_def)
  then show ?thesis by (simp add: list_all_iff)
next
  case False
  moreover have "list_all kind_matches rs" using inv by (simp add: entry_inv_def)
  ultimately show ?thesis
    by (simp add: validate_attempt_append_def a filter_matching_attempts del: filter_filter)
qed

lemma attempt_record_Inr:
  assumes "attempt_record env i h rs eid action n kind t pl = Inr r"
  shows "UnknownAction_eq (hd_action h) action" "kind = ATTEMPT_STARTED \<Longrightarrow> hd_state h = UNKNOWN"
    "validate_attempt_append rs kind pl = Inr ()" "hd_revision h = n"
    "r = \<lparr>rc_event_id = i, rc_execution_record_id = eid, rc_revision = hd_revision h + 1, rc_kind = kind,
          rc_state_before = hd_state h, rc_state_after = hd_state h, rc_occurred_at = t, rc_payload = pl\<rparr>"
  using assms
  by (auto simp: attempt_record_def require_cas_def Record_post_init_def bindR_eq_Inr raise_if_def
      split: if_splits)

lemma head_locked_Inr: "head_locked l eid = Inr h \<longleftrightarrow> EXECUTION_RECORD_ID eid \<and> lg_heads l eid = Some h"
  by (auto simp: head_locked_def require_execution_record_id_def bindR_eq_Inr raise_if_def split: option.splits)

lemma events_at_Inr: "events_at l eid = Inr rs \<longleftrightarrow> lg_events l eid = Some rs"
  by (auto simp: events_at_def split: option.splits)

lemma append_attempt_sound:
  assumes inv: "lg_inv env l"
    and app: "append_attempt_locked env i l eid action n kind t pl = (l', res)"
    and pl: "kind \<in> {ATTEMPT_STARTED, ATTEMPT_FINISHED}" "payload_attempt pl = Some a"
      "\<And>r. rc_kind r = kind \<Longrightarrow> rc_payload r = pl \<Longrightarrow> kind_matches r"
  shows "sound_step env l l'"
proof -
  let ?read = "bindR (head_locked l eid) (\<lambda>h. bindR (events_at l eid) (\<lambda>rs.
             bindR (attempt_record env i h rs eid action n kind t pl) (\<lambda>r. Inr (h, rs, r))))"
  show ?thesis
  proof (cases ?read)
    case (Inl e)
    then show ?thesis using app inv by (simp add: append_attempt_locked_def sound_refl)
  next
    case (Inr x)
    then obtain h rs r where x: "x = (h, rs, r)" and h: "lg_heads l eid = Some h" "lg_events l eid = Some rs"
        and r: "attempt_record env i h rs eid action n kind t pl = Inr r"
      by (auto simp: bindR_eq_Inr head_locked_Inr events_at_Inr)
    note f = attempt_record_Inr[OF r]
    have v: "view l eid = Some (h, rs)" using h by (simp add: view_def)
    then have e: "entry_inv eid (h, rs)" and hp: "Head_post_init env h = Inr h"
      using inv by (auto simp: lg_inv_def)
    have rev: "rc_revision r = hd_revision h + 1" using f(5) by simp
    note adv = advanced_head_built[OF hp rev]
    have "entry_step eid (Some (h, rs))
        (Some (h\<lparr>hd_revision := hd_revision h + 1, hd_updated_at := rc_occurred_at r\<rparr>, rs @ [r]))"
      by (rule entry_step.attempt)
         (use f pl validate_append_attempts[OF e f(2) pl(2)] in \<open>auto simp: is_attempt_def\<close>)
    moreover have "l' = l\<lparr>lg_events := (lg_events l)(eid \<mapsto> rs @ [r]),
        lg_heads := (lg_heads l)(eid \<mapsto> h\<lparr>hd_revision := hd_revision h + 1, hd_updated_at := rc_occurred_at r\<rparr>)\<rparr>"
      using app Inr x adv(1) by (auto simp: append_attempt_locked_def Let_def)
    ultimately show ?thesis
      using v adv(2) by (intro sound_update[OF inv]) auto
  qed
qed

section \<open>Transitions\<close>

lemma bounded_result_stable:
  assumes "bounded_result env m a v = Inr r" "bounded_result env m' a r = Inr r'"
  shows "r' = r"
proof (cases a)
  case True
  then have "bounded_value env v ''resolved result'' m = Inr r" "bounded_value env r ''resolved result'' m' = Inr r'"
    using assms by (auto simp: bounded_result_def)
  then have "r = freeze v" "interoperable (freeze v)" "r' = freeze r"
    by (auto simp: bounded_value_Inr within_bounds_def)
  then show ?thesis by (simp add: interoperable_freeze freeze_array_free)
qed (use assms in \<open>auto simp: bounded_result_def split: if_splits\<close>)

lemma Transition_post_init_Inr:
  assumes "Transition_post_init env t = Inr t'"
  obtains ev v where
    "bounded_mapping env (tn_evidence t) ''transition evidence'' MAX_EVIDENCE_BYTES False True = Inr ev"
    "bounded_result env MAX_RESULT_BYTES (tn_result_available t) (tn_result t) = Inr v"
    "t' = t\<lparr>tn_evidence := ev, tn_result := v\<rparr>" "transition_source_ok t = Inr ()"
  using assms unfolding Transition_post_init_def bindR_eq_Inr by auto

definition transition_head :: "Head \<Rightarrow> Transition \<Rightarrow> Head" where
  "transition_head h t =
     \<lparr>hd_action = hd_action h, hd_state = tn_new_state t, hd_revision = hd_revision h + 1,
      hd_disposition = disposition_of (tn_new_state t) (tn_result_available t),
      hd_updated_at = tn_occurred_at t, hd_result_available = tn_result_available t,
      hd_result = tn_result t\<rparr>"

lemma transition_record_Inr:
  assumes tr: "transition_record env i h t = Inr (r, u)" and t: "Transition_post_init env t0 = Inr t"
  shows "legal_transition (hd_state h) (tn_new_state t)" "u = transition_head h t"
    "Head_post_init env u = Inr u"
    "r = \<lparr>rc_event_id = i, rc_execution_record_id = ua_execution_record_id (hd_action h),
          rc_revision = hd_revision h + 1, rc_kind = STATE_TRANSITION, rc_state_before = hd_state h,
          rc_state_after = tn_new_state t, rc_occurred_at = tn_occurred_at t, rc_payload = TransitionPayload t\<rparr>"
proof -
  show "legal_transition (hd_state h) (tn_new_state t)"
    "r = \<lparr>rc_event_id = i, rc_execution_record_id = ua_execution_record_id (hd_action h),
          rc_revision = hd_revision h + 1, rc_kind = STATE_TRANSITION, rc_state_before = hd_state h,
          rc_state_after = tn_new_state t, rc_occurred_at = tn_occurred_at t, rc_payload = TransitionPayload t\<rparr>"
    using tr by (auto simp: transition_record_def require_legal_transition_def Record_post_init_def
        bindR_eq_Inr raise_if_def split: if_splits)
  have "Head_post_init env (transition_head h t) = Inr u"
    using tr by (auto simp: transition_record_def Record_post_init_def bindR_eq_Inr transition_head_def)
  then obtain v where u: "0 \<le> hd_revision h + 1" "u = (transition_head h t)\<lparr>hd_result := v\<rparr>"
      "bounded_result env (nat (ua_max_result_bytes (hd_action h))) (tn_result_available t) (tn_result t) = Inr v"
    unfolding Head_post_init_Inr by (auto simp: transition_head_def)
  obtain ev w where w: "bounded_result env MAX_RESULT_BYTES (tn_result_available t0) (tn_result t0) = Inr w"
      and tt: "t = t0\<lparr>tn_evidence := ev, tn_result := w\<rparr>"
    by (rule Transition_post_init_Inr[OF t])
  have "bounded_result env (nat (ua_max_result_bytes (hd_action h))) (tn_result_available t0) w = Inr v"
    using u(3) tt by simp
  from bounded_result_stable[OF w this] have "v = tn_result t" using tt by simp
  then show "u = transition_head h t" "Head_post_init env u = Inr u"
    using u unfolding Head_post_init_Inr by (auto simp: transition_head_def)
qed

lemma transition_step_sound:
  assumes inv: "lg_inv env l" and h: "lg_heads l eid = Some h" "lg_events l eid = Some rs"
    and step: "transition_step env i l eid rs h t = (l', res)"
    and t: "Transition_post_init env t0 = Inr t" "tn_expected_state t = hd_state h"
    and j: "legal_transition (hd_state h) (tn_new_state t) \<Longrightarrow> justified rs t"
  shows "sound_step env l l'"
proof (cases "seqR (validate_transition_evidence env (hd_action h) t) (transition_record env i h t)")
  case (Inl e)
  then show ?thesis using step inv by (simp add: transition_step_def sound_refl)
next
  case (Inr x)
  then obtain r u where x: "x = (r, u)" and tr: "transition_record env i h t = Inr (r, u)"
    by (cases x) (auto simp: bindR_eq_Inr)
  note f = transition_record_Inr[OF tr t(1)]
  have v: "view l eid = Some (h, rs)" using h by (simp add: view_def)
  then have e: "ua_execution_record_id (hd_action h) = eid" using inv by (auto simp: lg_inv_def entry_inv_def)
  have "entry_step eid (Some (h, rs))
      (Some (\<lparr>hd_action = hd_action h, hd_state = tn_new_state t, hd_revision = hd_revision h + 1,
                 hd_disposition = disposition_of (tn_new_state t) (tn_result_available t),
                 hd_updated_at = rc_occurred_at r, hd_result_available = tn_result_available t,
                 hd_result = tn_result t\<rparr>, rs @ [r]))"
    by (rule entry_step.transit) (use f e j t(2) in auto)
  moreover have "l' = l\<lparr>lg_events := (lg_events l)(eid \<mapsto> rs @ [r]), lg_heads := (lg_heads l)(eid \<mapsto> u)\<rparr>"
    using step Inr x by (simp add: transition_step_def)
  ultimately show ?thesis
    using v f by (intro sound_update[OF inv]) (auto simp: transition_head_def)
qed

section \<open>Decisions\<close>

definition finding_built :: "recon_env \<Rightarrow> Finding \<Rightarrow> bool" where
  "finding_built env f \<longleftrightarrow> (\<exists>g. Finding_post_init env g = Inr f)"

definition manual_built :: "recon_env \<Rightarrow> ManualResolution \<Rightarrow> bool" where
  "manual_built env m \<longleftrightarrow> (\<exists>g. ManualResolution_post_init env g = Inr m)"

fun decision_built :: "recon_env \<Rightarrow> decision \<Rightarrow> bool" where
  "decision_built env (ByFinding f) = finding_built env f"
| "decision_built env (ByManual m) = manual_built env m"

lemma resolved_fields_Inr:
  "resolved_fields env s safe a v = Inr (a', v') \<Longrightarrow>
     (safe \<longleftrightarrow> s = CONFIRMED_NOT_APPLIED) \<and> (a' \<longrightarrow> s = CONFIRMED_SUCCEEDED)"
  by (auto simp: resolved_fields_def Let_def bindR_eq_Inr split: if_splits)

lemma finding_builtD:
  assumes "finding_built env f"
  shows "fi_proposed_state f \<noteq> UNKNOWN"
    "fi_retry_safe f \<longleftrightarrow> fi_proposed_state f = CONFIRMED_NOT_APPLIED"
    "fi_result_available f \<Longrightarrow> fi_proposed_state f = CONFIRMED_SUCCEEDED"
  using assms unfolding finding_built_def Finding_post_init_def
  by (auto simp: bindR_eq_Inr dest!: resolved_fields_Inr split: if_splits)

lemma manual_builtD:
  assumes "manual_built env m"
  shows "ml_expected_state m = MANUAL_REVIEW" "ml_new_state m \<in> {CONFIRMED_SUCCEEDED, CONFIRMED_NOT_APPLIED}"
    "ml_retry_safe m \<longleftrightarrow> ml_new_state m = CONFIRMED_NOT_APPLIED"
    "ml_result_available m \<Longrightarrow> ml_new_state m = CONFIRMED_SUCCEEDED"
proof -
  obtain g a v where g: "ml_expected_state (g :: ManualResolution) = MANUAL_REVIEW"
      "ml_new_state g \<in> {CONFIRMED_SUCCEEDED, CONFIRMED_NOT_APPLIED}"
      "resolved_fields env (ml_new_state g) (ml_retry_safe g) (ml_result_available g) (ml_result g) = Inr (a, v)"
      "ml_expected_state m = ml_expected_state g" "ml_new_state m = ml_new_state g"
      "ml_retry_safe m = ml_retry_safe g" "ml_result_available m = a"
    using assms unfolding manual_built_def ManualResolution_post_init_def bindR_eq_Inr seq_all_Inr
    by auto
  from resolved_fields_Inr[OF g(3)] g show "ml_expected_state m = MANUAL_REVIEW"
    "ml_new_state m \<in> {CONFIRMED_SUCCEEDED, CONFIRMED_NOT_APPLIED}"
    "ml_retry_safe m \<longleftrightarrow> ml_new_state m = CONFIRMED_NOT_APPLIED"
    "ml_result_available m \<Longrightarrow> ml_new_state m = CONFIRMED_SUCCEEDED"
    by simp_all
qed

lemma build_transition_built:
  assumes "build_transition env h dec provider attempt = Inr t"
  shows "\<exists>t0. Transition_post_init env t0 = Inr t" "tn_expected_state t = hd_state h"
proof -
  show "\<exists>t0. Transition_post_init env t0 = Inr t"
    using assms by (cases dec) (auto split: option.splits if_splits)
  show "tn_expected_state t = hd_state h"
    using assms by (cases dec) (auto split: option.splits if_splits elim!: Transition_post_init_Inr)
qed

lemma build_transition_justified:
  assumes b: "build_transition env h dec provider attempt = Inr t" and d: "decision_built env dec"
    and fin: "\<And>f. dec = ByFinding f \<Longrightarrow> require_finished_attempt rs attempt provider f = Inr ()"
    and leg: "legal_transition (hd_state h) (tn_new_state t)"
  shows "justified rs t"
proof (cases dec)
  case (ByManual m)
  then show ?thesis
    using b d manual_builtD[of env m]
    by (auto simp: justified_def split: if_splits elim!: Transition_post_init_Inr)
next
  case (ByFinding f)
  then obtain p a where p: "provider = Some p" "attempt = Some a" "hd_state h \<noteq> MANUAL_REVIEW"
    using b by (auto split: option.splits if_splits)
  have flds: "tn_expected_state t = hd_state h" "tn_new_state t = fi_proposed_state f" "tn_source t = PROVIDER"
      "tn_attempt_id t = Some a" "tn_provider_id t = Some (pd_provider_id p)"
      "tn_evidence_kind t = fi_evidence_kind f" "tn_retry_safe t = fi_retry_safe f"
      "tn_result_available t = fi_result_available f"
    using b p ByFinding by (auto split: if_splits elim!: Transition_post_init_Inr)
  have "hd_state h = UNKNOWN" using leg p(3) by (auto simp: legal_transition_def split: ReconciliationState.splits)
  moreover obtain r where r: "r \<in> set rs" "finished_with a p f r"
    using fin[OF ByFinding] p by (auto simp: require_finished_attempt_def list_ex_iff)
  have "attested rs t"
    unfolding attested_def
    by (rule bexI[OF _ r(1)]) (use r(2) flds in \<open>force simp: finished_with_def split: payload.splits option.splits\<close>)
  ultimately show ?thesis
    using flds finding_builtD[of env f] d ByFinding by (auto simp: justified_def)
qed

section \<open>Every operation is sound\<close>

lemma finish_payload_Inr:
  "finish_payload ctx p out f e t = Inr (pl, t') \<Longrightarrow>
     pl = FinishPayload (at_attempt_id ctx) (pd_provider_id p) out f e \<and> t' = t"
  by (auto simp: finish_payload_def bindR_eq_Inr)

lemma start_sound:
  assumes "lg_inv env l" "lg_start_attempt env i now l ctx p n = (l', r)"
  shows "sound_step env l l'"
proof (cases "validate_attempt ctx p")
  case (Inl e)
  then show ?thesis using assms by (simp add: lg_start_attempt_def sound_refl)
next
  case (Inr u)
  then show ?thesis
    using assms(2) append_attempt_sound[OF assms(1)]
    by (fastforce simp: lg_start_attempt_def start_payload_def kind_matches_def)
qed

lemma append_finish_sound:
  assumes "lg_inv env l" "append_attempt_locked env i l eid action n ATTEMPT_FINISHED t (FinishPayload a p out f e) = (l', r)"
  shows "sound_step env l l'"
  by (rule append_attempt_sound[OF assms]) (auto simp: kind_matches_def)

lemma finish_sound:
  assumes "lg_inv env l" "lg_finish_attempt env i now l ctx p out n f e t = (l', r)"
  shows "sound_step env l l'"
proof (cases "seqR (validate_attempt ctx p)
             (finish_payload ctx p out f e (case t of Some t \<Rightarrow> t | None \<Rightarrow> now))")
  case (Inl e)
  then show ?thesis using assms by (simp add: lg_finish_attempt_def sound_refl)
next
  case (Inr x)
  obtain pl t' where x: "x = (pl, t')" by (cases x)
  then have "pl = FinishPayload (at_attempt_id ctx) (pd_provider_id p) out f e"
    using Inr finish_payload_Inr by (fastforce simp: bindR_eq_Inr)
  then show ?thesis
    using assms(2) Inr x append_finish_sound[OF assms(1)] by (simp add: lg_finish_attempt_def)
qed

lemma compare_sound:
  assumes inv: "lg_inv env l" and dec: "decision_built env dec"
    and cmp: "lg_compare_and_append env i l eid s n dec provider attempt = (l', r)"
  shows "sound_step env l l'"
proof -
  let ?read = "bindR (head_locked l eid) (\<lambda>h.
             seqR (require_cas h s n)
             (bindR (build_transition env h dec provider attempt) (\<lambda>t.
              bindR (events_at l eid) (\<lambda>rs.
              seqR (case dec of
                      ByFinding f \<Rightarrow> require_finished_attempt rs attempt provider f
                    | ByManual _ \<Rightarrow> Inr ())
              (Inr (h, t, rs))))))"
  show ?thesis
  proof (cases ?read)
    case (Inl e)
    then show ?thesis using cmp inv by (simp add: lg_compare_and_append_def sound_refl)
  next
    case (Inr x)
    then obtain h t rs where x: "x = (h, t, rs)" and h: "lg_heads l eid = Some h" "lg_events l eid = Some rs"
        and t: "build_transition env h dec provider attempt = Inr t"
        and fin: "(case dec of ByFinding f \<Rightarrow> require_finished_attempt rs attempt provider f | ByManual _ \<Rightarrow> Inr ()) = Inr ()"
      unfolding bindR_eq_Inr head_locked_Inr events_at_Inr by auto
    obtain t0 where t0: "Transition_post_init env t0 = Inr t" using build_transition_built(1)[OF t] by blast
    have "transition_step env i l eid rs h t = (l', r)"
      using cmp Inr x by (simp add: lg_compare_and_append_def)
    then show ?thesis
      by (rule transition_step_sound[OF inv h _ t0 build_transition_built(2)[OF t]])
         (rule build_transition_justified[OF t dec], use fin in auto)
  qed
qed

lemma close_attempts_sound:
  "lg_inv env l \<Longrightarrow> close_attempts env ids t eid action i l atts = (l', r) \<Longrightarrow> sound_step env l l'"
proof (induction atts arbitrary: i l)
  case Nil
  then show ?case by (simp add: sound_refl)
next
  case (Cons x rest)
  obtain s ctx p where x: "x = (s, ctx, p)" by (cases x)
  let ?fin = "finish_payload ctx p RECOVERY_REQUIRED None
             (Some ''provider attempt expired before a terminal record was persisted'') t"
  show ?case
  proof (cases "\<exists>y h. ?fin = Inr y \<and> lg_heads l eid = Some h")
    case False
    then have "l' = l" using Cons.prems(2) x by (auto split: sum.splits option.splits prod.splits)
    then show ?thesis using Cons.prems(1) by (simp add: sound_refl)
  next
    case True
    then obtain pl t' h where y: "?fin = Inr (pl, t')" and h: "lg_heads l eid = Some h" by auto
    obtain l1 r1 where a: "append_attempt_locked env (ids i) l eid action (hd_revision h) ATTEMPT_FINISHED t' pl = (l1, r1)"
      by fastforce
    have pl: "pl = FinishPayload (at_attempt_id ctx) (pd_provider_id p) RECOVERY_REQUIRED None
               (Some ''provider attempt expired before a terminal record was persisted'')"
      using finish_payload_Inr[OF y] by simp
    have s1: "sound_step env l l1" by (rule append_finish_sound[OF Cons.prems(1) a[unfolded pl]])
    show ?thesis
    proof (cases r1)
      case (Inl e)
      then show ?thesis using Cons.prems(2) x y h a s1 by simp
    next
      case (Inr z)
      then have "close_attempts env ids t eid action (Suc i) l1 rest = (l', r)"
        using Cons.prems(2) x y h a by simp
      moreover have "lg_inv env l1" using s1 by (simp add: sound_step_def)
      ultimately have "sound_step env l1 l'" using Cons.IH by blast
      then show ?thesis using s1 sound_trans by blast
    qed
  qed
qed

lemma recovery_transition_built:
  assumes "recovery_transition env h k now = Inr t"
  shows "\<exists>t0. Transition_post_init env t0 = Inr t" "tn_expected_state t = hd_state h"
    "legal_transition (hd_state h) (tn_new_state t) \<Longrightarrow> justified rs t"
proof -
  show "\<exists>t0. Transition_post_init env t0 = Inr t"
    using assms by (auto simp: recovery_transition_def split: if_splits)
  have "tn_expected_state t = hd_state h \<and> tn_new_state t = MANUAL_REVIEW \<and> tn_source t = RECOVERY \<and>
      \<not> tn_retry_safe t \<and> \<not> tn_result_available t"
    using assms by (auto simp: recovery_transition_def split: if_splits elim!: Transition_post_init_Inr)
  then show "tn_expected_state t = hd_state h"
    "legal_transition (hd_state h) (tn_new_state t) \<Longrightarrow> justified rs t"
    by (auto simp: justified_def legal_transition_def split: ReconciliationState.splits)
qed

lemma recover_transition_sound:
  assumes inv: "lg_inv env l" and rt: "recover_transition env i now l eid k = (l', r)"
  shows "sound_step env l l'"
proof -
  let ?read = "bindR (head_locked l eid) (\<lambda>h. bindR (events_at l eid) (\<lambda>rs.
             bindR (recovery_transition env h k now) (\<lambda>t. Inr (h, rs, t))))"
  show ?thesis
  proof (cases ?read)
    case (Inl e)
    then show ?thesis using rt inv by (simp add: recover_transition_def sound_refl)
  next
    case (Inr x)
    then obtain h rs t where x: "x = (h, rs, t)" and h: "lg_heads l eid = Some h" "lg_events l eid = Some rs"
        and t: "recovery_transition env h k now = Inr t"
      unfolding bindR_eq_Inr head_locked_Inr events_at_Inr by auto
    note b = recovery_transition_built[OF t]
    obtain t0 where t0: "Transition_post_init env t0 = Inr t" using b(1) by blast
    obtain l1 r1 where s: "transition_step env i l eid rs h t = (l1, r1)" by fastforce
    have "l1 = l'" using rt Inr x s by (auto simp: recover_transition_def split: sum.splits)
    then show ?thesis using transition_step_sound[OF inv h s t0 b(2) b(3)] by simp
  qed
qed

lemma recover_sound:
  assumes inv: "lg_inv env l" and rec: "lg_recover env ids now l eid = (l', r)"
  shows "sound_step env l l'"
proof -
  let ?read = "bindR (head_locked l eid) (\<lambda>h. bindR (events_at l eid) (\<lambda>rs.
             bindR (unfinished_attempt_contexts (hd_action h) rs) (\<lambda>attempts. Inr (h, attempts))))"
  show ?thesis
  proof (cases "\<exists>h atts. ?read = Inr (h, atts) \<and> atts \<noteq> [] \<and> hd_state h = UNKNOWN \<and>
      \<not> list_ex (\<lambda>(_, ctx, _). now < at_deadline ctx) atts")
    case False
    then have "l' = l" using rec by (auto simp: lg_recover_def split: sum.splits if_splits prod.splits)
    then show ?thesis using inv by (simp add: sound_refl)
  next
    case True
    then obtain h atts where x: "?read = Inr (h, atts)" "atts \<noteq> []" "hd_state h = UNKNOWN"
        "\<not> list_ex (\<lambda>(_, ctx, _). now < at_deadline ctx) atts" by blast
    obtain l1 r1 where c: "close_attempts env ids now eid (hd_action h) 0 l atts = (l1, r1)" by fastforce
    note s1 = close_attempts_sound[OF inv c]
    show ?thesis
    proof (cases r1)
      case (Inl e)
      then show ?thesis using rec x c s1 by (simp add: lg_recover_def)
    next
      case (Inr u)
      then have "recover_transition env (ids (length atts)) now l1 eid (length atts) = (l', r)"
        using rec x c by (simp add: lg_recover_def)
      then show ?thesis
        using recover_transition_sound s1 sound_trans by (metis sound_step_def)
    qed
  qed
qed

section \<open>The ledger interface\<close>

text \<open>
  The operations of the \<open>ReconciliationLedger\<close> protocol that change state.  A call carries the random
  identifiers it draws and the clock reading it makes.
\<close>

datatype ledger_op =
    PrepareAction IdempotencyClaim UnknownAction
  | CreateUnknown UnknownAction
  | StartAttempt AttemptContext ProviderDescriptor int
  | FinishAttempt AttemptContext ProviderDescriptor ReconciliationAttemptOutcome int "Finding option"
      "string option" "time option"
  | RecoverAttempts string "time option"
  | AppendTransition string ReconciliationState int decision "ProviderDescriptor option" "string option"

datatype ledger_out = OutUnit | OutHead Head | OutRecord Record | OutMaybe "Head option"

type_synonym ledger_call = "(nat \<Rightarrow> string) \<times> time \<times> ledger_op"

text \<open>Actions and decisions reach the ledger through their constructors.\<close>

definition action_built :: "recon_env \<Rightarrow> UnknownAction \<Rightarrow> bool" where
  "action_built env a \<longleftrightarrow> (\<exists>b. UnknownAction_post_init env b = Inr a)"

fun op_built :: "recon_env \<Rightarrow> ledger_op \<Rightarrow> bool" where
  "op_built env (PrepareAction c a) = action_built env a"
| "op_built env (CreateUnknown a) = action_built env a"
| "op_built env (AppendTransition eid s n dec p a) = decision_built env dec"
| "op_built env _ = True"

definition lawful :: "recon_env \<Rightarrow> ledger_call \<Rightarrow> bool" where
  "lawful env c = op_built env (snd (snd c))"

definition out_of :: "('a \<Rightarrow> ledger_out) \<Rightarrow> 's \<times> 'a res \<Rightarrow> 's \<times> ledger_out res" where
  "out_of f = (\<lambda>(s, r). (s, bindR r (\<lambda>x. Inr (f x))))"

fun lg_exec :: "recon_env \<Rightarrow> ledger_call \<Rightarrow> ledger \<Rightarrow> ledger \<times> ledger_out res" where
  "lg_exec env (ids, now, PrepareAction c a) l = out_of (\<lambda>_. OutUnit) (lg_prepare_action env l c a)"
| "lg_exec env (ids, now, CreateUnknown a) l = out_of OutHead (lg_create_unknown env l a)"
| "lg_exec env (ids, now, StartAttempt ctx p n) l = out_of OutRecord (lg_start_attempt env (ids 0) now l ctx p n)"
| "lg_exec env (ids, now, FinishAttempt ctx p out n f e t) l =
     out_of OutRecord (lg_finish_attempt env (ids 0) now l ctx p out n f e t)"
| "lg_exec env (ids, now, RecoverAttempts eid t) l =
     out_of OutMaybe (lg_recover env ids (case t of Some t \<Rightarrow> t | None \<Rightarrow> now) l eid)"
| "lg_exec env (ids, now, AppendTransition eid s n dec p a) l =
     out_of OutHead (lg_compare_and_append env (ids 0) l eid s n dec p a)"

lemma fst_out_of: "fst (out_of f x) = fst x"
  by (simp add: out_of_def split: prod.splits)

lemma lg_exec_sound:
  assumes inv: "lg_inv env l" and c: "lawful env c"
  shows "sound_step env l (fst (lg_exec env c l))"
proof -
  obtain ids now op where op: "c = (ids, now, op)" by (cases c)
  have pair: "sound_step env l (fst x)" if "\<And>l' r. x = (l', r) \<Longrightarrow> sound_step env l l'"
    for x :: "ledger \<times> 'a res" using that by (cases x) auto
  show ?thesis
    using c unfolding op
    by (cases op)
       (auto simp: fst_out_of lawful_def intro!: pair
         intro: prepare_sound[OF inv] create_sound[OF inv] start_sound[OF inv] finish_sound[OF inv]
           recover_sound[OF inv] compare_sound[OF inv])
qed

primrec run_calls :: "(ledger_call \<Rightarrow> 's \<Rightarrow> 's \<times> ledger_out res) \<Rightarrow> ledger_call list \<Rightarrow> 's \<Rightarrow> 's" where
  "run_calls exec [] s = s"
| "run_calls exec (c # cs) s = run_calls exec cs (fst (exec c s))"

text \<open>The history of an entry whose retry is allowed records why.\<close>

definition not_applied_evidence :: "Record list \<Rightarrow> bool" where
  "not_applied_evidence rs \<longleftrightarrow>
     (\<exists>i<length rs. \<exists>t. rc_payload (rs ! i) = TransitionPayload t \<and>
        tn_new_state t = CONFIRMED_NOT_APPLIED \<and> tn_retry_safe t \<and>
        (tn_source t = PROVIDER \<and> attested (take i rs) t \<or>
         tn_source t = MANUAL \<and> tn_operator_identity_digest t \<noteq> None \<and> tn_reason t \<noteq> None))"

lemma replay_reaches:
  "replay s rs = Some s' \<Longrightarrow> s' \<noteq> s \<Longrightarrow> \<exists>i<length rs. \<not> is_attempt (rs ! i) \<and> rc_state_after (rs ! i) = s'"
proof (induction s rs rule: replay.induct)
  case (2 s r rs)
  show ?case
  proof (cases "\<not> is_attempt r \<and> rc_state_after r = s'")
    case True
    then show ?thesis by (intro exI[of _ 0]) simp
  next
    case False
    then obtain i where "i < length rs" "\<not> is_attempt (rs ! i)" "rc_state_after (rs ! i) = s'"
      using 2 by (auto split: if_splits)
    then show ?thesis by (intro exI[of _ "Suc i"]) simp
  qed
qed simp

lemma entry_retry_evidence:
  assumes inv: "entry_inv eid (h, rs)" and d: "hd_disposition h = RETRY_ALLOWED"
  shows "not_applied_evidence rs"
proof -
  have "hd_state h = CONFIRMED_NOT_APPLIED"
    using inv d by (auto simp: entry_inv_def disposition_of_def split: if_splits)
  then obtain i where i: "i < length rs" "\<not> is_attempt (rs ! i)" "rc_state_after (rs ! i) = CONFIRMED_NOT_APPLIED"
    using inv replay_reaches[of UNKNOWN rs CONFIRMED_NOT_APPLIED] by (auto simp: entry_inv_def)
  then have "kind_matches (rs ! i)" using inv by (auto simp: entry_inv_def list_all_length)
  then obtain t where t: "rc_payload (rs ! i) = TransitionPayload t"
    using i(2) by (cases "rc_payload (rs ! i)") (auto simp: kind_matches_def is_attempt_def)
  then have "justified (take i rs) t" "tn_new_state t = CONFIRMED_NOT_APPLIED"
    using inv i by (auto simp: entry_inv_def transitions_justified_def)
  then show ?thesis
    unfolding not_applied_evidence_def using i(1) t
    by (intro exI[of _ i] conjI exI[of _ t])
       (auto simp: justified_def split: ReconciliationTransitionSource.splits)
qed

locale reconciliation_ledger =
  fixes exec :: "ledger_call \<Rightarrow> 's \<Rightarrow> 's \<times> ledger_out res"
    and entry :: "'s \<Rightarrow> string \<Rightarrow> entry option"
    and ok :: "'s \<Rightarrow> bool"
    and accepts :: "ledger_call \<Rightarrow> bool"
  assumes exec_ok: "ok s \<Longrightarrow> accepts c \<Longrightarrow> ok (fst (exec c s))"
    and exec_steps: "ok s \<Longrightarrow> accepts c \<Longrightarrow> entry_steps eid (entry s eid) (entry (fst (exec c s)) eid)"
    and ok_entry: "ok s \<Longrightarrow> entry s eid = Some e \<Longrightarrow> entry_inv eid e"
begin

lemma run_ok: "ok s \<Longrightarrow> list_all accepts cs \<Longrightarrow> ok (run_calls exec cs s)"
  by (induction cs arbitrary: s) (auto intro: exec_ok)

lemma run_steps:
  "ok s \<Longrightarrow> list_all accepts cs \<Longrightarrow> entry_steps eid (entry s eid) (entry (run_calls exec cs s) eid)"
  by (induction cs arbitrary: s) (auto intro: exec_ok exec_steps rtranclp_trans)

lemma run_extends:
  assumes "ok s" "list_all accepts cs" "entry s eid = Some e"
  shows "\<exists>e'. entry (run_calls exec cs s) eid = Some e' \<and> entry_extends e e' \<and> entry_inv eid e'"
proof -
  have "entry_steps eid (Some e) (entry (run_calls exec cs s) eid)"
    using run_steps[OF assms(1,2), of eid] assms(3) by simp
  from entry_steps_extends[OF this] show ?thesis using ok_entry[OF run_ok[OF assms(1,2)]] by blast
qed

lemma retry_evidence:
  assumes "ok s" "list_all accepts cs" "entry (run_calls exec cs s) eid = Some (h, rs)"
    "hd_disposition h = RETRY_ALLOWED"
  shows "not_applied_evidence rs"
  using entry_retry_evidence ok_entry[OF run_ok[OF assms(1,2)] assms(3)] assms(4) by blast

end

interpretation memory_ledger: reconciliation_ledger "lg_exec env" view "lg_inv env" "lawful env" for env
proof
  show "lg_inv env s \<Longrightarrow> lawful env c \<Longrightarrow> lg_inv env (fst (lg_exec env c s))" for s c
    using lg_exec_sound by (simp add: sound_step_def)
  show "lg_inv env s \<Longrightarrow> lawful env c \<Longrightarrow> entry_steps eid (view s eid) (view (fst (lg_exec env c s)) eid)" for s c eid
    using lg_exec_sound by (simp add: sound_step_def)
  show "lg_inv env s \<Longrightarrow> view s eid = Some e \<Longrightarrow> entry_inv eid e" for s eid e
    unfolding lg_inv_def by blast
qed

section \<open>Recovery after a transition\<close>

text \<open>
  \<open>recover_unfinished_attempts\<close> of the in-memory ledger scans the whole history.  A transition record
  has no attempt identifier, so once an entry has left \<open>UNKNOWN\<close> the scan raises instead of reporting
  that there is nothing to recover.
\<close>

lemma scan_transition_raises:
  assumes "scan_records s (filter is_attempt rs) = Inr s'" "list_all kind_matches rs"
    "\<not> list_all is_attempt rs"
  shows "scan_records s rs = Inl (ReconciliationError ''persisted reconciliation attempt lacks attempt_id'')"
  using assms
proof (induction rs arbitrary: s)
  case (Cons r rs)
  show ?case
  proof (cases "is_attempt r")
    case True
    then show ?thesis using Cons by (auto simp: bindR_eq_Inr)
  next
    case False
    then have "payload_attempt (rc_payload r) = None"
      using Cons.prems(2) by (cases "rc_payload r") (auto simp: kind_matches_def is_attempt_def)
    then show ?thesis by (cases s) (simp add: scan_step.simps)
  qed
qed simp

lemma replay_attempts: "list_all is_attempt rs \<Longrightarrow> replay s rs = Some s' \<Longrightarrow> s' = s"
  by (induction s rs rule: replay.induct) (auto split: if_splits)

lemma recover_after_transition_raises:
  assumes inv: "lg_inv env l" and h: "lg_heads l eid = Some h" "hd_state h \<noteq> UNKNOWN" "EXECUTION_RECORD_ID eid"
  shows "lg_recover env ids now l eid =
     (l, Inl (ReconciliationError ''persisted reconciliation attempt lacks attempt_id''))"
proof -
  obtain rs where rs: "view l eid = Some (h, rs)" "lg_events l eid = Some rs" by (rule view_head[OF inv h(1)])
  then have e: "entry_inv eid (h, rs)" using inv unfolding lg_inv_def by blast
  have "\<not> list_all is_attempt rs" using e h(2) replay_attempts by (fastforce simp: entry_inv_def)
  moreover obtain s where "scan_records ([], []) (filter is_attempt rs) = Inr s" "list_all kind_matches rs"
    using e by (auto simp: entry_inv_def attempts_ok_def)
  ultimately have "unmatched_attempt_start_records rs =
      Inl (ReconciliationError ''persisted reconciliation attempt lacks attempt_id'')"
    using scan_transition_raises by (simp add: unmatched_attempt_start_records_def)
  then show ?thesis
    using h rs head_locked_Inr[of l eid h] events_at_Inr[of l eid rs]
    by (simp add: lg_recover_def unfinished_attempt_contexts_def)
qed

end
