(* ===== verification/SqlLedger.thy ===== *)
theory SqlLedger
  imports Database LedgerContract
begin

text \<open>
  \<open>SQLiteReconciliationLedger\<close>: the durable ledger, its link to the idempotency records in the same
  database, and the audit outbox rows it writes in the same transactions.  Reading a head or a record
  rebuilds it through its constructor, as the code does.
\<close>

section \<open>Reading\<close>

definition thaw_dict :: "dict \<Rightarrow> dict" where
  "thaw_dict xs = as_items (thaw (JObj xs))"

text \<open>The mapping \<open>json.loads\<close> gives for a stored action.\<close>

definition thaw_action :: "UnknownAction \<Rightarrow> UnknownAction" where
  "thaw_action a =
     a\<lparr>ua_receipt_schema := map_option thaw_dict (ua_receipt_schema a),
       ua_probe_schema := map_option thaw_dict (ua_probe_schema a),
       ua_result_schema := map_option thaw_dict (ua_result_schema a),
       ua_metadata := thaw_dict (ua_metadata a)\<rparr>"

definition load_action :: "recon_env \<Rightarrow> UnknownAction \<Rightarrow> UnknownAction res" where
  "load_action env a = UnknownAction_post_init env (thaw_action a)"

definition load_head :: "recon_env \<Rightarrow> Head \<Rightarrow> Head res" where
  "load_head env h =
     bindR (load_action env (hd_action h)) (\<lambda>a.
     Head_post_init env
       (h\<lparr>hd_action := a, hd_result := (if hd_result_available h then thaw (hd_result h) else JNull)\<rparr>))"

definition sl_current :: "recon_env \<Rightarrow> db \<Rightarrow> string \<Rightarrow> Head res" where
  "sl_current env d eid =
     seqR (require_execution_record_id eid)
       (case db_heads d eid of
          None \<Rightarrow> Inl (ReconciliationNotFoundError (''unknown execution record '' @ py_repr eid))
        | Some h \<Rightarrow> load_head env h)"

fun load_records :: "recon_env \<Rightarrow> Record list \<Rightarrow> Record list res" where
  "load_records env [] = Inr []"
| "load_records env (r # rs) =
     bindR (Record_post_init env r) (\<lambda>r'. bindR (load_records env rs) (\<lambda>rs'. Inr (r' # rs')))"

definition records_of :: "db \<Rightarrow> string \<Rightarrow> Record list" where
  "records_of d eid = sort_key rc_revision (filter (\<lambda>r. rc_execution_record_id r = eid) (db_events d))"

definition sl_attempt_records :: "recon_env \<Rightarrow> db \<Rightarrow> string \<Rightarrow> Record list res" where
  "sl_attempt_records env d eid = load_records env (filter is_attempt (records_of d eid))"

definition sl_history :: "recon_env \<Rightarrow> db \<Rightarrow> string \<Rightarrow> Record list res" where
  "sl_history env d eid = bindR (sl_current env d eid) (\<lambda>_. load_records env (records_of d eid))"

definition sl_attempts :: "recon_env \<Rightarrow> db \<Rightarrow> string \<Rightarrow> Record list res" where
  "sl_attempts env d eid = bindR (sl_history env d eid) (\<lambda>rs. Inr (filter is_attempt rs))"

section \<open>The idempotency link\<close>

definition idempotency_disposition ::
  "recon_env \<Rightarrow> Head \<Rightarrow> (idem_state \<times> json option \<times> string option) res" where
  "idempotency_disposition env h =
     (case hd_disposition h of
        BLOCKED_MANUAL_REVIEW \<Rightarrow> Inr (IS_MANUAL_REVIEW, None, Some ''manual reconciliation required'')
      | RETRY_ALLOWED \<Rightarrow> Inr (IS_NOT_APPLIED, None, Some ''confirmed not applied'')
      | APPLIED_NO_RESULT \<Rightarrow>
          Inr (IS_APPLIED_NO_RESULT, None, Some ''side effect applied but no result can be reconstructed'')
      | COMPLETED \<Rightarrow>
          bindR (dump env (thaw (hd_result h))) (\<lambda>_. Inr (IS_COMPLETED, Some (thaw (hd_result h)), None))
      | BLOCKED_UNKNOWN \<Rightarrow> Inr (IS_UNKNOWN, None, Some ''outcome is unknown''))"

definition update_disposition :: "recon_env \<Rightarrow> Head \<Rightarrow> db \<Rightarrow> db res" where
  "update_disposition env h d =
     (if \<not> db_has_idempotency d then Inr d
      else bindR (idempotency_disposition env h) (\<lambda>(state, result, error).
        bindR (update_idem
          (\<lambda>r. ir_eid r = ua_execution_record_id (hd_action h) \<and> ir_state r \<in> {IS_UNKNOWN, IS_MANUAL_REVIEW})
          (\<lambda>r. r\<lparr>ir_state := state, ir_result := result, ir_error := error, ir_owner_token := None,
                 ir_lease := None, ir_updated_at := hd_updated_at h\<rparr>) d) (\<lambda>(d', n).
        if n \<noteq> 1
        then Inl (ReconciliationConflictError ''idempotency authority did not match the reconciliation execution'')
        else Inr d')))"

definition validate_link :: "recon_env \<Rightarrow> db \<Rightarrow> UnknownAction \<Rightarrow> unit res" where
  "validate_link env d a =
     (if \<not> db_has_idempotency d then Inr ()
      else case select_one (\<lambda>r. ir_eid r = ua_execution_record_id a) (db_idem d) of
        None \<Rightarrow> Inl (ReconciliationConflictError
                  ''execution record is absent from the colocated idempotency authority'')
      | Some r \<Rightarrow>
          if ir_fingerprint r \<noteq> ua_action_digest a
          then Inl (invalid ''unknown action digest does not match the idempotency authority'')
          else bindR (idempotency_namespace_digest env (ir_namespace r)) (\<lambda>dig.
            if dig \<noteq> ua_namespace_digest a
            then Inl (invalid ''unknown action namespace does not match the idempotency authority'')
            else raise_if (ir_state r \<noteq> IS_UNKNOWN)
              (ReconciliationConflictError
                 ''idempotency execution must be UNKNOWN before reconciliation starts'')))"

section \<open>Recording unknown outcomes\<close>

text \<open>The head insertion of \<open>create_unknown\<close> and \<open>record_unknown\<close>, with its audit event.\<close>

definition add_unknown_head ::
  "recon_env \<Rightarrow> string \<Rightarrow> time \<Rightarrow> UnknownAction \<Rightarrow> time \<Rightarrow> db \<Rightarrow> (db \<times> Head) res" where
  "add_unknown_head env new_id now a updated_at d =
     bindR (dump env (JObj (UnknownAction_to_dict a))) (\<lambda>_.
     case insert_head (ua_execution_record_id a) (unknown_head a updated_at) d of
       Inl _ \<Rightarrow> Inl (ReconciliationConflictError
                  ''a reconciliation head already exists for this execution record'')
     | Inr d1 \<Rightarrow>
         bindR (Head_post_init env (unknown_head a updated_at)) (\<lambda>h.
         bindR (enqueue_outbox env new_id now h ''unknown_recorded'' None None None None None None None d1)
           (\<lambda>(d2, _). Inr (d2, h))))"

definition sl_create_unknown ::
  "recon_env \<Rightarrow> (nat \<Rightarrow> string) \<Rightarrow> time \<Rightarrow> db \<Rightarrow> UnknownAction \<Rightarrow> db \<times> Head res" where
  "sl_create_unknown env ids now d a =
     commit d (seqR (validate_link env d a) (add_unknown_head env (ids 0) now a (ua_attempted_at a) d))"

definition validate_prepared_claim ::
  "recon_env \<Rightarrow> IdempotencyClaim \<Rightarrow> UnknownAction \<Rightarrow> unit res" where
  "validate_prepared_claim env c a =
     seqR (claim_matches env c a)
       (raise_if (cl_owner_token c = None \<or> cl_owner_token c = Some [])
          (invalid ''durable idempotency claim must include an owner token''))"

definition sl_prepare_action ::
  "recon_env \<Rightarrow> db \<Rightarrow> IdempotencyClaim \<Rightarrow> UnknownAction \<Rightarrow> db \<times> unit res" where
  "sl_prepare_action env d c a =
     commit d
      (seqR (validate_prepared_claim env c a)
      (bindR (dump env (JObj (UnknownAction_to_dict a))) (\<lambda>encoded.
       case db_prepared d (ua_execution_record_id a) of
         None \<Rightarrow>
           if rowcount (claim_row c) (db_idem d) = 0
           then Inl (ReconciliationConflictError
                  ''idempotency ownership was lost before reconciliation preparation'')
           else bindR (insert_prepared a d) (\<lambda>d'. Inr (d', ()))
       | Some b \<Rightarrow>
           if dump env (JObj (UnknownAction_to_dict b)) \<noteq> Inr encoded
           then Inl (ReconciliationConflictError ''a different reconciliation action is already prepared'')
           else Inr (d, ()))))"

definition prepared_identity :: "UnknownAction \<Rightarrow> UnknownAction \<Rightarrow> unit res" where
  "prepared_identity p s =
     raise_if (ua_execution_record_id p \<noteq> ua_execution_record_id s \<or>
               ua_action_digest p \<noteq> ua_action_digest s \<or>
               ua_tool_name p \<noteq> ua_tool_name s \<or>
               ua_contract_id p \<noteq> ua_contract_id s \<or>
               ua_contract_version p \<noteq> ua_contract_version s \<or>
               ua_namespace_digest p \<noteq> ua_namespace_digest s \<or>
               ua_tenant_partition_digest p \<noteq> ua_tenant_partition_digest s)
       (invalid ''prepared action identity does not match the UNKNOWN transition'')"

definition validate_unknown_claim ::
  "recon_env \<Rightarrow> IdempotencyClaim \<Rightarrow> UnknownAction \<Rightarrow> unit res" where
  "validate_unknown_claim env c a =
     (if \<not> cl_owner c
      then Inl (ReconciliationConflictError ''only the current idempotency owner can record UNKNOWN'')
      else if cl_execution_record_id c \<noteq> Some (ua_execution_record_id a)
      then Inl (invalid ''unknown action execution record does not match the idempotency claim'')
      else if cl_fingerprint c \<noteq> ua_action_digest a
      then Inl (invalid ''unknown action digest does not match the idempotency claim'')
      else bindR (idempotency_namespace_digest env (cl_namespace c)) (\<lambda>dig.
        if dig \<noteq> ua_namespace_digest a
        then Inl (invalid ''unknown action namespace does not match the idempotency claim'')
        else raise_if (cl_owner_token c = None \<or> cl_owner_token c = Some [])
          (invalid ''durable idempotency claim must include an owner token'')))"

definition unknown_row :: "string \<Rightarrow> time \<Rightarrow> idem_row \<Rightarrow> idem_row" where
  "unknown_row error now r =
     r\<lparr>ir_state := IS_UNKNOWN, ir_result := None, ir_error := Some error, ir_owner_token := None,
       ir_lease := None, ir_updated_at := now\<rparr>"

text \<open>\<open>stored_error\<close> is the class name of the error with a fixed message.\<close>

definition sl_record_unknown ::
  "recon_env \<Rightarrow> (nat \<Rightarrow> string) \<Rightarrow> time \<Rightarrow> db \<Rightarrow> IdempotencyClaim \<Rightarrow> UnknownAction \<Rightarrow> string \<Rightarrow> db \<times> Head res"
  where
  "sl_record_unknown env ids now d c a error_class =
     (let stored_error = error_class @ '': execution outcome is unknown'' in
      commit d
       (seqR (validate_unknown_claim env c a)
       (bindR (case db_prepared d (ua_execution_record_id a) of
                 None \<Rightarrow> Inr a
               | Some p \<Rightarrow> bindR (load_action env p) (\<lambda>p'. seqR (prepared_identity p' a) (Inr p'))) (\<lambda>act.
        bindR (update_idem (claim_row c) (unknown_row stored_error now) d) (\<lambda>(d1, n).
        if n \<noteq> 1
        then Inl (ReconciliationConflictError ''idempotency ownership was lost before UNKNOWN could be recorded'')
        else bindR (add_unknown_head env (ids 0) now act now d1) (\<lambda>(d2, h).
          Inr (set_future (cl_future c) (OutcomeUnknown stored_error (cl_execution_record_id c)) d2, h)))))))"

section \<open>Attempts\<close>

definition cas_head ::
  "string \<Rightarrow> ReconciliationState \<Rightarrow> int \<Rightarrow> (Head \<Rightarrow> Head) \<Rightarrow> string \<Rightarrow> db \<Rightarrow> db res" where
  "cas_head eid state revision f msg d =
     (case db_heads d eid of
        None \<Rightarrow> Inl (ReconciliationConflictError msg)
      | Some h \<Rightarrow>
          if hd_state h = state \<and> hd_revision h = revision
          then Inr (d\<lparr>db_heads := (db_heads d)(eid \<mapsto> f h)\<rparr>)
          else Inl (ReconciliationConflictError msg))"

text \<open>The writes shared by \<open>_append_attempt\<close> and \<open>_append_attempt_in_transaction\<close>.\<close>

definition write_attempt ::
  "recon_env \<Rightarrow> string \<Rightarrow> time \<Rightarrow> Head \<Rightarrow> Record \<Rightarrow> string \<Rightarrow> ProviderDescriptor \<Rightarrow>
   ReconciliationAttemptOutcome option \<Rightarrow> Finding option \<Rightarrow> db \<Rightarrow> (db \<times> Record \<times> Head) res" where
  "write_attempt env outbox_id now h r event_type p out finding d =
     bindR (cas_head (rc_execution_record_id r) (hd_state h) (hd_revision h)
              (\<lambda>x. x\<lparr>hd_revision := rc_revision r, hd_updated_at := rc_occurred_at r\<rparr>)
              ''reconciliation revision changed before attempt append'' d) (\<lambda>d1.
     bindR (insert_event env r d1) (\<lambda>d2.
     bindR (advanced_head env h r) (\<lambda>updated.
     bindR (enqueue_outbox env outbox_id now updated event_type (Some p) (payload_attempt (rc_payload r))
              out finding None None None d2) (\<lambda>(d3, _).
     Inr (d3, r, updated)))))"

definition sl_append_attempt ::
  "recon_env \<Rightarrow> (nat \<Rightarrow> string) \<Rightarrow> time \<Rightarrow> db \<Rightarrow> UnknownAction \<Rightarrow> int \<Rightarrow> ReconciliationEventKind \<Rightarrow>
   time \<Rightarrow> payload \<Rightarrow> string \<Rightarrow> ProviderDescriptor \<Rightarrow> ReconciliationAttemptOutcome option \<Rightarrow>
   Finding option \<Rightarrow> db \<times> Record res" where
  "sl_append_attempt env ids now d action expected_revision kind occurred_at pl event_type p out finding =
     (let eid = ua_execution_record_id action in
      commit d
       (bindR (sl_current env d eid) (\<lambda>h.
        bindR (sl_attempt_records env d eid) (\<lambda>rs.
        bindR (attempt_record env (ids 0) h rs eid action expected_revision kind occurred_at pl) (\<lambda>r.
        bindR (write_attempt env (ids 1) now h r event_type p out finding d) (\<lambda>(d', r', _).
        Inr (d', r')))))))"

definition sl_start_attempt ::
  "recon_env \<Rightarrow> (nat \<Rightarrow> string) \<Rightarrow> time \<Rightarrow> db \<Rightarrow> AttemptContext \<Rightarrow> ProviderDescriptor \<Rightarrow> int \<Rightarrow>
   db \<times> Record res" where
  "sl_start_attempt env ids now d ctx p expected_revision =
     (case validate_attempt ctx p of
        Inl e \<Rightarrow> (d, Inl e)
      | Inr _ \<Rightarrow>
          sl_append_attempt env ids now d (at_action ctx) expected_revision ATTEMPT_STARTED now
            (start_payload ctx p) ''attempt_started'' p None None)"

definition sl_finish_attempt ::
  "recon_env \<Rightarrow> (nat \<Rightarrow> string) \<Rightarrow> time \<Rightarrow> db \<Rightarrow> AttemptContext \<Rightarrow> ProviderDescriptor \<Rightarrow>
   ReconciliationAttemptOutcome \<Rightarrow> int \<Rightarrow> Finding option \<Rightarrow> string option \<Rightarrow> time option \<Rightarrow> db \<times> Record res"
  where
  "sl_finish_attempt env ids now d ctx p out expected_revision finding error finished_at =
     (case seqR (validate_attempt ctx p)
             (finish_payload ctx p out finding error
                (case finished_at of Some t \<Rightarrow> t | None \<Rightarrow> now)) of
        Inl e \<Rightarrow> (d, Inl e)
      | Inr (pl, occurred_at) \<Rightarrow>
          sl_append_attempt env ids now d (at_action ctx) expected_revision ATTEMPT_FINISHED occurred_at
            pl ''attempt_finished'' p (Some out) finding)"

section \<open>Transitions\<close>

definition transition_event :: "Transition \<Rightarrow> string" where
  "transition_event t =
     (case tn_source t of
        MANUAL \<Rightarrow> ''manual_transition_recorded''
      | RECOVERY \<Rightarrow> ''recovery_transition_recorded''
      | PROVIDER \<Rightarrow> ''transition_recorded'')"

text \<open>The writes of a transition, from the evidence check to the audit event.\<close>

definition write_transition ::
  "recon_env \<Rightarrow> string \<Rightarrow> string \<Rightarrow> time \<Rightarrow> Head \<Rightarrow> Transition \<Rightarrow> string \<Rightarrow> ProviderDescriptor option \<Rightarrow>
   string option \<Rightarrow> string \<Rightarrow> db \<Rightarrow> (db \<times> Head) res" where
  "write_transition env event_id outbox_id now h t msg provider attempt event_type d =
     seqR (validate_transition_evidence env (hd_action h) t)
     (bindR (transition_record env event_id h t) (\<lambda>(r, updated).
      bindR (if hd_result_available updated then dump env (thaw (hd_result updated)) else Inr []) (\<lambda>_.
      bindR (cas_head (ua_execution_record_id (hd_action h)) (hd_state h) (hd_revision h)
               (\<lambda>x. x\<lparr>hd_state := hd_state updated, hd_revision := hd_revision updated,
                      hd_disposition := hd_disposition updated,
                      hd_result_available := hd_result_available updated,
                      hd_result := hd_result updated, hd_updated_at := hd_updated_at updated\<rparr>)
               msg d) (\<lambda>d1.
      bindR (insert_event env r d1) (\<lambda>d2.
      bindR (update_disposition env updated d2) (\<lambda>d3.
      bindR (enqueue_outbox env outbox_id now updated event_type provider attempt
               (if tn_source t = PROVIDER then Some SUCCESS else None) None
               (Some (tn_evidence_kind t)) (Some (tn_evidence t)) (tn_operator_identity_digest t) d3)
        (\<lambda>(d4, _). Inr (d4, updated))))))))"

definition sl_compare_and_append ::
  "recon_env \<Rightarrow> (nat \<Rightarrow> string) \<Rightarrow> time \<Rightarrow> db \<Rightarrow> string \<Rightarrow> ReconciliationState \<Rightarrow> int \<Rightarrow> decision \<Rightarrow>
   ProviderDescriptor option \<Rightarrow> string option \<Rightarrow> db \<times> Head res" where
  "sl_compare_and_append env ids now d eid expected_state expected_revision dec provider attempt =
     commit d
      (bindR (sl_current env d eid) (\<lambda>h.
       seqR (require_cas h expected_state expected_revision)
       (bindR (build_transition env h dec provider attempt) (\<lambda>t.
        seqR (case dec of
                ByFinding f \<Rightarrow>
                  bindR (sl_attempt_records env d eid) (\<lambda>rs. require_finished_attempt rs attempt provider f)
              | ByManual _ \<Rightarrow> Inr ())
        (write_transition env (ids 0) (ids 1) now h t ''reconciliation state or revision changed before append''
           provider attempt (transition_event t) d)))))"

section \<open>Recovery\<close>

fun sl_close_attempts ::
  "recon_env \<Rightarrow> (nat \<Rightarrow> string) \<Rightarrow> time \<Rightarrow> time \<Rightarrow> nat \<Rightarrow> Head \<Rightarrow>
   (Record \<times> AttemptContext \<times> ProviderDescriptor) list \<Rightarrow> db \<Rightarrow> (db \<times> Head) res" where
  "sl_close_attempts env ids now recovered_at i h [] d = Inr (d, h)"
| "sl_close_attempts env ids now recovered_at i h ((s, ctx, p) # rest) d =
     bindR (finish_payload ctx p RECOVERY_REQUIRED None
              (Some ''provider attempt expired before a terminal record was persisted'') recovered_at)
       (\<lambda>(pl, occurred_at).
     bindR (sl_attempt_records env d (ua_execution_record_id (hd_action h))) (\<lambda>rs.
     seqR (validate_attempt_append rs ATTEMPT_FINISHED pl)
     (bindR (Record_post_init env
        \<lparr>rc_event_id = ids (2 * i), rc_execution_record_id = ua_execution_record_id (hd_action h),
         rc_revision = hd_revision h + 1, rc_kind = ATTEMPT_FINISHED,
         rc_state_before = hd_state h, rc_state_after = hd_state h,
         rc_occurred_at = occurred_at, rc_payload = pl\<rparr>) (\<lambda>r.
      bindR (write_attempt env (ids (2 * i + 1)) now h r ''attempt_recovery_recorded'' p
               (Some RECOVERY_REQUIRED) None d) (\<lambda>(d', _, h').
      sl_close_attempts env ids now recovered_at (Suc i) h' rest d')))))"

definition sl_recover ::
  "recon_env \<Rightarrow> (nat \<Rightarrow> string) \<Rightarrow> time \<Rightarrow> time \<Rightarrow> db \<Rightarrow> string \<Rightarrow> db \<times> Head option res" where
  "sl_recover env ids now recovered_at d eid =
     commit d
      (bindR (sl_current env d eid) (\<lambda>h.
       bindR (sl_attempt_records env d eid) (\<lambda>rs.
       bindR (unfinished_attempt_contexts (hd_action h) rs) (\<lambda>attempts.
       if attempts = [] then Inr (d, None)
       else if hd_state h \<noteq> UNKNOWN
       then Inl (ReconciliationError ''a non-UNKNOWN reconciliation head has an unfinished attempt'')
       else if list_ex (\<lambda>(_, ctx, _). recovered_at < at_deadline ctx) attempts then Inr (d, Some h)
       else
         bindR (sl_close_attempts env ids now recovered_at 0 h attempts d) (\<lambda>(d1, h1).
         bindR (recovery_transition env h1 (length attempts) recovered_at) (\<lambda>t.
         bindR (write_transition env (ids (2 * length attempts)) (ids (2 * length attempts + 1)) now h1 t
                  ''reconciliation revision changed before recovery transition'' None None
                  ''recovery_transition_recorded'' d1) (\<lambda>(d2, updated).
         Inr (d2, Some updated))))))))"

end
