(* ===== verification/SqlLedgerContract.thy ===== *)
theory SqlLedgerContract
  imports SqlLedger
begin

text \<open>
  The durable ledger implements the ledger contract: stored values survive reloading through their
  constructors, and every operation moves each entry by the same steps as the in-memory ledger.
\<close>

section \<open>Reloading stored values\<close>

lemma thaw_bounded_mapping:
  assumes "bounded_mapping env xs l m e s = Inr ys"
  shows "thaw_dict ys = xs" "bounded_mapping env (thaw_dict ys) l' m e s = Inr ys"
proof -
  have ys: "ys = as_items (freeze (JObj xs))" and w: "within_bounds 0 MAX_VALUE_NODES (JObj xs)"
    using assms by (auto simp: bounded_mapping_Inr)
  have "thaw (JObj ys) = JObj xs"
    unfolding ys as_items_freeze using w by (intro thaw_freeze interoperable_plain) (simp add: within_bounds_def)
  then show "thaw_dict ys = xs" by (simp add: thaw_dict_def)
  then show "bounded_mapping env (thaw_dict ys) l' m e s = Inr ys"
    using assms by (simp add: bounded_mapping_Inr)
qed

lemma thaw_thaw [simp]: "thaw (thaw v) = thaw v"
  by (rule thaw_plain) (rule plain_json_thaw)

lemma thaw_JObj_dict: "thaw (JObj (thaw_dict xs)) = thaw (JObj xs)"
proof -
  have "JObj (thaw_dict xs) = thaw (JObj xs)" by (simp add: thaw_dict_def)
  then show ?thesis by (metis thaw_thaw)
qed

lemma bounded_schema_reload:
  assumes "bounded_schema env xs l = Inr ys"
  shows "bounded_schema env (thaw_dict ys) l = Inr ys"
proof -
  let ?p = "as_items (thaw (JObj xs))"
  have v: "re_validate_schema env (thaw (JObj xs)) = None"
    and b: "bounded_mapping env ?p l MAX_SCHEMA_BYTES True False = Inr ys"
    using assms by (auto simp: bounded_schema_def Let_def split: option.splits)
  have ys: "thaw_dict ys = ?p" by (rule thaw_bounded_mapping(1)[OF b])
  have "JObj ?p = thaw (JObj xs)" by simp
  then have "thaw (JObj ?p) = thaw (JObj xs)" by (metis thaw_thaw)
  then show ?thesis using v b unfolding bounded_schema_def ys Let_def by (simp del: thaw.simps)
qed

lemma optional_schema_reload:
  "optional_schema env l s = Inr t \<Longrightarrow> optional_schema env l (map_option thaw_dict t) = Inr t"
  by (cases s) (auto simp: bindR_eq_Inr dest: bounded_schema_reload)

lemma sort_eq_Nil: "sort xs = [] \<longleftrightarrow> xs = []"
  by (metis length_0_conv length_sort)

lemma provider_binding_reload:
  "provider_binding_ok a = Inr ks \<Longrightarrow> provider_binding_ok (a\<lparr>ua_evidence_kinds := ks\<rparr>) = Inr ks"
  by (auto simp: provider_binding_ok_def bindR_eq_Inr seq_all_Inr sort_eq_Nil sorted_sort_id
      split: option.splits if_splits)

lemma provider_binding_cong:
  "ua_provider_id a = ua_provider_id b \<Longrightarrow> ua_protocol_version a = ua_protocol_version b \<Longrightarrow>
   ua_evidence_kinds a = ua_evidence_kinds b \<Longrightarrow> provider_binding_ok a = provider_binding_ok b"
  by (simp only: provider_binding_ok_def)

lemma action_reload:
  assumes "action_built env a"
  shows "load_action env a = Inr a"
proof -
  obtain b where b: "UnknownAction_post_init env b = Inr a" using assms by (auto simp: action_built_def)
  then obtain rc pb rs ks mt where f:
      "optional_schema env ''receipt_schema'' (ua_receipt_schema b) = Inr rc"
      "optional_schema env ''probe_schema'' (ua_probe_schema b) = Inr pb"
      "optional_schema env ''result_schema'' (ua_result_schema b) = Inr rs"
      "provider_binding_ok b = Inr ks"
      "bounded_mapping env (ua_metadata b) ''unknown action metadata'' MAX_METADATA_BYTES True True = Inr mt"
    and a: "a = b\<lparr>ua_receipt_schema := rc, ua_probe_schema := pb, ua_result_schema := rs,
             ua_evidence_kinds := ks, ua_metadata := mt\<rparr>"
    unfolding UnknownAction_post_init_def bindR_eq_Inr by auto
  note g = optional_schema_reload[OF f(1)] optional_schema_reload[OF f(2)] optional_schema_reload[OF f(3)]
  have k: "provider_binding_ok (thaw_action a) = Inr ks"
    using provider_binding_reload[OF f(4)] provider_binding_cong[of "thaw_action a" "b\<lparr>ua_evidence_kinds := ks\<rparr>"]
    by (simp add: a thaw_action_def)
  have m: "bounded_mapping env (thaw_dict mt) ''unknown action metadata'' MAX_METADATA_BYTES True True = Inr mt"
    by (rule thaw_bounded_mapping(2)[OF f(5)])
  have "action_fields_ok (thaw_action a) = Inr ()"
    using b by (simp add: a UnknownAction_post_init_def bindR_eq_Inr action_fields_ok_def thaw_action_def
        del: seq_all.simps)
  moreover have "ua_receipt_schema (thaw_action a) = map_option thaw_dict rc"
      "ua_probe_schema (thaw_action a) = map_option thaw_dict pb"
      "ua_result_schema (thaw_action a) = map_option thaw_dict rs"
      "ua_metadata (thaw_action a) = thaw_dict mt"
      "(thaw_action a)\<lparr>ua_receipt_schema := rc, ua_probe_schema := pb, ua_result_schema := rs,
             ua_evidence_kinds := ks, ua_metadata := mt\<rparr> = a"
    by (simp_all add: a thaw_action_def)
  ultimately show ?thesis
    unfolding load_action_def UnknownAction_post_init_def by (simp add: k g m)
qed

section \<open>The invariant of the durable ledger\<close>

definition sl_records :: "db \<Rightarrow> string \<Rightarrow> Record list" where
  "sl_records d eid = filter (\<lambda>r. rc_execution_record_id r = eid) (db_events d)"

definition sl_view :: "db \<Rightarrow> string \<Rightarrow> entry option" where
  "sl_view d eid = map_option (\<lambda>h. (h, sl_records d eid)) (db_heads d eid)"

definition head_stable :: "recon_env \<Rightarrow> Head \<Rightarrow> bool" where
  "head_stable env h \<longleftrightarrow> load_action env (hd_action h) = Inr (hd_action h) \<and> Head_post_init env h = Inr h"

definition sl_inv :: "recon_env \<Rightarrow> db \<Rightarrow> bool" where
  "sl_inv env d \<longleftrightarrow>
     (\<forall>eid h. db_heads d eid = Some h \<longrightarrow> entry_inv eid (h, sl_records d eid) \<and> head_stable env h) \<and>
     (\<forall>r\<in>set (db_events d). Record_post_init env r = Inr r \<and> db_heads d (rc_execution_record_id r) \<noteq> None) \<and>
     (\<forall>eid a. db_prepared d eid = Some a \<longrightarrow> load_action env a = Inr a \<and> ua_execution_record_id a = eid)"

definition sl_sound :: "recon_env \<Rightarrow> db \<Rightarrow> db \<Rightarrow> bool" where
  "sl_sound env d d' \<longleftrightarrow> sl_inv env d' \<and> (\<forall>eid. entry_steps eid (sl_view d eid) (sl_view d' eid))"

lemma sl_sound_refl: "sl_inv env d \<Longrightarrow> sl_sound env d d"
  by (simp add: sl_sound_def)

lemma sl_sound_trans: "sl_sound env a b \<Longrightarrow> sl_sound env b c \<Longrightarrow> sl_sound env a c"
  unfolding sl_sound_def by (meson rtranclp_trans)

text \<open>Two databases with the same ledger tables.\<close>

definition same_ledger :: "db \<Rightarrow> db \<Rightarrow> bool" where
  "same_ledger d d' \<longleftrightarrow> db_heads d' = db_heads d \<and> db_events d' = db_events d \<and> db_prepared d' = db_prepared d"

lemma same_ledger_view: "same_ledger d d' \<Longrightarrow> sl_view d' = sl_view d"
  by (rule ext) (simp add: same_ledger_def sl_view_def sl_records_def)

lemma same_ledger_inv: "same_ledger d d' \<Longrightarrow> sl_inv env d' = sl_inv env d"
  by (simp add: same_ledger_def sl_inv_def sl_records_def)

lemma same_ledger_sound: "sl_sound env d d1 \<Longrightarrow> same_ledger d1 d2 \<Longrightarrow> sl_sound env d d2"
  by (simp add: sl_sound_def same_ledger_view same_ledger_inv)

lemma load_head_stable:
  assumes "head_stable env h"
  shows "load_head env h = Inr h"
proof -
  have h: "load_action env (hd_action h) = Inr (hd_action h)" "Head_post_init env h = Inr h"
    using assms by (auto simp: head_stable_def)
  then obtain v where v: "bounded_result env (nat (ua_max_result_bytes (hd_action h))) (hd_result_available h)
      (hd_result h) = Inr v" "v = hd_result h"
    unfolding Head_post_init_Inr by (metis Head.select_convs(7) Head.surjective Head.update_convs(7))
  have "(if hd_result_available h then thaw (hd_result h) else JNull) = hd_result h"
  proof (cases "hd_result_available h")
    case True
    then have "interoperable (hd_result h)"
      using v by (auto simp: bounded_result_def bounded_value_Inr within_bounds_def)
    then show ?thesis using True thaw_plain[OF interoperable_plain] by simp
  next
    case False
    then show ?thesis using v by (auto simp: bounded_result_def split: if_splits)
  qed
  then show ?thesis using h by (simp add: load_head_def)
qed

lemma sl_current_Inr:
  assumes "sl_inv env d"
  shows "sl_current env d eid = Inr h \<longleftrightarrow> EXECUTION_RECORD_ID eid \<and> db_heads d eid = Some h"
  using assms load_head_stable
  by (auto simp: sl_current_def require_execution_record_id_def bindR_eq_Inr sl_inv_def split: option.splits)

lemma records_of_eq:
  assumes "sl_inv env d" "db_heads d eid = Some h"
  shows "records_of d eid = sl_records d eid"
proof -
  have "numbered eid (sl_records d eid)" using assms by (auto simp: sl_inv_def entry_inv_def)
  then have "sorted (map rc_revision (sl_records d eid))"
    by (auto simp: numbered_def sorted_iff_nth_mono)
  then show ?thesis unfolding records_of_def sl_records_def by (rule sort_key_id_if_sorted)
qed

lemma load_records_stable: "\<forall>r\<in>set rs. Record_post_init env r = Inr r \<Longrightarrow> load_records env rs = Inr rs"
  by (induction rs) auto

lemma sl_attempt_records_eq:
  assumes "sl_inv env d" "db_heads d eid = Some h"
  shows "sl_attempt_records env d eid = Inr (filter is_attempt (sl_records d eid))"
proof -
  have "\<forall>r\<in>set (filter is_attempt (sl_records d eid)). Record_post_init env r = Inr r"
    using assms(1) by (auto simp: sl_inv_def sl_records_def)
  then show ?thesis
    unfolding sl_attempt_records_def records_of_eq[OF assms] by (rule load_records_stable)
qed

text \<open>Appending one event together with its head is sound when the entry takes a step.\<close>

lemma sl_append_sound:
  assumes inv: "sl_inv env d" and h: "db_heads d eid = Some h"
    and step: "entry_step eid (Some (h, sl_records d eid)) (Some (h', sl_records d eid @ [r]))"
    and st: "head_stable env h'" "Record_post_init env r = Inr r" "rc_execution_record_id r = eid"
    and d': "db_heads d' = (db_heads d)(eid \<mapsto> h')" "db_events d' = db_events d @ [r]"
      "db_prepared d' = db_prepared d"
  shows "sl_sound env d d'"
proof -
  have rec: "sl_records d' i = (if i = eid then sl_records d i @ [r] else sl_records d i)" for i
    using d' st(3) by (simp add: sl_records_def)
  have e: "entry_inv eid (h, sl_records d eid)" using inv h by (simp add: sl_inv_def)
  have "entry_inv eid (h', sl_records d eid @ [r])" by (rule entry_inv_step[OF step]) (use e in auto)
  then have "sl_inv env d'"
    using inv st d' rec unfolding sl_inv_def by (auto split: if_splits)
  moreover have "entry_steps i (sl_view d i) (sl_view d' i)" for i
    using step d' rec h by (cases "i = eid") (auto simp: sl_view_def)
  ultimately show ?thesis by (simp add: sl_sound_def)
qed

lemma sl_new_head_sound:
  assumes inv: "sl_inv env d" and h: "db_heads d eid = None" "ua_execution_record_id a = eid"
    and a: "load_action env a = Inr a"
    and d': "db_heads d' = (db_heads d)(eid \<mapsto> unknown_head a t)" "db_events d' = db_events d"
      "db_prepared d' = db_prepared d"
  shows "sl_sound env d d'"
proof -
  have rec: "sl_records d' i = sl_records d i" for i using d' by (simp add: sl_records_def)
  have nil: "sl_records d eid = []"
    using inv h(1) by (auto simp: sl_inv_def sl_records_def filter_empty_conv)
  have step: "entry_step eid None (Some (unknown_head a t, []))" by (rule entry_step.create[OF h(2)])
  have "entry_inv eid (unknown_head a t, [])" by (rule entry_inv_step[OF step]) auto
  moreover have "head_stable env (unknown_head a t)"
    using a unknown_head_built by (simp add: head_stable_def) (simp add: unknown_head_def)
  ultimately have "sl_inv env d'"
    using inv d' rec nil unfolding sl_inv_def by (auto split: if_splits)
  moreover have "entry_steps i (sl_view d i) (sl_view d' i)" for i
    using step d' rec h nil by (cases "i = eid") (auto simp: sl_view_def)
  ultimately show ?thesis by (simp add: sl_sound_def)
qed

section \<open>Every durable operation is sound\<close>

lemma enqueue_frame:
  "enqueue_outbox env i now h et p a out f k ev oper d = Inr (d', x) \<Longrightarrow> d' = d\<lparr>db_outbox := db_outbox d'\<rparr>"
  by (auto simp: enqueue_outbox_def Let_def bindR_eq_Inr split: option.splits if_splits)

lemma update_disposition_frame:
  "update_disposition env h d = Inr d' \<Longrightarrow> d' = d\<lparr>db_idem := db_idem d'\<rparr>"
  by (auto simp: update_disposition_def update_idem_def bindR_eq_Inr split: if_splits)

lemma insert_event_Inr: "insert_event env r d = Inr d' \<Longrightarrow> d' = d\<lparr>db_events := db_events d @ [r]\<rparr>"
  by (auto simp: insert_event_def bindR_eq_Inr split: if_splits)

lemma cas_head_Inr:
  "cas_head eid s n f msg d = Inr d' \<Longrightarrow>
   \<exists>h. db_heads d eid = Some h \<and> hd_state h = s \<and> hd_revision h = n \<and>
       d' = d\<lparr>db_heads := (db_heads d)(eid \<mapsto> f h)\<rparr>"
  by (auto simp: cas_head_def split: option.splits if_splits)

lemma head_stable_advance:
  assumes "head_stable env h" "rc_revision r = hd_revision h + 1"
  defines "h' \<equiv> h\<lparr>hd_revision := hd_revision h + 1, hd_updated_at := rc_occurred_at r\<rparr>"
  shows "advanced_head env h r = Inr h'" "head_stable env h'"
  using assms(1) advanced_head_built[OF _ assms(2), of env]
  by (auto simp: head_stable_def h'_def)

lemma write_attempt_sound:
  assumes inv: "sl_inv env d" and h: "db_heads d (rc_execution_record_id r) = Some h"
    and w: "write_attempt env i now h r et p out f d = Inr (d', r', h')"
    and r: "Record_post_init env r = Inr r" "is_attempt r" "kind_matches r"
      "rc_revision r = hd_revision h + 1" "rc_state_before r = hd_state h" "rc_state_after r = hd_state h"
      "rc_kind r = ATTEMPT_STARTED \<Longrightarrow> hd_state h = UNKNOWN"
      "validate_attempt_append (filter is_attempt (sl_records d (rc_execution_record_id r))) (rc_kind r) (rc_payload r) = Inr ()"
  shows "sl_sound env d d'" "db_heads d' (rc_execution_record_id r) = Some h'"
    "hd_action h' = hd_action h" "hd_state h' = hd_state h"
proof -
  have st: "head_stable env h" using inv h by (simp add: sl_inv_def)
  note adv = head_stable_advance[OF st r(4)]
  obtain ob where d': "d' = d\<lparr>db_heads := (db_heads d)(rc_execution_record_id r \<mapsto>
        h\<lparr>hd_revision := hd_revision h + 1, hd_updated_at := rc_occurred_at r\<rparr>),
      db_events := db_events d @ [r], db_outbox := ob\<rparr>"
    and h': "h' = h\<lparr>hd_revision := hd_revision h + 1, hd_updated_at := rc_occurred_at r\<rparr>"
  proof -
    obtain d1 d2 x where "cas_head (rc_execution_record_id r) (hd_state h) (hd_revision h)
              (\<lambda>x. x\<lparr>hd_revision := rc_revision r, hd_updated_at := rc_occurred_at r\<rparr>)
              ''reconciliation revision changed before attempt append'' d = Inr d1"
        "insert_event env r d1 = Inr d2" "advanced_head env h r = Inr h'"
        "enqueue_outbox env i now h' et (Some p) (payload_attempt (rc_payload r)) out f None None None d2 = Inr (d', x)"
      using w unfolding write_attempt_def bindR_eq_Inr by auto
    note e = cas_head_Inr[OF this(1)] insert_event_Inr[OF this(2)] this(3) enqueue_frame[OF this(4)]
    show thesis by (rule that[of "db_outbox d'"]) (use e h adv(1) r(4) in auto)
  qed
  have "entry_step (rc_execution_record_id r) (Some (h, sl_records d (rc_execution_record_id r)))
      (Some (h', sl_records d (rc_execution_record_id r) @ [r]))"
    unfolding h' by (rule entry_step.attempt) (use r in auto)
  then show "sl_sound env d d'"
    by (rule sl_append_sound[OF inv h]) (use adv(2) h' r(1) d' in auto)
  show "db_heads d' (rc_execution_record_id r) = Some h'" "hd_action h' = hd_action h" "hd_state h' = hd_state h"
    using d' h' by simp_all
qed

lemma commit_sound:
  assumes "sl_inv env d" "commit d x = (d', r)" "\<And>d1 y. x = Inr (d1, y) \<Longrightarrow> sl_sound env d d1"
  shows "sl_sound env d d'"
  using assms sl_sound_refl by (cases x) (auto simp: commit_def)

lemma Record_post_init_same: "Record_post_init env r = Inr r' \<Longrightarrow> r' = r"
  by (auto simp: Record_post_init_def bindR_eq_Inr)

lemma sl_append_attempt_sound:
  assumes inv: "sl_inv env d"
    and app: "sl_append_attempt env ids now d action n kind t pl et p out f = (d', res)"
    and pl: "kind \<in> {ATTEMPT_STARTED, ATTEMPT_FINISHED}"
      "\<And>r. rc_kind r = kind \<Longrightarrow> rc_payload r = pl \<Longrightarrow> kind_matches r"
  shows "sl_sound env d d'"
proof (rule commit_sound[OF inv app[unfolded sl_append_attempt_def Let_def]])
  let ?eid = "ua_execution_record_id action"
  fix d1 y
  assume "bindR (sl_current env d ?eid) (\<lambda>h. bindR (sl_attempt_records env d ?eid) (\<lambda>rs.
      bindR (attempt_record env (ids 0) h rs ?eid action n kind t pl) (\<lambda>r.
      bindR (write_attempt env (ids 1) now h r et p out f d) (\<lambda>(d', r', _). Inr (d', r'))))) = Inr (d1, y)"
  then obtain h rs r r' h' where h: "db_heads d ?eid = Some h" and rs: "sl_attempt_records env d ?eid = Inr rs"
      and r: "attempt_record env (ids 0) h rs ?eid action n kind t pl = Inr r"
      and w: "write_attempt env (ids 1) now h r et p out f d = Inr (d1, r', h')"
    unfolding bindR_eq_Inr sl_current_Inr[OF inv] by auto
  note f = attempt_record_Inr[OF r]
  have "rs = filter is_attempt (sl_records d ?eid)" using rs sl_attempt_records_eq[OF inv h] by simp
  moreover have "Record_post_init env r = Inr r"
    using r Record_post_init_same by (auto simp: attempt_record_def bindR_eq_Inr split: if_splits)
  ultimately show "sl_sound env d d1"
    by (intro write_attempt_sound(1)[OF inv _ w]) (use f h pl in \<open>auto simp: is_attempt_def\<close>)
qed

lemma sl_start_sound:
  assumes "sl_inv env d" "sl_start_attempt env ids now d ctx p n = (d', r)"
  shows "sl_sound env d d'"
proof (cases "validate_attempt ctx p")
  case (Inl e)
  then show ?thesis using assms by (simp add: sl_start_attempt_def sl_sound_refl)
next
  case (Inr u)
  then have "sl_append_attempt env ids now d (at_action ctx) n ATTEMPT_STARTED now (start_payload ctx p)
      ''attempt_started'' p None None = (d', r)"
    using assms(2) by (simp add: sl_start_attempt_def)
  then show ?thesis
    by (rule sl_append_attempt_sound[OF assms(1)]) (auto simp: start_payload_def kind_matches_def)
qed

lemma sl_finish_sound:
  assumes "sl_inv env d" "sl_finish_attempt env ids now d ctx p out n f e t = (d', r)"
  shows "sl_sound env d d'"
proof (cases "seqR (validate_attempt ctx p)
             (finish_payload ctx p out f e (case t of Some t \<Rightarrow> t | None \<Rightarrow> now))")
  case (Inl e)
  then show ?thesis using assms by (simp add: sl_finish_attempt_def sl_sound_refl)
next
  case (Inr x)
  obtain pl t' where x: "x = (pl, t')" by (cases x)
  then have pl: "pl = FinishPayload (at_attempt_id ctx) (pd_provider_id p) out f e"
    using Inr finish_payload_Inr by (fastforce simp: bindR_eq_Inr)
  have "sl_append_attempt env ids now d (at_action ctx) n ATTEMPT_FINISHED t' pl ''attempt_finished'' p
      (Some out) f = (d', r)"
    using assms(2) Inr x by (simp add: sl_finish_attempt_def)
  then show ?thesis
    by (rule sl_append_attempt_sound[OF assms(1)]) (auto simp: pl kind_matches_def)
qed

lemma write_transition_Inr:
  assumes w: "write_transition env i j now h t msg p a et d = Inr (d', u)"
  obtains r d1 d2 d3 x where
    "transition_record env i h t = Inr (r, u)"
    "cas_head (ua_execution_record_id (hd_action h)) (hd_state h) (hd_revision h)
               (\<lambda>x. x\<lparr>hd_state := hd_state u, hd_revision := hd_revision u,
                      hd_disposition := hd_disposition u, hd_result_available := hd_result_available u,
                      hd_result := hd_result u, hd_updated_at := hd_updated_at u\<rparr>) msg d = Inr d1"
    "insert_event env r d1 = Inr d2" "update_disposition env u d2 = Inr d3"
    "enqueue_outbox env j now u et p a (if tn_source t = PROVIDER then Some SUCCESS else None) None
       (Some (tn_evidence_kind t)) (Some (tn_evidence t)) (tn_operator_identity_digest t) d3 = Inr (d', x)"
  using w unfolding write_transition_def bindR_eq_Inr split_paired_Ex prod.case by blast

lemma attested_mono: "attested rs t \<Longrightarrow> set rs \<subseteq> set rs' \<Longrightarrow> attested rs' t"
  unfolding attested_def by blast

lemma justified_mono: "justified rs t \<Longrightarrow> set rs \<subseteq> set rs' \<Longrightarrow> justified rs' t"
  using attested_mono by (auto simp: justified_def split: ReconciliationTransitionSource.splits)

lemma write_transition_sound:
  assumes inv: "sl_inv env d" and h: "db_heads d (ua_execution_record_id (hd_action h)) = Some h"
    and w: "write_transition env i j now h t msg p a et d = Inr (d', u)"
    and t: "Transition_post_init env t0 = Inr t" "tn_expected_state t = hd_state h"
    and jus: "legal_transition (hd_state h) (tn_new_state t) \<Longrightarrow>
      justified (filter is_attempt (sl_records d (ua_execution_record_id (hd_action h)))) t"
  shows "sl_sound env d d'"
proof -
  let ?eid = "ua_execution_record_id (hd_action h)"
  obtain r d1 d2 d3 x where tr: "transition_record env i h t = Inr (r, u)"
    and w: "cas_head ?eid (hd_state h) (hd_revision h)
               (\<lambda>x. x\<lparr>hd_state := hd_state u, hd_revision := hd_revision u,
                      hd_disposition := hd_disposition u, hd_result_available := hd_result_available u,
                      hd_result := hd_result u, hd_updated_at := hd_updated_at u\<rparr>) msg d = Inr d1"
      "insert_event env r d1 = Inr d2" "update_disposition env u d2 = Inr d3"
      "enqueue_outbox env j now u et p a (if tn_source t = PROVIDER then Some SUCCESS else None) None
         (Some (tn_evidence_kind t)) (Some (tn_evidence t)) (tn_operator_identity_digest t) d3 = Inr (d', x)"
    by (rule write_transition_Inr[OF w])
  note f = transition_record_Inr[OF tr t(1)]
  have st: "head_stable env h" using inv h by (simp add: sl_inv_def)
  have u: "h\<lparr>hd_state := hd_state u, hd_revision := hd_revision u, hd_disposition := hd_disposition u,
        hd_result_available := hd_result_available u, hd_result := hd_result u, hd_updated_at := hd_updated_at u\<rparr> = u"
    by (simp add: f(2) transition_head_def)
  have "db_heads d1 = (db_heads d)(?eid \<mapsto> u) \<and> db_events d1 = db_events d \<and> db_prepared d1 = db_prepared d"
    using cas_head_Inr[OF w(1)] h u by auto
  then have d': "db_heads d' = (db_heads d)(?eid \<mapsto> u)" "db_events d' = db_events d @ [r]"
      "db_prepared d' = db_prepared d"
    using insert_event_Inr[OF w(2)] arg_cong[OF update_disposition_frame[OF w(3)], of db_heads]
      arg_cong[OF update_disposition_frame[OF w(3)], of db_events]
      arg_cong[OF update_disposition_frame[OF w(3)], of db_prepared]
      arg_cong[OF enqueue_frame[OF w(4)], of db_heads] arg_cong[OF enqueue_frame[OF w(4)], of db_events]
      arg_cong[OF enqueue_frame[OF w(4)], of db_prepared] by auto
  have jrs: "justified (sl_records d ?eid) t"
    by (rule justified_mono[OF jus[OF f(1)]]) auto
  have "entry_step ?eid (Some (h, sl_records d ?eid))
      (Some (\<lparr>hd_action = hd_action h, hd_state = tn_new_state t, hd_revision = hd_revision h + 1,
                 hd_disposition = disposition_of (tn_new_state t) (tn_result_available t),
                 hd_updated_at = rc_occurred_at r, hd_result_available = tn_result_available t,
                 hd_result = tn_result t\<rparr>, sl_records d ?eid @ [r]))"
    by (rule entry_step.transit) (use f jrs t(2) in auto)
  then have step: "entry_step ?eid (Some (h, sl_records d ?eid)) (Some (u, sl_records d ?eid @ [r]))"
    using f(2,4) by (simp add: transition_head_def)
  have hs: "head_stable env u"
    using st f(2,3) by (simp add: head_stable_def transition_head_def)
  have rp: "Record_post_init env r = Inr r"
    using tr Record_post_init_same by (auto simp: transition_record_def bindR_eq_Inr)
  show ?thesis by (rule sl_append_sound[OF inv h step hs rp _ d']) (use f(4) in simp)
qed

lemma sl_compare_sound:
  assumes inv: "sl_inv env d" and dec: "decision_built env dec"
    and cmp: "sl_compare_and_append env ids now d eid s n dec provider attempt = (d', res)"
  shows "sl_sound env d d'"
proof (rule commit_sound[OF inv cmp[unfolded sl_compare_and_append_def]])
  fix d1 u
  assume "bindR (sl_current env d eid) (\<lambda>h.
       seqR (require_cas h s n)
       (bindR (build_transition env h dec provider attempt) (\<lambda>t.
        seqR (case dec of
                ByFinding f \<Rightarrow>
                  bindR (sl_attempt_records env d eid) (\<lambda>rs. require_finished_attempt rs attempt provider f)
              | ByManual _ \<Rightarrow> Inr ())
        (write_transition env (ids 0) (ids 1) now h t ''reconciliation state or revision changed before append''
           provider attempt (transition_event t) d)))) = Inr (d1, u)"
  then obtain h t where h: "db_heads d eid = Some h"
      and t: "build_transition env h dec provider attempt = Inr t"
      and fin: "(case dec of
                ByFinding f \<Rightarrow>
                  bindR (sl_attempt_records env d eid) (\<lambda>rs. require_finished_attempt rs attempt provider f)
              | ByManual _ \<Rightarrow> Inr ()) = Inr ()"
      and w: "write_transition env (ids 0) (ids 1) now h t
           ''reconciliation state or revision changed before append'' provider attempt (transition_event t) d = Inr (d1, u)"
    unfolding bindR_eq_Inr sl_current_Inr[OF inv] by auto
  obtain t0 where t0: "Transition_post_init env t0 = Inr t" using build_transition_built(1)[OF t] by blast
  have eid: "ua_execution_record_id (hd_action h) = eid" using inv h by (auto simp: sl_inv_def entry_inv_def)
  have fin': "require_finished_attempt (filter is_attempt (sl_records d eid)) attempt provider f = Inr ()"
    if "dec = ByFinding f" for f
    using fin that sl_attempt_records_eq[OF inv h] by simp
  show "sl_sound env d d1"
    by (rule write_transition_sound[OF inv _ w t0 build_transition_built(2)[OF t]])
       (use h eid fin' build_transition_justified[OF t dec] in auto)
qed

lemma sl_close_sound:
  "sl_inv env d \<Longrightarrow> db_heads d (ua_execution_record_id (hd_action h)) = Some h \<Longrightarrow>
   sl_close_attempts env ids now t i h atts d = Inr (d', h') \<Longrightarrow>
   sl_sound env d d' \<and> db_heads d' (ua_execution_record_id (hd_action h)) = Some h' \<and>
   hd_action h' = hd_action h"
proof (induction atts arbitrary: i h d)
  case Nil
  then show ?case by (simp add: sl_sound_refl)
next
  case (Cons x rest)
  let ?eid = "ua_execution_record_id (hd_action h)"
  obtain s ctx p where x: "x = (s, ctx, p)" by (cases x)
  obtain pl t' rs u r d1 r1 h1 where f: "finish_payload ctx p RECOVERY_REQUIRED None
        (Some ''provider attempt expired before a terminal record was persisted'') t = Inr (pl, t')"
      and rs: "sl_attempt_records env d ?eid = Inr rs"
      and v: "validate_attempt_append rs ATTEMPT_FINISHED pl = Inr u"
      and r: "Record_post_init env \<lparr>rc_event_id = ids (2 * i), rc_execution_record_id = ?eid,
         rc_revision = hd_revision h + 1, rc_kind = ATTEMPT_FINISHED, rc_state_before = hd_state h,
         rc_state_after = hd_state h, rc_occurred_at = t', rc_payload = pl\<rparr> = Inr r"
      and w: "write_attempt env (ids (2 * i + 1)) now h r ''attempt_recovery_recorded'' p
               (Some RECOVERY_REQUIRED) None d = Inr (d1, r1, h1)"
      and rest: "sl_close_attempts env ids now t (Suc i) h1 rest d1 = Inr (d', h')"
    using Cons.prems(3) unfolding x sl_close_attempts.simps bindR_eq_Inr split_paired_Ex prod.case
    by blast
  have req: "r = \<lparr>rc_event_id = ids (2 * i), rc_execution_record_id = ?eid,
         rc_revision = hd_revision h + 1, rc_kind = ATTEMPT_FINISHED, rc_state_before = hd_state h,
         rc_state_after = hd_state h, rc_occurred_at = t', rc_payload = pl\<rparr>"
    using Record_post_init_same[OF r] .
  have km: "kind_matches r" using finish_payload_Inr[OF f] by (simp add: req kind_matches_def)
  have va: "validate_attempt_append (filter is_attempt (sl_records d ?eid)) ATTEMPT_FINISHED pl = Inr ()"
    using v rs sl_attempt_records_eq[OF Cons.prems(1,2)] by simp
  have flds: "rc_execution_record_id r = ?eid" "rc_revision r = hd_revision h + 1" "rc_kind r = ATTEMPT_FINISHED"
      "rc_state_before r = hd_state h" "rc_state_after r = hd_state h" "rc_payload r = pl"
    by (simp_all add: req)
  have hr: "db_heads d (rc_execution_record_id r) = Some h" using Cons.prems(2) flds by simp
  have pr: "Record_post_init env r = Inr r" using r req by simp
  note ws = write_attempt_sound[OF Cons.prems(1) hr w pr _ km flds(2,4,5)]
  have s1: "sl_sound env d d1" and h1: "db_heads d1 ?eid = Some h1" "hd_action h1 = hd_action h"
    using ws va flds by (auto simp: is_attempt_def)
  have "sl_inv env d1" using s1 by (simp add: sl_sound_def)
  from Cons.IH[OF this _ rest] h1 show ?case using s1 sl_sound_trans by auto
qed

lemma sl_recover_sound:
  assumes inv: "sl_inv env d" and rec: "sl_recover env ids now t d eid = (d', res)"
  shows "sl_sound env d d'"
proof (rule commit_sound[OF inv rec[unfolded sl_recover_def]])
  fix d2 y
  assume "bindR (sl_current env d eid) (\<lambda>h.
       bindR (sl_attempt_records env d eid) (\<lambda>rs.
       bindR (unfinished_attempt_contexts (hd_action h) rs) (\<lambda>attempts.
       if attempts = [] then Inr (d, None)
       else if hd_state h \<noteq> UNKNOWN
       then Inl (ReconciliationError ''a non-UNKNOWN reconciliation head has an unfinished attempt'')
       else if list_ex (\<lambda>(_, ctx, _). t < at_deadline ctx) attempts then Inr (d, Some h)
       else
         bindR (sl_close_attempts env ids now t 0 h attempts d) (\<lambda>(d1, h1).
         bindR (recovery_transition env h1 (length attempts) t) (\<lambda>t.
         bindR (write_transition env (ids (2 * length attempts)) (ids (2 * length attempts + 1)) now h1 t
                  ''reconciliation revision changed before recovery transition'' None None
                  ''recovery_transition_recorded'' d1) (\<lambda>(d2, updated).
         Inr (d2, Some updated))))))) = Inr (d2, y)"
  then obtain h atts where h: "db_heads d eid = Some h"
      and c: "d2 = d \<or> (\<exists>d1 h1 tr u. sl_close_attempts env ids now t 0 h atts d = Inr (d1, h1) \<and>
         recovery_transition env h1 (length atts) t = Inr tr \<and>
         write_transition env (ids (2 * length atts)) (ids (2 * length atts + 1)) now h1 tr
                  ''reconciliation revision changed before recovery transition'' None None
                  ''recovery_transition_recorded'' d1 = Inr (d2, u))"
    unfolding bindR_eq_Inr sl_current_Inr[OF inv] by (auto simp: bindR_eq_Inr split: if_splits) blast
  have eid: "ua_execution_record_id (hd_action h) = eid" using inv h by (auto simp: sl_inv_def entry_inv_def)
  show "sl_sound env d d2"
  proof (cases "d2 = d")
    case True
    then show ?thesis using inv sl_sound_refl by simp
  next
    case False
    then obtain d1 h1 tr u where x: "sl_close_attempts env ids now t 0 h atts d = Inr (d1, h1)"
        "recovery_transition env h1 (length atts) t = Inr tr"
        "write_transition env (ids (2 * length atts)) (ids (2 * length atts + 1)) now h1 tr
                  ''reconciliation revision changed before recovery transition'' None None
                  ''recovery_transition_recorded'' d1 = Inr (d2, u)"
      using c by blast
    have s1: "sl_sound env d d1" "db_heads d1 eid = Some h1" "hd_action h1 = hd_action h"
      using sl_close_sound[OF inv _ x(1)] h eid by auto
    note b = recovery_transition_built[OF x(2)]
    obtain t0 where t0: "Transition_post_init env t0 = Inr tr" using b(1) by blast
    have "sl_inv env d1" using s1(1) by (simp add: sl_sound_def)
    then have "sl_sound env d1 d2"
      by (rule write_transition_sound[OF _ _ x(3) t0 b(2) b(3)]) (use s1 eid in auto)
    then show ?thesis using s1(1) sl_sound_trans by blast
  qed
qed

lemma insert_head_Inr:
  "insert_head eid h d = Inr d' \<longleftrightarrow> db_heads d eid = None \<and> d' = d\<lparr>db_heads := (db_heads d)(eid \<mapsto> h)\<rparr>"
  by (auto simp: insert_head_def)

lemma add_unknown_head_Inr:
  assumes "add_unknown_head env i now a t d = Inr (d', h)"
  shows "db_heads d (ua_execution_record_id a) = None" "h = unknown_head a t"
    "d' = d\<lparr>db_heads := (db_heads d)(ua_execution_record_id a \<mapsto> unknown_head a t), db_outbox := db_outbox d'\<rparr>"
proof -
  obtain d1 x where "insert_head (ua_execution_record_id a) (unknown_head a t) d = Inr d1"
      "h = unknown_head a t"
      "enqueue_outbox env i now h ''unknown_recorded'' None None None None None None None d1 = Inr (d', x)"
    using assms unknown_head_built
    by (auto simp: add_unknown_head_def bindR_eq_Inr split: sum.splits)
  then show "db_heads d (ua_execution_record_id a) = None" "h = unknown_head a t"
    "d' = d\<lparr>db_heads := (db_heads d)(ua_execution_record_id a \<mapsto> unknown_head a t), db_outbox := db_outbox d'\<rparr>"
    using enqueue_frame[of env i now h "''unknown_recorded''"] by (auto simp: insert_head_Inr)
qed

lemma add_unknown_head_sound:
  assumes inv: "sl_inv env d" and a: "load_action env a = Inr a"
    and add: "add_unknown_head env i now a t d = Inr (d', h)"
  shows "sl_sound env d d'"
proof -
  note f = add_unknown_head_Inr[OF add]
  show ?thesis
    by (rule sl_new_head_sound[OF inv f(1) refl a])
       (use arg_cong[OF f(3), of db_heads] arg_cong[OF f(3), of db_events]
         arg_cong[OF f(3), of db_prepared] in auto)
qed

lemma sl_create_sound:
  assumes inv: "sl_inv env d" and a: "action_built env a"
    and c: "sl_create_unknown env ids now d a = (d', r)"
  shows "sl_sound env d d'"
  by (rule commit_sound[OF inv c[unfolded sl_create_unknown_def]])
     (auto simp: bindR_eq_Inr intro: add_unknown_head_sound[OF inv action_reload[OF a]])

lemma sl_prepare_sound:
  assumes inv: "sl_inv env d" and a: "action_built env a"
    and p: "sl_prepare_action env d c a = (d', r)"
  shows "sl_sound env d d'"
proof (rule commit_sound[OF inv p[unfolded sl_prepare_action_def]])
  fix d1 y
  assume "seqR (validate_prepared_claim env c a)
      (bindR (dump env (JObj (UnknownAction_to_dict a))) (\<lambda>encoded.
       case db_prepared d (ua_execution_record_id a) of
         None \<Rightarrow>
           if rowcount (claim_row c) (db_idem d) = 0
           then Inl (ReconciliationConflictError
                  ''idempotency ownership was lost before reconciliation preparation'')
           else bindR (insert_prepared a d) (\<lambda>d'. Inr (d', ()))
       | Some b \<Rightarrow>
           if dump env (JObj (UnknownAction_to_dict b)) \<noteq> Inr encoded
           then Inl (ReconciliationConflictError ''a different reconciliation action is already prepared'')
           else Inr (d, ()))) = Inr (d1, y)"
  then have "d1 = d \<or> d1 = d\<lparr>db_prepared := (db_prepared d)(ua_execution_record_id a \<mapsto> a)\<rparr>"
    by (auto simp: bindR_eq_Inr insert_prepared_def split: option.splits if_splits)
  then show "sl_sound env d d1"
    using inv action_reload[OF a]
    by (auto simp: sl_sound_def sl_inv_def sl_view_def sl_records_def split: if_splits)
qed

lemma update_idem_frame: "update_idem P f d = Inr (d', n) \<Longrightarrow> d' = d\<lparr>db_idem := upd_where P f (db_idem d)\<rparr> \<and> n = rowcount P (db_idem d)"
  by (auto simp: update_idem_def split: if_splits)

lemma set_future_same_ledger: "same_ledger d (set_future i f d)"
  by (simp add: set_future_def same_ledger_def)

text \<open>\<open>record_unknown\<close> changes the ledger by one new head.\<close>

lemma record_unknown_Inr:
  assumes "sl_record_unknown env ids now d c a cls = (d', Inr h)" and "sl_inv env d"
  obtains act d1 d2 where
    "(db_prepared d (ua_execution_record_id a) = None \<and> act = a) \<or>
       (db_prepared d (ua_execution_record_id a) = Some act \<and> ua_execution_record_id act = ua_execution_record_id a)"
    "d1 = d\<lparr>db_idem := upd_where (claim_row c)
          (unknown_row (cls @ '': execution outcome is unknown'') now) (db_idem d)\<rparr>"
    "rowcount (claim_row c) (db_idem d) = 1"
    "add_unknown_head env (ids 0) now act now d1 = Inr (d2, h)"
    "d' = set_future (cl_future c)
       (OutcomeUnknown (cls @ '': execution outcome is unknown'') (cl_execution_record_id c)) d2"
    "validate_unknown_claim env c a = Inr ()"
proof -
  have load: "load_action env p = Inr p \<and> ua_execution_record_id p = i" if "db_prepared d i = Some p" for p i
    using assms(2) that by (simp add: sl_inv_def)
  let ?err = "cls @ '': execution outcome is unknown''"
  obtain u act d1 n d2 where v: "validate_unknown_claim env c a = Inr u"
      and act: "(case db_prepared d (ua_execution_record_id a) of
                 None \<Rightarrow> Inr a
               | Some p \<Rightarrow> bindR (load_action env p) (\<lambda>p'. seqR (prepared_identity p' a) (Inr p'))) = Inr act"
      and up: "update_idem (claim_row c) (unknown_row ?err now) d = Inr (d1, n)" "n = 1"
      and add: "add_unknown_head env (ids 0) now act now d1 = Inr (d2, h)"
      and d': "d' = set_future (cl_future c) (OutcomeUnknown ?err (cl_execution_record_id c)) d2"
    using assms(1) unfolding sl_record_unknown_def Let_def commit_def
    by (auto simp: bindR_eq_Inr split: sum.splits if_splits)
  have "(db_prepared d (ua_execution_record_id a) = None \<and> act = a) \<or>
       (db_prepared d (ua_execution_record_id a) = Some act \<and> ua_execution_record_id act = ua_execution_record_id a)"
    using act load by (fastforce simp: bindR_eq_Inr split: option.splits)
  then show thesis using update_idem_frame[OF up(1)] up(2) add d' v by (intro that) auto
qed

lemma sl_record_unknown_sound:
  assumes inv: "sl_inv env d" and a: "action_built env a"
    and r: "sl_record_unknown env ids now d c a cls = (d', res)"
  shows "sl_sound env d d'"
proof (cases res)
  case (Inl e)
  then have "d' = d" using r by (auto simp: sl_record_unknown_def commit_def Let_def split: sum.splits)
  then show ?thesis using inv sl_sound_refl by simp
next
  case (Inr h)
  from r[unfolded Inr] inv show ?thesis
  proof (rule record_unknown_Inr)
    fix act d1 d2
    assume act: "(db_prepared d (ua_execution_record_id a) = None \<and> act = a) \<or>
       (db_prepared d (ua_execution_record_id a) = Some act \<and> ua_execution_record_id act = ua_execution_record_id a)"
      and d1: "d1 = d\<lparr>db_idem := upd_where (claim_row c)
          (unknown_row (cls @ '': execution outcome is unknown'') now) (db_idem d)\<rparr>"
      and add: "add_unknown_head env (ids 0) now act now d1 = Inr (d2, h)"
      and d': "d' = set_future (cl_future c)
       (OutcomeUnknown (cls @ '': execution outcome is unknown'') (cl_execution_record_id c)) d2"
    have sl: "same_ledger d d1" using d1 by (simp add: same_ledger_def)
    have "load_action env act = Inr act" using act inv action_reload[OF a] by (auto simp: sl_inv_def)
    then have "sl_sound env d1 d2"
      using add_unknown_head_sound[OF _ _ add] inv same_ledger_inv[OF sl] by blast
    then have "sl_sound env d d2" using sl by (simp add: sl_sound_def same_ledger_view)
    then show ?thesis using d' same_ledger_sound set_future_same_ledger by blast
  qed
qed

section \<open>The durable ledger implements the interface\<close>

fun sl_exec :: "recon_env \<Rightarrow> ledger_call \<Rightarrow> db \<Rightarrow> db \<times> ledger_out res" where
  "sl_exec env (ids, now, PrepareAction c a) d = out_of (\<lambda>_. OutUnit) (sl_prepare_action env d c a)"
| "sl_exec env (ids, now, CreateUnknown a) d = out_of OutHead (sl_create_unknown env ids now d a)"
| "sl_exec env (ids, now, StartAttempt ctx p n) d = out_of OutRecord (sl_start_attempt env ids now d ctx p n)"
| "sl_exec env (ids, now, FinishAttempt ctx p out n f e t) d =
     out_of OutRecord (sl_finish_attempt env ids now d ctx p out n f e t)"
| "sl_exec env (ids, now, RecoverAttempts eid t) d =
     out_of OutMaybe (sl_recover env ids now (case t of Some t \<Rightarrow> t | None \<Rightarrow> now) d eid)"
| "sl_exec env (ids, now, AppendTransition eid s n dec p a) d =
     out_of OutHead (sl_compare_and_append env ids now d eid s n dec p a)"

lemma sl_exec_sound:
  assumes inv: "sl_inv env d" and c: "lawful env c"
  shows "sl_sound env d (fst (sl_exec env c d))"
proof -
  obtain ids now op where op: "c = (ids, now, op)" by (cases c)
  have pair: "sl_sound env d (fst x)" if "\<And>d' r. x = (d', r) \<Longrightarrow> sl_sound env d d'"
    for x :: "db \<times> 'a res" using that by (cases x) auto
  show ?thesis
    using c unfolding op
    by (cases op)
       (auto simp: fst_out_of lawful_def intro!: pair
         intro: sl_prepare_sound[OF inv] sl_create_sound[OF inv] sl_start_sound[OF inv] sl_finish_sound[OF inv]
           sl_recover_sound[OF inv] sl_compare_sound[OF inv])
qed

interpretation durable_ledger: reconciliation_ledger "sl_exec env" sl_view "sl_inv env" "lawful env" for env
proof
  show "sl_inv env s \<Longrightarrow> lawful env c \<Longrightarrow> sl_inv env (fst (sl_exec env c s))" for s c
    using sl_exec_sound by (simp add: sl_sound_def)
  show "sl_inv env s \<Longrightarrow> lawful env c \<Longrightarrow> entry_steps eid (sl_view s eid) (sl_view (fst (sl_exec env c s)) eid)"
    for s c eid using sl_exec_sound by (simp add: sl_sound_def)
  show "sl_inv env s \<Longrightarrow> sl_view s eid = Some e \<Longrightarrow> entry_inv eid e" for s eid e
    by (auto simp: sl_inv_def sl_view_def)
qed

text \<open>
  Unlike the in-memory ledger, the durable one reads only the attempt records when it recovers, so it
  answers \<open>None\<close> once every attempt is closed, whatever the state.
\<close>

lemma sl_recover_nothing_open:
  assumes inv: "sl_inv env d" and h: "db_heads d eid = Some h" "EXECUTION_RECORD_ID eid"
    and closed: "unmatched_attempt_start_records (filter is_attempt (sl_records d eid)) = Inr []"
  shows "sl_recover env ids now t d eid = (d, Inr None)"
  using sl_attempt_records_eq[OF inv h(1)] sl_current_Inr[OF inv, of eid h] h closed
  by (simp add: sl_recover_def unfinished_attempt_contexts_def commit_def)

text \<open>An empty database, with both authorities colocated or only one of them.\<close>

definition empty_db :: "bool \<Rightarrow> bool \<Rightarrow> db" where
  "empty_db idempotency ledger =
     \<lparr>db_has_idempotency = idempotency, db_has_ledger = ledger, db_idem = [], db_prepared = Map.empty,
      db_heads = Map.empty, db_events = [], db_outbox = [], db_futures = (\<lambda>_. NotDone)\<rparr>"

lemma sl_inv_empty: "sl_inv env (empty_db a b)"
  by (simp add: sl_inv_def empty_db_def)

end
