(* ===== verification/SqlIdempotency.thy ===== *)
theory SqlIdempotency
  imports SqlLedgerContract
begin

text \<open>
  \<open>SQLiteIdempotencyStore\<close> (\<open>registry.py\<close>): claiming an idempotency key, resolving the claim, lease
  expiry and pruning, on the database shared with the reconciliation ledger.
\<close>

section \<open>Acquiring\<close>

definition IDEMPOTENCY_IDENTIFIER :: "string \<Rightarrow> bool" where
  "IDEMPOTENCY_IDENTIFIER s \<longleftrightarrow>
     1 \<le> length s \<and> length s \<le> 256 \<and> list_all (\<lambda>c. is_alnum c \<or> c \<in> set ''._:/-'') s"

definition validate_idem_identifier :: "string \<Rightarrow> string \<Rightarrow> unit res" where
  "validate_idem_identifier label v =
     raise_if (\<not> IDEMPOTENCY_IDENTIFIER v)
       (ValueError (label @ '' must contain 1-256 URL-safe identifier characters''))"

definition newer :: "idem_row \<Rightarrow> idem_row \<Rightarrow> idem_row" where
  "newer a b = (if ir_generation a < ir_generation b then b else a)"

text \<open>\<open>ORDER BY generation DESC LIMIT 1\<close>\<close>

definition latest_row :: "string \<Rightarrow> string \<Rightarrow> db \<Rightarrow> idem_row option" where
  "latest_row ns key d =
     (case filter (\<lambda>r. ir_namespace r = ns \<and> ir_key r = key) (db_idem d) of
        [] \<Rightarrow> None
      | r # rs \<Rightarrow> Some (foldl newer r rs))"

definition pending_row ::
  "string \<Rightarrow> string \<Rightarrow> string \<Rightarrow> nat \<Rightarrow> string \<Rightarrow> string \<Rightarrow> time \<Rightarrow> time \<Rightarrow> idem_row" where
  "pending_row eid ns key gen fp token lease now =
     \<lparr>ir_eid = eid, ir_namespace = ns, ir_key = key, ir_generation = gen, ir_fingerprint = fp,
      ir_state = IS_PENDING, ir_result = None, ir_error = None, ir_owner_token = Some token,
      ir_lease = Some lease, ir_updated_at = now\<rparr>"

definition insert_prepared_action :: "recon_env \<Rightarrow> UnknownAction \<Rightarrow> db \<Rightarrow> db res" where
  "insert_prepared_action env a d =
     (if \<not> db_has_ledger d
      then Inl (RuntimeError ''atomic reconciliation preparation requires a colocated ledger'')
      else bindR (dump env (JObj (UnknownAction_to_dict a))) (\<lambda>_. insert_prepared a d))"

text \<open>A new pending generation, its prepared action, and the claim that owns it.\<close>

definition grant ::
  "recon_env \<Rightarrow> (nat \<Rightarrow> string) \<Rightarrow> time \<Rightarrow> time \<Rightarrow> nat \<Rightarrow> string \<Rightarrow> string \<Rightarrow> string \<Rightarrow> nat \<Rightarrow>
   UnknownAction option \<Rightarrow> db \<Rightarrow> (db \<times> IdempotencyClaim) res" where
  "grant env ids lease_seconds now fid ns key fp gen prepared d =
     (let eid = (case prepared of None \<Rightarrow> ids 1 | Some a \<Rightarrow> ua_execution_record_id a) in
      bindR (insert_idem (pending_row eid ns key gen fp (ids 0) (now + lease_seconds) now) d) (\<lambda>d1.
      bindR (case prepared of None \<Rightarrow> Inr d1 | Some a \<Rightarrow> insert_prepared_action env a d1) (\<lambda>d2.
      Inr (d2\<lparr>db_futures := (db_futures d2)(fid := NotDone)\<rparr>,
           \<lparr>cl_namespace = ns, cl_key = key, cl_fingerprint = fp, cl_owner = True, cl_future = fid,
            cl_owner_token = Some (ids 0), cl_lease_seconds = Some lease_seconds,
            cl_execution_record_id = Some eid, cl_generation = Some gen\<rparr>))))"

text \<open>\<open>_materialize_prepared_reconciliation_head\<close>\<close>

definition materialize_head :: "recon_env \<Rightarrow> string \<Rightarrow> time \<Rightarrow> string \<Rightarrow> db \<Rightarrow> db res" where
  "materialize_head env outbox_id now eid d =
     (if \<not> db_has_ledger d then Inr d
      else case db_prepared d eid of
        None \<Rightarrow> Inr d
      | Some a \<Rightarrow>
          (case db_heads d eid of
             Some _ \<Rightarrow> Inr d
           | None \<Rightarrow>
               bindR (load_action env a) (\<lambda>a'.
               bindR (Head_post_init env (unknown_head a' now)) (\<lambda>h.
               bindR (enqueue_outbox env outbox_id now h ''unknown_recorded'' None None None None None None None
                        (d\<lparr>db_heads := (db_heads d)(eid \<mapsto> unknown_head a now)\<rparr>))
                 (\<lambda>(d', _). Inr d')))))"

text \<open>A recorded outcome as its waiters see it.\<close>

definition error_or :: "string option \<Rightarrow> string \<Rightarrow> string" where
  "error_or e dflt = (case e of None \<Rightarrow> dflt | Some s \<Rightarrow> if s = [] then dflt else s)"

definition row_future :: "idem_row \<Rightarrow> future" where
  "row_future r =
     (case ir_state r of
        IS_COMPLETED \<Rightarrow> Resolved (case ir_result r of Some v \<Rightarrow> v | None \<Rightarrow> JNull)
      | IS_UNKNOWN \<Rightarrow> OutcomeUnknown (error_or (ir_error r) ''outcome is unknown'') (Some (ir_eid r))
      | IS_MANUAL_REVIEW \<Rightarrow> OutcomeUnknown (error_or (ir_error r) ''outcome is unknown'') (Some (ir_eid r))
      | IS_APPLIED_NO_RESULT \<Rightarrow>
          AlreadyApplied (error_or (ir_error r) ''side effect applied but no result can be reconstructed'')
      | _ \<Rightarrow> InProgress ''another process owns this idempotency key'')"

definition observer_claim :: "string \<Rightarrow> string \<Rightarrow> string \<Rightarrow> nat \<Rightarrow> idem_row \<Rightarrow> IdempotencyClaim" where
  "observer_claim ns key fp fid r =
     \<lparr>cl_namespace = ns, cl_key = key, cl_fingerprint = fp, cl_owner = False, cl_future = fid,
      cl_owner_token = None, cl_lease_seconds = None, cl_execution_record_id = Some (ir_eid r),
      cl_generation = Some (ir_generation r)\<rparr>"

definition observe :: "string \<Rightarrow> string \<Rightarrow> string \<Rightarrow> nat \<Rightarrow> idem_row \<Rightarrow> future \<Rightarrow> db \<Rightarrow> db \<times> IdempotencyClaim" where
  "observe ns key fp fid r f d =
     (d\<lparr>db_futures := (db_futures d)(fid := f)\<rparr>, observer_claim ns key fp fid r)"

definition expire_lease ::
  "recon_env \<Rightarrow> string \<Rightarrow> time \<Rightarrow> idem_row \<Rightarrow> db \<Rightarrow> db res" where
  "expire_lease env outbox_id now r d =
     bindR (update_idem
       (\<lambda>x. ir_eid x = ir_eid r \<and> ir_generation x = ir_generation r \<and> ir_state x = IS_PENDING \<and>
            ir_lease x = ir_lease r)
       (\<lambda>x. x\<lparr>ir_state := IS_UNKNOWN,
              ir_error := Some ''owner lease expired before an outcome was recorded'',
              ir_owner_token := None, ir_lease := None, ir_updated_at := now\<rparr>) d) (\<lambda>(d1, n).
     if n \<noteq> 1 then Inl (RuntimeError ''idempotency lease changed before expiry recovery'')
     else materialize_head env outbox_id now (ir_eid r) d1)"

definition si_acquire_row ::
  "recon_env \<Rightarrow> (nat \<Rightarrow> string) \<Rightarrow> time \<Rightarrow> time \<Rightarrow> nat \<Rightarrow> string \<Rightarrow> string \<Rightarrow> string \<Rightarrow>
   UnknownAction option \<Rightarrow> idem_row \<Rightarrow> db \<Rightarrow> (db \<times> IdempotencyClaim) res" where
  "si_acquire_row env ids lease_seconds now fid ns key fp prepared r d =
     (if ir_fingerprint r \<noteq> fp
      then Inl (IdempotencyConflictError ''idempotency key was already used with different parameters'')
      else if ir_state r = IS_NOT_APPLIED
      then grant env ids lease_seconds now fid ns key fp (ir_generation r + 1) prepared d
      else if ir_state r = IS_PENDING \<and> (case ir_lease r of Some t \<Rightarrow> t \<le> now | None \<Rightarrow> False)
      then bindR (expire_lease env (ids 2) now r d) (\<lambda>d1.
        Inr (observe ns key fp fid r
          (OutcomeUnknown ''owner lease expired before an outcome was recorded'' (Some (ir_eid r))) d1))
      else Inr (observe ns key fp fid r (row_future r) d))"

definition si_acquire ::
  "recon_env \<Rightarrow> (nat \<Rightarrow> string) \<Rightarrow> time \<Rightarrow> time \<Rightarrow> nat \<Rightarrow> db \<Rightarrow> string \<Rightarrow> string \<Rightarrow> string \<Rightarrow>
   UnknownAction option \<Rightarrow> db \<times> IdempotencyClaim res" where
  "si_acquire env ids lease_seconds now fid d ns key fp prepared =
     commit d
      (seqR (seq_all
         [validate_idem_identifier ''namespace'' ns, validate_idem_identifier ''key'' key,
          raise_if (\<not> is_digest fp) (ValueError ''fingerprint must be a SHA-256 hex digest'')])
       (case latest_row ns key d of
          None \<Rightarrow> grant env ids lease_seconds now fid ns key fp 1 prepared d
        | Some r \<Rightarrow> si_acquire_row env ids lease_seconds now fid ns key fp prepared r d))"

definition si_acquire_prepared ::
  "recon_env \<Rightarrow> (nat \<Rightarrow> string) \<Rightarrow> time \<Rightarrow> time \<Rightarrow> nat \<Rightarrow> db \<Rightarrow> string \<Rightarrow> string \<Rightarrow> string \<Rightarrow>
   UnknownAction \<Rightarrow> db \<times> IdempotencyClaim res" where
  "si_acquire_prepared env ids lease_seconds now fid d ns key fp a =
     (if ua_action_digest a \<noteq> fp
      then (d, Inl (ValueError ''prepared action digest does not match fingerprint''))
      else case idempotency_namespace_digest env ns of
        Inl e \<Rightarrow> (d, Inl e)
      | Inr dig \<Rightarrow>
          if ua_namespace_digest a \<noteq> dig
          then (d, Inl (ValueError ''prepared action namespace does not match claim''))
          else si_acquire env ids lease_seconds now fid d ns key fp (Some a))"

section \<open>Resolving a claim\<close>

definition si_transition ::
  "time \<Rightarrow> IdempotencyClaim \<Rightarrow> idem_state \<Rightarrow> json option \<Rightarrow> string option \<Rightarrow> db \<Rightarrow> db res" where
  "si_transition now c state result error d =
     bindR (update_idem (claim_row c)
       (\<lambda>r. r\<lparr>ir_state := state, ir_result := result, ir_error := error, ir_owner_token := None,
              ir_lease := None, ir_updated_at := now\<rparr>) d) (\<lambda>(d', n).
     if n \<noteq> 1 then Inl (RuntimeError ''idempotency ownership was lost before completion'') else Inr d')"

definition si_complete :: "time \<Rightarrow> db \<Rightarrow> IdempotencyClaim \<Rightarrow> json \<Rightarrow> db \<times> unit res" where
  "si_complete now d c result =
     (if \<not> cl_owner c then (d, Inr ())
      else commit d
        (bindR (canonical_json ''idempotency result'' result) (\<lambda>v.
         bindR (si_transition now c IS_COMPLETED (Some v) None d) (\<lambda>d'.
         Inr (set_future (cl_future c) (Resolved v) d', ())))))"

definition si_mark_unknown :: "time \<Rightarrow> db \<Rightarrow> IdempotencyClaim \<Rightarrow> exn \<Rightarrow> db \<times> unit res" where
  "si_mark_unknown now d c e =
     (if \<not> cl_owner c then (d, Inr ())
      else commit d
        (bindR (si_transition now c IS_UNKNOWN None (Some (take 2048 (exn_msg e))) d) (\<lambda>d'.
         Inr (set_future (cl_future c) (OutcomeUnknown (exn_msg e) (cl_execution_record_id c)) d', ()))))"

text \<open>
  Deleting prepared actions, with the trigger that protects them while an unresolved idempotency record
  still needs them.  (Both callers select only actions without a head, the trigger's other guard.)
\<close>

definition delete_prepared :: "(string \<Rightarrow> bool) \<Rightarrow> db \<Rightarrow> db res" where
  "delete_prepared P d =
     (if (\<exists>r\<in>set (db_idem d). P (ir_eid r) \<and> db_prepared d (ir_eid r) \<noteq> None \<and> ir_state r \<noteq> IS_COMPLETED)
      then Inl (IntegrityError ''prepared reconciliation action cannot be deleted before retention is safe'')
      else Inr (d\<lparr>db_prepared := (\<lambda>eid. if P eid then None else db_prepared d eid)\<rparr>))"

definition si_fail :: "db \<Rightarrow> IdempotencyClaim \<Rightarrow> exn \<Rightarrow> db \<times> unit res" where
  "si_fail d c e =
     (if \<not> cl_owner c then (d, Inr ())
      else commit d
        (let d1 = d\<lparr>db_idem := filter (\<lambda>r. \<not> claim_row c r) (db_idem d)\<rparr> in
         if rowcount (claim_row c) (db_idem d) \<noteq> 1
         then Inl (RuntimeError ''idempotency ownership was lost before failure'')
         else bindR (if db_has_ledger d1
                     then delete_prepared
                       (\<lambda>eid. Some eid = cl_execution_record_id c \<and> db_heads d1 eid = None) d1
                     else Inr d1) (\<lambda>d2.
           Inr (set_future (cl_future c) (Failed e) d2, ()))))"

definition si_renew :: "time \<Rightarrow> time \<Rightarrow> db \<Rightarrow> IdempotencyClaim \<Rightarrow> db \<times> unit res" where
  "si_renew lease_seconds now d c =
     (if \<not> cl_owner c \<or> cl_owner_token c = None \<or> cl_owner_token c = Some []
      then (d, Inl (RuntimeError ''only an idempotency owner can renew a claim''))
      else commit d
        (bindR (update_idem (claim_row c)
           (\<lambda>r. r\<lparr>ir_lease := Some (now + lease_seconds), ir_updated_at := now\<rparr>) d) (\<lambda>(d', n).
         if n \<noteq> 1 then Inl (RuntimeError ''idempotency ownership was lost before renewal'')
         else Inr (d', ()))))"

definition prunable :: "time \<Rightarrow> db \<Rightarrow> idem_row \<Rightarrow> bool" where
  "prunable cutoff d r \<longleftrightarrow>
     ir_state r = IS_COMPLETED \<and> ir_updated_at r < cutoff \<and> (db_has_ledger d \<longrightarrow> db_heads d (ir_eid r) = None)"

definition si_prune_completed :: "db \<Rightarrow> time \<Rightarrow> db \<times> nat res" where
  "si_prune_completed d cutoff =
     commit d
      (bindR (if db_has_ledger d
              then delete_prepared (\<lambda>eid. \<exists>r\<in>set (db_idem d). ir_eid r = eid \<and> prunable cutoff d r) d
              else Inr d) (\<lambda>d1.
       Inr (d1\<lparr>db_idem := filter (\<lambda>r. \<not> prunable cutoff d r) (db_idem d1)\<rparr>,
            rowcount (prunable cutoff d) (db_idem d1))))"

end
