(* ===== verification/DurableContract.thy ===== *)
theory DurableContract
  imports SqlIdempotency
begin

text \<open>
  The two durable authorities together.  The idempotency records and the reconciliation heads of one
  database agree with each other after every operation of either component, an older generation of a
  key is always one confirmed not applied, and a key has at most one unresolved execution.
\<close>

section \<open>The joint invariant\<close>

primrec disposition_state :: "ReconciliationDisposition \<Rightarrow> idem_state" where
  "disposition_state BLOCKED_UNKNOWN = IS_UNKNOWN"
| "disposition_state BLOCKED_MANUAL_REVIEW = IS_MANUAL_REVIEW"
| "disposition_state COMPLETED = IS_COMPLETED"
| "disposition_state APPLIED_NO_RESULT = IS_APPLIED_NO_RESULT"
| "disposition_state RETRY_ALLOWED = IS_NOT_APPLIED"

definition row_key :: "idem_row \<Rightarrow> string \<times> string" where
  "row_key r = (ir_namespace r, ir_key r)"

definition row_id :: "idem_row \<Rightarrow> string \<times> (string \<times> string) \<times> nat" where
  "row_id r = (ir_eid r, row_key r, ir_generation r)"

text \<open>The constraints of the table, and: an older generation is confirmed not applied.\<close>

definition rows_ok :: "idem_row list \<Rightarrow> bool" where
  "rows_ok rows \<longleftrightarrow>
     distinct (map ir_eid rows) \<and> distinct (map (\<lambda>r. (row_key r, ir_generation r)) rows) \<and>
     list_all idem_check rows \<and>
     (\<forall>r\<in>set rows. \<forall>s\<in>set rows. row_key r = row_key s \<longrightarrow> ir_generation r < ir_generation s \<longrightarrow>
        ir_state r = IS_NOT_APPLIED)"

text \<open>Heads and records mirror each other.\<close>

definition linked :: "(string \<rightharpoonup> Head) \<Rightarrow> idem_row list \<Rightarrow> bool" where
  "linked heads rows \<longleftrightarrow>
     (\<forall>eid h. heads eid = Some h \<longrightarrow>
        (\<exists>r\<in>set rows. ir_eid r = eid \<and> ir_state r = disposition_state (hd_disposition h))) \<and>
     (\<forall>r\<in>set rows. ir_state r \<in> {IS_NOT_APPLIED, IS_MANUAL_REVIEW, IS_APPLIED_NO_RESULT} \<longrightarrow>
        heads (ir_eid r) \<noteq> None)"

definition du_inv :: "recon_env \<Rightarrow> db \<Rightarrow> bool" where
  "du_inv env d \<longleftrightarrow> sl_inv env d \<and> db_has_idempotency d \<and> db_has_ledger d \<and> rows_ok (db_idem d) \<and>
     linked (db_heads d) (db_idem d)"

lemma disposition_state_not_pending [simp]: "disposition_state x \<noteq> IS_PENDING"
  by (cases x) auto

lemma rows_ok_eid_unique:
  "rows_ok rows \<Longrightarrow> r \<in> set rows \<Longrightarrow> s \<in> set rows \<Longrightarrow> ir_eid r = ir_eid s \<Longrightarrow> r = s"
  unfolding rows_ok_def distinct_map inj_on_def by blast

lemma rows_ok_update:
  assumes ok: "rows_ok rows"
    and f: "\<And>r. row_id (f r) = row_id r"
    and P: "\<And>r. r \<in> set rows \<Longrightarrow> P r \<Longrightarrow> ir_state r \<noteq> IS_NOT_APPLIED \<and> idem_check (f r)"
  shows "rows_ok (upd_where P f rows)"
proof -
  have id: "ir_eid (f r) = ir_eid r" "row_key (f r) = row_key r" "ir_generation (f r) = ir_generation r" for r
    using f[of r] by (auto simp: row_id_def)
  have maps: "map ir_eid (upd_where P f rows) = map ir_eid rows"
    "map (\<lambda>r. (row_key r, ir_generation r)) (upd_where P f rows) = map (\<lambda>r. (row_key r, ir_generation r)) rows"
    by (simp_all add: map_upd_where_same id)
  have ch: "list_all idem_check (upd_where P f rows)"
    using ok P by (auto simp: rows_ok_def list_all_iff in_upd_where)
  have gen: "ir_state r' = IS_NOT_APPLIED"
    if r': "r' \<in> set (upd_where P f rows)" "s' \<in> set (upd_where P f rows)" "row_key r' = row_key s'"
      "ir_generation r' < ir_generation s'" for r' s'
  proof -
    obtain r s where r: "r \<in> set rows" "r' = (if P r then f r else r)" and s: "s \<in> set rows" "s' = (if P s then f s else s)"
      using r'(1,2) by (auto simp: in_upd_where)
    have "row_key r = row_key s" "ir_generation r < ir_generation s"
      using r' r s id by (auto split: if_splits)
    then have na: "ir_state r = IS_NOT_APPLIED" using ok r(1) s(1) unfolding rows_ok_def by blast
    then have "\<not> P r" using P[OF r(1)] by blast
    then show ?thesis using r(2) na by simp
  qed
  show ?thesis
    unfolding rows_ok_def maps using ok ch gen unfolding rows_ok_def by blast
qed

lemma rows_ok_filter: "rows_ok rows \<Longrightarrow> rows_ok (filter P rows)"
  by (auto simp: rows_ok_def distinct_map_filter list_all_iff)

lemma rows_ok_insert:
  assumes ok: "rows_ok rows" and r: "idem_check r" "ir_eid r \<notin> ir_eid ` set rows"
    and top: "\<And>s. s \<in> set rows \<Longrightarrow> row_key s = row_key r \<Longrightarrow>
      ir_state s = IS_NOT_APPLIED \<and> ir_generation s < ir_generation r"
  shows "rows_ok (rows @ [r])"
proof -
  have "(row_key r, ir_generation r) \<notin> (\<lambda>s. (row_key s, ir_generation s)) ` set rows"
    using top by fastforce
  then have d: "distinct (map (\<lambda>r. (row_key r, ir_generation r)) (rows @ [r]))"
      "distinct (map ir_eid (rows @ [r]))" "list_all idem_check (rows @ [r])"
    using ok r by (auto simp: rows_ok_def)
  have "ir_state a = IS_NOT_APPLIED"
    if a: "a \<in> set (rows @ [r])" "b \<in> set (rows @ [r])" "row_key a = row_key b" "ir_generation a < ir_generation b" for a b
  proof (cases "a \<in> set rows")
    case True
    then show ?thesis
      using a top ok unfolding rows_ok_def by (cases "b \<in> set rows") auto
  next
    case False
    then show ?thesis using a top[of b] by auto
  qed
  then show ?thesis using d unfolding rows_ok_def by blast
qed

lemma linked_update:
  assumes l: "linked heads rows" and ok: "rows_ok rows"
    and f: "\<And>r. row_id (f r) = row_id r"
    and P: "\<And>r. r \<in> set rows \<Longrightarrow> P r \<Longrightarrow> heads (ir_eid r) = None \<and>
      ir_state (f r) \<notin> {IS_NOT_APPLIED, IS_MANUAL_REVIEW, IS_APPLIED_NO_RESULT}"
  shows "linked heads (upd_where P f rows)"
proof -
  have id: "ir_eid (f r) = ir_eid r" for r using f[of r] by (simp add: row_id_def)
  have "\<exists>r\<in>set (upd_where P f rows). ir_eid r = eid \<and> ir_state r = disposition_state (hd_disposition h)"
    if h: "heads eid = Some h" for eid h
  proof -
    obtain r where r: "r \<in> set rows" "ir_eid r = eid" "ir_state r = disposition_state (hd_disposition h)"
      using l h by (auto simp: linked_def)
    then have "\<not> P r" using P h by auto
    then show ?thesis using r by (intro bexI[of _ r]) (auto simp: in_upd_where intro!: bexI[of _ r])
  qed
  moreover have "heads (ir_eid r) \<noteq> None"
    if "r \<in> set (upd_where P f rows)" "ir_state r \<in> {IS_NOT_APPLIED, IS_MANUAL_REVIEW, IS_APPLIED_NO_RESULT}" for r
    using that l P id by (fastforce simp: linked_def in_upd_where split: if_splits)
  ultimately show ?thesis by (simp add: linked_def)
qed

lemma linked_head_row:
  assumes "linked heads rows" "rows_ok rows" "heads (ir_eid r) = Some h" "r \<in> set rows"
  shows "ir_state r = disposition_state (hd_disposition h)"
proof -
  obtain s where "s \<in> set rows" "ir_eid s = ir_eid r" "ir_state s = disposition_state (hd_disposition h)"
    using assms(1,3) unfolding linked_def by blast
  then show ?thesis using rows_ok_eid_unique[OF assms(2)] assms(4) by blast
qed

lemma linked_pending:
  "linked heads rows \<Longrightarrow> rows_ok rows \<Longrightarrow> r \<in> set rows \<Longrightarrow> ir_state r = IS_PENDING \<Longrightarrow> heads (ir_eid r) = None"
  by (cases "heads (ir_eid r)") (auto dest: linked_head_row)

section \<open>Idempotency operations\<close>

lemma claim_row_pending: "claim_row c r \<Longrightarrow> ir_state r = IS_PENDING"
  by (simp add: claim_row_def)

lemma update_idem_Inr:
  "update_idem P f d = Inr (d', n) \<longleftrightarrow>
     (\<forall>r\<in>set (db_idem d). P r \<longrightarrow> idem_check (f r)) \<and> d' = d\<lparr>db_idem := upd_where P f (db_idem d)\<rparr> \<and>
     n = rowcount P (db_idem d)"
  by (auto simp: update_idem_def list_ex_iff split: if_splits)

text \<open>Resolving or extending a pending record keeps the joint invariant.\<close>

lemma du_update_pending:
  assumes inv: "du_inv env d" and up: "update_idem P f d = Inr (d', n)"
    and P: "\<And>r. P r \<Longrightarrow> ir_state r = IS_PENDING"
    and f: "\<And>r. row_id (f r) = row_id r" "\<And>r. P r \<Longrightarrow> ir_state (f r) \<in> {IS_PENDING, IS_UNKNOWN, IS_COMPLETED}"
  shows "du_inv env d'"
proof -
  have d': "d' = d\<lparr>db_idem := upd_where P f (db_idem d)\<rparr>" and ch: "\<forall>r\<in>set (db_idem d). P r \<longrightarrow> idem_check (f r)"
    using up by (auto simp: update_idem_Inr)
  have ok: "rows_ok (db_idem d)" and l: "linked (db_heads d) (db_idem d)" using inv by (auto simp: du_inv_def)
  have "rows_ok (upd_where P f (db_idem d))"
    by (rule rows_ok_update[OF ok f(1)]) (use P ch in auto)
  moreover have "linked (db_heads d) (upd_where P f (db_idem d))"
    by (rule linked_update[OF l ok f(1)]) (use P f(2) linked_pending[OF l ok] in fastforce)
  moreover have "sl_inv env d'"
    using inv same_ledger_inv[of d d'] d' by (simp add: du_inv_def same_ledger_def)
  ultimately show ?thesis using inv d' by (simp add: du_inv_def)
qed

lemma du_inv_futures [simp]: "du_inv env (d\<lparr>db_futures := x\<rparr>) = du_inv env d"
  by (simp add: du_inv_def sl_inv_def sl_records_def)

lemma du_inv_set_future [simp]: "du_inv env (set_future i f d) = du_inv env d"
  by (simp add: set_future_def)

lemma du_commit:
  assumes "du_inv env d" "commit d x = (d', r)" "\<And>d1 y. x = Inr (d1, y) \<Longrightarrow> du_inv env d1"
  shows "du_inv env d'"
  using assms by (cases x) (auto simp: commit_def)

lemma si_transition_inv:
  assumes "du_inv env d" "si_transition now c st res err d = Inr d'" "st \<in> {IS_PENDING, IS_UNKNOWN, IS_COMPLETED}"
  shows "du_inv env d'"
proof -
  obtain n where "update_idem (claim_row c)
       (\<lambda>r. r\<lparr>ir_state := st, ir_result := res, ir_error := err, ir_owner_token := None,
              ir_lease := None, ir_updated_at := now\<rparr>) d = Inr (d', n)"
    using assms(2) by (auto simp: si_transition_def bindR_eq_Inr split: if_splits)
  then show ?thesis
    by (rule du_update_pending[OF assms(1)]) (use assms(3) in \<open>auto simp: claim_row_pending row_id_def row_key_def\<close>)
qed

lemma si_complete_inv:
  assumes inv: "du_inv env d" and c: "si_complete now d c v = (d', r)"
  shows "du_inv env d'"
proof (cases "cl_owner c")
  case True
  show ?thesis
    by (rule du_commit[OF inv c[unfolded si_complete_def, simplified True simp_thms if_False]])
       (auto simp: bindR_eq_Inr intro: si_transition_inv[OF inv])
qed (use inv c in \<open>simp add: si_complete_def\<close>)

lemma si_mark_unknown_inv:
  assumes inv: "du_inv env d" and c: "si_mark_unknown now d c e = (d', r)"
  shows "du_inv env d'"
proof (cases "cl_owner c")
  case True
  show ?thesis
    by (rule du_commit[OF inv c[unfolded si_mark_unknown_def, simplified True simp_thms if_False]])
       (auto simp: bindR_eq_Inr intro: si_transition_inv[OF inv])
qed (use inv c in \<open>simp add: si_mark_unknown_def\<close>)

lemma si_renew_inv:
  assumes inv: "du_inv env d" and r: "si_renew lease now d c = (d', res)"
  shows "du_inv env d'"
proof (cases "\<not> cl_owner c \<or> cl_owner_token c = None \<or> cl_owner_token c = Some []")
  case True
  then show ?thesis using assms by (auto simp: si_renew_def)
next
  case False
  show ?thesis
  proof (rule du_commit[OF inv r[unfolded si_renew_def, unfolded if_not_P[OF False]]])
    fix d1 y
    assume "bindR (update_idem (claim_row c)
           (\<lambda>r. r\<lparr>ir_lease := Some (now + lease), ir_updated_at := now\<rparr>) d) (\<lambda>(d', n).
         if n \<noteq> 1 then Inl (RuntimeError ''idempotency ownership was lost before renewal'')
         else Inr (d', ())) = Inr (d1, y)"
    then obtain n where "update_idem (claim_row c)
           (\<lambda>r. r\<lparr>ir_lease := Some (now + lease), ir_updated_at := now\<rparr>) d = Inr (d1, n)"
      by (auto simp: bindR_eq_Inr split: if_splits)
    then show "du_inv env d1"
      by (rule du_update_pending[OF inv]) (auto simp: claim_row_pending row_id_def row_key_def)
  qed
qed

lemma sl_inv_prepared_sub:
  "sl_inv env d \<Longrightarrow> (\<And>i a. p i = Some a \<Longrightarrow> db_prepared d i = Some a) \<Longrightarrow> sl_inv env (d\<lparr>db_prepared := p\<rparr>)"
  by (simp add: sl_inv_def sl_records_def) blast

lemma linked_filter:
  "linked heads rows \<Longrightarrow> (\<And>r. r \<in> set rows \<Longrightarrow> \<not> P r \<Longrightarrow> heads (ir_eid r) = None) \<Longrightarrow> linked heads (filter P rows)"
  by (fastforce simp: linked_def)

lemma sl_inv_idem [simp]: "sl_inv env (d\<lparr>db_idem := x\<rparr>) = sl_inv env d"
  by (simp add: sl_inv_def sl_records_def)

text \<open>Removing records without a head, and prepared actions with them.\<close>

lemma du_remove:
  assumes inv: "du_inv env d" and P: "\<And>r. r \<in> set (db_idem d) \<Longrightarrow> \<not> P r \<Longrightarrow> db_heads d (ir_eid r) = None"
    and p: "\<And>i a. p i = Some a \<Longrightarrow> db_prepared d i = Some a"
  shows "du_inv env (d\<lparr>db_idem := filter P (db_idem d), db_prepared := p\<rparr>)"
proof -
  have "sl_inv env (d\<lparr>db_idem := filter P (db_idem d), db_prepared := p\<rparr>)"
    using sl_inv_prepared_sub[of env "d\<lparr>db_idem := filter P (db_idem d)\<rparr>" p] inv p by (simp add: du_inv_def)
  then show ?thesis
    using inv P linked_filter[of "db_heads d" "db_idem d" P] by (simp add: du_inv_def rows_ok_filter)
qed

lemma delete_prepared_Inr:
  "delete_prepared P d = Inr d' \<Longrightarrow> d' = d\<lparr>db_prepared := (\<lambda>eid. if P eid then None else db_prepared d eid)\<rparr>"
  by (simp add: delete_prepared_def split: if_splits)

lemma si_fail_inv:
  assumes inv: "du_inv env d" and f: "si_fail d c e = (d', r)"
  shows "du_inv env d'"
proof (cases "cl_owner c")
  case False
  then show ?thesis using assms by (simp add: si_fail_def)
next
  case True
  have ok: "rows_ok (db_idem d)" "linked (db_heads d) (db_idem d)" "db_has_ledger d"
    using inv by (auto simp: du_inv_def)
  show ?thesis
  proof (rule du_commit[OF inv])
    show "commit d (let d1 = d\<lparr>db_idem := filter (\<lambda>r. \<not> claim_row c r) (db_idem d)\<rparr> in
         if rowcount (claim_row c) (db_idem d) \<noteq> 1
         then Inl (RuntimeError ''idempotency ownership was lost before failure'')
         else bindR (if db_has_ledger d1
                     then delete_prepared
                       (\<lambda>eid. Some eid = cl_execution_record_id c \<and> db_heads d1 eid = None) d1
                     else Inr d1) (\<lambda>d2.
           Inr (set_future (cl_future c) (Failed e) d2, ()))) = (d', r)"
      using f True by (simp add: si_fail_def)
  next
    fix d1 y
    let ?d = "d\<lparr>db_idem := filter (\<lambda>r. \<not> claim_row c r) (db_idem d)\<rparr>"
    let ?P = "\<lambda>eid. Some eid = cl_execution_record_id c \<and> db_heads ?d eid = None"
    assume "(let d1 = ?d in
         if rowcount (claim_row c) (db_idem d) \<noteq> 1
         then Inl (RuntimeError ''idempotency ownership was lost before failure'')
         else bindR (if db_has_ledger d1
                     then delete_prepared
                       (\<lambda>eid. Some eid = cl_execution_record_id c \<and> db_heads d1 eid = None) d1
                     else Inr d1) (\<lambda>d2.
           Inr (set_future (cl_future c) (Failed e) d2, ()))) = Inr (d1, y)"
    then obtain d2 where d2: "delete_prepared ?P ?d = Inr d2" "d1 = set_future (cl_future c) (Failed e) d2"
      using ok(3) by (auto simp: Let_def bindR_eq_Inr split: if_splits)
    have "d2 = d\<lparr>db_idem := filter (\<lambda>r. \<not> claim_row c r) (db_idem d),
        db_prepared := (\<lambda>eid. if ?P eid then None else db_prepared d eid)\<rparr>"
      using delete_prepared_Inr[OF d2(1)] by (simp cong: if_cong)
    moreover have "du_inv env \<dots>"
      by (rule du_remove[OF inv]) (use linked_pending[OF ok(2,1)] claim_row_pending in \<open>auto split: if_splits\<close>)
    ultimately show "du_inv env d1" using d2(2) by simp
  qed
qed

lemma si_prune_inv:
  assumes inv: "du_inv env d" and p: "si_prune_completed d t = (d', r)"
  shows "du_inv env d'"
proof (rule du_commit[OF inv p[unfolded si_prune_completed_def]])
  let ?P = "\<lambda>eid. \<exists>r\<in>set (db_idem d). ir_eid r = eid \<and> prunable t d r"
  fix d1 y
  assume "bindR (if db_has_ledger d then delete_prepared ?P d else Inr d) (\<lambda>d1.
       Inr (d1\<lparr>db_idem := filter (\<lambda>r. \<not> prunable t d r) (db_idem d1)\<rparr>,
            rowcount (prunable t d) (db_idem d1))) = Inr (d1, y)"
  then obtain d2 where d2: "delete_prepared ?P d = Inr d2"
      "d1 = d2\<lparr>db_idem := filter (\<lambda>r. \<not> prunable t d r) (db_idem d2)\<rparr>"
    using inv by (auto simp: du_inv_def bindR_eq_Inr)
  have "d1 = d\<lparr>db_idem := filter (\<lambda>r. \<not> prunable t d r) (db_idem d),
      db_prepared := (\<lambda>eid. if ?P eid then None else db_prepared d eid)\<rparr>"
    using delete_prepared_Inr[OF d2(1)] d2(2) by simp
  moreover have "du_inv env \<dots>"
    by (rule du_remove[OF inv]) (use inv in \<open>auto simp: prunable_def du_inv_def split: if_splits\<close>)
  ultimately show "du_inv env d1" by simp
qed

section \<open>Acquiring\<close>

lemma foldl_newer:
  "foldl newer r rs \<in> set (r # rs) \<and> (\<forall>s\<in>set (r # rs). ir_generation s \<le> ir_generation (foldl newer r rs))"
proof (induction rs arbitrary: r)
  case (Cons x rs)
  have "newer r x \<in> {r, x}" "ir_generation r \<le> ir_generation (newer r x)" "ir_generation x \<le> ir_generation (newer r x)"
    by (auto simp: newer_def)
  then show ?case using Cons[of "newer r x"] by (auto intro: order_trans)
qed simp

lemma latest_row_Some:
  assumes "latest_row ns key d = Some r"
  shows "r \<in> set (db_idem d)" "row_key r = (ns, key)"
    "\<And>s. s \<in> set (db_idem d) \<Longrightarrow> row_key s = (ns, key) \<Longrightarrow> ir_generation s \<le> ir_generation r"
proof -
  obtain x xs where f: "filter (\<lambda>r. ir_namespace r = ns \<and> ir_key r = key) (db_idem d) = x # xs" "r = foldl newer x xs"
    using assms by (auto simp: latest_row_def split: list.splits)
  have m: "set (x # xs) = {s \<in> set (db_idem d). row_key s = (ns, key)}"
    unfolding f(1)[symmetric] by (auto simp: row_key_def)
  then show "r \<in> set (db_idem d)" "row_key r = (ns, key)"
    "\<And>s. s \<in> set (db_idem d) \<Longrightarrow> row_key s = (ns, key) \<Longrightarrow> ir_generation s \<le> ir_generation r"
    using foldl_newer[of x xs] f(2) by auto
qed

lemma latest_row_None: "latest_row ns key d = None \<longleftrightarrow> (\<forall>s\<in>set (db_idem d). row_key s \<noteq> (ns, key))"
proof -
  have "latest_row ns key d = None \<longleftrightarrow> filter (\<lambda>r. ir_namespace r = ns \<and> ir_key r = key) (db_idem d) = []"
    by (simp add: latest_row_def split: list.splits)
  then show ?thesis by (auto simp: filter_empty_conv row_key_def)
qed

lemma latest_not_applied:
  assumes "rows_ok (db_idem d)" "latest_row ns key d = Some r" "ir_state r = IS_NOT_APPLIED"
    "s \<in> set (db_idem d)" "row_key s = (ns, key)"
  shows "ir_state s = IS_NOT_APPLIED" "ir_generation s < ir_generation r + 1"
proof -
  note l = latest_row_Some[OF assms(2)]
  show "ir_generation s < ir_generation r + 1" using l(3) assms by fastforce
  show "ir_state s = IS_NOT_APPLIED"
  proof (cases "ir_generation s = ir_generation r")
    case True
    have "inj_on (\<lambda>r. (row_key r, ir_generation r)) (set (db_idem d))"
      using assms(1) by (simp add: rows_ok_def distinct_map)
    then have "s = r" by (rule inj_onD) (use assms l True in auto)
    then show ?thesis using assms(3) by simp
  next
    case False
    then have "ir_generation s < ir_generation r" using l(3) assms by fastforce
    then show ?thesis using assms(1,4,5) l(1,2) unfolding rows_ok_def by auto
  qed
qed

lemma insert_idem_Inr:
  "insert_idem r d = Inr d' \<Longrightarrow> idem_check r \<and> ir_eid r \<notin> ir_eid ` set (db_idem d) \<and> d' = d\<lparr>db_idem := db_idem d @ [r]\<rparr>"
  by (auto simp: insert_idem_def list_ex_iff split: if_splits)

lemma linked_insert_pending:
  "linked heads rows \<Longrightarrow> ir_state r = IS_PENDING \<Longrightarrow> linked heads (rows @ [r])"
  unfolding linked_def by fastforce

definition prepared_built :: "recon_env \<Rightarrow> UnknownAction option \<Rightarrow> bool" where
  "prepared_built env p \<longleftrightarrow> (\<forall>a. p = Some a \<longrightarrow> action_built env a)"

lemma grant_Inr:
  assumes "grant env ids lease now fid ns key fp gen prepared d = Inr (d', c)"
  obtains eid p where "eid = (case prepared of None \<Rightarrow> ids 1 | Some a \<Rightarrow> ua_execution_record_id a)"
    "idem_check (pending_row eid ns key gen fp (ids 0) (now + lease) now)"
    "eid \<notin> ir_eid ` set (db_idem d)"
    "d' = d\<lparr>db_idem := db_idem d @ [pending_row eid ns key gen fp (ids 0) (now + lease) now],
           db_prepared := p, db_futures := (db_futures d)(fid := NotDone)\<rparr>"
    "\<And>i a. p i = Some a \<Longrightarrow> db_prepared d i = Some a \<or> prepared = Some a \<and> ua_execution_record_id a = i"
    "cl_owner c" "cl_execution_record_id c = Some eid" "cl_generation c = Some gen" "cl_namespace c = ns"
    "cl_key c = key"
proof -
  let ?eid = "case prepared of None \<Rightarrow> ids 1 | Some a \<Rightarrow> ua_execution_record_id a"
  obtain d1 d2 where i: "insert_idem (pending_row ?eid ns key gen fp (ids 0) (now + lease) now) d = Inr d1"
      and p: "(case prepared of None \<Rightarrow> Inr d1 | Some a \<Rightarrow> insert_prepared_action env a d1) = Inr d2"
      and d': "d' = d2\<lparr>db_futures := (db_futures d2)(fid := NotDone)\<rparr>"
      and c: "c = \<lparr>cl_namespace = ns, cl_key = key, cl_fingerprint = fp, cl_owner = True, cl_future = fid,
            cl_owner_token = Some (ids 0), cl_lease_seconds = Some lease,
            cl_execution_record_id = Some ?eid, cl_generation = Some gen\<rparr>"
    using assms unfolding grant_def Let_def bindR_eq_Inr by auto
  note ii = insert_idem_Inr[OF i]
  have "\<exists>q. d2 = d1\<lparr>db_prepared := q\<rparr> \<and> (\<forall>i a. q i = Some a \<longrightarrow>
      db_prepared d1 i = Some a \<or> prepared = Some a \<and> ua_execution_record_id a = i)"
  proof (cases prepared)
    case None
    then show ?thesis using p by (intro exI[of _ "db_prepared d1"]) simp
  next
    case (Some a)
    then show ?thesis using p
      by (intro exI[of _ "(db_prepared d1)(ua_execution_record_id a \<mapsto> a)"])
         (auto simp: insert_prepared_action_def insert_prepared_def bindR_eq_Inr split: if_splits)
  qed
  then obtain q where q: "d2 = d1\<lparr>db_prepared := q\<rparr>" "\<And>i a. q i = Some a \<Longrightarrow>
      db_prepared d1 i = Some a \<or> prepared = Some a \<and> ua_execution_record_id a = i" by blast
  show thesis
    by (rule that[of ?eid q]) (use ii q d' c in \<open>auto simp: pending_row_def\<close>)
qed

lemma grant_inv:
  assumes inv: "du_inv env d" and g: "grant env ids lease now fid ns key fp gen prepared d = Inr (d', c)"
    and b: "prepared_built env prepared"
    and top: "\<And>s. s \<in> set (db_idem d) \<Longrightarrow> row_key s = (ns, key) \<Longrightarrow>
      ir_state s = IS_NOT_APPLIED \<and> ir_generation s < gen"
  shows "du_inv env d'"
  using g
proof (rule grant_Inr)
  fix eid p
  let ?row = "pending_row eid ns key gen fp (ids 0) (now + lease) now"
  assume ch: "idem_check ?row" and fresh: "eid \<notin> ir_eid ` set (db_idem d)"
    and d': "d' = d\<lparr>db_idem := db_idem d @ [?row], db_prepared := p,
           db_futures := (db_futures d)(fid := NotDone)\<rparr>"
    and p: "\<And>i a. p i = Some a \<Longrightarrow> db_prepared d i = Some a \<or> prepared = Some a \<and> ua_execution_record_id a = i"
  have row: "ir_eid ?row = eid" "row_key ?row = (ns, key)" "ir_generation ?row = gen" "ir_state ?row = IS_PENDING"
    by (simp_all add: pending_row_def row_key_def)
  have "rows_ok (db_idem d @ [?row])"
    by (rule rows_ok_insert[OF _ ch]) (use inv fresh row top in \<open>auto simp: du_inv_def\<close>)
  moreover have "linked (db_heads d) (db_idem d @ [?row])"
    by (rule linked_insert_pending) (use inv row in \<open>auto simp: du_inv_def\<close>)
  moreover have "sl_inv env (d\<lparr>db_prepared := p\<rparr>)"
  proof -
    have "load_action env a = Inr a \<and> ua_execution_record_id a = i" if "p i = Some a" for i a
      using p[OF that] inv b action_reload by (auto simp: du_inv_def sl_inv_def prepared_built_def)
    then show ?thesis using inv by (simp add: du_inv_def sl_inv_def sl_records_def)
  qed
  ultimately show ?thesis using inv d' by (simp add: du_inv_def sl_inv_def sl_records_def)
qed

text \<open>Adding the head of an unknown outcome to a record that is already unknown.\<close>

lemma linked_new_head:
  assumes "linked heads rows" "r \<in> set rows" "ir_eid r = eid" "ir_state r = IS_UNKNOWN" "hd_disposition h = BLOCKED_UNKNOWN"
  shows "linked (heads(eid \<mapsto> h)) rows"
  using assms unfolding linked_def by auto

lemma du_new_head:
  assumes inv: "du_inv env d" and h: "db_heads d eid = None" "ua_execution_record_id a = eid"
    and a: "load_action env a = Inr a"
    and r: "r \<in> set (db_idem d)" "ir_eid r = eid" "ir_state r = IS_UNKNOWN"
    and d': "d' = d\<lparr>db_heads := (db_heads d)(eid \<mapsto> unknown_head a t), db_outbox := ob\<rparr>"
  shows "du_inv env d'"
proof -
  have "sl_sound env d d'"
    by (rule sl_new_head_sound[OF _ h a]) (use inv d' in \<open>auto simp: du_inv_def\<close>)
  moreover have "linked (db_heads d') (db_idem d')"
    using linked_new_head[of "db_heads d" "db_idem d" r eid "unknown_head a t"] inv r d'
    by (simp add: du_inv_def unknown_head_def)
  ultimately show ?thesis using inv d' by (simp add: du_inv_def sl_sound_def)
qed

lemma materialize_inv:
  assumes inv: "du_inv env d" and m: "materialize_head env i now eid d = Inr d'"
    and r: "r \<in> set (db_idem d)" "ir_eid r = eid" "ir_state r = IS_UNKNOWN"
  shows "du_inv env d'"
proof (cases "\<exists>a. db_prepared d eid = Some a \<and> db_heads d eid = None")
  case False
  then have "d' = d" using m by (auto simp: materialize_head_def split: if_splits option.splits)
  then show ?thesis using inv by simp
next
  case True
  then obtain a where a: "db_prepared d eid = Some a" "db_heads d eid = None" by blast
  then have la: "load_action env a = Inr a" "ua_execution_record_id a = eid"
    using inv by (auto simp: du_inv_def sl_inv_def)
  obtain x where "enqueue_outbox env i now (unknown_head a now) ''unknown_recorded'' None None None None None None None
      (d\<lparr>db_heads := (db_heads d)(eid \<mapsto> unknown_head a now)\<rparr>) = Inr (d', x)"
    using m a la unknown_head_built inv
    by (auto simp: materialize_head_def bindR_eq_Inr du_inv_def)
  from enqueue_frame[OF this] have "d' = d\<lparr>db_heads := (db_heads d)(eid \<mapsto> unknown_head a now), db_outbox := db_outbox d'\<rparr>"
    by simp
  then show ?thesis by (rule du_new_head[OF inv a(2) la(2,1) r])
qed

lemma expire_lease_inv:
  assumes inv: "du_inv env d" and e: "expire_lease env i now r d = Inr d'"
  shows "du_inv env d'"
proof -
  let ?P = "\<lambda>x. ir_eid x = ir_eid r \<and> ir_generation x = ir_generation r \<and> ir_state x = IS_PENDING \<and> ir_lease x = ir_lease r"
  let ?f = "\<lambda>x. x\<lparr>ir_state := IS_UNKNOWN,
              ir_error := Some ''owner lease expired before an outcome was recorded'',
              ir_owner_token := None, ir_lease := None, ir_updated_at := now\<rparr>"
  obtain d1 where up: "update_idem ?P ?f d = Inr (d1, 1)" and m: "materialize_head env i now (ir_eid r) d1 = Inr d'"
    using e by (auto simp: expire_lease_def bindR_eq_Inr split: if_splits)
  have inv1: "du_inv env d1"
    by (rule du_update_pending[OF inv up]) (auto simp: row_id_def row_key_def)
  have d1: "db_idem d1 = upd_where ?P ?f (db_idem d)" "rowcount ?P (db_idem d) = 1"
    using up by (auto simp: update_idem_Inr)
  then obtain x where "x \<in> set (db_idem d)" "?P x"
    using rowcount_eq_0[of ?P "db_idem d"] by auto
  then have "?f x \<in> set (db_idem d1)" "ir_eid (?f x) = ir_eid r" "ir_state (?f x) = IS_UNKNOWN"
    using d1(1) by (auto simp: in_upd_where)
  then show ?thesis by (rule materialize_inv[OF inv1 m])
qed

lemma si_acquire_inv:
  assumes inv: "du_inv env d" and a: "si_acquire env ids lease now fid d ns key fp prepared = (d', res)"
    and b: "prepared_built env prepared"
  shows "du_inv env d'"
proof (rule du_commit[OF inv a[unfolded si_acquire_def]])
  fix d1 c
  assume x: "seqR (seq_all
         [validate_idem_identifier ''namespace'' ns, validate_idem_identifier ''key'' key,
          raise_if (\<not> is_digest fp) (ValueError ''fingerprint must be a SHA-256 hex digest'')])
       (case latest_row ns key d of
          None \<Rightarrow> grant env ids lease now fid ns key fp 1 prepared d
        | Some r \<Rightarrow> si_acquire_row env ids lease now fid ns key fp prepared r d) = Inr (d1, c)"
  show "du_inv env d1"
  proof (cases "latest_row ns key d")
    case None
    then show ?thesis
      using x grant_inv[OF inv _ b, of ids lease now fid ns key fp 1 d1 c] latest_row_None[of ns key d]
      by (auto simp: bindR_eq_Inr)
  next
    case (Some r)
    have r: "si_acquire_row env ids lease now fid ns key fp prepared r d = Inr (d1, c)"
      using x Some by (simp add: bindR_eq_Inr)
    have ok: "rows_ok (db_idem d)" using inv by (simp add: du_inv_def)
    show ?thesis
    proof (cases "ir_state r = IS_NOT_APPLIED")
      case True
      then have "grant env ids lease now fid ns key fp (ir_generation r + 1) prepared d = Inr (d1, c)"
        using r by (auto simp: si_acquire_row_def split: if_splits)
      then show ?thesis
        by (rule grant_inv[OF inv _ b]) (use latest_not_applied[OF ok Some True] in auto)
    next
      case False
      then show ?thesis
        using r inv expire_lease_inv[OF inv, of "ids 2" now r]
        by (auto simp: si_acquire_row_def observe_def bindR_eq_Inr split: if_splits option.splits)
    qed
  qed
qed

section \<open>Ledger operations\<close>

lemma linked_cong:
  assumes "\<And>eid. map_option hd_disposition (heads' eid) = map_option hd_disposition (heads eid)" "linked heads rows"
  shows "linked heads' rows"
proof -
  have "\<exists>h. heads eid = Some h \<and> hd_disposition h = hd_disposition h'" if "heads' eid = Some h'" for eid h'
    using assms(1)[of eid] that by (cases "heads eid") auto
  moreover have "heads' eid \<noteq> None" if "heads eid \<noteq> None" for eid using assms(1)[of eid] that by auto
  ultimately show ?thesis using assms(2) unfolding linked_def by metis
qed

definition same_dispositions :: "db \<Rightarrow> db \<Rightarrow> bool" where
  "same_dispositions d d' \<longleftrightarrow>
     db_idem d' = db_idem d \<and> db_has_idempotency d' = db_has_idempotency d \<and> db_has_ledger d' = db_has_ledger d \<and>
     (\<forall>eid. map_option hd_disposition (db_heads d' eid) = map_option hd_disposition (db_heads d eid))"

lemma same_dispositions_refl: "same_dispositions d d"
  by (simp add: same_dispositions_def)

lemma same_dispositions_trans: "same_dispositions a b \<Longrightarrow> same_dispositions b c \<Longrightarrow> same_dispositions a c"
  by (simp add: same_dispositions_def)

lemma du_same_dispositions:
  "du_inv env d \<Longrightarrow> sl_sound env d d' \<Longrightarrow> same_dispositions d d' \<Longrightarrow> du_inv env d'"
  using linked_cong[of "db_heads d'" "db_heads d"] by (simp add: du_inv_def sl_sound_def same_dispositions_def)

lemma enqueue_fields:
  assumes "enqueue_outbox env i now h et p a out f k ev oper d = Inr (d', x)"
  shows "db_idem d' = db_idem d" "db_heads d' = db_heads d" "db_prepared d' = db_prepared d"
    "db_has_idempotency d' = db_has_idempotency d" "db_has_ledger d' = db_has_ledger d"
  using enqueue_frame[OF assms] by (cases d; cases d'; simp)+

lemma write_attempt_same:
  assumes "write_attempt env i now h r et p out f d = Inr (d', r', h')"
  shows "same_dispositions d d'"
proof -
  obtain d1 d2 x where "cas_head (rc_execution_record_id r) (hd_state h) (hd_revision h)
              (\<lambda>x. x\<lparr>hd_revision := rc_revision r, hd_updated_at := rc_occurred_at r\<rparr>)
              ''reconciliation revision changed before attempt append'' d = Inr d1"
      "insert_event env r d1 = Inr d2"
      "enqueue_outbox env i now h' et (Some p) (payload_attempt (rc_payload r)) out f None None None d2 = Inr (d', x)"
    using assms unfolding write_attempt_def bindR_eq_Inr by auto
  note w = this
  obtain g where "db_heads d (rc_execution_record_id r) = Some g"
      "d1 = d\<lparr>db_heads := (db_heads d)(rc_execution_record_id r \<mapsto>
         g\<lparr>hd_revision := rc_revision r, hd_updated_at := rc_occurred_at r\<rparr>)\<rparr>"
    using cas_head_Inr[OF w(1)] by blast
  then show ?thesis
    using insert_event_Inr[OF w(2)] enqueue_fields[OF w(3)] by (simp add: same_dispositions_def)
qed

lemma commit_same:
  assumes "commit d x = (d', r)" "\<And>d1 y. x = Inr (d1, y) \<Longrightarrow> same_dispositions d d1"
  shows "same_dispositions d d'"
  using assms same_dispositions_refl by (cases x) (auto simp: commit_def)

lemma sl_append_attempt_same:
  "sl_append_attempt env ids now d action n kind t pl et p out f = (d', res) \<Longrightarrow> same_dispositions d d'"
  unfolding sl_append_attempt_def Let_def
  by (erule commit_same) (auto simp: bindR_eq_Inr dest: write_attempt_same)

lemma sl_start_same: "sl_start_attempt env ids now d ctx p n = (d', r) \<Longrightarrow> same_dispositions d d'"
  by (auto simp: sl_start_attempt_def same_dispositions_refl split: sum.splits dest: sl_append_attempt_same)

lemma sl_finish_same: "sl_finish_attempt env ids now d ctx p out n f e t = (d', r) \<Longrightarrow> same_dispositions d d'"
  by (auto simp: sl_finish_attempt_def same_dispositions_refl split: sum.splits dest: sl_append_attempt_same)

lemma sl_close_same: "sl_close_attempts env ids now t i h atts d = Inr (d', h') \<Longrightarrow> same_dispositions d d'"
proof (induction atts arbitrary: i h d)
  case Nil
  then show ?case by (simp add: same_dispositions_refl)
next
  case (Cons x rest)
  obtain s ctx p where x: "x = (s, ctx, p)" by (cases x)
  obtain j r d1 r1 h1 where "write_attempt env j now h r ''attempt_recovery_recorded'' p
        (Some RECOVERY_REQUIRED) None d = Inr (d1, r1, h1)"
      "sl_close_attempts env ids now t (Suc i) h1 rest d1 = Inr (d', h')"
    using Cons.prems unfolding x sl_close_attempts.simps bindR_eq_Inr split_paired_Ex prod.case by blast
  then show ?case using write_attempt_same Cons.IH same_dispositions_trans by blast
qed

lemma idempotency_disposition_Inr:
  "idempotency_disposition env h = Inr (s, v, e) \<Longrightarrow> s = disposition_state (hd_disposition h)"
  by (auto simp: idempotency_disposition_def bindR_eq_Inr split: ReconciliationDisposition.splits)

lemma transition_record_action: "transition_record env i h t = Inr (r, u) \<Longrightarrow> hd_action u = hd_action h"
  by (auto simp: transition_record_def bindR_eq_Inr Head_post_init_Inr)

text \<open>Changing the disposition of a head together with its unresolved record.\<close>

lemma linked_transition:
  assumes l: "linked heads rows" and f: "\<And>r. row_id (f r) = row_id r" "\<And>r. ir_state (f r) = disposition_state (hd_disposition u)"
    and P: "\<And>r. P r \<Longrightarrow> ir_eid r = eid" and ex: "\<exists>r\<in>set rows. P r"
  shows "linked (heads(eid \<mapsto> u)) (upd_where P f rows)"
  unfolding linked_def
proof (intro conjI allI impI ballI)
  have id: "ir_eid (f r) = ir_eid r" for r using f(1)[of r] by (simp add: row_id_def)
  fix i h assume h: "(heads(eid \<mapsto> u)) i = Some h"
  show "\<exists>r\<in>set (upd_where P f rows). ir_eid r = i \<and> ir_state r = disposition_state (hd_disposition h)"
  proof (cases "i = eid")
    case True
    obtain r where "r \<in> set rows" "P r" using ex by blast
    then show ?thesis using True h f(2) id P
      by (intro bexI[of _ "f r"]) (auto simp: in_upd_where intro!: bexI[of _ r])
  next
    case False
    then obtain r where r: "r \<in> set rows" "ir_eid r = i" "ir_state r = disposition_state (hd_disposition h)"
      using l h by (auto simp: linked_def)
    then have "\<not> P r" using P False by blast
    then show ?thesis using r by (intro bexI[of _ r]) (auto simp: in_upd_where intro!: bexI[of _ r])
  qed
next
  have id: "ir_eid (f r) = ir_eid r" for r using f(1)[of r] by (simp add: row_id_def)
  fix r assume r: "r \<in> set (upd_where P f rows)" "ir_state r \<in> {IS_NOT_APPLIED, IS_MANUAL_REVIEW, IS_APPLIED_NO_RESULT}"
  then obtain q where q: "q \<in> set rows" "r = (if P q then f q else q)" by (auto simp: in_upd_where)
  show "(heads(eid \<mapsto> u)) (ir_eid r) \<noteq> None"
  proof (cases "P q")
    case True
    then show ?thesis using q P id by simp
  next
    case False
    then show ?thesis using q r l by (auto simp: linked_def)
  qed
qed

text \<open>What a transition writes: the head, and the unresolved record of the same execution.\<close>

lemma write_transition_writes:
  assumes hi: "db_has_idempotency d" and w: "write_transition env i j now h t msg p a et d = Inr (d', u)"
  defines "P \<equiv> \<lambda>x. ir_eid x = ua_execution_record_id (hd_action h) \<and> ir_state x \<in> {IS_UNKNOWN, IS_MANUAL_REVIEW}"
  obtains f g r where "\<And>x. row_id (f x) = row_id x"
    "\<And>x. ir_state (f x) = disposition_state (hd_disposition u)"
    "db_idem d' = upd_where P f (db_idem d)" "\<exists>x\<in>set (db_idem d). P x"
    "\<And>x. x \<in> set (db_idem d) \<Longrightarrow> P x \<Longrightarrow> idem_check (f x)"
    "db_heads d' = (db_heads d)(ua_execution_record_id (hd_action h) \<mapsto> g)" "hd_disposition g = hd_disposition u"
    "db_has_idempotency d' = db_has_idempotency d" "db_has_ledger d' = db_has_ledger d"
    "transition_record env i h t = Inr (r, u)"
proof -
  let ?eid = "ua_execution_record_id (hd_action h)"
  let ?up = "\<lambda>x. x\<lparr>hd_state := hd_state u, hd_revision := hd_revision u, hd_disposition := hd_disposition u,
       hd_result_available := hd_result_available u, hd_result := hd_result u, hd_updated_at := hd_updated_at u\<rparr>"
  obtain r d1 d2 d3 x where tr: "transition_record env i h t = Inr (r, u)"
    and w: "cas_head ?eid (hd_state h) (hd_revision h) ?up msg d = Inr d1"
      "insert_event env r d1 = Inr d2" "update_disposition env u d2 = Inr d3"
      "enqueue_outbox env j now u et p a (if tn_source t = PROVIDER then Some SUCCESS else None) None
         (Some (tn_evidence_kind t)) (Some (tn_evidence t)) (tn_operator_identity_digest t) d3 = Inr (d', x)"
    by (rule write_transition_Inr[OF w])
  obtain g where g: "d1 = d\<lparr>db_heads := (db_heads d)(?eid \<mapsto> ?up g)\<rparr>"
    using cas_head_Inr[OF w(1)] by auto
  have d2: "d2 = d1\<lparr>db_events := db_events d1 @ [r]\<rparr>" by (rule insert_event_Inr[OF w(2)])
  obtain s v e where disp: "idempotency_disposition env u = Inr (s, v, e)"
      and up: "update_idem P (\<lambda>x. x\<lparr>ir_state := s, ir_result := v, ir_error := e, ir_owner_token := None,
                 ir_lease := None, ir_updated_at := hd_updated_at u\<rparr>) d2 = Inr (d3, 1)"
    using w(3) hi g d2 transition_record_action[OF tr]
    unfolding update_disposition_def P_def by (auto simp: bindR_eq_Inr split: if_splits)
  let ?f = "\<lambda>x. x\<lparr>ir_state := s, ir_result := v, ir_error := e, ir_owner_token := None,
                 ir_lease := None, ir_updated_at := hd_updated_at u\<rparr>"
  have s: "s = disposition_state (hd_disposition u)" by (rule idempotency_disposition_Inr[OF disp])
  have d3: "d3 = d2\<lparr>db_idem := upd_where P ?f (db_idem d)\<rparr>" "rowcount P (db_idem d) = 1"
      and ch: "\<forall>x\<in>set (db_idem d). P x \<longrightarrow> idem_check (?f x)"
    using up g d2 by (auto simp: update_idem_Inr)
  show thesis
  proof (rule that[of ?f "?up g" r])
    show "\<exists>x\<in>set (db_idem d). P x" using d3(2) rowcount_eq_0[of P "db_idem d"] by auto
  qed (use s ch d3(1) d2 g tr enqueue_fields[OF w(4)] in \<open>auto simp: row_id_def row_key_def\<close>)
qed

lemma write_transition_linked:
  assumes inv: "du_inv env d" and w: "write_transition env i j now h t msg p a et d = Inr (d', u)"
  shows "rows_ok (db_idem d')" "linked (db_heads d') (db_idem d')" "db_has_idempotency d'" "db_has_ledger d'"
proof -
  have ok: "rows_ok (db_idem d)" "linked (db_heads d) (db_idem d)" "db_has_idempotency d" "db_has_ledger d"
    using inv by (auto simp: du_inv_def)
  let ?eid = "ua_execution_record_id (hd_action h)"
  let ?P = "\<lambda>x. ir_eid x = ?eid \<and> ir_state x \<in> {IS_UNKNOWN, IS_MANUAL_REVIEW}"
  obtain f g r where f: "\<And>x. row_id (f x) = row_id x" "\<And>x. ir_state (f x) = disposition_state (hd_disposition u)"
      "db_idem d' = upd_where ?P f (db_idem d)" "\<exists>x\<in>set (db_idem d). ?P x"
      "\<And>x. x \<in> set (db_idem d) \<Longrightarrow> ?P x \<Longrightarrow> idem_check (f x)"
      "db_heads d' = (db_heads d)(?eid \<mapsto> g)" "hd_disposition g = hd_disposition u"
      "db_has_idempotency d' = db_has_idempotency d" "db_has_ledger d' = db_has_ledger d"
      "transition_record env i h t = Inr (r, u)"
    using that by (rule write_transition_writes[OF ok(3) w])
  show "rows_ok (db_idem d')"
    unfolding f(3) by (rule rows_ok_update[OF ok(1) f(1)]) (use f(5) in auto)
  show "linked (db_heads d') (db_idem d')"
    unfolding f(3,6) by (rule linked_transition[OF ok(2) f(1)]) (use f(2,4,7) in auto)
  show "db_has_idempotency d'" "db_has_ledger d'" using f(8,9) ok(3,4) by simp_all
qed

lemma du_write_transition:
  assumes "du_inv env d" "write_transition env i j now h t msg p a et d = Inr (d', u)" "sl_inv env d'"
  shows "du_inv env d'"
  using write_transition_linked[OF assms(1,2)] assms(3) by (simp add: du_inv_def)

lemma sl_compare_cases:
  assumes "sl_compare_and_append env ids now d eid s n dec provider attempt = (d', res)"
  obtains (unchanged) "d' = d"
  | (moved) h t u where "sl_current env d eid = Inr h" "build_transition env h dec provider attempt = Inr t"
      "write_transition env (ids 0) (ids 1) now h t ''reconciliation state or revision changed before append''
         provider attempt (transition_event t) d = Inr (d', u)"
  using assms[unfolded sl_compare_and_append_def]
proof (rule commit_cases)
  fix y
  assume "bindR (sl_current env d eid) (\<lambda>h.
       seqR (require_cas h s n)
       (bindR (build_transition env h dec provider attempt) (\<lambda>t.
        seqR (case dec of
                ByFinding f \<Rightarrow>
                  bindR (sl_attempt_records env d eid) (\<lambda>rs. require_finished_attempt rs attempt provider f)
              | ByManual _ \<Rightarrow> Inr ())
        (write_transition env (ids 0) (ids 1) now h t ''reconciliation state or revision changed before append''
           provider attempt (transition_event t) d)))) = Inr (d', y)"
  then show thesis unfolding bindR_eq_Inr using moved by blast
qed (rule unchanged)

lemma sl_compare_inv:
  assumes inv: "du_inv env d" and dec: "decision_built env dec"
    and cmp: "sl_compare_and_append env ids now d eid s n dec provider attempt = (d', res)"
  shows "du_inv env d'"
proof -
  have "sl_inv env d'" using sl_compare_sound[OF _ dec cmp] inv by (simp add: du_inv_def sl_sound_def)
  then show ?thesis using inv du_write_transition by (rule_tac sl_compare_cases[OF cmp]) blast+
qed

lemma sl_recover_cases:
  assumes "sl_recover env ids now t d eid = (d', res)"
  obtains (unchanged) "d' = d"
  | (moved) h atts d1 h1 tr u where "sl_current env d eid = Inr h"
      "sl_close_attempts env ids now t 0 h atts d = Inr (d1, h1)"
      "recovery_transition env h1 (length atts) t = Inr tr"
      "write_transition env (ids (2 * length atts)) (ids (2 * length atts + 1)) now h1 tr
         ''reconciliation revision changed before recovery transition'' None None
         ''recovery_transition_recorded'' d1 = Inr (d', u)"
  using assms[unfolded sl_recover_def]
proof (rule commit_cases)
  fix y
  assume "bindR (sl_current env d eid) (\<lambda>h.
       bindR (sl_attempt_records env d eid) (\<lambda>rs.
       bindR (unfinished_attempt_contexts (hd_action h) rs) (\<lambda>attempts.
       if attempts = [] then Inr (d, None)
       else if hd_state h \<noteq> UNKNOWN
       then Inl (ReconciliationError ''a non-UNKNOWN reconciliation head has an unfinished attempt'')
       else if list_ex (\<lambda>(_, ctx, _). t < at_deadline ctx) attempts then Inr (d, Some h)
       else
         bindR (sl_close_attempts env ids now t 0 h attempts d) (\<lambda>(d1, h1).
         bindR (recovery_transition env h1 (length attempts) t) (\<lambda>t.
         bindR (write_transition env (ids (2 * length attempts)) (ids (2 * length attempts + 1)) now h1 t
                  ''reconciliation revision changed before recovery transition'' None None
                  ''recovery_transition_recorded'' d1) (\<lambda>(d2, updated).
         Inr (d2, Some updated))))))) = Inr (d', y)"
  then obtain h atts where h: "sl_current env d eid = Inr h"
      and c: "d' = d \<or> (\<exists>d1 h1 tr u. sl_close_attempts env ids now t 0 h atts d = Inr (d1, h1) \<and>
         recovery_transition env h1 (length atts) t = Inr tr \<and>
         write_transition env (ids (2 * length atts)) (ids (2 * length atts + 1)) now h1 tr
                  ''reconciliation revision changed before recovery transition'' None None
                  ''recovery_transition_recorded'' d1 = Inr (d', u))"
    unfolding bindR_eq_Inr by (auto simp: bindR_eq_Inr split: if_splits) blast
  then show thesis using unchanged moved by blast
qed (rule unchanged)

lemma sl_recover_inv:
  assumes inv: "du_inv env d" and rec: "sl_recover env ids now t d eid = (d', res)"
  shows "du_inv env d'"
  using rec
proof (cases rule: sl_recover_cases)
  case unchanged
  then show ?thesis using inv by simp
next
  case (moved h atts d1 h1 tr u)
  have si: "sl_inv env d" using inv by (simp add: du_inv_def)
  have h: "db_heads d (ua_execution_record_id (hd_action h)) = Some h"
    using moved(1) si by (auto simp: sl_current_Inr[OF si] sl_inv_def entry_inv_def)
  have "sl_sound env d d1" using sl_close_sound[OF si h moved(2)] by blast
  then have "du_inv env d1" by (rule du_same_dispositions[OF inv _ sl_close_same[OF moved(2)]])
  then show ?thesis
    by (rule du_write_transition[OF _ moved(4)]) (use sl_recover_sound[OF si rec] in \<open>simp add: sl_sound_def\<close>)
qed

lemma sl_create_inv:
  assumes inv: "du_inv env d" and a: "action_built env a" and c: "sl_create_unknown env ids now d a = (d', r)"
  shows "du_inv env d'"
  using c[unfolded sl_create_unknown_def]
proof (rule commit_cases)
  fix y assume x: "seqR (validate_link env d a) (add_unknown_head env (ids 0) now a (ua_attempted_at a) d) = Inr (d', y)"
  then have add: "add_unknown_head env (ids 0) now a (ua_attempted_at a) d = Inr (d', y)"
    and v: "validate_link env d a = Inr ()" by (auto simp: bindR_eq_Inr)
  obtain row where "select_one (\<lambda>r. ir_eid r = ua_execution_record_id a) (db_idem d) = Some row" "ir_state row = IS_UNKNOWN"
    using v inv by (auto simp: validate_link_def du_inv_def bindR_eq_Inr split: option.splits if_splits)
  then have "row \<in> set (db_idem d)" "ir_eid row = ua_execution_record_id a" "ir_state row = IS_UNKNOWN"
    by (auto dest: select_one_SomeD)
  then show ?thesis
    using du_new_head[OF inv add_unknown_head_Inr(1)[OF add] refl action_reload[OF a], of row]
      add_unknown_head_Inr(3)[OF add] by blast
qed (use inv in simp)

lemma sl_prepare_inv:
  assumes inv: "du_inv env d" and a: "action_built env a" and c: "sl_prepare_action env d c a = (d', r)"
  shows "du_inv env d'"
proof -
  have "same_dispositions d d'"
    using c unfolding sl_prepare_action_def
    by (rule commit_same)
       (auto simp: bindR_eq_Inr insert_prepared_def same_dispositions_def split: option.splits if_splits)
  then show ?thesis
    using du_same_dispositions[OF inv] sl_prepare_sound[OF _ a c] inv by (simp add: du_inv_def)
qed

lemma sl_record_unknown_inv:
  assumes inv: "du_inv env d" and a: "action_built env a"
    and r: "sl_record_unknown env ids now d c a cls = (d', res)"
  shows "du_inv env d'"
proof (cases res)
  case (Inl e)
  then have "d' = d" using r by (auto simp: sl_record_unknown_def commit_def Let_def split: sum.splits)
  then show ?thesis using inv by simp
next
  case (Inr h)
  have si: "sl_inv env d" using inv by (simp add: du_inv_def)
  from r[unfolded Inr] si show ?thesis
  proof (rule record_unknown_Inr)
    fix act d1 d2
    let ?f = "unknown_row (cls @ '': execution outcome is unknown'') now"
    assume act: "(db_prepared d (ua_execution_record_id a) = None \<and> act = a) \<or>
       (db_prepared d (ua_execution_record_id a) = Some act \<and> ua_execution_record_id act = ua_execution_record_id a)"
      and d1: "d1 = d\<lparr>db_idem := upd_where (claim_row c) ?f (db_idem d)\<rparr>"
      and n: "rowcount (claim_row c) (db_idem d) = 1"
      and add: "add_unknown_head env (ids 0) now act now d1 = Inr (d2, h)"
      and d': "d' = set_future (cl_future c)
       (OutcomeUnknown (cls @ '': execution outcome is unknown'') (cl_execution_record_id c)) d2"
      and v: "validate_unknown_claim env c a = Inr ()"
    have ch: "idem_check (?f x)" if "x \<in> set (db_idem d)" for x
      using inv that by (auto simp: du_inv_def rows_ok_def list_all_iff idem_check_def unknown_row_def)
    have inv1: "du_inv env d1"
      by (rule du_update_pending[OF inv, of "claim_row c" ?f _ 1])
         (use d1 n ch in \<open>auto simp: update_idem_Inr claim_row_pending row_id_def row_key_def unknown_row_def\<close>)
    have load: "load_action env act = Inr act" using act si action_reload[OF a] by (auto simp: sl_inv_def)
    have eid: "ua_execution_record_id act = ua_execution_record_id a" using act by auto
    obtain x where x: "x \<in> set (db_idem d)" "claim_row c x"
      using n rowcount_eq_0[of "claim_row c" "db_idem d"] by auto
    have "cl_execution_record_id c = Some (ua_execution_record_id a)"
      using v by (auto simp: validate_unknown_claim_def split: if_splits)
    then have "ir_eid x = ua_execution_record_id act" using x(2) eid by (simp add: claim_row_def)
    then have row: "?f x \<in> set (db_idem d1)" "ir_eid (?f x) = ua_execution_record_id act" "ir_state (?f x) = IS_UNKNOWN"
      using x d1 by (auto simp: in_upd_where unknown_row_def)
    have "du_inv env d2"
      by (rule du_new_head[OF inv1 add_unknown_head_Inr(1)[OF add] refl load row add_unknown_head_Inr(3)[OF add]])
    then show ?thesis using d' by simp
  qed
qed

lemma si_acquire_prepared_inv:
  assumes "du_inv env d" "si_acquire_prepared env ids lease now fid d ns key fp a = (d', res)" "action_built env a"
  shows "du_inv env d'"
  using assms si_acquire_inv[OF assms(1), of ids lease now fid ns key fp "Some a" d' res]
  by (auto simp: si_acquire_prepared_def prepared_built_def split: sum.splits if_splits)

section \<open>Both authorities as one machine\<close>

datatype durable_op =
    Acquire string string string nat
  | AcquirePrepared string string string UnknownAction nat
  | Complete IdempotencyClaim json
  | MarkUnknown IdempotencyClaim exn
  | Fail IdempotencyClaim exn
  | Renew IdempotencyClaim
  | Prune time
  | RecordUnknown IdempotencyClaim UnknownAction string
  | Reconcile ledger_op

datatype durable_out = GotClaim IdempotencyClaim | GotUnit | GotCount nat | GotHead Head | GotLedger ledger_out

type_synonym durable_call = "(nat \<Rightarrow> string) \<times> time \<times> durable_op"

definition result_as :: "('a \<Rightarrow> durable_out) \<Rightarrow> db \<times> 'a res \<Rightarrow> db \<times> durable_out res" where
  "result_as f = (\<lambda>(d, r). (d, bindR r (\<lambda>x. Inr (f x))))"

fun du_exec :: "recon_env \<Rightarrow> time \<Rightarrow> durable_call \<Rightarrow> db \<Rightarrow> db \<times> durable_out res" where
  "du_exec env lease (ids, now, Acquire ns key fp fid) d =
     result_as GotClaim (si_acquire env ids lease now fid d ns key fp None)"
| "du_exec env lease (ids, now, AcquirePrepared ns key fp a fid) d =
     result_as GotClaim (si_acquire_prepared env ids lease now fid d ns key fp a)"
| "du_exec env lease (ids, now, Complete c v) d = result_as (\<lambda>_. GotUnit) (si_complete now d c v)"
| "du_exec env lease (ids, now, MarkUnknown c e) d = result_as (\<lambda>_. GotUnit) (si_mark_unknown now d c e)"
| "du_exec env lease (ids, now, Fail c e) d = result_as (\<lambda>_. GotUnit) (si_fail d c e)"
| "du_exec env lease (ids, now, Renew c) d = result_as (\<lambda>_. GotUnit) (si_renew lease now d c)"
| "du_exec env lease (ids, now, Prune t) d = result_as GotCount (si_prune_completed d t)"
| "du_exec env lease (ids, now, RecordUnknown c a cls) d =
     result_as GotHead (sl_record_unknown env ids now d c a cls)"
| "du_exec env lease (ids, now, Reconcile op) d = result_as GotLedger (sl_exec env (ids, now, op) d)"

fun du_lawful :: "recon_env \<Rightarrow> durable_call \<Rightarrow> bool" where
  "du_lawful env (ids, now, AcquirePrepared ns key fp a fid) = action_built env a"
| "du_lawful env (ids, now, RecordUnknown c a cls) = action_built env a"
| "du_lawful env (ids, now, Reconcile op) = op_built env op"
| "du_lawful env _ = True"

lemma fst_result_as [simp]: "fst (result_as f x) = fst x"
  by (simp add: result_as_def split: prod.splits)

lemma sl_exec_inv:
  assumes inv: "du_inv env d" and op: "op_built env op"
  shows "du_inv env (fst (sl_exec env (ids, now, op) d))"
proof -
  have pair: "du_inv env (fst x)" if "\<And>d' r. x = (d', r) \<Longrightarrow> du_inv env d'" for x :: "db \<times> 'a res"
    using that by (cases x) auto
  have si: "sl_inv env d" using inv by (simp add: du_inv_def)
  show ?thesis
    using op
    by (cases op)
       (auto simp: fst_out_of intro!: pair
         intro: sl_prepare_inv[OF inv] sl_create_inv[OF inv] sl_recover_inv[OF inv] sl_compare_inv[OF inv]
           du_same_dispositions[OF inv sl_start_sound[OF si] sl_start_same]
           du_same_dispositions[OF inv sl_finish_sound[OF si] sl_finish_same])
qed

lemma du_exec_inv:
  assumes inv: "du_inv env d" and c: "du_lawful env c"
  shows "du_inv env (fst (du_exec env lease c d))"
proof -
  obtain ids now op where op: "c = (ids, now, op)" by (cases c)
  have pair: "du_inv env (fst x)" if "\<And>d' r. x = (d', r) \<Longrightarrow> du_inv env d'" for x :: "db \<times> 'a res"
    using that by (cases x) auto
  show ?thesis
    using c unfolding op
    by (cases op)
       (auto intro!: pair sl_exec_inv[OF inv]
         intro: si_acquire_inv[OF inv] si_acquire_prepared_inv[OF inv] si_complete_inv[OF inv]
           si_mark_unknown_inv[OF inv] si_fail_inv[OF inv] si_renew_inv[OF inv] si_prune_inv[OF inv]
           sl_record_unknown_inv[OF inv] simp: prepared_built_def)
qed

end
