(* ===== verification/ClaimContract.thy ===== *)
theory ClaimContract
  imports Prelude
begin

text \<open>
  What the runtime relies on from an idempotency store (\<open>IdempotencyStore\<close> of \<open>registry.py\<close>): a key
  that has an owner has no second one until something releases it.  Both stores implement it.
\<close>

primrec run_states :: "('c \<Rightarrow> 's \<Rightarrow> 's) \<Rightarrow> 'c list \<Rightarrow> 's \<Rightarrow> 's" where
  "run_states exec [] s = s"
| "run_states exec (c # cs) s = run_states exec cs (exec c s)"

lemma run_states_append [simp]: "run_states exec (xs @ ys) s = run_states exec ys (run_states exec xs s)"
  by (induction xs arbitrary: s) auto

text \<open>Every call of a run is one its state admits.\<close>

primrec admitted :: "('c \<Rightarrow> 's \<Rightarrow> 's) \<Rightarrow> ('c \<Rightarrow> 's \<Rightarrow> bool) \<Rightarrow> 'c list \<Rightarrow> 's \<Rightarrow> bool" where
  "admitted exec accepts [] s = True"
| "admitted exec accepts (c # cs) s = (accepts c s \<and> admitted exec accepts cs (exec c s))"

lemma admitted_append [simp]:
  "admitted exec accepts (xs @ ys) s \<longleftrightarrow>
     admitted exec accepts xs s \<and> admitted exec accepts ys (run_states exec xs s)"
  by (induction xs arbitrary: s) auto

text \<open>The state before the call at a position.\<close>

definition before :: "('c \<Rightarrow> 's \<Rightarrow> 's) \<Rightarrow> 'c list \<Rightarrow> 's \<Rightarrow> nat \<Rightarrow> 's" where
  "before exec cs s i = run_states exec (take i cs) s"

locale claim_store =
  fixes exec :: "'c \<Rightarrow> 's \<Rightarrow> 's"
    and ok :: "'s \<Rightarrow> bool"
    and accepts :: "'c \<Rightarrow> 's \<Rightarrow> bool"
    and held :: "'k \<Rightarrow> 's \<Rightarrow> bool"
    and grants :: "'k \<Rightarrow> 'c \<Rightarrow> 's \<Rightarrow> bool"
    and releases :: "'k \<Rightarrow> 'c \<Rightarrow> 's \<Rightarrow> bool"
  assumes exec_ok: "ok s \<Longrightarrow> accepts c s \<Longrightarrow> ok (exec c s)"
    and grant_free: "ok s \<Longrightarrow> accepts c s \<Longrightarrow> grants k c s \<Longrightarrow> held k s \<Longrightarrow> releases k c s"
    and grant_holds: "ok s \<Longrightarrow> accepts c s \<Longrightarrow> grants k c s \<Longrightarrow> held k (exec c s)"
    and keeps: "ok s \<Longrightarrow> accepts c s \<Longrightarrow> held k s \<Longrightarrow> \<not> releases k c s \<Longrightarrow> held k (exec c s)"
begin

lemma run_ok: "ok s \<Longrightarrow> admitted exec accepts cs s \<Longrightarrow> ok (run_states exec cs s)"
  by (induction cs arbitrary: s) (auto intro: exec_ok)

lemma at_position:
  assumes "ok s" "admitted exec accepts cs s" "i < length cs"
  shows "ok (before exec cs s i)" "accepts (cs ! i) (before exec cs s i)"
    "before exec cs s (Suc i) = exec (cs ! i) (before exec cs s i)"
proof -
  have split: "cs = take i cs @ cs ! i # drop (Suc i) cs" using assms(3) by (simp add: Cons_nth_drop_Suc)
  have "admitted exec accepts (take i cs @ cs ! i # drop (Suc i) cs) s" using assms(2) split by simp
  then have a: "admitted exec accepts (take i cs) s" "accepts (cs ! i) (before exec cs s i)"
    by (auto simp: before_def)
  then show "ok (before exec cs s i)" "accepts (cs ! i) (before exec cs s i)"
    using run_ok[OF assms(1) a(1)] by (simp_all add: before_def)
  show "before exec cs s (Suc i) = exec (cs ! i) (before exec cs s i)"
    using assms(3) by (simp add: before_def take_Suc_conv_app_nth)
qed

lemma held_until:
  assumes "ok s" "admitted exec accepts cs s" "i < length cs" "grants k (cs ! i) (before exec cs s i)"
    "i < j" "j \<le> length cs" "\<forall>m. i < m \<and> m < j \<longrightarrow> \<not> releases k (cs ! m) (before exec cs s m)"
  shows "held k (before exec cs s j)"
  using assms(5,6,7)
proof (induction j)
  case (Suc j)
  have j: "j < length cs" using Suc.prems by simp
  note p = at_position[OF assms(1,2) j]
  show ?case
  proof (cases "i = j")
    case True
    then show ?thesis using grant_holds[OF p(1,2)] assms(4) p(3) by simp
  next
    case False
    then have "held k (before exec cs s j)" using Suc.IH Suc.prems by simp
    moreover have "\<not> releases k (cs ! j) (before exec cs s j)" using Suc.prems(3) Suc.prems(1) False by simp
    ultimately show ?thesis using keeps[OF p(1,2)] p(3) by simp
  qed
qed simp

text \<open>Between two grants of a key lies a release of it.\<close>

lemma release_between:
  assumes "ok s" "admitted exec accepts cs s" "i < j" "j < length cs"
    "grants k (cs ! i) (before exec cs s i)" "grants k (cs ! j) (before exec cs s j)"
  shows "\<exists>m. i < m \<and> m \<le> j \<and> releases k (cs ! m) (before exec cs s m)"
proof (rule ccontr)
  assume none: "\<not> ?thesis"
  have "held k (before exec cs s j)"
    by (rule held_until[OF assms(1,2) _ assms(5)]) (use assms(3,4) none in auto)
  then show False using grant_free[OF at_position(1,2)[OF assms(1,2,4)] assms(6)] none assms(3) by blast
qed

end

end
