(* ===== verification/DurableClaims.thy ===== *)
theory DurableClaims
  imports DurableContract ClaimContract
begin

text \<open>
  The durable store as an implementation of the claim contract: over any interleaving of idempotency
  and ledger operations on one database, a key gets a second owner only after the first one failed
  before dispatch, was pruned after completing, or was confirmed not applied with evidence.
\<close>

section \<open>A key that is taken\<close>

definition du_held :: "string \<times> string \<Rightarrow> db \<Rightarrow> bool" where
  "du_held k d \<longleftrightarrow> (\<exists>r\<in>set (db_idem d). row_key r = k \<and> ir_state r \<noteq> IS_NOT_APPLIED)"

fun du_grants :: "recon_env \<Rightarrow> time \<Rightarrow> string \<times> string \<Rightarrow> durable_call \<Rightarrow> db \<Rightarrow> bool" where
  "du_grants env lease k c d =
     (case snd (du_exec env lease c d) of
        Inr (GotClaim cl) \<Rightarrow> cl_owner cl \<and> (cl_namespace cl, cl_key cl) = k
      | _ \<Rightarrow> False)"

fun du_releases :: "recon_env \<Rightarrow> time \<Rightarrow> string \<times> string \<Rightarrow> durable_call \<Rightarrow> db \<Rightarrow> bool" where
  "du_releases env lease k (ids, now, Fail c e) d =
     (cl_owner c \<and> (\<exists>r\<in>set (db_idem d). claim_row c r \<and> row_key r = k))"
| "du_releases env lease k (ids, now, Prune t) d = (\<exists>r\<in>set (db_idem d). prunable t d r \<and> row_key r = k)"
| "du_releases env lease k (ids, now, Reconcile (AppendTransition eid s n dec p a)) d =
     (let d' = fst (sl_exec env (ids, now, AppendTransition eid s n dec p a) d) in
      (\<exists>r\<in>set (db_idem d). ir_eid r = eid \<and> row_key r = k) \<and>
      (case db_heads d' eid of
         None \<Rightarrow> False
       | Some h \<Rightarrow> hd_disposition h = RETRY_ALLOWED \<and> not_applied_evidence (sl_records d' eid)))"
| "du_releases env lease k _ d = False"

lemma held_update:
  assumes h: "du_held k d" and i: "db_idem d' = upd_where P f (db_idem d)"
    and f: "\<And>r. row_id (f r) = row_id r"
      "\<And>r. r \<in> set (db_idem d) \<Longrightarrow> P r \<Longrightarrow> row_key r = k \<Longrightarrow> ir_state (f r) \<noteq> IS_NOT_APPLIED"
  shows "du_held k d'"
proof -
  obtain r where r: "r \<in> set (db_idem d)" "row_key r = k" "ir_state r \<noteq> IS_NOT_APPLIED" using h by (auto simp: du_held_def)
  have key: "row_key (f r) = k" using f(1)[of r] r(2) by (simp add: row_id_def)
  show ?thesis unfolding du_held_def
    by (rule bexI[of _ "if P r then f r else r"]) (use r f(2) key in \<open>auto simp: i in_upd_where\<close>)
qed

lemma held_same: "du_held k d \<Longrightarrow> same_dispositions d d' \<Longrightarrow> du_held k d'"
  by (simp add: du_held_def same_dispositions_def)

lemma held_commit:
  assumes "du_held k d" "commit d x = (d', r)" "\<And>d1 y. x = Inr (d1, y) \<Longrightarrow> du_held k d1"
  shows "du_held k d'"
  using assms by (cases x) (auto simp: commit_def)

lemma held_futures [simp]:
  "du_held k (d\<lparr>db_futures := x\<rparr>) = du_held k d" "du_held k (set_future i f d) = du_held k d"
  by (simp_all add: du_held_def set_future_def)

lemma held_update_idem:
  assumes "du_held k d" "update_idem P f d = Inr (d', n)"
    "\<And>r. row_id (f r) = row_id r" "\<And>r. P r \<Longrightarrow> ir_state (f r) \<noteq> IS_NOT_APPLIED"
  shows "du_held k d'"
  by (rule held_update[where P = P, OF assms(1) _ assms(3)]) (use assms(2,4) in \<open>auto simp: update_idem_Inr\<close>)

lemma held_resolve:
  assumes "du_held k d" "si_transition now c st v e d = Inr d'" "st \<noteq> IS_NOT_APPLIED"
  shows "du_held k d'"
proof -
  obtain n where "update_idem (claim_row c)
       (\<lambda>r. r\<lparr>ir_state := st, ir_result := v, ir_error := e, ir_owner_token := None,
              ir_lease := None, ir_updated_at := now\<rparr>) d = Inr (d', n)"
    using assms(2) by (auto simp: si_transition_def bindR_eq_Inr split: if_splits)
  then show ?thesis by (rule held_update_idem[OF assms(1)]) (use assms(3) in \<open>auto simp: row_id_def row_key_def\<close>)
qed

lemma held_complete: "du_held k d \<Longrightarrow> si_complete now d c v = (d', r) \<Longrightarrow> du_held k d'"
  by (auto simp: si_complete_def commit_def bindR_eq_Inr split: if_splits sum.splits intro: held_resolve)

lemma held_mark: "du_held k d \<Longrightarrow> si_mark_unknown now d c e = (d', r) \<Longrightarrow> du_held k d'"
  by (auto simp: si_mark_unknown_def commit_def bindR_eq_Inr split: if_splits sum.splits intro: held_resolve)

lemma held_renew:
  assumes "du_held k d" "si_renew lease now d c = (d', r)"
  shows "du_held k d'"
proof (cases "\<not> cl_owner c \<or> cl_owner_token c = None \<or> cl_owner_token c = Some []")
  case True
  then show ?thesis using assms by (auto simp: si_renew_def)
next
  case False
  obtain x where "commit d x = (d', r)" and x: "x = bindR (update_idem (claim_row c)
           (\<lambda>r. r\<lparr>ir_lease := Some (now + lease), ir_updated_at := now\<rparr>) d) (\<lambda>(d', n).
         if n \<noteq> 1 then Inl (RuntimeError ''idempotency ownership was lost before renewal'')
         else Inr (d', ()))"
    using assms(2)[unfolded si_renew_def, unfolded if_not_P[OF False]] by blast
  then show ?thesis
  proof (elim held_commit[OF assms(1)])
    fix d1 y assume "x = Inr (d1, y)"
    then obtain n where "update_idem (claim_row c)
           (\<lambda>r. r\<lparr>ir_lease := Some (now + lease), ir_updated_at := now\<rparr>) d = Inr (d1, n)"
      using x by (auto simp: bindR_eq_Inr split: if_splits)
    then show "du_held k d1"
      by (rule held_update_idem[OF assms(1)]) (auto simp: row_id_def row_key_def claim_row_pending)
  qed
qed

lemma held_fail:
  assumes h: "du_held k d" and f: "si_fail d c e = (d', r)"
    and n: "\<not> (cl_owner c \<and> (\<exists>r\<in>set (db_idem d). claim_row c r \<and> row_key r = k))"
  shows "du_held k d'"
proof (cases "cl_owner c")
  case False
  then show ?thesis using h f by (simp add: si_fail_def)
next
  case True
  have "db_idem d' = db_idem d \<or> db_idem d' = filter (\<lambda>r. \<not> claim_row c r) (db_idem d)"
    using f True
    by (auto simp: si_fail_def commit_def Let_def bindR_eq_Inr set_future_def delete_prepared_def split: sum.splits if_splits)
  then show ?thesis using n True h by (auto simp: du_held_def) blast
qed

lemma held_prune:
  assumes h: "du_held k d" and f: "si_prune_completed d t = (d', r)"
    and n: "\<not> (\<exists>r\<in>set (db_idem d). prunable t d r \<and> row_key r = k)"
  shows "du_held k d'"
proof -
  have "db_idem d' = db_idem d \<or> db_idem d' = filter (\<lambda>r. \<not> prunable t d r) (db_idem d)"
    using f by (auto simp: si_prune_completed_def commit_def bindR_eq_Inr delete_prepared_def split: sum.splits if_splits)
  then show ?thesis using n h by (auto simp: du_held_def) blast
qed

lemma held_append:
  "du_held k d \<Longrightarrow> db_idem d' = db_idem d @ rs \<Longrightarrow> du_held k d'"
  by (auto simp: du_held_def)

lemma enqueue_held: "enqueue_outbox env i now h et p a out f e ev oper d = Inr (d', x) \<Longrightarrow> du_held k d' = du_held k d"
  using enqueue_fields(1) by (simp add: du_held_def)

lemma held_expire:
  assumes h: "du_held k d" and e: "expire_lease env i now r d = Inr d'"
  shows "du_held k d'"
proof -
  obtain d1 where up: "update_idem (\<lambda>x. ir_eid x = ir_eid r \<and> ir_generation x = ir_generation r \<and>
         ir_state x = IS_PENDING \<and> ir_lease x = ir_lease r)
       (\<lambda>x. x\<lparr>ir_state := IS_UNKNOWN, ir_error := Some ''owner lease expired before an outcome was recorded'',
              ir_owner_token := None, ir_lease := None, ir_updated_at := now\<rparr>) d = Inr (d1, 1)"
      and m: "materialize_head env i now (ir_eid r) d1 = Inr d'"
    using e by (auto simp: expire_lease_def bindR_eq_Inr split: if_splits)
  have "du_held k d1"
    by (rule held_update_idem[OF h up]) (auto simp: row_id_def row_key_def)
  moreover have "db_idem d' = db_idem d1"
    using m by (auto simp: materialize_head_def bindR_eq_Inr split: if_splits option.splits dest: enqueue_fields(1))
  ultimately show ?thesis by (simp add: du_held_def)
qed

lemma held_grant:
  "grant env ids lease now fid ns key fp gen p d = Inr (d', c) \<Longrightarrow> du_held k d \<or> k = (ns, key) \<Longrightarrow> du_held k d'"
  by (erule grant_Inr) (auto simp: du_held_def pending_row_def row_key_def)

lemma held_acquire:
  assumes h: "du_held k d" and a: "si_acquire env ids lease now fid d ns key fp prepared = (d', r)"
  shows "du_held k d'"
  using a[unfolded si_acquire_def]
proof (rule commit_cases)
  fix c
  assume "seqR (seq_all
         [validate_idem_identifier ''namespace'' ns, validate_idem_identifier ''key'' key,
          raise_if (\<not> is_digest fp) (ValueError ''fingerprint must be a SHA-256 hex digest'')])
       (case latest_row ns key d of
          None \<Rightarrow> grant env ids lease now fid ns key fp 1 prepared d
        | Some r \<Rightarrow> si_acquire_row env ids lease now fid ns key fp prepared r d) = Inr (d', c)"
  then have x: "(case latest_row ns key d of
          None \<Rightarrow> grant env ids lease now fid ns key fp 1 prepared d
        | Some r \<Rightarrow> si_acquire_row env ids lease now fid ns key fp prepared r d) = Inr (d', c)"
    by (simp add: bindR_eq_Inr)
  show ?thesis
  proof (cases "latest_row ns key d")
    case None
    then have "grant env ids lease now fid ns key fp 1 prepared d = Inr (d', c)" using x by simp
    from held_grant[OF this] show ?thesis using h by blast
  next
    case (Some r)
    then have "si_acquire_row env ids lease now fid ns key fp prepared r d = Inr (d', c)" using x by simp
    then consider "grant env ids lease now fid ns key fp (ir_generation r + 1) prepared d = Inr (d', c)"
      | d1 y where "expire_lease env (ids 2) now r d = Inr d1" "d' = d1\<lparr>db_futures := y\<rparr>"
      | y where "d' = d\<lparr>db_futures := y\<rparr>"
      by (auto simp: si_acquire_row_def observe_def bindR_eq_Inr split: if_splits)
    then show ?thesis
    proof cases
      case 1
      from held_grant[OF this] show ?thesis using h by blast
    next
      case 2
      then show ?thesis using held_expire[OF h] by simp
    qed (use h in simp)
  qed
qed (use h in simp)

lemma held_acquire_prepared:
  assumes "du_held k d" "si_acquire_prepared env ids lease now fid d ns key fp a = (d', r)"
  shows "du_held k d'"
  using assms held_acquire[OF assms(1)]
  by (auto simp: si_acquire_prepared_def split: sum.splits if_splits)

lemma held_transition:
  assumes h: "du_held k d" and hi: "db_has_idempotency d"
    and w: "write_transition env i j now h0 t msg p a et d = Inr (d', u)"
    and n: "\<And>r. r \<in> set (db_idem d) \<Longrightarrow> ir_eid r = ua_execution_record_id (hd_action h0) \<Longrightarrow> row_key r = k \<Longrightarrow>
      hd_disposition u \<noteq> RETRY_ALLOWED"
  shows "du_held k d'"
  using hi w
proof (rule write_transition_writes)
  fix f g r
  assume f: "\<And>x. row_id (f x) = row_id x" "\<And>x. ir_state (f x) = disposition_state (hd_disposition u)"
    "db_idem d' = upd_where (\<lambda>x. ir_eid x = ua_execution_record_id (hd_action h0) \<and>
       ir_state x \<in> {IS_UNKNOWN, IS_MANUAL_REVIEW}) f (db_idem d)"
  have "disposition_state x = IS_NOT_APPLIED \<longleftrightarrow> x = RETRY_ALLOWED" for x by (cases x) auto
  then show ?thesis by (intro held_update[OF h f(3) f(1)]) (use f(2) n in auto)
qed

lemma held_recover:
  assumes h: "du_held k d" and inv: "du_inv env d" and rec: "sl_recover env ids now t d eid = (d', res)"
  shows "du_held k d'"
  using rec
proof (cases rule: sl_recover_cases)
  case unchanged
  then show ?thesis using h by simp
next
  case (moved h0 atts d1 h1 tr u)
  note same = sl_close_same[OF moved(2)]
  have "tn_new_state tr = MANUAL_REVIEW"
    using moved(3) by (auto simp: recovery_transition_def split: if_splits elim!: Transition_post_init_Inr)
  moreover have "hd_disposition u = disposition_of (tn_new_state tr) (tn_result_available tr)"
    using moved(4) by (elim write_transition_Inr) (auto simp: transition_record_def bindR_eq_Inr Head_post_init_Inr)
  ultimately have "hd_disposition u \<noteq> RETRY_ALLOWED" by (simp add: disposition_of_def)
  moreover have "db_has_idempotency d1" using same inv by (simp add: same_dispositions_def du_inv_def)
  ultimately show ?thesis using held_transition[OF held_same[OF h same] _ moved(4)] by blast
qed

lemma held_record_unknown:
  assumes h: "du_held k d" and inv: "du_inv env d" and r: "sl_record_unknown env ids now d c a cls = (d', res)"
  shows "du_held k d'"
proof (cases res)
  case (Inl e)
  then have "d' = d" using r by (auto simp: sl_record_unknown_def commit_def Let_def split: sum.splits)
  then show ?thesis using h by simp
next
  case (Inr h0)
  have si: "sl_inv env d" using inv by (simp add: du_inv_def)
  from r[unfolded Inr] si show ?thesis
  proof (rule record_unknown_Inr)
    fix act d1 d2
    let ?f = "unknown_row (cls @ '': execution outcome is unknown'') now"
    assume d1: "d1 = d\<lparr>db_idem := upd_where (claim_row c) ?f (db_idem d)\<rparr>"
      and add: "add_unknown_head env (ids 0) now act now d1 = Inr (d2, h0)"
      and d': "d' = set_future (cl_future c)
       (OutcomeUnknown (cls @ '': execution outcome is unknown'') (cl_execution_record_id c)) d2"
    have "du_held k d1"
      by (rule held_update[OF h, of d1 "claim_row c" ?f]) (auto simp: d1 row_id_def row_key_def unknown_row_def)
    moreover have "db_idem d2 = db_idem d1" using arg_cong[OF add_unknown_head_Inr(3)[OF add], of db_idem] by simp
    ultimately show ?thesis using d' by (simp add: du_held_def set_future_def)
  qed
qed

lemma held_create: "du_held k d \<Longrightarrow> sl_create_unknown env ids now d a = (d', r) \<Longrightarrow> du_held k d'"
proof -
  assume h: "du_held k d" and c: "sl_create_unknown env ids now d a = (d', r)"
  show ?thesis
    using c[unfolded sl_create_unknown_def]
  proof (rule commit_cases)
    fix y assume "seqR (validate_link env d a) (add_unknown_head env (ids 0) now a (ua_attempted_at a) d) = Inr (d', y)"
    then have "add_unknown_head env (ids 0) now a (ua_attempted_at a) d = Inr (d', y)" by (auto simp: bindR_eq_Inr)
    from arg_cong[OF add_unknown_head_Inr(3)[OF this], of db_idem] show ?thesis using h by (simp add: du_held_def)
  qed (use h in simp)
qed

lemma held_prepare: "du_held k d \<Longrightarrow> sl_prepare_action env d c a = (d', r) \<Longrightarrow> du_held k d'"
  by (auto simp: sl_prepare_action_def commit_def bindR_eq_Inr insert_prepared_def du_held_def
      split: sum.splits option.splits if_splits)

lemma head_retry_evidence:
  assumes "sl_inv env d" "db_heads d eid = Some h" "hd_disposition h = RETRY_ALLOWED"
  shows "not_applied_evidence (sl_records d eid)"
  using assms entry_retry_evidence[of eid h "sl_records d eid"] by (auto simp: sl_inv_def)

lemma held_compare:
  assumes h: "du_held k d" and inv: "du_inv env d" and dec: "decision_built env dec"
    and cmp: "sl_compare_and_append env ids now d eid s n dec p a = (d', res)"
    and n: "\<not> ((\<exists>r\<in>set (db_idem d). ir_eid r = eid \<and> row_key r = k) \<and>
      (case db_heads d' eid of None \<Rightarrow> False
       | Some h \<Rightarrow> hd_disposition h = RETRY_ALLOWED \<and> not_applied_evidence (sl_records d' eid)))"
  shows "du_held k d'"
  using cmp
proof (cases rule: sl_compare_cases)
  case unchanged
  then show ?thesis using h by simp
next
  case (moved h0 t u)
  have si: "sl_inv env d" and hi: "db_has_idempotency d" using inv by (auto simp: du_inv_def)
  have si': "sl_inv env d'" using sl_compare_inv[OF inv dec cmp] by (simp add: du_inv_def)
  have eid: "ua_execution_record_id (hd_action h0) = eid"
    using moved(1) si by (auto simp: sl_current_Inr[OF si] sl_inv_def entry_inv_def)
  from hi moved(3) obtain g where g: "db_heads d' eid = Some g" "hd_disposition g = hd_disposition u"
    by (rule write_transition_writes) (use eid in auto)
  show ?thesis
    by (rule held_transition[OF h hi moved(3)]) (use n g head_retry_evidence[OF si' g(1)] eid in auto)
qed

section \<open>Granting\<close>

lemma acquire_owner:
  assumes a: "si_acquire env ids lease now fid d ns key fp prepared = (d', Inr c)" and c: "cl_owner c"
    and ok: "rows_ok (db_idem d)"
  shows "cl_namespace c = ns" "cl_key c = key" "\<not> du_held (ns, key) d" "du_held (ns, key) d'"
proof -
  have x: "(case latest_row ns key d of
          None \<Rightarrow> grant env ids lease now fid ns key fp 1 prepared d
        | Some r \<Rightarrow> si_acquire_row env ids lease now fid ns key fp prepared r d) = Inr (d', c)"
    using a by (auto simp: si_acquire_def commit_def bindR_eq_Inr split: sum.splits)
  have "\<exists>gen. grant env ids lease now fid ns key fp gen prepared d = Inr (d', c) \<and>
      (latest_row ns key d = None \<or> (\<exists>r. latest_row ns key d = Some r \<and> ir_state r = IS_NOT_APPLIED))"
  proof (cases "latest_row ns key d")
    case None
    then show ?thesis using x by auto
  next
    case (Some r)
    then have "si_acquire_row env ids lease now fid ns key fp prepared r d = Inr (d', c)" using x by simp
    then have "grant env ids lease now fid ns key fp (ir_generation r + 1) prepared d = Inr (d', c) \<and>
        ir_state r = IS_NOT_APPLIED"
      using c by (auto simp: si_acquire_row_def observe_def observer_claim_def bindR_eq_Inr split: if_splits)
    then show ?thesis using Some by blast
  qed
  then obtain gen where g: "grant env ids lease now fid ns key fp gen prepared d = Inr (d', c)"
      "latest_row ns key d = None \<or> (\<exists>r. latest_row ns key d = Some r \<and> ir_state r = IS_NOT_APPLIED)" by blast
  show "cl_namespace c = ns" "cl_key c = key" using grant_Inr[OF g(1)] by blast+
  show "\<not> du_held (ns, key) d"
    using g(2) latest_row_None[of ns key d] latest_not_applied(1)[OF ok] by (auto simp: du_held_def)
  show "du_held (ns, key) d'" by (rule held_grant[OF g(1)]) simp
qed

lemma acquire_prepared_owner:
  assumes "si_acquire_prepared env ids lease now fid d ns key fp a = (d', Inr c)"
  shows "si_acquire env ids lease now fid d ns key fp (Some a) = (d', Inr c)"
  using assms by (auto simp: si_acquire_prepared_def split: if_splits sum.splits)

lemma snd_result_as_Inr: "snd (result_as f x) = Inr y \<longleftrightarrow> (\<exists>d v. x = (d, Inr v) \<and> y = f v)"
  by (cases x) (auto simp: result_as_def bindR_eq_Inr)

lemma grants_cases:
  assumes "du_grants env lease k c d"
  obtains ids now ns key fp fid prepared cl where "k = (ns, key)" "cl_owner cl"
    "si_acquire env ids lease now fid d ns key fp prepared = (fst (du_exec env lease c d), Inr cl)"
    "prepared = None \<or> (\<exists>a. prepared = Some a \<and> c = (ids, now, AcquirePrepared ns key fp a fid))"
    "cl_namespace cl = ns" "cl_key cl = key"
proof -
  obtain cl where cl: "snd (du_exec env lease c d) = Inr (GotClaim cl)" "cl_owner cl" "(cl_namespace cl, cl_key cl) = k"
    using assms by (auto split: sum.splits durable_out.splits)
  obtain ids now op where op: "c = (ids, now, op)" by (cases c)
  have key: "cl_namespace cl = ns \<and> cl_key cl = key"
    if "si_acquire env ids lease now fid d ns key fp prepared = (d', Inr cl)" "cl_owner cl"
    for fid ns key fp prepared d'
    using that
    by (auto simp: si_acquire_def commit_def bindR_eq_Inr si_acquire_row_def observe_def observer_claim_def
        split: sum.splits option.splits if_splits elim!: grant_Inr)
  show thesis
  proof (cases op)
    case (Acquire ns key fp fid)
    then obtain d' where "si_acquire env ids lease now fid d ns key fp None = (d', Inr cl)"
      using cl(1) op by (auto simp: snd_result_as_Inr)
    then show thesis using that[of ns key cl ids now fid fp None] key cl op Acquire by auto
  next
    case (AcquirePrepared ns key fp a fid)
    then obtain d' where "si_acquire_prepared env ids lease now fid d ns key fp a = (d', Inr cl)"
      using cl(1) op by (auto simp: snd_result_as_Inr)
    with acquire_prepared_owner[OF this] show thesis
      using that[of ns key cl ids now fid fp "Some a"] key cl op AcquirePrepared by auto
  qed (use cl(1) op in \<open>auto simp: snd_result_as_Inr\<close>)
qed

text \<open>An owner of a key that has been tried before starts from evidence that the earlier tries had no effect.\<close>

lemma owner_retry_evidence:
  assumes inv: "du_inv env d" and a: "si_acquire env ids lease now fid d ns key fp prepared = (d', Inr c)"
    and c: "cl_owner c" and r: "r \<in> set (db_idem d)" "row_key r = (ns, key)"
  shows "\<exists>h. db_heads d (ir_eid r) = Some h \<and> hd_disposition h = RETRY_ALLOWED \<and>
    not_applied_evidence (sl_records d (ir_eid r))"
proof -
  have ok: "rows_ok (db_idem d)" "linked (db_heads d) (db_idem d)" "sl_inv env d" using inv by (auto simp: du_inv_def)
  have na: "ir_state r = IS_NOT_APPLIED"
    using acquire_owner(3)[OF a c ok(1)] r by (auto simp: du_held_def)
  then obtain h where h: "db_heads d (ir_eid r) = Some h" using ok(2) r(1) by (auto simp: linked_def)
  have "disposition_state (hd_disposition h) = IS_NOT_APPLIED" using linked_head_row[OF ok(2,1) h r(1)] na by simp
  then have "hd_disposition h = RETRY_ALLOWED" by (cases "hd_disposition h") auto
  then show ?thesis using h head_retry_evidence[OF ok(3) h] by blast
qed

section \<open>The durable store implements the claim contract\<close>

lemma du_keeps:
  assumes inv: "du_inv env d" and c: "du_lawful env c" and h: "du_held k d" and n: "\<not> du_releases env lease k c d"
  shows "du_held k (fst (du_exec env lease c d))"
proof -
  obtain ids now op where op: "c = (ids, now, op)" by (cases c)
  have pair: "du_held k (fst x)" if "\<And>d' r. x = (d', r) \<Longrightarrow> du_held k d'" for x :: "db \<times> 'a res"
    using that by (cases x) auto
  show ?thesis
  proof (cases op)
    case (Reconcile lop)
    show ?thesis
    proof (cases lop)
      case (AppendTransition eid s m dec p a)
      have "du_held k (fst (sl_compare_and_append env ids now d eid s m dec p a))"
        by (rule pair, rule held_compare[OF h inv])
           (use n c op Reconcile AppendTransition in \<open>auto simp: fst_out_of Let_def split: option.splits\<close>)
      then show ?thesis using op Reconcile AppendTransition by (simp add: fst_out_of)
    qed (use op Reconcile in \<open>auto simp: fst_out_of intro!: pair
      intro: held_prepare[OF h] held_create[OF h] held_recover[OF h inv] held_same[OF h sl_start_same]
        held_same[OF h sl_finish_same]\<close>)
  qed (use op n in \<open>auto intro!: pair intro: held_acquire[OF h] held_acquire_prepared[OF h] held_complete[OF h]
      held_mark[OF h] held_renew[OF h] held_fail[OF h] held_prune[OF h] held_record_unknown[OF h inv]\<close>)
qed

interpretation durable_claims: claim_store "\<lambda>c d. fst (du_exec env lease c d)" "du_inv env" "\<lambda>c _. du_lawful env c"
  du_held "du_grants env lease" "du_releases env lease" for env lease
proof
  show "du_inv env d \<Longrightarrow> du_lawful env c \<Longrightarrow> du_inv env (fst (du_exec env lease c d))" for d c
    by (rule du_exec_inv)
  show "du_inv env d \<Longrightarrow> du_lawful env c \<Longrightarrow> du_held k d \<Longrightarrow> \<not> du_releases env lease k c d \<Longrightarrow>
      du_held k (fst (du_exec env lease c d))" for d c k
    by (rule du_keeps)
  show "du_held k d \<Longrightarrow> du_releases env lease k c d" if "du_inv env d" "du_grants env lease k c d" for d c k
    using that(2) by (rule grants_cases) (use acquire_owner(3) that(1) in \<open>auto simp: du_inv_def\<close>)
  show "du_held k (fst (du_exec env lease c d))" if "du_inv env d" "du_grants env lease k c d" for d c k
    using that(2) by (rule grants_cases) (use acquire_owner(4) that(1) in \<open>auto simp: du_inv_def\<close>)
qed

end
