(* ===== verification/Outbox.thy ===== *)
theory Outbox
  imports SqlIdempotency "HOL-Library.Product_Lexorder"
begin

text \<open>
  Delivery of the audit outbox: the durable queue operations of \<open>SQLiteReconciliationLedger\<close>
  (\<open>pending_audit_events\<close>, \<open>mark_audit_event_delivered\<close>, \<open>record_audit_delivery_failure\<close> and the
  stall alert), and the worker loop \<open>_drain_reconciliation_audit_outbox\<close> of \<open>runtime.py\<close>.  The audit
  sink is a function from the envelope's identifier to the exception its delivery raises, if any.
\<close>

section \<open>Envelopes\<close>

record Envelope =
  ev_outbox_id :: string
  ev_execution_record_id :: string
  ev_revision :: int
  ev_event_type :: string
  ev_event :: dict
  ev_created_at :: time
  ev_delivery_attempts :: int

definition Envelope_post_init :: "recon_env \<Rightarrow> Envelope \<Rightarrow> Envelope res" where
  "Envelope_post_init env e =
     seqR (seq_all
       [require_execution_record_id (ev_outbox_id e),
        require_execution_record_id (ev_execution_record_id e),
        raise_if (ev_revision e < 0) (invalid ''reconciliation audit revision must be non-negative''),
        require_identifier ''reconciliation audit event type'' (ev_event_type e),
        raise_if (ev_delivery_attempts e < 0)
          (invalid ''reconciliation audit delivery attempts must be non-negative'')])
     (bindR (bounded_mapping env (ev_event e) ''reconciliation audit envelope'' MAX_METADATA_BYTES False False)
       (\<lambda>event. Inr (e\<lparr>ev_event := event\<rparr>)))"

text \<open>The stored text of an event is its canonical dump, so its digest is checked on that.\<close>

definition envelope_from_row :: "recon_env \<Rightarrow> outbox_row \<Rightarrow> Envelope res" where
  "envelope_from_row env r =
     (case dump env (ob_event r) of
        Inl _ \<Rightarrow> Inl (ReconciliationError ''reconciliation audit outbox payload is invalid'')
      | Inr text \<Rightarrow>
          if ob_digest r \<noteq> re_sha256 env text
          then Inl (ReconciliationError ''reconciliation audit outbox payload digest mismatch'')
          else Envelope_post_init env
            \<lparr>ev_outbox_id = ob_outbox_id r, ev_execution_record_id = ob_eid r, ev_revision = ob_revision r,
             ev_event_type = ob_event_type r, ev_event = as_items (ob_event r),
             ev_created_at = ob_created_at r, ev_delivery_attempts = ob_delivery_attempts r\<rparr>)"

fun load_envelopes :: "recon_env \<Rightarrow> outbox_row list \<Rightarrow> Envelope list res" where
  "load_envelopes env [] = Inr []"
| "load_envelopes env (r # rs) =
     bindR (envelope_from_row env r) (\<lambda>e. bindR (load_envelopes env rs) (\<lambda>es. Inr (e # es)))"

section \<open>The queue\<close>

record alert_config =
  ac_attempts :: int
  ac_age :: time

definition undelivered :: "outbox_row \<Rightarrow> bool" where
  "undelivered r \<longleftrightarrow> ob_delivered_at r = None"

text \<open>An undelivered row with no earlier undelivered revision of the same execution.\<close>

definition deliverable :: "outbox_row list \<Rightarrow> outbox_row \<Rightarrow> bool" where
  "deliverable rows r \<longleftrightarrow>
     undelivered r \<and>
     \<not> list_ex (\<lambda>e. ob_eid e = ob_eid r \<and> undelivered e \<and> ob_revision e < ob_revision r) rows"

definition pending_rows :: "db \<Rightarrow> string option \<Rightarrow> nat \<Rightarrow> outbox_row list" where
  "pending_rows d eid limit =
     take limit
       (sort_key (\<lambda>r. (ob_eid r, ob_revision r, ob_event_type r))
         (filter (\<lambda>r. deliverable (db_outbox d) r \<and> (case eid of None \<Rightarrow> True | Some i \<Rightarrow> ob_eid r = i))
           (db_outbox d)))"

definition alert_candidate :: "alert_config \<Rightarrow> time \<Rightarrow> time \<Rightarrow> int \<Rightarrow> bool" where
  "alert_candidate cfg now created_at attempts \<longleftrightarrow>
     ac_attempts cfg \<le> attempts \<or> ac_age cfg \<le> max 0 (now - created_at)"

text \<open>\<open>_warn_if_audit_delivery_is_stalled\<close>: the rows it marks, and whether it logged.\<close>

definition warn_stalled :: "alert_config \<Rightarrow> time \<Rightarrow> string \<Rightarrow> db \<Rightarrow> db \<times> bool" where
  "warn_stalled cfg now eid d =
     (let rows = filter (\<lambda>r. ob_eid r = eid \<and> undelivered r) (db_outbox d) in
      case rows of
        [] \<Rightarrow> (d, False)
      | r # rs \<Rightarrow>
          if \<not> alert_candidate cfg now (fold min (map ob_created_at rs) (ob_created_at r))
                 (fold max (map ob_delivery_attempts rs) (ob_delivery_attempts r))
          then (d, False)
          else if list_ex (\<lambda>x. ob_alerted_at x \<noteq> None) rows then (d, False)
          else (d\<lparr>db_outbox := upd_where (\<lambda>x. ob_eid x = eid \<and> undelivered x \<and> ob_alerted_at x = None)
                  (\<lambda>x. x\<lparr>ob_alerted_at := Some now\<rparr>) (db_outbox d)\<rparr>, True))"

definition alert_rows :: "alert_config \<Rightarrow> time \<Rightarrow> outbox_row list \<Rightarrow> db \<Rightarrow> db" where
  "alert_rows cfg now rows d =
     fold (\<lambda>r d. if alert_candidate cfg now (ob_created_at r) (ob_delivery_attempts r)
                 then fst (warn_stalled cfg now (ob_eid r) d) else d) rows d"

definition sl_pending_audit_events ::
  "recon_env \<Rightarrow> alert_config \<Rightarrow> time \<Rightarrow> db \<Rightarrow> string option \<Rightarrow> int \<Rightarrow> db \<times> Envelope list res" where
  "sl_pending_audit_events env cfg now d eid limit =
     (case seqR (optional_check require_execution_record_id eid)
             (raise_if (\<not> (1 \<le> limit \<and> limit \<le> 1000))
                (ValueError ''audit outbox limit must be between 1 and 1000'')) of
        Inl e \<Rightarrow> (d, Inl e)
      | Inr _ \<Rightarrow>
          let rows = pending_rows d eid (nat limit)
          in (alert_rows cfg now rows d, load_envelopes env rows))"

definition not_present :: exn where
  "not_present = ReconciliationNotFoundError ''reconciliation audit outbox event is not present''"

definition sl_mark_delivered :: "time \<Rightarrow> db \<Rightarrow> string \<Rightarrow> db \<times> unit res" where
  "sl_mark_delivered now d oid =
     commit d
      (seqR (require_execution_record_id oid)
       (if rowcount (\<lambda>r. ob_outbox_id r = oid \<and> undelivered r) (db_outbox d) = 0
        then (if list_ex (\<lambda>r. ob_outbox_id r = oid) (db_outbox d) then Inr (d, ()) else Inl not_present)
        else Inr (d\<lparr>db_outbox := upd_where (\<lambda>r. ob_outbox_id r = oid \<and> undelivered r)
                    (\<lambda>r. r\<lparr>ob_delivered_at := Some now, ob_last_error_class := None\<rparr>) (db_outbox d)\<rparr>, ())))"

definition sl_record_failure ::
  "alert_config \<Rightarrow> time \<Rightarrow> db \<Rightarrow> string \<Rightarrow> string \<Rightarrow> db \<times> unit res" where
  "sl_record_failure cfg now d oid error_class =
     commit d
      (seqR (require_execution_record_id oid)
      (seqR (require_identifier ''reconciliation audit delivery error class'' error_class)
       (let d1 = d\<lparr>db_outbox := upd_where (\<lambda>r. ob_outbox_id r = oid \<and> undelivered r)
                    (\<lambda>r. r\<lparr>ob_delivery_attempts := ob_delivery_attempts r + 1,
                           ob_last_error_class := Some error_class\<rparr>) (db_outbox d)\<rparr> in
        case select_one (\<lambda>r. ob_outbox_id r = oid) (db_outbox d1) of
          None \<Rightarrow> Inl not_present
        | Some r \<Rightarrow>
            Inr (if alert_candidate cfg now (ob_created_at r) (ob_delivery_attempts r)
                 then fst (warn_stalled cfg now (ob_eid r) d1) else d1, ()))))"

section \<open>The delivery worker\<close>

text \<open>What ends a drain early: the count is returned, or an exception is raised.\<close>

datatype drain_end = DrainReturned nat | DrainRaised exn

definition audit_pending :: "Envelope \<Rightarrow> exn" where
  "audit_pending e = OtherError
     (''reconciliation audit delivery is pending for committed execution '' @ ev_execution_record_id e)"

definition limit_reached :: "nat option \<Rightarrow> nat \<Rightarrow> bool" where
  "limit_reached limit n = (case limit of None \<Rightarrow> False | Some k \<Rightarrow> k \<le> n)"

definition is_stage_timeout :: "exn \<Rightarrow> bool" where
  "is_stage_timeout x = (case x of StageTimeoutError _ \<Rightarrow> True | _ \<Rightarrow> False)"

text \<open>
  One batch: each envelope is handed to the sink and acknowledged; a failure is recorded and stops the
  drain, a cancellation stops it at once.  \<open>class_of\<close> is the class name of an exception, and \<open>expired\<close>
  says that the caller gave a deadline which has passed when a delivery fails.
\<close>

fun drain_batch ::
  "(exn \<Rightarrow> string) \<Rightarrow> alert_config \<Rightarrow> (string \<Rightarrow> exn option) \<Rightarrow> bool \<Rightarrow> bool \<Rightarrow> nat option \<Rightarrow> time \<Rightarrow>
   Envelope list \<Rightarrow> nat \<Rightarrow> db \<Rightarrow> db \<times> nat \<times> drain_end option" where
  "drain_batch class_of cfg sink expired fail_closed limit now [] n d = (d, n, None)"
| "drain_batch class_of cfg sink expired fail_closed limit now (e # es) n d =
     (let oid = ev_outbox_id e;
          acked = (case sink oid of Some x \<Rightarrow> (d, Inl x) | None \<Rightarrow> sl_mark_delivered now d oid) in
      case acked of
        (d1, Inr _) \<Rightarrow>
          if limit_reached limit (Suc n) then (d1, Suc n, Some (DrainReturned (Suc n)))
          else drain_batch class_of cfg sink expired fail_closed limit now es (Suc n) d1
      | (d1, Inl x) \<Rightarrow>
          if x = CancelledError then (d1, n, Some (DrainRaised CancelledError))
          else (fst (sl_record_failure cfg now d1 oid (class_of x)), n,
                Some (if is_stage_timeout x \<and> expired then DrainRaised x
                      else if fail_closed then DrainRaised (audit_pending e) else DrainReturned n)))"

definition batch_limit :: "nat option \<Rightarrow> nat \<Rightarrow> int" where
  "batch_limit limit n = (case limit of None \<Rightarrow> 128 | Some k \<Rightarrow> min 128 (int k - int n))"

section \<open>What delivery changes\<close>

text \<open>The payload of a row and its identity are immutable, and a delivery is never taken back.\<close>

definition row_kept :: "outbox_row \<Rightarrow> outbox_row \<Rightarrow> bool" where
  "row_kept r r' \<longleftrightarrow>
     ob_outbox_id r' = ob_outbox_id r \<and> ob_eid r' = ob_eid r \<and> ob_revision r' = ob_revision r \<and>
     ob_event_type r' = ob_event_type r \<and> ob_event r' = ob_event r \<and> ob_digest r' = ob_digest r \<and>
     ob_created_at r' = ob_created_at r \<and> ob_delivery_attempts r \<le> ob_delivery_attempts r' \<and>
     (ob_delivered_at r \<noteq> None \<longrightarrow> ob_delivered_at r' = ob_delivered_at r)"

definition outbox_extends :: "db \<Rightarrow> db \<Rightarrow> bool" where
  "outbox_extends d d' \<longleftrightarrow> (\<exists>xs ys. db_outbox d' = xs @ ys \<and> list_all2 row_kept (db_outbox d) xs)"

lemma row_kept_refl: "row_kept r r"
  by (simp add: row_kept_def)

lemma row_kept_trans: "row_kept a b \<Longrightarrow> row_kept b c \<Longrightarrow> row_kept a c"
  by (auto simp: row_kept_def)

lemma outbox_extends_same: "db_outbox d' = db_outbox d @ ys \<Longrightarrow> outbox_extends d d'"
  unfolding outbox_extends_def by (intro exI[of _ "db_outbox d"] exI[of _ ys]) (simp add: list.rel_refl row_kept_refl)

lemma outbox_extends_refl: "outbox_extends d d"
  by (rule outbox_extends_same[of d d "[]"]) simp

lemma outbox_extends_map:
  "db_outbox d' = map g (db_outbox d) \<Longrightarrow> (\<And>r. row_kept r (g r)) \<Longrightarrow> outbox_extends d d'"
  unfolding outbox_extends_def
  by (intro exI[of _ "map g (db_outbox d)"] exI[of _ "[]"]) (simp add: list_all2_conv_all_nth)

lemma outbox_extends_trans:
  assumes "outbox_extends a b" "outbox_extends b c"
  shows "outbox_extends a c"
proof -
  obtain xs ys where x: "db_outbox b = xs @ ys" "list_all2 row_kept (db_outbox a) xs"
    using assms(1) unfolding outbox_extends_def by blast
  obtain us vs where u: "db_outbox c = us @ vs" "list_all2 row_kept (xs @ ys) us"
    using assms(2) x(1) unfolding outbox_extends_def by auto
  obtain us1 us2 where s: "us = us1 @ us2" "list_all2 row_kept xs us1"
    using u(2) unfolding list_all2_append1 by blast
  have "list_all2 row_kept (db_outbox a) us1"
    by (rule list_all2_trans[OF _ x(2) s(2)]) (rule row_kept_trans)
  then show ?thesis unfolding outbox_extends_def using u(1) s(1) by auto
qed

text \<open>A row read back does not depend on the delivery columns.\<close>

definition readable :: "recon_env \<Rightarrow> outbox_row \<Rightarrow> bool" where
  "readable env r \<longleftrightarrow> okR (envelope_from_row env r)"

lemma envelope_from_row_Inr:
  assumes "envelope_from_row env r = Inr e"
  shows "ev_outbox_id e = ob_outbox_id r" "ev_execution_record_id e = ob_eid r" "ev_revision e = ob_revision r"
    "EXECUTION_RECORD_ID (ob_outbox_id r)"
  using assms
  by (auto simp: envelope_from_row_def Envelope_post_init_def bindR_eq_Inr require_execution_record_id_def
      raise_if_def split: sum.splits if_splits)

lemma readable_kept:
  assumes r: "readable env r" and k: "row_kept r r'"
  shows "readable env r'"
proof -
  obtain e where "envelope_from_row env r = Inr e" using r by (auto simp: readable_def okR_def split: sum.splits)
  then obtain t where d: "dump env (ob_event r) = Inr t" "ob_digest r = re_sha256 env t"
      and p: "Envelope_post_init env \<lparr>ev_outbox_id = ob_outbox_id r, ev_execution_record_id = ob_eid r,
        ev_revision = ob_revision r, ev_event_type = ob_event_type r, ev_event = as_items (ob_event r),
        ev_created_at = ob_created_at r, ev_delivery_attempts = ob_delivery_attempts r\<rparr> = Inr e"
    by (auto simp: envelope_from_row_def split: sum.splits if_splits)
  have "okR (Envelope_post_init env \<lparr>ev_outbox_id = ob_outbox_id r', ev_execution_record_id = ob_eid r',
        ev_revision = ob_revision r', ev_event_type = ob_event_type r', ev_event = as_items (ob_event r'),
        ev_created_at = ob_created_at r', ev_delivery_attempts = ob_delivery_attempts r'\<rparr>)"
    using p k unfolding okR_iff Envelope_post_init_def bindR_eq_Inr seq_all_Inr
    by (auto simp: row_kept_def raise_if_def okR_def)
  then show ?thesis using d k by (simp add: readable_def envelope_from_row_def row_kept_def)
qed

lemma load_envelopes_readable:
  "(\<And>r. r \<in> set rs \<Longrightarrow> readable env r) \<Longrightarrow> \<exists>es. load_envelopes env rs = Inr es"
  by (induction rs) (auto simp: readable_def okR_iff bindR_eq_Inr)

lemma load_envelopes_rows:
  "load_envelopes env rs = Inr es \<Longrightarrow> list_all2 (\<lambda>r e. envelope_from_row env r = Inr e) rs es"
  by (induction rs arbitrary: es) (auto simp: bindR_eq_Inr)

subsection \<open>Alerts\<close>

lemma upd_where_map: "upd_where P f xs = map (\<lambda>r. if P r then f r else r) xs"
  by (simp add: upd_where_def)

text \<open>Only delivery columns change, and no row becomes delivered.\<close>

definition relabels :: "db \<Rightarrow> db \<Rightarrow> bool" where
  "relabels d d' \<longleftrightarrow> (\<exists>g. d' = d\<lparr>db_outbox := map g (db_outbox d)\<rparr> \<and>
     (\<forall>r. row_kept r (g r) \<and> undelivered (g r) = undelivered r))"

lemma relabelsI:
  "d' = d\<lparr>db_outbox := map g (db_outbox d)\<rparr> \<Longrightarrow> (\<And>r. row_kept r (g r)) \<Longrightarrow>
     (\<And>r. undelivered (g r) = undelivered r) \<Longrightarrow> relabels d d'"
  unfolding relabels_def by blast

lemma relabels_refl: "relabels d d"
  by (rule relabelsI[where g = id]) (simp_all add: row_kept_refl)

lemma relabels_trans:
  assumes "relabels a b" "relabels b c"
  shows "relabels a c"
proof -
  obtain f g where f: "b = a\<lparr>db_outbox := map f (db_outbox a)\<rparr>" "\<And>r. row_kept r (f r)"
      "\<And>r. undelivered (f r) = undelivered r"
    and g: "c = b\<lparr>db_outbox := map g (db_outbox b)\<rparr>" "\<And>r. row_kept r (g r)"
      "\<And>r. undelivered (g r) = undelivered r"
    using assms unfolding relabels_def by blast
  show ?thesis
  proof (rule relabelsI[where g = "g \<circ> f"])
    show "row_kept r ((g \<circ> f) r)" for r using row_kept_trans[OF f(2) g(2)] by simp
  qed (simp_all add: f g)
qed

text \<open>What delivery does to the database: rows keep their place and their event, and nothing else moves.\<close>

definition delivers :: "db \<Rightarrow> db \<Rightarrow> bool" where
  "delivers d d' \<longleftrightarrow> (\<exists>g. d' = d\<lparr>db_outbox := map g (db_outbox d)\<rparr> \<and> (\<forall>r. row_kept r (g r)))"

lemma deliversI: "d' = d\<lparr>db_outbox := map g (db_outbox d)\<rparr> \<Longrightarrow> (\<And>r. row_kept r (g r)) \<Longrightarrow> delivers d d'"
  unfolding delivers_def by blast

lemma delivers_refl: "delivers d d"
  by (rule deliversI[where g = id]) (simp_all add: row_kept_refl)

lemma delivers_trans:
  assumes "delivers a b" "delivers b c"
  shows "delivers a c"
proof -
  obtain f g where f: "b = a\<lparr>db_outbox := map f (db_outbox a)\<rparr>" "\<And>r. row_kept r (f r)"
    and g: "c = b\<lparr>db_outbox := map g (db_outbox b)\<rparr>" "\<And>r. row_kept r (g r)"
    using assms unfolding delivers_def by blast
  show ?thesis
  proof (rule deliversI[where g = "g \<circ> f"])
    show "row_kept r ((g \<circ> f) r)" for r using row_kept_trans[OF f(2) g(2)] by simp
  qed (simp add: f g)
qed

lemma relabels_delivers: "relabels d d' \<Longrightarrow> delivers d d'"
  unfolding relabels_def delivers_def by blast

lemma delivers_extends: "delivers d d' \<Longrightarrow> outbox_extends d d'"
  unfolding delivers_def using outbox_extends_map[of d'] by auto

lemma delivers_frame: "delivers d d' \<Longrightarrow> d' = d\<lparr>db_outbox := db_outbox d'\<rparr>"
  unfolding delivers_def by auto

lemma warn_stalled_relabels: "relabels d (fst (warn_stalled cfg now eid d))"
proof (cases "fst (warn_stalled cfg now eid d) = d")
  case True
  then show ?thesis by (simp add: relabels_refl)
next
  case False
  show ?thesis
    by (rule relabelsI[where g = "\<lambda>x. if ob_eid x = eid \<and> undelivered x \<and> ob_alerted_at x = None
          then x\<lparr>ob_alerted_at := Some now\<rparr> else x"])
       (use False in \<open>auto simp: warn_stalled_def Let_def upd_where_map row_kept_def undelivered_def
          split: list.splits if_splits\<close>)
qed

lemma alert_rows_relabels: "relabels d (alert_rows cfg now rows d)"
  unfolding alert_rows_def
proof (induction rows arbitrary: d)
  case (Cons x rows)
  let ?d = "if alert_candidate cfg now (ob_created_at x) (ob_delivery_attempts x)
     then fst (warn_stalled cfg now (ob_eid x) d) else d"
  have "relabels d ?d" by (simp add: warn_stalled_relabels relabels_refl)
  from relabels_trans[OF this Cons.IH[of ?d]] show ?case by (simp only: fold_Cons comp_def)
qed (simp add: relabels_refl)

subsection \<open>Acknowledging\<close>

definition backlog :: "db \<Rightarrow> nat" where
  "backlog d = rowcount undelivered (db_outbox d)"

lemma rowcount_map_same: "(\<And>r. P (g r) = P r) \<Longrightarrow> rowcount P (map g xs) = rowcount P xs"
  by (induction xs) (auto simp: rowcount_def)

lemma relabels_backlog: "relabels d d' \<Longrightarrow> backlog d' = backlog d"
  by (auto simp: relabels_def backlog_def rowcount_map_same)

lemma rowcount_resolve:
  assumes "\<And>r. \<not> Q (f r)" "\<And>r. P r \<Longrightarrow> Q r"
  shows "rowcount Q (upd_where P f xs) + rowcount P xs = rowcount Q xs"
  using assms by (induction xs) (auto simp: rowcount_def upd_where_def)

lemma mark_delivered_Inr:
  assumes "sl_mark_delivered now d oid = (d', Inr u)"
  shows "d' = d\<lparr>db_outbox := upd_where (\<lambda>r. ob_outbox_id r = oid \<and> undelivered r)
           (\<lambda>r. r\<lparr>ob_delivered_at := Some now, ob_last_error_class := None\<rparr>) (db_outbox d)\<rparr>"
    "backlog d' + rowcount (\<lambda>r. ob_outbox_id r = oid \<and> undelivered r) (db_outbox d) = backlog d"
proof -
  let ?P = "\<lambda>r. ob_outbox_id r = oid \<and> undelivered r"
  let ?f = "\<lambda>r. r\<lparr>ob_delivered_at := Some now, ob_last_error_class := None\<rparr>"
  have id: "upd_where ?P ?f (db_outbox d) = db_outbox d" if "rowcount ?P (db_outbox d) = 0"
    using that unfolding rowcount_eq_0 upd_where_def by (intro map_idI) auto
  show d': "d' = d\<lparr>db_outbox := upd_where ?P ?f (db_outbox d)\<rparr>"
    using assms id by (auto simp: sl_mark_delivered_def commit_def bindR_eq_Inr split: sum.splits if_splits)
  show "backlog d' + rowcount ?P (db_outbox d) = backlog d"
    unfolding d' backlog_def using rowcount_resolve[of undelivered ?f ?P "db_outbox d"] by (simp add: undelivered_def)
qed

lemma mark_delivered_keeps: "sl_mark_delivered now d oid = (d', r) \<Longrightarrow> delivers d d'"
proof (cases r)
  case (Inr u)
  assume "sl_mark_delivered now d oid = (d', r)"
  note d' = mark_delivered_Inr(1)[OF this[unfolded Inr]]
  show ?thesis
    by (rule deliversI[where g = "\<lambda>r. if ob_outbox_id r = oid \<and> undelivered r
         then r\<lparr>ob_delivered_at := Some now, ob_last_error_class := None\<rparr> else r"])
       (auto simp: d' upd_where_map row_kept_def undelivered_def)
next
  case (Inl e)
  assume "sl_mark_delivered now d oid = (d', r)"
  then have "d' = d" using Inl by (auto simp: sl_mark_delivered_def commit_def split: sum.splits)
  then show ?thesis by (simp add: delivers_refl)
qed

lemma record_failure_relabels:
  assumes "sl_record_failure cfg now d oid c = (d', r)"
  shows "relabels d d'"
proof -
  define D where "D = d\<lparr>db_outbox := upd_where (\<lambda>r. ob_outbox_id r = oid \<and> undelivered r)
                    (\<lambda>r. r\<lparr>ob_delivery_attempts := ob_delivery_attempts r + 1,
                           ob_last_error_class := Some c\<rparr>) (db_outbox d)\<rparr>"
  have D: "relabels d D"
    by (rule relabelsI[where g = "\<lambda>r. if ob_outbox_id r = oid \<and> undelivered r
        then r\<lparr>ob_delivery_attempts := ob_delivery_attempts r + 1, ob_last_error_class := Some c\<rparr> else r"])
       (auto simp: D_def upd_where_map row_kept_def undelivered_def)
  have "d' = d \<or> d' = D \<or> (\<exists>eid. d' = fst (warn_stalled cfg now eid D))"
    using assms[unfolded sl_record_failure_def Let_def, folded D_def]
  proof (rule commit_cases)
    fix y
    assume "seqR (require_execution_record_id oid)
      (seqR (require_identifier ''reconciliation audit delivery error class'' c)
       (case select_one (\<lambda>r. ob_outbox_id r = oid) (db_outbox D) of
          None \<Rightarrow> Inl not_present
        | Some r \<Rightarrow>
            Inr (if alert_candidate cfg now (ob_created_at r) (ob_delivery_attempts r)
                 then fst (warn_stalled cfg now (ob_eid r) D) else D, ()))) = Inr (d', y)"
    then show ?thesis unfolding bindR_eq_Inr by (cases "select_one (\<lambda>r. ob_outbox_id r = oid) (db_outbox D)") (auto split: if_splits)
  qed simp
  then show ?thesis using D relabels_refl relabels_trans[OF D warn_stalled_relabels] by blast
qed

section \<open>Draining\<close>

lemma drain_batch_keeps:
  "drain_batch class_of cfg sink expired fail_closed limit now es n d = (d', n', stop) \<Longrightarrow>
     delivers d d' \<and> backlog d' \<le> backlog d"
proof (induction es arbitrary: n d)
  case Nil
  then show ?case by (simp add: delivers_refl)
next
  case (Cons e es)
  let ?oid = "ev_outbox_id e"
  obtain d1 r where a: "(case sink ?oid of Some x \<Rightarrow> (d, Inl x) | None \<Rightarrow> sl_mark_delivered now d ?oid) = (d1, r)"
    by (rule prod.exhaust)
  have ext: "delivers d d1"
    using a mark_delivered_keeps[of now d ?oid d1 r] by (auto simp: delivers_refl split: option.splits)
  show ?case
  proof (cases r)
    case (Inl x)
    have "d' = d1 \<or> d' = fst (sl_record_failure cfg now d1 ?oid (class_of x))"
      using Cons.prems a Inl by (auto simp: Let_def split: if_splits)
    then have rel: "relabels d1 d'"
      using record_failure_relabels[of cfg now d1 ?oid "class_of x" d']
      by (cases "sl_record_failure cfg now d1 ?oid (class_of x)") (auto simp: relabels_refl)
    have "d1 = d" using a Inl by (auto simp: sl_mark_delivered_def commit_def split: option.splits sum.splits)
    then show ?thesis using relabels_backlog[OF rel] relabels_delivers[OF rel] by simp
  next
    case (Inr u)
    have m: "sl_mark_delivered now d ?oid = (d1, Inr u)" using a Inr by (auto split: option.splits)
    have b: "backlog d1 \<le> backlog d" using mark_delivered_Inr(2)[OF m] by simp
    show ?thesis
    proof (cases "limit_reached limit (Suc n)")
      case True
      then show ?thesis using Cons.prems a Inr ext b by (auto simp: Let_def)
    next
      case False
      then have "drain_batch class_of cfg sink expired fail_closed limit now es (Suc n) d1 = (d', n', stop)"
        using Cons.prems a Inr by (auto simp: Let_def)
      from Cons.IH[OF this] show ?thesis using ext b delivers_trans by fastforce
    qed
  qed
qed

text \<open>A batch that runs to its end has delivered something.\<close>

lemma drain_batch_progress:
  assumes b: "drain_batch class_of cfg sink expired fail_closed limit now es n d = (d', n', None)" and es: "es \<noteq> []"
    and u: "\<And>e. e \<in> set es \<Longrightarrow> \<exists>r\<in>set (db_outbox d). ob_outbox_id r = ev_outbox_id e \<and> undelivered r"
  shows "backlog d' < backlog d"
proof -
  obtain e rest where e: "es = e # rest" using es by (cases es) auto
  let ?oid = "ev_outbox_id e"
  obtain d1 where m: "sl_mark_delivered now d ?oid = (d1, Inr ())"
      and r: "drain_batch class_of cfg sink expired fail_closed limit now rest (Suc n) d1 = (d', n', None)"
    using b unfolding e by (auto simp: Let_def split: option.splits prod.splits sum.splits if_splits)
  have "0 < rowcount (\<lambda>r. ob_outbox_id r = ?oid \<and> undelivered r) (db_outbox d)"
    using u[of e] e rowcount_eq_0[of "\<lambda>r. ob_outbox_id r = ?oid \<and> undelivered r" "db_outbox d"] by fastforce
  then have "backlog d1 < backlog d" using mark_delivered_Inr(2)[OF m] by simp
  then show ?thesis using drain_batch_keeps[OF r] by simp
qed

lemma pending_rows_sub:
  assumes "r \<in> set (pending_rows d eid k)"
  shows "r \<in> set (db_outbox d)" "deliverable (db_outbox d) r"
  using set_take_subset[of k] assms by (fastforce simp: pending_rows_def)+

lemma pending_cases:
  assumes "sl_pending_audit_events env cfg now d eid k = (d1, Inr es)"
  shows "d1 = alert_rows cfg now (pending_rows d eid (nat k)) d"
    "load_envelopes env (pending_rows d eid (nat k)) = Inr es"
  using assms by (auto simp: sl_pending_audit_events_def Let_def split: sum.splits)

lemma pending_relabels: "sl_pending_audit_events env cfg now d eid k = (d1, r) \<Longrightarrow> relabels d d1"
  by (auto simp: sl_pending_audit_events_def Let_def relabels_refl alert_rows_relabels split: sum.splits)

lemma relabels_row:
  "relabels d d' \<Longrightarrow> r \<in> set (db_outbox d) \<Longrightarrow> undelivered r \<Longrightarrow>
     \<exists>r'\<in>set (db_outbox d'). ob_outbox_id r' = ob_outbox_id r \<and> undelivered r'"
  unfolding relabels_def by (force simp: row_kept_def)

lemma pending_undelivered:
  assumes p: "sl_pending_audit_events env cfg now d eid k = (d1, Inr es)" and e: "e \<in> set es"
  shows "\<exists>r\<in>set (db_outbox d1). ob_outbox_id r = ev_outbox_id e \<and> undelivered r"
proof -
  obtain r where r: "r \<in> set (pending_rows d eid (nat k))" "envelope_from_row env r = Inr e"
    using load_envelopes_rows[OF pending_cases(2)[OF p]] e unfolding list_all2_conv_all_nth in_set_conv_nth by metis
  then show ?thesis
    using relabels_row[OF pending_relabels[OF p] pending_rows_sub(1)[OF r(1)]] pending_rows_sub(2)[OF r(1)]
      envelope_from_row_Inr(1)[OF r(2)] by (auto simp: deliverable_def)
qed

lemma drain_decreases:
  assumes p: "sl_pending_audit_events env cfg now d eid k = (d1, Inr es)" and es: "es \<noteq> []"
    and b: "drain_batch class_of cfg sink expired fail_closed limit now es n d1 = (d2, n2, None)"
  shows "backlog d2 < backlog d"
proof -
  have "backlog d2 < backlog d1" by (rule drain_batch_progress[OF b es pending_undelivered[OF p]])
  then show ?thesis using relabels_backlog[OF pending_relabels[OF p]] by simp
qed

text \<open>The arguments of one drain, and one turn of its loop: a result, or the count and database to go on with.\<close>

record drain_call =
  dw_env :: recon_env
  dw_class_of :: "exn \<Rightarrow> string"
  dw_alerts :: alert_config
  dw_middleware :: bool
  dw_sink :: "string \<Rightarrow> exn option"
  dw_expired :: bool
  dw_fail_closed :: bool
  dw_limit :: "nat option"
  dw_now :: time
  dw_eid :: "string option"

definition drain_turn :: "drain_call \<Rightarrow> nat \<Rightarrow> db \<Rightarrow> (db \<times> nat res) + (nat \<times> db)" where
  "drain_turn w n d =
     (if limit_reached (dw_limit w) n then Inl (d, Inr n)
      else case sl_pending_audit_events (dw_env w) (dw_alerts w) (dw_now w) d (dw_eid w)
                  (batch_limit (dw_limit w) n) of
        (d1, Inl e) \<Rightarrow> Inl (d1, Inl e)
      | (d1, Inr es) \<Rightarrow>
          if es = [] then Inl (d1, Inr n)
          else (case drain_batch (dw_class_of w) (dw_alerts w) (dw_sink w) (dw_expired w) (dw_fail_closed w) (dw_limit w)
                       (dw_now w) es n d1 of
              (d2, n2, Some (DrainReturned k)) \<Rightarrow> Inl (d2, Inr k)
            | (d2, n2, Some (DrainRaised x)) \<Rightarrow> Inl (d2, Inl x)
            | (d2, n2, None) \<Rightarrow> Inr (n2, d2)))"

lemma drain_turn_decreases: "drain_turn w n d = Inr (n2, d2) \<Longrightarrow> backlog d2 < backlog d"
  unfolding drain_turn_def
  by (auto split: if_splits prod.splits sum.splits option.splits drain_end.splits dest: drain_decreases)

function drain_loop :: "drain_call \<Rightarrow> nat \<Rightarrow> db \<Rightarrow> db \<times> nat res" where
  "drain_loop w n d = (case drain_turn w n d of Inl r \<Rightarrow> r | Inr (n2, d2) \<Rightarrow> drain_loop w n2 d2)"
  by pat_completeness auto
termination
  by (relation "measure (\<lambda>(_, _, d). backlog d)") (auto dest: drain_turn_decreases)

declare drain_loop.simps [simp del]

text \<open>\<open>_drain_reconciliation_audit_outbox\<close>; without an audit middleware there is nowhere to deliver to.\<close>

definition drain :: "drain_call \<Rightarrow> int option \<Rightarrow> db \<Rightarrow> db \<times> nat res" where
  "drain w limit d =
     (if (case limit of Some k \<Rightarrow> k < 1 | None \<Rightarrow> False)
      then (d, Inl (ValueError ''audit outbox limit must be a positive integer''))
      else if \<not> dw_middleware w then (d, Inr 0)
      else drain_loop (w\<lparr>dw_limit := map_option nat limit\<rparr>) 0 d)"

section \<open>Safety and liveness of delivery\<close>

lemma drain_turn_keeps: "drain_turn w n d = Inl (d', r) \<Longrightarrow> delivers d d'"
  and drain_turn_keeps_Inr: "drain_turn w n d = Inr (n', d') \<Longrightarrow> delivers d d'"
  unfolding drain_turn_def
  by (auto split: if_splits prod.splits sum.splits option.splits drain_end.splits
      intro: delivers_refl relabels_delivers[OF pending_relabels]
        delivers_trans[OF relabels_delivers[OF pending_relabels] drain_batch_keeps[THEN conjunct1]])

lemma drain_loop_keeps: "drain_loop w n d = (d', r) \<Longrightarrow> delivers d d'"
proof (induction w n d rule: drain_loop.induct)
  case (1 w n d)
  show ?case
  proof (cases "drain_turn w n d")
    case (Inl x)
    then show ?thesis using 1(2) drain_turn_keeps[of w n d] by (cases x) (simp add: drain_loop.simps)
  next
    case (Inr x)
    obtain n2 d2 where x: "x = (n2, d2)" by (cases x)
    have "drain_loop w n2 d2 = (d', r)" using 1(2) Inr x by (subst (asm) drain_loop.simps) simp
    then show ?thesis using 1(1)[OF Inr x[symmetric]] drain_turn_keeps_Inr[of w n d] Inr x delivers_trans by blast
  qed
qed

lemma drain_keeps: "drain w limit d = (d', r) \<Longrightarrow> delivers d d'"
  by (auto simp: drain_def delivers_refl split: if_splits intro: drain_loop_keeps)

definition outbox_ok :: "recon_env \<Rightarrow> db \<Rightarrow> bool" where
  "outbox_ok env d \<longleftrightarrow> distinct (map ob_outbox_id (db_outbox d)) \<and> (\<forall>r\<in>set (db_outbox d). readable env r)"

lemma outbox_ok_map:
  assumes "outbox_ok env d" "db_outbox d' = map g (db_outbox d)" "\<And>r. row_kept r (g r)"
  shows "outbox_ok env d'"
proof -
  have "map ob_outbox_id (map g (db_outbox d)) = map ob_outbox_id (db_outbox d)"
    using assms(3) by (simp add: row_kept_def)
  then have "distinct (map ob_outbox_id (map g (db_outbox d)))" 
    using assms(1) by (simp only: outbox_ok_def)
  moreover have "readable env (g r)" if "r \<in> set (db_outbox d)" for r
    using readable_kept[OF _ assms(3)] assms(1) that by (simp add: outbox_ok_def)
  ultimately show ?thesis unfolding outbox_ok_def assms(2) by simp
qed

lemma relabels_outbox_ok: "outbox_ok env d \<Longrightarrow> relabels d d' \<Longrightarrow> outbox_ok env d'"
  unfolding relabels_def by (elim exE conjE) (rule outbox_ok_map, auto)

lemma pending_rows_ids:
  assumes "distinct (map ob_outbox_id (db_outbox d))"
  shows "distinct (map ob_outbox_id (pending_rows d eid k))"
proof -
  let ?rs = "filter (\<lambda>r. deliverable (db_outbox d) r \<and> (case eid of None \<Rightarrow> True | Some i \<Rightarrow> ob_eid r = i)) (db_outbox d)"
  have "distinct (map ob_outbox_id ?rs)" using assms by (simp add: distinct_map_filter)
  then have "distinct (map ob_outbox_id (sort_key (\<lambda>r. (ob_eid r, ob_revision r, ob_event_type r)) ?rs))"
    by (simp add: distinct_map)
  then show ?thesis unfolding pending_rows_def by (simp add: take_map[symmetric])
qed

lemma backlog_0: "backlog d = 0 \<longleftrightarrow> (\<forall>r\<in>set (db_outbox d). \<not> undelivered r)"
  by (simp add: backlog_def rowcount_eq_0)

text \<open>While something is undelivered, something can be delivered.\<close>

lemma pending_exists:
  assumes "backlog d \<noteq> 0" "0 < k"
  shows "pending_rows d None k \<noteq> []"
proof -
  let ?U = "{r \<in> set (db_outbox d). undelivered r}"
  have "?U \<noteq> {}" "finite ?U" using assms(1) by (auto simp: backlog_0)
  then obtain r where r: "r \<in> ?U" "\<And>s. s \<in> ?U \<Longrightarrow> ob_revision r \<le> ob_revision s"
    using arg_min_if_finite[of ?U ob_revision] by (metis (no_types, lifting) linorder_not_le)
  then have "deliverable (db_outbox d) r" by (auto simp: deliverable_def list_ex_iff not_less)
  then have "r \<in> set (sort_key (\<lambda>r. (ob_eid r, ob_revision r, ob_event_type r))
      (filter (deliverable (db_outbox d)) (db_outbox d)))" using r(1) by simp
  then show ?thesis using assms(2) unfolding pending_rows_def by (auto simp del: set_sort)
qed

lemma drain_batch_delivers:
  assumes "distinct (map ob_outbox_id (db_outbox d))" "distinct (map ev_outbox_id es)"
    "\<And>e. e \<in> set es \<Longrightarrow> EXECUTION_RECORD_ID (ev_outbox_id e) \<and>
       (\<exists>r\<in>set (db_outbox d). ob_outbox_id r = ev_outbox_id e \<and> undelivered r)"
    "\<And>i. sink i = None"
  shows "\<exists>d'. drain_batch class_of cfg sink expired fail_closed None now es n d = (d', n + length es, None) \<and>
    backlog d' + length es = backlog d \<and> (\<forall>env. outbox_ok env d \<longrightarrow> outbox_ok env d')"
  using assms(1-3)
proof (induction es arbitrary: n d)
  case (Cons e es)
  let ?oid = "ev_outbox_id e"
  let ?P = "\<lambda>r. ob_outbox_id r = ?oid \<and> undelivered r"
  let ?f = "\<lambda>r. if ?P r then r\<lparr>ob_delivered_at := Some now, ob_last_error_class := None\<rparr> else r"
  have ex: "\<exists>r\<in>set (db_outbox d). ?P r" and id: "EXECUTION_RECORD_ID ?oid" using Cons.prems(3)[of e] by auto
  then have c: "rowcount ?P (db_outbox d) \<noteq> 0" by (auto simp: rowcount_eq_0)
  moreover have "rowcount ?P (db_outbox d) \<le> 1"
    by (rule rowcount_key_le_1[OF Cons.prems(1)]) auto
  ultimately have one: "rowcount ?P (db_outbox d) = 1" by simp
  obtain d1 where m: "sl_mark_delivered now d ?oid = (d1, Inr ())"
    using id c by (auto simp: sl_mark_delivered_def commit_def require_execution_record_id_def raise_if_def)
  note d1 = mark_delivered_Inr[OF m]
  have ob: "db_outbox d1 = map ?f (db_outbox d)" by (simp add: d1(1) upd_where_map)
  have k: "row_kept r (?f r)" for r by (simp add: row_kept_def undelivered_def)
  have "ob_outbox_id (?f r) = ob_outbox_id r" for r by simp
  then have "map ob_outbox_id (map ?f (db_outbox d)) = map ob_outbox_id (db_outbox d)"
    unfolding map_map comp_def by (rule map_cong[OF refl])
  then have ids: "distinct (map ob_outbox_id (db_outbox d1))" using Cons.prems(1) unfolding ob by (rule ssubst)
  have rest: "EXECUTION_RECORD_ID (ev_outbox_id x) \<and>
       (\<exists>r\<in>set (db_outbox d1). ob_outbox_id r = ev_outbox_id x \<and> undelivered r)" if x: "x \<in> set es" for x
  proof -
    obtain r where r: "r \<in> set (db_outbox d)" "ob_outbox_id r = ev_outbox_id x" "undelivered r"
      using Cons.prems(3)[of x] x by auto
    have "ob_outbox_id r \<noteq> ?oid" using Cons.prems(2) x r(2) by force
    then have "?f r = r" by simp
    then have "r \<in> set (db_outbox d1)" using r(1) unfolding ob by force
    then show ?thesis using Cons.prems(3)[of x] x r by auto
  qed
  from Cons.IH[OF ids _ rest, of "Suc n"] Cons.prems(2) obtain d' where
    d': "drain_batch class_of cfg sink expired fail_closed None now es (Suc n) d1 = (d', Suc n + length es, None)"
      "backlog d' + length es = backlog d1" "\<forall>env. outbox_ok env d1 \<longrightarrow> outbox_ok env d'" by auto
  have "drain_batch class_of cfg sink expired fail_closed None now (e # es) n d = (d', n + length (e # es), None)"
    using m d'(1) assms(4) by (simp add: limit_reached_def)
  then show ?case using d'(2,3) d1(2) one outbox_ok_map[OF _ ob k] by auto
qed simp

lemma drain_loop_delivers:
  assumes "outbox_ok (dw_env w) d" "\<And>i. dw_sink w i = None" "dw_limit w = None" "dw_eid w = None"
  shows "\<exists>d'. drain_loop w n d = (d', Inr (n + backlog d)) \<and> backlog d' = 0"
  using assms
proof (induction w n d rule: drain_loop.induct)
  case (1 w n d)
  let ?rows = "pending_rows d None 128"
  have ok: "outbox_ok (dw_env w) d" by (rule 1(2))
  obtain es where es: "load_envelopes (dw_env w) ?rows = Inr es"
    using load_envelopes_readable[of ?rows "dw_env w"] pending_rows_sub(1)[of _ d None 128] ok
    by (auto simp: outbox_ok_def)
  define d1 where "d1 = alert_rows (dw_alerts w) (dw_now w) ?rows d"
  have p: "sl_pending_audit_events (dw_env w) (dw_alerts w) (dw_now w) d (dw_eid w) (batch_limit (dw_limit w) n) = (d1, Inr es)"
    using es 1(4,5) by (simp add: sl_pending_audit_events_def batch_limit_def optional_check_def raise_if_def d1_def Let_def)
  note rel = pending_relabels[OF p]
  note rows = load_envelopes_rows[OF es]
  show ?case
  proof (cases "es = []")
    case True
    then have "?rows = []" using rows by auto
    then have "backlog d = 0" using pending_exists[of d 128] by auto
    moreover have "drain_loop w n d = (d1, Inr n)"
      using p True 1(4) by (subst drain_loop.simps) (simp add: drain_turn_def limit_reached_def)
    ultimately show ?thesis using relabels_backlog[OF rel] by simp
  next
    case False
    have ids: "map ev_outbox_id es = map ob_outbox_id ?rows"
      using rows by (induction rule: list_all2_induct) (auto simp: envelope_from_row_Inr)
    have dis: "distinct (map ob_outbox_id (db_outbox d1))" "distinct (map ev_outbox_id es)"
      using relabels_outbox_ok[OF ok rel] pending_rows_ids[of d None 128] ok by (simp_all add: outbox_ok_def ids)
    have each: "EXECUTION_RECORD_ID (ev_outbox_id e) \<and>
       (\<exists>r\<in>set (db_outbox d1). ob_outbox_id r = ev_outbox_id e \<and> undelivered r)" if e: "e \<in> set es" for e
    proof -
      obtain r where "envelope_from_row (dw_env w) r = Inr e"
        using rows e unfolding list_all2_conv_all_nth in_set_conv_nth by metis
      from envelope_from_row_Inr[OF this] show ?thesis using pending_undelivered[OF p e] by simp
    qed
    obtain d2 where b: "drain_batch (dw_class_of w) (dw_alerts w) (dw_sink w) (dw_expired w) (dw_fail_closed w) None (dw_now w) es n d1
        = (d2, n + length es, None)" "backlog d2 + length es = backlog d1"
        "\<forall>env. outbox_ok env d1 \<longrightarrow> outbox_ok env d2"
      using drain_batch_delivers[where sink = "dw_sink w" and class_of = "dw_class_of w" and cfg = "dw_alerts w"
        and expired = "dw_expired w" and fail_closed = "dw_fail_closed w" and now = "dw_now w" and n = n, OF dis each 1(3)] by blast
    have t: "drain_turn w n d = Inr (n + length es, d2)"
      using p b(1) False 1(4) by (simp add: drain_turn_def limit_reached_def)
    have "outbox_ok (dw_env w) d2" using b(3) relabels_outbox_ok[OF ok rel] by blast
    from 1(1)[OF t refl this 1(3,4,5)] obtain d' where
      "drain_loop w (n + length es) d2 = (d', Inr (n + length es + backlog d2))" "backlog d' = 0" by blast
    moreover have "n + length es + backlog d2 = n + backlog d" using b(2) relabels_backlog[OF rel] by simp
    ultimately show ?thesis using t by (subst drain_loop.simps) simp
  qed
qed

text \<open>The events handed out together are, per execution, the oldest undelivered ones.\<close>

lemma pending_in_order:
  assumes p: "sl_pending_audit_events env cfg now d eid k = (d1, Inr es)" and e: "e \<in> set es"
    and r: "r \<in> set (db_outbox d)" "ob_eid r = ev_execution_record_id e" "ob_revision r < ev_revision e"
  shows "ob_delivered_at r \<noteq> None"
proof -
  obtain x where x: "x \<in> set (pending_rows d eid (nat k))" "envelope_from_row env x = Inr e"
    using load_envelopes_rows[OF pending_cases(2)[OF p]] e unfolding list_all2_conv_all_nth in_set_conv_nth by metis
  have "deliverable (db_outbox d) x" by (rule pending_rows_sub(2)[OF x(1)])
  then show ?thesis
    using r envelope_from_row_Inr[OF x(2)] by (auto simp: deliverable_def list_ex_iff undelivered_def)
qed

end
