(* ===== verification/AuditContract.thy ===== *)
theory AuditContract
  imports DurableClaims Outbox
begin

text \<open>
  The audit obligations of the durable ledger: every operation that moves a head enqueues an audit
  event for the new revision in the same transaction, and no operation alters or drops a queued event.
\<close>

section \<open>Every revision has its event\<close>

definition has_event :: "db \<Rightarrow> string \<Rightarrow> int \<Rightarrow> bool" where
  "has_event d eid n \<longleftrightarrow> (\<exists>r\<in>set (db_outbox d). ob_eid r = eid \<and> ob_revision r = n)"

definition audited :: "db \<Rightarrow> bool" where
  "audited d \<longleftrightarrow> (\<forall>eid h n. db_heads d eid = Some h \<longrightarrow> 0 \<le> n \<longrightarrow> n \<le> hd_revision h \<longrightarrow> has_event d eid n)"

definition audit_step :: "db \<Rightarrow> db \<Rightarrow> bool" where
  "audit_step d d' \<longleftrightarrow> outbox_extends d d' \<and> (audited d \<longrightarrow> audited d')"

lemma audit_step_refl: "audit_step d d"
  by (simp add: audit_step_def outbox_extends_refl)

lemma audit_step_trans: "audit_step a b \<Longrightarrow> audit_step b c \<Longrightarrow> audit_step a c"
  using outbox_extends_trans by (auto simp: audit_step_def)

lemma audit_step_same:
  "db_outbox d' = db_outbox d \<Longrightarrow> db_heads d' = db_heads d \<Longrightarrow> audit_step d d'"
  using outbox_extends_same[of d' d "[]"] by (simp add: audit_step_def audited_def has_event_def)

lemma audit_commit:
  assumes "commit d x = (d', r)" "\<And>y. x = Inr (d', y) \<Longrightarrow> audit_step d d'"
  shows "audit_step d d'"
  using assms(1) by (rule commit_cases) (use assms(2) audit_step_refl in auto)

lemma enqueue_event:
  assumes "enqueue_outbox env i now h et p a out f k ev oper d = Inr (d', x)"
  shows "has_event d' (ua_execution_record_id (hd_action h)) (hd_revision h)"
    "\<exists>ys. db_outbox d' = db_outbox d @ ys"
proof -
  let ?eid = "ua_execution_record_id (hd_action h)"
  let ?Q = "\<lambda>r. ob_eid r = ?eid \<and> ob_revision r = hd_revision h \<and> ob_event_type r = et"
  have "has_event d' ?eid (hd_revision h) \<and> (\<exists>ys. db_outbox d' = db_outbox d @ ys)"
  proof (cases "select_one ?Q (db_outbox d)")
    case (Some r)
    have "d' = d" using assms Some by (auto simp: enqueue_outbox_def Let_def bindR_eq_Inr split: if_splits)
    then show ?thesis using select_one_SomeD[OF Some] by (auto simp: has_event_def)
  next
    case None
    then show ?thesis
      using assms by (auto simp: enqueue_outbox_def Let_def bindR_eq_Inr has_event_def split: if_splits)
  qed
  then show "has_event d' ?eid (hd_revision h)" "\<exists>ys. db_outbox d' = db_outbox d @ ys" by simp_all
qed

text \<open>A head that moves by at most one revision, with the event for where it arrives.\<close>

lemma audit_move:
  assumes h: "db_heads d' = (db_heads d)(eid \<mapsto> u)" and o: "db_outbox d' = db_outbox d @ ys"
    and e: "has_event d' eid (hd_revision u)"
    and r: "case db_heads d eid of None \<Rightarrow> hd_revision u = 0 | Some g \<Rightarrow> hd_revision u = hd_revision g + 1"
  shows "audit_step d d'"
proof -
  have "audited d'" if a: "audited d"
    unfolding audited_def
  proof (intro allI impI)
    fix i g and n :: int assume g: "db_heads d' i = Some g" and n: "0 \<le> n" "n \<le> hd_revision g"
    show "has_event d' i n"
    proof (cases "i = eid \<and> n = hd_revision u")
      case True
      then show ?thesis using e by simp
    next
      case False
      obtain g0 where "db_heads d i = Some g0" "n \<le> hd_revision g0"
        using g n False h r by (cases "i = eid") (auto split: option.splits)
      then have "has_event d i n" using a n(1) unfolding audited_def by blast
      then show ?thesis using o by (auto simp: has_event_def)
    qed
  qed
  then show ?thesis using outbox_extends_same[OF o] by (simp add: audit_step_def)
qed

section \<open>Operations\<close>

lemma audit_write_attempt:
  assumes w: "write_attempt env i now h r et p out f d = Inr (d', r', h')"
    and r: "rc_revision r = hd_revision h + 1" "rc_execution_record_id r = ua_execution_record_id (hd_action h)"
  shows "audit_step d d'" "hd_action h' = hd_action h"
proof -
  let ?eid = "rc_execution_record_id r"
  obtain d1 d2 x where w: "cas_head ?eid (hd_state h) (hd_revision h)
              (\<lambda>x. x\<lparr>hd_revision := rc_revision r, hd_updated_at := rc_occurred_at r\<rparr>)
              ''reconciliation revision changed before attempt append'' d = Inr d1"
      "insert_event env r d1 = Inr d2" "advanced_head env h r = Inr h'"
      "enqueue_outbox env i now h' et (Some p) (payload_attempt (rc_payload r)) out f None None None d2 = Inr (d', x)"
    using w unfolding write_attempt_def bindR_eq_Inr by auto
  have h': "hd_action h' = hd_action h" "hd_revision h' = rc_revision r"
    using w(3) by (auto simp: advanced_head_def Head_post_init_Inr)
  obtain g where g: "db_heads d ?eid = Some g" "hd_revision g = hd_revision h"
      "d1 = d\<lparr>db_heads := (db_heads d)(?eid \<mapsto> g\<lparr>hd_revision := rc_revision r, hd_updated_at := rc_occurred_at r\<rparr>)\<rparr>"
    using cas_head_Inr[OF w(1)] by blast
  have d2: "db_heads d2 = (db_heads d)(?eid \<mapsto> g\<lparr>hd_revision := rc_revision r, hd_updated_at := rc_occurred_at r\<rparr>)"
      "db_outbox d2 = db_outbox d"
    using insert_event_Inr[OF w(2)] g by simp_all
  obtain ys where ys: "db_outbox d' = db_outbox d @ ys" using enqueue_event(2)[OF w(4)] d2(2) by auto
  show "audit_step d d'"
    by (rule audit_move[OF trans[OF enqueue_fields(2)[OF w(4)] d2(1)] ys])
       (use enqueue_event(1)[OF w(4)] g h' r in simp_all)
  show "hd_action h' = hd_action h" by (rule h'(1))
qed

lemma audit_append_attempt:
  "sl_append_attempt env ids now d action n kind t pl et p out f = (d', res) \<Longrightarrow> audit_step d d'"
  unfolding sl_append_attempt_def Let_def
proof (erule audit_commit)
  fix y
  assume "bindR (sl_current env d (ua_execution_record_id action)) (\<lambda>h.
        bindR (sl_attempt_records env d (ua_execution_record_id action)) (\<lambda>rs.
        bindR (attempt_record env (ids 0) h rs (ua_execution_record_id action) action n kind t pl) (\<lambda>r.
        bindR (write_attempt env (ids 1) now h r et p out f d) (\<lambda>(d', r', _).
        Inr (d', r'))))) = Inr (d', y)"
  then obtain h rs r h' where a: "attempt_record env (ids 0) h rs (ua_execution_record_id action) action n kind t pl = Inr r"
      and w: "write_attempt env (ids 1) now h r et p out f d = Inr (d', y, h')"
    unfolding bindR_eq_Inr by auto
  have "rc_revision r = hd_revision h + 1 \<and> rc_execution_record_id r = ua_execution_record_id (hd_action h)"
    using a by (auto simp: attempt_record_def bindR_eq_Inr UnknownAction_eq_def dest!: Record_post_init_same split: if_splits)
  then show "audit_step d d'" using audit_write_attempt(1)[OF w] by blast
qed

lemma audit_start: "sl_start_attempt env ids now d ctx p n = (d', r) \<Longrightarrow> audit_step d d'"
  by (auto simp: sl_start_attempt_def audit_step_refl split: sum.splits dest: audit_append_attempt)

lemma audit_finish: "sl_finish_attempt env ids now d ctx p out n f e t = (d', r) \<Longrightarrow> audit_step d d'"
  by (auto simp: sl_finish_attempt_def audit_step_refl split: sum.splits dest: audit_append_attempt)

lemma audit_close: "sl_close_attempts env ids now t i h atts d = Inr (d', h') \<Longrightarrow> audit_step d d'"
proof (induction atts arbitrary: i h d)
  case Nil
  then show ?case by (simp add: audit_step_refl)
next
  case (Cons x rest)
  obtain s ctx p where x: "x = (s, ctx, p)" by (cases x)
  obtain pl t' r d1 r1 h1 where r: "Record_post_init env \<lparr>rc_event_id = ids (2 * i),
         rc_execution_record_id = ua_execution_record_id (hd_action h),
         rc_revision = hd_revision h + 1, rc_kind = ATTEMPT_FINISHED, rc_state_before = hd_state h,
         rc_state_after = hd_state h, rc_occurred_at = t', rc_payload = pl\<rparr> = Inr r"
      and w: "write_attempt env (ids (2 * i + 1)) now h r ''attempt_recovery_recorded'' p
               (Some RECOVERY_REQUIRED) None d = Inr (d1, r1, h1)"
      and rest: "sl_close_attempts env ids now t (Suc i) h1 rest d1 = Inr (d', h')"
    using Cons.prems unfolding x sl_close_attempts.simps bindR_eq_Inr split_paired_Ex prod.case by blast
  have "audit_step d d1" using audit_write_attempt(1)[OF w] Record_post_init_same[OF r] by simp
  then show ?case using Cons.IH[OF rest] audit_step_trans by blast
qed

lemma audit_write_transition:
  assumes w: "write_transition env i j now h t msg p a et d = Inr (d', u)"
  shows "audit_step d d'"
proof -
  let ?eid = "ua_execution_record_id (hd_action h)"
  let ?up = "\<lambda>x. x\<lparr>hd_state := hd_state u, hd_revision := hd_revision u, hd_disposition := hd_disposition u,
       hd_result_available := hd_result_available u, hd_result := hd_result u, hd_updated_at := hd_updated_at u\<rparr>"
  obtain r d1 d2 d3 x where tr: "transition_record env i h t = Inr (r, u)"
    and w: "cas_head ?eid (hd_state h) (hd_revision h) ?up msg d = Inr d1"
      "insert_event env r d1 = Inr d2" "update_disposition env u d2 = Inr d3"
      "enqueue_outbox env j now u et p a (if tn_source t = PROVIDER then Some SUCCESS else None) None
         (Some (tn_evidence_kind t)) (Some (tn_evidence t)) (tn_operator_identity_digest t) d3 = Inr (d', x)"
    by (rule write_transition_Inr[OF w])
  have u: "hd_revision u = hd_revision h + 1" "hd_action u = hd_action h"
    using tr by (auto simp: transition_record_def bindR_eq_Inr Head_post_init_Inr dest!: Record_post_init_same)
  obtain g where g: "db_heads d ?eid = Some g" "hd_revision g = hd_revision h"
      "d1 = d\<lparr>db_heads := (db_heads d)(?eid \<mapsto> ?up g)\<rparr>" using cas_head_Inr[OF w(1)] by blast
  have d3: "db_heads d3 = (db_heads d)(?eid \<mapsto> ?up g)" "db_outbox d3 = db_outbox d"
    using arg_cong[OF update_disposition_frame[OF w(3)], of db_heads] insert_event_Inr[OF w(2)] g
      arg_cong[OF update_disposition_frame[OF w(3)], of db_outbox] by simp_all
  obtain ys where ys: "db_outbox d' = db_outbox d @ ys" using enqueue_event(2)[OF w(4)] d3(2) by auto
  show ?thesis
    by (rule audit_move[OF trans[OF enqueue_fields(2)[OF w(4)] d3(1)] ys])
       (use enqueue_event(1)[OF w(4)] g u in simp_all)
qed

lemma audit_new_head:
  assumes e: "enqueue_outbox env i now (unknown_head a t) et None None None None None None None
      (d\<lparr>db_heads := (db_heads d)(ua_execution_record_id a \<mapsto> unknown_head a t')\<rparr>) = Inr (d', x)"
    and n: "db_heads d (ua_execution_record_id a) = None"
  shows "audit_step d d'"
proof -
  obtain ys where ys: "db_outbox d' = db_outbox d @ ys" using enqueue_event(2)[OF e] by auto
  have h: "db_heads d' = (db_heads d)(ua_execution_record_id a \<mapsto> unknown_head a t')"
    using enqueue_fields(2)[OF e] by simp
  show ?thesis
    by (rule audit_move[OF h ys]) (use enqueue_event(1)[OF e] n in \<open>simp_all add: unknown_head_def\<close>)
qed

lemma audit_add_unknown:
  assumes "add_unknown_head env i now a t d = Inr (d', h)"
  shows "audit_step d d'"
proof -
  obtain d1 x where i: "insert_head (ua_execution_record_id a) (unknown_head a t) d = Inr d1"
    and e: "enqueue_outbox env i now (unknown_head a t) ''unknown_recorded'' None None None None None None None d1
              = Inr (d', x)"
    using assms unknown_head_built by (auto simp: add_unknown_head_def bindR_eq_Inr split: sum.splits)
  show ?thesis
    by (rule audit_new_head[OF e[unfolded i[unfolded insert_head_Inr, THEN conjunct2]]])
       (rule add_unknown_head_Inr(1)[OF assms])
qed

lemma audit_materialize:
  assumes inv: "sl_inv env d" and m: "materialize_head env i now eid d = Inr d'"
  shows "audit_step d d'"
proof (cases "\<exists>a. db_prepared d eid = Some a \<and> db_heads d eid = None")
  case False
  then have "d' = d" using m by (auto simp: materialize_head_def split: if_splits option.splits)
  then show ?thesis by (simp add: audit_step_refl)
next
  case True
  then obtain a where a: "db_prepared d eid = Some a" "db_heads d eid = None" by blast
  then have la: "load_action env a = Inr a" "ua_execution_record_id a = eid"
    using inv by (auto simp: sl_inv_def)
  consider "d' = d" | x where "enqueue_outbox env i now (unknown_head a now) ''unknown_recorded'' None None None None None None None
      (d\<lparr>db_heads := (db_heads d)(eid \<mapsto> unknown_head a now)\<rparr>) = Inr (d', x)"
    using m a la unknown_head_built by (auto simp: materialize_head_def bindR_eq_Inr split: if_splits)
  then show ?thesis
  proof cases
    case 2
    show ?thesis by (rule audit_new_head[OF 2[folded la(2)]]) (use a la in simp)
  qed (simp add: audit_step_refl)
qed

lemma audit_update_idem: "update_idem P f d = Inr (d', n) \<Longrightarrow> audit_step d d'"
  by (auto simp: update_idem_Inr intro: audit_step_same)

lemma audit_future [simp]: "audit_step d (set_future i f d') = audit_step d d'"
  "audit_step d (d'\<lparr>db_futures := x\<rparr>) = audit_step d d'"
  by (simp_all add: audit_step_def outbox_extends_def audited_def has_event_def set_future_def)

lemma audit_expire:
  assumes inv: "du_inv env d" and e: "expire_lease env i now r d = Inr d'"
  shows "audit_step d d'"
proof -
  obtain P f d1 n where u: "update_idem P f d = Inr (d1, n)" and m: "materialize_head env i now (ir_eid r) d1 = Inr d'"
    using e unfolding expire_lease_def bindR_eq_Inr by (auto split: if_splits)
  have "sl_inv env d1" using u inv by (auto simp: update_idem_Inr du_inv_def)
  then show ?thesis using audit_step_trans[OF audit_update_idem[OF u] audit_materialize[OF _ m]] by blast
qed

lemma audit_grant: "grant env ids lease now fid ns key fp gen prepared d = Inr (d', c) \<Longrightarrow> audit_step d d'"
  by (erule grant_Inr) (auto intro: audit_step_same)

lemma audit_acquire:
  assumes inv: "du_inv env d" and a: "si_acquire env ids lease now fid d ns key fp prepared = (d', res)"
  shows "audit_step d d'"
  by (rule audit_commit[OF a[unfolded si_acquire_def]])
     (auto simp: bindR_eq_Inr si_acquire_row_def observe_def audit_step_refl split: option.splits if_splits
       dest: audit_grant audit_expire[OF inv])

lemma audit_acquire_prepared:
  "du_inv env d \<Longrightarrow> si_acquire_prepared env ids lease now fid d ns key fp a = (d', res) \<Longrightarrow> audit_step d d'"
  by (auto simp: si_acquire_prepared_def audit_step_refl split: sum.splits if_splits dest: audit_acquire)

lemma audit_transition: "si_transition now c s r e d = Inr d' \<Longrightarrow> audit_step d d'"
  by (auto simp: si_transition_def bindR_eq_Inr split: if_splits dest: audit_update_idem)

lemma audit_guarded:
  assumes "(if b then (d, v) else commit d x) = (d', r)" "\<And>y. x = Inr (d', y) \<Longrightarrow> audit_step d d'"
  shows "audit_step d d'"
proof (cases b)
  case False
  then have "commit d x = (d', r)" using assms(1) by simp
  then show ?thesis by (rule audit_commit) (rule assms(2))
qed (use assms(1) audit_step_refl in auto)

lemma audit_complete: "si_complete now d c v = (d', r) \<Longrightarrow> audit_step d d'"
  unfolding si_complete_def by (erule audit_guarded) (auto simp: bindR_eq_Inr intro: audit_transition)

lemma audit_mark: "si_mark_unknown now d c e = (d', r) \<Longrightarrow> audit_step d d'"
  unfolding si_mark_unknown_def by (erule audit_guarded) (auto simp: bindR_eq_Inr intro: audit_transition)

lemma audit_renew: "si_renew lease now d c = (d', r) \<Longrightarrow> audit_step d d'"
  unfolding si_renew_def by (erule audit_guarded) (auto simp: bindR_eq_Inr split: if_splits intro: audit_update_idem)

lemma audit_delete: "delete_prepared P d = Inr d' \<Longrightarrow> audit_step d d'"
  by (auto simp: delete_prepared_def split: if_splits intro: audit_step_same)

lemma audit_idem: "audit_step d (d'\<lparr>db_idem := x\<rparr>) = audit_step d d'"
  "audit_step (d\<lparr>db_idem := x\<rparr>) d' = audit_step d d'"
  by (simp_all add: audit_step_def outbox_extends_def audited_def has_event_def)

lemma audit_fail: "si_fail d c e = (d', r) \<Longrightarrow> audit_step d d'"
  unfolding si_fail_def Let_def
  by (erule audit_guarded)
     (auto simp: audit_idem audit_step_refl bindR_eq_Inr split: if_splits dest!: audit_delete)

lemma audit_prune: "si_prune_completed d t = (d', r) \<Longrightarrow> audit_step d d'"
  unfolding si_prune_completed_def
  by (erule audit_commit)
     (auto simp: audit_idem audit_step_refl bindR_eq_Inr split: if_splits dest!: audit_delete)

lemma audit_create: "sl_create_unknown env ids now d a = (d', r) \<Longrightarrow> audit_step d d'"
  unfolding sl_create_unknown_def
  by (erule audit_commit) (auto simp: bindR_eq_Inr dest: audit_add_unknown)

lemma audit_prepare: "sl_prepare_action env d c a = (d', r) \<Longrightarrow> audit_step d d'"
  unfolding sl_prepare_action_def
  by (erule audit_commit)
     (auto simp: bindR_eq_Inr insert_prepared_def audit_step_refl split: option.splits if_splits intro: audit_step_same)

lemma audit_record_unknown:
  assumes inv: "sl_inv env d" and r: "sl_record_unknown env ids now d c a cls = (d', res)"
  shows "audit_step d d'"
proof (cases res)
  case (Inl e)
  then have "d' = d" using r by (auto simp: sl_record_unknown_def commit_def Let_def split: sum.splits)
  then show ?thesis by (simp add: audit_step_refl)
next
  case (Inr h)
  from r[unfolded Inr] inv show ?thesis
    by (rule record_unknown_Inr) (auto simp: audit_idem dest!: audit_add_unknown)
qed

lemma audit_compare:
  "sl_compare_and_append env ids now d eid s n dec p a = (d', r) \<Longrightarrow> audit_step d d'"
  by (erule sl_compare_cases) (auto simp: audit_step_refl dest: audit_write_transition)

lemma audit_recover: "sl_recover env ids now t d eid = (d', r) \<Longrightarrow> audit_step d d'"
  by (erule sl_recover_cases)
     (auto simp: audit_step_refl intro: audit_step_trans[OF audit_close audit_write_transition])

lemma audit_sl_exec: "audit_step d (fst (sl_exec env (ids, now, op) d))"
proof -
  have pair: "audit_step d (fst x)" if "\<And>d' r. x = (d', r) \<Longrightarrow> audit_step d d'" for x :: "db \<times> 'a res"
    using that by (cases x) auto
  show ?thesis
    by (cases op)
       (auto simp: fst_out_of intro!: pair
         intro: audit_prepare audit_create audit_start audit_finish audit_recover audit_compare)
qed

lemma audit_exec:
  assumes inv: "du_inv env d"
  shows "audit_step d (fst (du_exec env lease c d))"
proof -
  obtain ids now op where op: "c = (ids, now, op)" by (cases c)
  have pair: "audit_step d (fst x)" if "\<And>d' r. x = (d', r) \<Longrightarrow> audit_step d d'" for x :: "db \<times> 'a res"
    using that by (cases x) auto
  have si: "sl_inv env d" using inv by (simp add: du_inv_def)
  show ?thesis
    unfolding op
    by (cases op)
       (auto intro!: pair audit_sl_exec
         intro: audit_acquire[OF inv] audit_acquire_prepared[OF inv] audit_complete audit_mark audit_fail
           audit_renew audit_prune audit_record_unknown[OF si])
qed

section \<open>The service as a transition system\<close>

text \<open>
  One step of a process sharing the database: an operation of either authority, or a step of the audit
  delivery (the worker's drain, or a direct poll, acknowledgement or failure report).
\<close>

inductive service_step :: "recon_env \<Rightarrow> time \<Rightarrow> db \<Rightarrow> db \<Rightarrow> bool" for env lease where
  authority: "du_lawful env c \<Longrightarrow> service_step env lease d (fst (du_exec env lease c d))"
| drained: "service_step env lease d (fst (drain w limit d))"
| polled: "service_step env lease d (fst (sl_pending_audit_events env cfg now d eid limit))"
| acknowledged: "service_step env lease d (fst (sl_mark_delivered now d oid))"
| refused: "service_step env lease d (fst (sl_record_failure cfg now d oid cls))"

inductive reachable :: "recon_env \<Rightarrow> time \<Rightarrow> db \<Rightarrow> db \<Rightarrow> bool" for env lease d where
  initial: "reachable env lease d d"
| further: "reachable env lease d d' \<Longrightarrow> service_step env lease d' d'' \<Longrightarrow> reachable env lease d d''"

lemma delivers_audit: "delivers d d' \<Longrightarrow> audit_step d d'"
proof -
  assume del: "delivers d d'"
  then obtain g where g: "d' = d\<lparr>db_outbox := map g (db_outbox d)\<rparr>" "\<And>r. row_kept r (g r)"
    unfolding delivers_def by blast
  have "has_event d' eid n" if "has_event d eid n" for eid n
    using that g by (auto simp: has_event_def row_kept_def)
  then have "audited d \<longrightarrow> audited d'" using g(1) by (auto simp: audited_def)
  then show ?thesis using delivers_extends[OF del] by (simp add: audit_step_def)
qed

lemma delivers_inv: "delivers d d' \<Longrightarrow> du_inv env d \<Longrightarrow> du_inv env d'"
proof -
  assume "delivers d d'" "du_inv env d"
  moreover have "du_inv env (d\<lparr>db_outbox := x\<rparr>) = du_inv env d" for x
    by (simp add: du_inv_def sl_inv_def sl_records_def)
  ultimately show ?thesis using delivers_frame by metis
qed

lemma service_step_cases:
  assumes "service_step env lease d d'"
  obtains (call) c where "du_lawful env c" "d' = fst (du_exec env lease c d)" | (delivery) "delivers d d'"
  using assms
proof cases
  case (drained w limit)
  then show thesis using delivery drain_keeps[of w limit d] by (cases "drain w limit d") simp
next
  case (polled cfg now eid limit)
  then show thesis using delivery relabels_delivers[OF pending_relabels[of env cfg now d eid limit]]
    by (cases "sl_pending_audit_events env cfg now d eid limit") simp
next
  case (acknowledged now oid)
  then show thesis using delivery mark_delivered_keeps[of now d oid] by (cases "sl_mark_delivered now d oid") simp
next
  case (refused cfg now oid cls)
  then show thesis using delivery relabels_delivers[OF record_failure_relabels[of cfg now d oid cls]]
    by (cases "sl_record_failure cfg now d oid cls") simp
qed (rule call)

lemma service_step_sound:
  assumes "service_step env lease d d'" "du_inv env d"
  shows "du_inv env d'" "audit_step d d'"
  using assms by (auto elim!: service_step_cases intro: du_exec_inv audit_exec delivers_inv delivers_audit)

lemma reachable_sound:
  assumes "reachable env lease d d'" "du_inv env d"
  shows "du_inv env d' \<and> audit_step d d'"
  using assms
proof (induction rule: reachable.induct)
  case (further d' d'')
  then show ?case using service_step_sound audit_step_trans by blast
qed (simp add: audit_step_refl)

end
