(* ===== verification/Samples.thy ===== *)
theory Samples
  imports AuditContract
begin

text \<open>
  A concrete environment, action, provider and finding, with the run of the in-memory ledger that
  resolves the action as not applied; the witnesses of the reconciliation properties use them.
\<close>

definition sample_env :: recon_env where
  "sample_env = \<lparr>re_dumps = (\<lambda>_. Some []), re_validate_schema = (\<lambda>_. None),
     re_validate_instance = (\<lambda>_ _. None), re_sha256 = (\<lambda>_. replicate 64 (CHR ''a'')),
     re_canonical_sha256 = (\<lambda>_. replicate 64 (CHR ''a''))\<rparr>"

definition sample_action :: UnknownAction where
  "sample_action = \<lparr>ua_execution_record_id = ''x'', ua_action_digest = replicate 64 (CHR ''b''),
     ua_tool_name = ''pay'', ua_contract_id = ''c'', ua_contract_version = 1,
     ua_namespace_digest = replicate 64 (CHR ''a''), ua_uncertainty_reason = ''timeout'', ua_attempted_at = 0,
     ua_tenant_partition_digest = None, ua_receipt_schema = Some [], ua_probe_schema = None,
     ua_result_schema = None, ua_provider_id = None, ua_protocol_version = None, ua_evidence_kinds = [],
     ua_max_evidence_bytes = 1000, ua_max_result_bytes = 1000, ua_metadata = []\<rparr>"

definition sample_provider :: ProviderDescriptor where
  "sample_provider = \<lparr>pd_provider_id = ''p'', pd_protocol_version = VInt 1, pd_evidence_kinds = [''receipt'']\<rparr>"

definition sample_attempt :: AttemptContext where
  "sample_attempt = \<lparr>at_attempt_id = ''a1'', at_deadline = 100, at_protocol_version = VInt 1,
     at_action = sample_action\<rparr>"

definition sample_finding :: Finding where
  "sample_finding = \<lparr>fi_proposed_state = CONFIRMED_NOT_APPLIED, fi_evidence_kind = ''receipt'',
     fi_evidence = [(''found'', JBool False)], fi_observed_at = 5, fi_retry_safe = True,
     fi_result_available = False, fi_result = JNull\<rparr>"

lemmas sample_data = sample_action_def sample_provider_def sample_attempt_def sample_finding_def

lemma sample_dumps [simp]: "re_dumps sample_env v = Some []" "re_validate_schema sample_env v = None"
  "re_validate_instance sample_env v w = None"
  "re_canonical_sha256 sample_env v = replicate 64 (CHR ''a'')"
  by (simp_all add: sample_env_def)

lemma sample_bounded:
  assumes "within_bounds 0 MAX_VALUE_NODES (JObj xs)" "e \<or> xs \<noteq> []" "s \<longrightarrow> no_sensitive (JObj xs)"
  shows "bounded_mapping sample_env xs l m e s = Inr (as_items (freeze (JObj xs)))"
  using assms by (simp add: bounded_mapping_Inr)

lemma sample_dump: "within_bounds 0 MAX_VALUE_NODES v \<Longrightarrow> dump sample_env v = Inr []"
  by (simp add: dump_def normalize_json_Inr[THEN iffD2])

lemmas sample_limits = within_bounds_def MAX_VALUE_NODES_def MAX_VALUE_DEPTH_def MAX_SAFE_INTEGER_def

lemmas sample_checks = IDENTIFIER_def EXECUTION_RECORD_ID_def ident_like_def char_class_defs is_digest_def
  list_all_iff raise_if_def require_identifier_def require_execution_record_id_def require_digest_def
  require_bounded_text_def optional_check_def

lemma sample_action_built: "action_built sample_env sample_action"
proof -
  have "UnknownAction_post_init sample_env sample_action = Inr sample_action"
    by (simp add: UnknownAction_post_init_def action_fields_ok_def sample_action_def sample_checks byte_limit_ok_def
        bounded_schema_def sample_bounded sample_limits provider_binding_ok_def MAX_REASON_BYTES_def
        MAX_RESULT_BYTES_def utf8_size_def)
  then show ?thesis by (auto simp: action_built_def)
qed

lemma found_sensitive_free: "casefold ''found'' \<notin> set FORBIDDEN_EVIDENCE_KEYS" "no_sensitive (JBool b)"
  by (code_simp, simp add: no_sensitive_def)

lemma sample_finding_built: "finding_built sample_env sample_finding"
proof -
  have "Finding_post_init sample_env sample_finding = Inr sample_finding"
    by (simp add: Finding_post_init_def sample_finding_def sample_checks sample_bounded sample_limits
        resolved_fields_def found_sensitive_free)
  then show ?thesis by (auto simp: finding_built_def)
qed

definition sample_calls :: "ledger_call list" where
  "sample_calls =
     [(\<lambda>_. ''e0'', 1, CreateUnknown sample_action),
      (\<lambda>_. ''e1'', 2, StartAttempt sample_attempt sample_provider 0),
      (\<lambda>_. ''e2'', 3, FinishAttempt sample_attempt sample_provider SUCCESS 1 (Some sample_finding) None None),
      (\<lambda>_. ''e3'', 4, AppendTransition ''x'' UNKNOWN 2 (ByFinding sample_finding) (Some sample_provider) (Some ''a1''))]"

lemma sample_calls_lawful: "list_all (lawful sample_env) sample_calls"
  by (simp add: sample_calls_def lawful_def sample_action_built sample_finding_built)

definition sample_head :: Head where
  "sample_head = \<lparr>hd_action = sample_action, hd_state = CONFIRMED_NOT_APPLIED, hd_revision = 3,
     hd_disposition = RETRY_ALLOWED, hd_updated_at = 5, hd_result_available = False, hd_result = JNull\<rparr>"

definition sample_record :: "string \<Rightarrow> int \<Rightarrow> ReconciliationEventKind \<Rightarrow> time \<Rightarrow> payload \<Rightarrow> Record" where
  "sample_record i n k t p = \<lparr>rc_event_id = i, rc_execution_record_id = ''x'', rc_revision = n, rc_kind = k,
     rc_state_before = UNKNOWN, rc_state_after = UNKNOWN, rc_occurred_at = t, rc_payload = p\<rparr>"

definition sample_started :: Record where
  "sample_started = sample_record ''e1'' 1 ATTEMPT_STARTED 2 (StartPayload ''a1'' 100 (VInt 1) ''p'')"

definition sample_finished :: Record where
  "sample_finished = sample_record ''e2'' 2 ATTEMPT_FINISHED 3 (FinishPayload ''a1'' ''p'' SUCCESS (Some sample_finding) None)"

lemma sample_record_built: "Record_post_init sample_env sample_started = Inr sample_started"
  "Record_post_init sample_env sample_finished = Inr sample_finished"
  by (simp_all add: Record_post_init_def sample_started_def sample_finished_def sample_record_def sample_checks
      sample_bounded sample_limits Finding_to_dict_def sample_finding_def)

definition sample_ledger :: "int \<Rightarrow> time \<Rightarrow> Record list \<Rightarrow> ledger" where
  "sample_ledger n t rs =
     \<lparr>lg_heads = [''x'' \<mapsto> (unknown_head sample_action t)\<lparr>hd_revision := n\<rparr>], lg_events = [''x'' \<mapsto> rs],
      lg_prepared = Map.empty\<rparr>"

lemma sample_action_same: "UnknownAction_eq sample_action sample_action"
  by (simp add: UnknownAction_eq_def sample_action_def dict_eq_def schema_eq_def)

lemma sample_ids: "EXECUTION_RECORD_ID ''x''" "ua_execution_record_id sample_action = ''x''"
    "ua_attempted_at sample_action = 0" "at_action sample_attempt = sample_action"
  by (simp_all add: sample_checks sample_data)

lemma sample_ledger_at:
  "head_locked (sample_ledger n t rs) ''x'' = Inr ((unknown_head sample_action t)\<lparr>hd_revision := n\<rparr>)"
  "events_at (sample_ledger n t rs) ''x'' = Inr rs"
  by (simp_all add: head_locked_Inr events_at_Inr sample_ids sample_ledger_def)

lemma sample_advanced:
  "0 \<le> rc_revision r \<Longrightarrow> advanced_head env ((unknown_head sample_action t)\<lparr>hd_revision := n\<rparr>) r =
     Inr ((unknown_head sample_action (rc_occurred_at r))\<lparr>hd_revision := rc_revision r\<rparr>)"
  by (simp add: advanced_head_def Head_post_init_def unknown_head_def raise_if_def bounded_result_def)

lemma sample_step1: "fst (lg_create_unknown sample_env empty_ledger sample_action) = sample_ledger 0 0 []"
  by (simp add: lg_create_unknown_def empty_ledger_def unknown_head_built sample_ledger_def sample_ids)
     (simp add: unknown_head_def Let_def)

lemma sample_append:
  assumes "attempt_record sample_env i ((unknown_head sample_action t)\<lparr>hd_revision := n\<rparr>) rs ''x'' sample_action n k u pl = Inr r"
    "0 \<le> rc_revision r"
  shows "fst (append_attempt_locked sample_env i (sample_ledger n t rs) ''x'' sample_action n k u pl) =
     sample_ledger (rc_revision r) (rc_occurred_at r) (rs @ [r])"
  using assms by (simp add: append_attempt_locked_def sample_ledger_at sample_advanced Let_def)
     (simp add: sample_ledger_def)

lemma sample_start_payload: "validate_attempt sample_attempt sample_provider = Inr ()"
    "start_payload sample_attempt sample_provider = StartPayload ''a1'' 100 (VInt 1) ''p''"
  by (simp_all add: validate_attempt_def start_payload_def raise_if_def sample_attempt_def sample_provider_def)

lemma sample_attempt_record:
  "attempt_record sample_env ''e1'' ((unknown_head sample_action 0)\<lparr>hd_revision := 0\<rparr>) [] ''x'' sample_action 0
     ATTEMPT_STARTED 2 (StartPayload ''a1'' 100 (VInt 1) ''p'') = Inr sample_started"
  using sample_record_built(1)
  by (simp add: attempt_record_def sample_action_same unknown_head_def require_cas_def raise_if_def
      validate_attempt_append_def unmatched_attempt_start_records_def sample_started_def sample_record_def)

lemma sample_step2:
  "fst (lg_start_attempt sample_env ''e1'' 2 (sample_ledger 0 0 []) sample_attempt sample_provider 0) =
     sample_ledger 1 2 [sample_started]"
  using sample_append[OF sample_attempt_record]
  by (simp add:  lg_start_attempt_def sample_start_payload sample_ids)
     (simp add: sample_started_def sample_record_def)

lemma sample_finish_record:
  "attempt_record sample_env ''e2'' ((unknown_head sample_action 2)\<lparr>hd_revision := 1\<rparr>) [sample_started] ''x'' sample_action 1
     ATTEMPT_FINISHED 3 (FinishPayload ''a1'' ''p'' SUCCESS (Some sample_finding) None) = Inr sample_finished"
  using sample_record_built(2)
  by (simp add: attempt_record_def sample_action_same unknown_head_def require_cas_def raise_if_def
      validate_attempt_append_def sample_started_def sample_finished_def sample_record_def)

lemma sample_finish_payload: "finish_payload sample_attempt sample_provider SUCCESS (Some sample_finding) None t =
      Inr (FinishPayload ''a1'' ''p'' SUCCESS (Some sample_finding) None, t)"
  by (simp add: finish_payload_def raise_if_def optional_check_def sample_attempt_def sample_provider_def sample_finding_def)

lemma sample_step3:
  "fst (lg_finish_attempt sample_env ''e2'' 3 (sample_ledger 1 2 [sample_started]) sample_attempt sample_provider SUCCESS 1
      (Some sample_finding) None None) = sample_ledger 2 3 [sample_started, sample_finished]"
  using sample_append[OF sample_finish_record]
  by (simp add: lg_finish_attempt_def sample_start_payload sample_finish_payload sample_ids)
     (simp add: sample_finished_def sample_record_def)

definition sample_transition :: Transition where
  "sample_transition =
     \<lparr>tn_execution_record_id = ''x'', tn_expected_state = UNKNOWN, tn_expected_revision = 2,
      tn_new_state = CONFIRMED_NOT_APPLIED, tn_source = PROVIDER, tn_evidence_kind = ''receipt'',
      tn_evidence = [(''found'', JBool False)], tn_occurred_at = 5, tn_retry_safe = True, tn_result_available = False,
      tn_provider_id = Some ''p'', tn_attempt_id = Some ''a1'', tn_operator_identity_digest = None, tn_reason = None,
      tn_result = JNull\<rparr>"

definition sample_resolved :: Record where
  "sample_resolved = \<lparr>rc_event_id = ''e3'', rc_execution_record_id = ''x'', rc_revision = 3, rc_kind = STATE_TRANSITION,
     rc_state_before = UNKNOWN, rc_state_after = CONFIRMED_NOT_APPLIED, rc_occurred_at = 5,
     rc_payload = TransitionPayload sample_transition\<rparr>"

lemma sample_transition_built: "Transition_post_init sample_env sample_transition = Inr sample_transition"
  by (simp add: Transition_post_init_def sample_transition_def sample_checks sample_bounded sample_limits
      resolved_fields_def found_sensitive_free bounded_result_def transition_source_ok_def)

lemma sample_resolved_built: "Record_post_init sample_env sample_resolved = Inr sample_resolved"
  by (simp add: Record_post_init_def sample_resolved_def sample_transition_def sample_checks
      sample_bounded sample_limits Transition_to_dict_def)

lemma sample_attested: "require_finished_attempt [sample_started, sample_finished] (Some ''a1'') (Some sample_provider) sample_finding = Inr ()"
proof -
  have "finished_with ''a1'' sample_provider sample_finding sample_finished"
    by (simp add: finished_with_def sample_finished_def sample_record_def sample_provider_def py_eq_refl)
       (simp add: sample_finding_def Finding_to_dict_def)
  then show ?thesis by (simp add: require_finished_attempt_def raise_if_def)
qed

lemma sample_evidence: "validate_transition_evidence sample_env sample_action sample_transition = Inr ()"
  by (simp add: validate_transition_evidence_def sample_transition_def sample_dump sample_limits raise_if_def
      validate_instance_def evidence_schema_def sample_action_def contract_normalize_Inr[THEN iffD2])

lemma sample_build: "build_transition sample_env ((unknown_head sample_action t)\<lparr>hd_revision := 2\<rparr>) (ByFinding sample_finding)
     (Some sample_provider) (Some ''a1'') = Inr sample_transition"
  using sample_transition_built
  by (simp add: unknown_head_def sample_ids sample_transition_def sample_finding_def sample_provider_def)

lemma sample_resolution: "transition_record sample_env ''e3'' ((unknown_head sample_action t)\<lparr>hd_revision := 2\<rparr>) sample_transition =
     Inr (sample_resolved, sample_head)"
  using sample_resolved_built
  by (simp add: transition_record_def require_legal_transition_def legal_transition_def raise_if_def
      sample_transition_def unknown_head_def sample_ids sample_resolved_def Head_post_init_def bounded_result_def
      disposition_of_def sample_head_def)

lemma sample_step4:
  "fst (lg_compare_and_append sample_env ''e3'' (sample_ledger 2 3 [sample_started, sample_finished]) ''x'' UNKNOWN 2
      (ByFinding sample_finding) (Some sample_provider) (Some ''a1'')) =
     \<lparr>lg_heads = [''x'' \<mapsto> sample_head], lg_events = [''x'' \<mapsto> [sample_started, sample_finished, sample_resolved]],
      lg_prepared = Map.empty\<rparr>"
proof -
  have "require_cas ((unknown_head sample_action t)\<lparr>hd_revision := 2\<rparr>) UNKNOWN 2 = Inr ()"
    "hd_action ((unknown_head sample_action t)\<lparr>hd_revision := 2\<rparr>) = sample_action" for t
    by (simp_all add: require_cas_def unknown_head_def raise_if_def)
  then show ?thesis
    by (simp add: lg_compare_and_append_def sample_ledger_at sample_build sample_attested transition_step_def
        sample_evidence sample_resolution del: build_transition.simps) (simp add: sample_ledger_def)
qed

lemma sample_run:
  "view (run_calls (lg_exec sample_env) sample_calls empty_ledger) ''x'' =
     Some (sample_head, [sample_started, sample_finished, sample_resolved])"
  by (simp add: sample_calls_def fst_out_of sample_step1 sample_step2 sample_step3 sample_step4 view_def)

end
