(* ===== verification/LedgerTheorems.thy ===== *)
theory LedgerTheorems
  imports Samples
begin

text \<open>
  What the reconciliation values and the two ledgers guarantee, stated over runs from an empty ledger.
\<close>

section \<open>Runs of a ledger\<close>

text \<open>
  C14.  Both ledgers implement the same protocol: whatever calls are made, in whatever order, an execution
  record is created once as unknown and then moves only by attempt records and by legal, justified
  transitions, one revision at a time.
\<close>

theorem ledgers_follow_protocol:
  assumes "list_all (lawful env) cs"
  shows "entry_steps eid None (view (run_calls (lg_exec env) cs empty_ledger) eid) \<and>
    entry_steps eid None (sl_view (run_calls (sl_exec env) cs (empty_db a b)) eid)"
proof
  have "view empty_ledger eid = None" "sl_view (empty_db a b) eid = None"
    by (simp_all add: view_def empty_ledger_def sl_view_def empty_db_def)
  then show "entry_steps eid None (view (run_calls (lg_exec env) cs empty_ledger) eid)"
    "entry_steps eid None (sl_view (run_calls (sl_exec env) cs (empty_db a b)) eid)"
    using memory_ledger.run_steps[OF lg_inv_empty assms, where eid = eid]
      durable_ledger.run_steps[OF sl_inv_empty[where a = a and b = b] assms, where eid = eid]
    by simp_all
qed

theorem ledgers_follow_protocol_witness:
  "list_all (lawful sample_env) sample_calls \<and>
   entry_steps ''x'' None (Some (sample_head, [sample_started, sample_finished, sample_resolved])) \<and>
   entry_steps ''x'' None (sl_view (run_calls (sl_exec sample_env) sample_calls (empty_db False True)) ''x'')"
  using ledgers_follow_protocol[OF sample_calls_lawful, of "''x''" False True] sample_calls_lawful
  unfolding sample_run by blast

text \<open>
  C22.  The head of an entry is always the summary of its history: its revision is the number of records,
  the records are numbered from one and belong to the entry, replaying them from \<open>UNKNOWN\<close> is legal at
  every step and ends in the head's state, and at most one provider attempt is unfinished.
\<close>

theorem head_summarises_history:
  assumes "list_all (lawful env) cs" "view (run_calls (lg_exec env) cs empty_ledger) eid = Some (h, rs)"
  shows "hd_revision h = int (length rs) \<and> numbered eid rs \<and> replay UNKNOWN rs = Some (hd_state h) \<and>
    hd_disposition h = disposition_of (hd_state h) (hd_result_available h) \<and>
    (\<exists>s. scan_records ([], []) (filter is_attempt rs) = Inr s \<and> length (open_starts s) \<le> 1)"
proof -
  have "entry_inv eid (h, rs)"
    by (rule memory_ledger.ok_entry[OF memory_ledger.run_ok[OF lg_inv_empty assms(1)] assms(2)])
  then show ?thesis by (auto simp: entry_inv_def attempts_ok_def)
qed

theorem head_summarises_history_witness:
  "hd_revision sample_head = 3 \<and> numbered ''x'' [sample_started, sample_finished, sample_resolved] \<and>
   replay UNKNOWN [sample_started, sample_finished, sample_resolved] = Some CONFIRMED_NOT_APPLIED"
  using head_summarises_history[OF sample_calls_lawful sample_run] by (simp add: sample_head_def)

text \<open>
  C15.  A retry is offered only on evidence: an entry whose disposition is \<open>RETRY_ALLOWED\<close> has in its
  history a transition that confirms the action was not applied, made by a provider whose finished attempt
  with that finding precedes it, or by an identified operator with a reason.
\<close>

theorem retry_needs_evidence:
  assumes "list_all (lawful env) cs" "view (run_calls (lg_exec env) cs empty_ledger) eid = Some (h, rs)"
    "hd_disposition h = RETRY_ALLOWED"
  shows "not_applied_evidence rs"
  by (rule memory_ledger.retry_evidence[OF lg_inv_empty assms])

theorem retry_needs_evidence_witness:
  "hd_disposition sample_head = RETRY_ALLOWED \<and>
   not_applied_evidence [sample_started, sample_finished, sample_resolved]"
  using retry_needs_evidence[OF sample_calls_lawful sample_run] by (simp add: sample_head_def)

text \<open>
  C34.  Recovery of the in-memory ledger raises on every entry that has left \<open>UNKNOWN\<close>, although nothing is
  wrong with it: the scan for unfinished attempts is given the transition records as well.
\<close>

theorem memory_recovery_raises:
  assumes "list_all (lawful env) cs" "view (run_calls (lg_exec env) cs empty_ledger) eid = Some (h, rs)"
    "hd_state h \<noteq> UNKNOWN" "EXECUTION_RECORD_ID eid"
  shows "snd (lg_recover env ids now (run_calls (lg_exec env) cs empty_ledger) eid) =
    Inl (ReconciliationError ''persisted reconciliation attempt lacks attempt_id'')"
proof -
  let ?l = "run_calls (lg_exec env) cs empty_ledger"
  have "lg_heads ?l eid = Some h" using assms(2) by (simp add: view_def split: option.splits)
  from recover_after_transition_raises[OF memory_ledger.run_ok[OF lg_inv_empty assms(1)] this assms(3,4)]
  show ?thesis by simp
qed

theorem memory_recovery_raises_witness:
  "snd (lg_recover sample_env (\<lambda>_. ''e4'') 200 (run_calls (lg_exec sample_env) sample_calls empty_ledger) ''x'') =
     Inl (ReconciliationError ''persisted reconciliation attempt lacks attempt_id'')"
  by (rule memory_recovery_raises[OF sample_calls_lawful sample_run]) (simp_all add: sample_head_def sample_ids)

section \<open>Values\<close>

text \<open>
  C32.  A value is accepted exactly when it is interoperable JSON (safe integers, finite numbers, no negative
  zero), at most 32 levels deep, with at most 10000 nodes and a canonical text within the given number of
  bytes; what is kept is the value itself, frozen.
\<close>

theorem bounded_value_exact:
  "bounded_value env v label m = Inr r \<longleftrightarrow>
     interoperable v \<and> height v \<le> 32 \<and> nodes v \<le> 10000 \<and> (\<exists>t. re_dumps env v = Some t \<and> length t \<le> m) \<and>
     r = freeze v"
  by (simp add: bounded_value_Inr within_bounds_def MAX_VALUE_DEPTH_def MAX_VALUE_NODES_def)

text \<open>
  C33.  No transition carries a credential: the evidence of every transition that can be built, by a provider
  or by an operator, has no key, at any depth, that names a secret.
\<close>

theorem transition_without_secrets:
  assumes "build_transition env h dec provider attempt = Inr t"
  shows "tn_evidence t \<noteq> [] \<and> no_sensitive (JObj (tn_evidence t))"
proof -
  obtain t0 where "Transition_post_init env t0 = Inr t" using build_transition_built(1)[OF assms] by blast
  then obtain ev where "bounded_mapping env (tn_evidence t0) ''transition evidence'' MAX_EVIDENCE_BYTES False True = Inr ev"
      "tn_evidence t = ev"
    by (auto simp: Transition_post_init_def bindR_eq_Inr)
  then have e: "tn_evidence t0 \<noteq> []" "no_sensitive (JObj (tn_evidence t0))"
      "tn_evidence t = as_items (freeze (JObj (tn_evidence t0)))"
    unfolding bounded_mapping_Inr by simp_all
  have "no_sensitive (JObj (tn_evidence t))"
    unfolding e(3) as_items_freeze no_sensitive_freeze by (rule e(2))
  then show ?thesis using e(1,3) by simp
qed

theorem transition_without_secrets_witness:
  "tn_evidence sample_transition \<noteq> [] \<and> no_sensitive (JObj (tn_evidence sample_transition))"
  by (rule transition_without_secrets[OF sample_build[where t = 0]])

text \<open>
  C35.  A provider finding whose evidence contains an array is accepted when the finding is built, but can
  never become a transition: the arrays were frozen to tuples, which the second validation refuses.
\<close>

theorem array_evidence_never_resolves:
  assumes "Finding_post_init env f = Inr g" "has_array (JObj (fi_evidence f))"
  shows "build_transition env h (ByFinding g) provider attempt \<noteq> Inr t"
proof
  assume "build_transition env h (ByFinding g) provider attempt = Inr t"
  then obtain r where r: "bounded_mapping env (fi_evidence g) ''transition evidence'' MAX_EVIDENCE_BYTES False True = Inr r"
    by (auto simp: Transition_post_init_def bindR_eq_Inr split: option.splits if_splits)
  have "fi_evidence g = as_items (freeze (JObj (fi_evidence f)))"
    using assms(1) by (auto simp: Finding_post_init_def bindR_eq_Inr bounded_mapping_Inr split: if_splits)
  then show False using r bounded_mapping_array_refused[OF assms(2)] by simp
qed

theorem array_evidence_never_resolves_witness:
  "build_transition sample_env (unknown_head sample_action 0)
     (ByFinding (sample_finding\<lparr>fi_evidence := [(''found'', JTuple [])]\<rparr>)) (Some sample_provider) (Some ''a1'') \<noteq> Inr sample_transition"
proof (rule array_evidence_never_resolves)
  show "Finding_post_init sample_env (sample_finding\<lparr>fi_evidence := [(''found'', JList [])]\<rparr>) =
      Inr (sample_finding\<lparr>fi_evidence := [(''found'', JTuple [])]\<rparr>)"
    by (simp add: Finding_post_init_def sample_finding_def sample_checks sample_bounded sample_limits
        resolved_fields_def found_sensitive_free)
qed simp



end
