(* ===== verification/ServiceContract.thy ===== *)
theory ServiceContract
  imports AuditContract
begin

text \<open>
  What the history of an execution looks like across everything that shares the database: operations
  of the idempotency store, of the ledger and of the audit delivery all move an entry only along the
  entry state machine, so nothing rewrites a history or reopens a verdict.
\<close>

definition entries_move :: "db \<Rightarrow> db \<Rightarrow> bool" where
  "entries_move d d' \<longleftrightarrow> (\<forall>eid. entry_steps eid (sl_view d eid) (sl_view d' eid))"

lemma entries_move_refl: "entries_move d d"
  by (simp add: entries_move_def)

lemma entries_move_trans: "entries_move a b \<Longrightarrow> entries_move b c \<Longrightarrow> entries_move a c"
  unfolding entries_move_def by (meson rtranclp_trans)

lemma sound_moves: "sl_sound env d d' \<Longrightarrow> entries_move d d'"
  by (simp add: sl_sound_def entries_move_def)

text \<open>Operations that touch neither heads nor events.\<close>

definition keeps_entries :: "db \<Rightarrow> db \<Rightarrow> bool" where
  "keeps_entries d d' \<longleftrightarrow> db_heads d' = db_heads d \<and> db_events d' = db_events d"

lemma keeps_moves: "keeps_entries d d' \<Longrightarrow> entries_move d d'"
  by (simp add: keeps_entries_def entries_move_def sl_view_def sl_records_def)

lemma keeps_commit:
  assumes "commit d x = (d', r)" "\<And>y. x = Inr (d', y) \<Longrightarrow> keeps_entries d d'"
  shows "keeps_entries d d'"
  using assms(1) by (rule commit_cases) (use assms(2) in \<open>auto simp: keeps_entries_def\<close>)

lemma keeps_guarded:
  assumes "(if b then (d, v) else commit d x) = (d', r)" "\<And>y. x = Inr (d', y) \<Longrightarrow> keeps_entries d d'"
  shows "keeps_entries d d'"
proof (cases b)
  case False
  then have "commit d x = (d', r)" using assms(1) by simp
  then show ?thesis by (rule keeps_commit) (rule assms(2))
qed (use assms(1) in \<open>auto simp: keeps_entries_def\<close>)

lemma keeps_update: "update_idem P f d = Inr (d', n) \<Longrightarrow> keeps_entries d d'"
  by (auto simp: update_idem_Inr keeps_entries_def)

lemma keeps_transition: "si_transition now c s r e d = Inr d' \<Longrightarrow> keeps_entries d d'"
  by (auto simp: si_transition_def bindR_eq_Inr split: if_splits dest: keeps_update)

lemma keeps_future [simp]: "keeps_entries d (set_future i f d') = keeps_entries d d'"
  "keeps_entries d (d'\<lparr>db_futures := x\<rparr>) = keeps_entries d d'"
  "keeps_entries d (d'\<lparr>db_idem := y\<rparr>) = keeps_entries d d'"
  "keeps_entries (d\<lparr>db_idem := y\<rparr>) d' = keeps_entries d d'"
  by (simp_all add: keeps_entries_def set_future_def)

lemma keeps_delete: "delete_prepared P d = Inr d' \<Longrightarrow> keeps_entries d d'"
  by (auto simp: delete_prepared_def keeps_entries_def split: if_splits)

lemma keeps_complete: "si_complete now d c v = (d', r) \<Longrightarrow> keeps_entries d d'"
  unfolding si_complete_def by (erule keeps_guarded) (auto simp: bindR_eq_Inr intro: keeps_transition)

lemma keeps_mark: "si_mark_unknown now d c e = (d', r) \<Longrightarrow> keeps_entries d d'"
  unfolding si_mark_unknown_def by (erule keeps_guarded) (auto simp: bindR_eq_Inr intro: keeps_transition)

lemma keeps_renew: "si_renew lease now d c = (d', r) \<Longrightarrow> keeps_entries d d'"
  unfolding si_renew_def by (erule keeps_guarded) (auto simp: bindR_eq_Inr split: if_splits intro: keeps_update)

lemma keeps_refl [simp]: "keeps_entries d d"
  by (simp add: keeps_entries_def)

lemma keeps_fail: "si_fail d c e = (d', r) \<Longrightarrow> keeps_entries d d'"
  unfolding si_fail_def Let_def
  by (erule keeps_guarded) (auto simp: bindR_eq_Inr split: if_splits dest!: keeps_delete)

lemma keeps_prune: "si_prune_completed d t = (d', r) \<Longrightarrow> keeps_entries d d'"
  unfolding si_prune_completed_def
  by (erule keeps_commit) (auto simp: bindR_eq_Inr split: if_splits dest!: keeps_delete)

lemma keeps_grant: "grant env ids lease now fid ns key fp gen prepared d = Inr (d', c) \<Longrightarrow> keeps_entries d d'"
  by (erule grant_Inr) (auto simp: keeps_entries_def)

text \<open>An expired lease may create the head of the execution it abandons.\<close>

lemma materialize_moves:
  assumes inv: "sl_inv env d" and m: "materialize_head env i now eid d = Inr d'"
  shows "entries_move d d'"
proof (cases "\<exists>a. db_prepared d eid = Some a \<and> db_heads d eid = None")
  case False
  then have "d' = d" using m by (auto simp: materialize_head_def split: if_splits option.splits)
  then show ?thesis by (simp add: entries_move_refl)
next
  case True
  then obtain a where a: "db_prepared d eid = Some a" "db_heads d eid = None" by blast
  then have la: "load_action env a = Inr a" "ua_execution_record_id a = eid"
    using inv by (auto simp: sl_inv_def)
  consider "d' = d" | x where "enqueue_outbox env i now (unknown_head a now) ''unknown_recorded'' None None None None None None None
      (d\<lparr>db_heads := (db_heads d)(eid \<mapsto> unknown_head a now)\<rparr>) = Inr (d', x)"
    using m a la unknown_head_built by (auto simp: materialize_head_def bindR_eq_Inr split: if_splits)
  then show ?thesis
  proof cases
    case 2
    from enqueue_frame[OF this] have d': "d' = d\<lparr>db_heads := (db_heads d)(eid \<mapsto> unknown_head a now), db_outbox := db_outbox d'\<rparr>"
      by simp
    show ?thesis
      by (rule sound_moves, rule sl_new_head_sound[OF inv a(2) la(2,1)])
         (use arg_cong[OF d', of db_heads] arg_cong[OF d', of db_events] arg_cong[OF d', of db_prepared] in simp_all)
  qed (simp add: entries_move_refl)
qed

lemma expire_moves:
  assumes inv: "du_inv env d" and e: "expire_lease env i now r d = Inr d'"
  shows "entries_move d d'"
proof -
  obtain P f d1 n where u: "update_idem P f d = Inr (d1, n)" and m: "materialize_head env i now (ir_eid r) d1 = Inr d'"
    using e unfolding expire_lease_def bindR_eq_Inr by (auto split: if_splits)
  have "sl_inv env d1" using u inv by (auto simp: update_idem_Inr du_inv_def)
  then show ?thesis using entries_move_trans[OF keeps_moves[OF keeps_update[OF u]] materialize_moves[OF _ m]] by blast
qed

lemma moves_future [simp]: "entries_move d (d'\<lparr>db_futures := x\<rparr>) = entries_move d d'"
  by (simp add: entries_move_def sl_view_def sl_records_def)

lemma acquire_moves:
  assumes inv: "du_inv env d" and a: "si_acquire env ids lease now fid d ns key fp prepared = (d', res)"
  shows "entries_move d d'"
  using a[unfolded si_acquire_def]
  by (rule commit_cases)
     (auto simp: bindR_eq_Inr si_acquire_row_def observe_def entries_move_refl split: option.splits if_splits
       dest: keeps_moves[OF keeps_grant] expire_moves[OF inv])

lemma acquire_prepared_moves:
  "du_inv env d \<Longrightarrow> si_acquire_prepared env ids lease now fid d ns key fp a = (d', res) \<Longrightarrow> entries_move d d'"
  by (auto simp: si_acquire_prepared_def entries_move_refl split: sum.splits if_splits dest: acquire_moves)

lemma exec_moves:
  assumes inv: "du_inv env d" and c: "du_lawful env c"
  shows "entries_move d (fst (du_exec env lease c d))"
proof -
  obtain ids now op where op: "c = (ids, now, op)" by (cases c)
  have pair: "entries_move d (fst x)" if "\<And>d' r. x = (d', r) \<Longrightarrow> entries_move d d'" for x :: "db \<times> 'a res"
    using that by (cases x) auto
  have si: "sl_inv env d" using inv by (simp add: du_inv_def)
  show ?thesis
  proof (cases op)
    case (Reconcile lop)
    then have "lawful env (ids, now, lop)" using c op by (simp add: lawful_def)
    then show ?thesis using sound_moves[OF sl_exec_sound[OF si]] op Reconcile by simp
  next
    case (RecordUnknown cl a cls)
    then show ?thesis
      using c op by (auto intro!: pair intro: sound_moves[OF sl_record_unknown_sound[OF si]])
  qed (use op in \<open>auto intro!: pair intro: acquire_moves[OF inv] acquire_prepared_moves[OF inv] keeps_moves[OF keeps_complete]
      keeps_moves[OF keeps_mark] keeps_moves[OF keeps_fail] keeps_moves[OF keeps_renew] keeps_moves[OF keeps_prune]\<close>)
qed

lemma service_step_moves:
  assumes "service_step env lease d d'" "du_inv env d"
  shows "entries_move d d'"
  using assms(1)
proof (cases rule: service_step_cases)
  case (call c)
  then show ?thesis using exec_moves[OF assms(2)] by simp
next
  case delivery
  then have "d' = d\<lparr>db_outbox := db_outbox d'\<rparr>" by (rule delivers_frame)
  from arg_cong[OF this, of db_heads] arg_cong[OF this, of db_events] show ?thesis
    by (intro keeps_moves) (simp add: keeps_entries_def)
qed

lemma reachable_moves:
  assumes "reachable env lease d d'" "du_inv env d"
  shows "entries_move d d'"
  using assms
proof (induction rule: reachable.induct)
  case (further d' d'')
  then show ?case using service_step_moves entries_move_trans reachable_sound by blast
qed (simp add: entries_move_refl)

lemma reachable_extends:
  assumes r: "reachable env lease d d'" and inv: "du_inv env d" and e: "sl_view d eid = Some e"
  shows "\<exists>e'. sl_view d' eid = Some e' \<and> entry_extends e e' \<and> entry_inv eid e'"
proof -
  have "entry_steps eid (Some e) (sl_view d' eid)"
    using reachable_moves[OF r inv] e by (simp add: entries_move_def) metis
  from entry_steps_extends[OF this] obtain e' where e': "sl_view d' eid = Some e'" "entry_extends e e'" by blast
  have "sl_inv env d'" using reachable_sound[OF r inv] by (simp add: du_inv_def)
  then have "entry_inv eid e'" using durable_ledger.ok_entry e'(1) by blast
  then show ?thesis using e' by blast
qed

lemma du_inv_empty: "du_inv env (empty_db True True)"
  using sl_inv_empty[of env True True] by (simp add: du_inv_def empty_db_def rows_ok_def linked_def)

lemma audited_empty: "audited (empty_db a b)"
  by (simp add: audited_def empty_db_def)

end
