(* ===== verification/ServiceSamples.thy ===== *)
theory ServiceSamples
  imports Samples ServiceContract
begin

text \<open>
  The sample action on a database shared by both authorities: claimed, recorded unknown, resolved as not
  applied by a provider attempt, and claimed again.
\<close>

definition sample_rows_ok :: "outbox_row list \<Rightarrow> (string \<times> int \<times> string) list \<Rightarrow> bool" where
  "sample_rows_ok rows ids \<longleftrightarrow>
     map (\<lambda>r. (ob_outbox_id r, ob_revision r, ob_event_type r)) rows = ids \<and>
     list_all (\<lambda>r. ob_eid r = ''x'' \<and> readable sample_env r \<and> undelivered r) rows"

lemma sample_provider_kinds: "pd_evidence_kinds sample_provider = [''receipt'']"
  by (simp add: sample_provider_def)

lemma optional_str_bounds: "interoperable (optional_str a)" "height (optional_str a) = 0" "nodes (optional_str a) = 1"
  by (cases a; simp)+

lemma sample_payload:
  assumes "hd_action h = sample_action" "\<bar>hd_revision h\<bar> \<le> MAX_SAFE_INTEGER" "p = None \<or> p = Some sample_provider"
    "ev = None \<or> ev = Some [(''found'', JBool False)]"
  obtains pl where "audit_payload sample_env h et p a out k ev None = Inr pl" "within_bounds 0 MAX_VALUE_NODES (JObj pl)" "pl \<noteq> []"
proof -
  have v: "canonical_json l (JObj [(''evidence'', thaw (JObj [(''found'', JBool False)]))]) =
      Inr (JObj [(''evidence'', JObj [(''found'', JBool False)])])" for l
    by (simp add: canonical_json_def contract_normalize_Inr[THEN iffD2])
  obtain dg where dg: "(case ev of None \<Rightarrow> Inr JNull | Some ev \<Rightarrow>
                 bindR (canonical_json ''reconciliation audit evidence digest'' (JObj [(''evidence'', thaw (JObj ev))]))
                   (\<lambda>v. Inr (JStr (re_canonical_sha256 sample_env v)))) = Inr dg" "dg = JNull \<or> (\<exists>s. dg = JStr s)"
    using assms(4) v by auto
  obtain pl where pl: "audit_payload sample_env h et p a out k ev None = Inr pl"
    unfolding audit_payload_def Let_def dg(1) by simp
  have "within_bounds 0 MAX_VALUE_NODES (JObj pl) \<and> pl \<noteq> []"
    using pl dg(2) assms(1-3) unfolding audit_payload_def Let_def dg(1) bindR_Inr
    by (auto simp: optional_str_bounds sample_limits sample_provider_kinds sample_action_def only_string_def
        split: option.splits)
  then show thesis using that pl by blast
qed

text \<open>Each event enqueued along the run is a new readable row.\<close>

definition sample_event :: "string \<Rightarrow> int \<Rightarrow> string \<Rightarrow> outbox_row \<Rightarrow> bool" where
  "sample_event i n et r \<longleftrightarrow> ob_outbox_id r = i \<and> ob_eid r = ''x'' \<and> ob_revision r = n \<and> ob_event_type r = et \<and>
     readable sample_env r \<and> undelivered r"

lemma sample_enqueue:
  assumes h: "hd_action h = sample_action" "hd_revision h = n" "0 \<le> n" "n \<le> MAX_SAFE_INTEGER"
    and p: "p = None \<or> p = Some sample_provider" and f: "f = None \<or> f = Some sample_finding"
    and ev: "ev = None \<or> ev = Some [(''found'', JBool False)]"
    and et: "IDENTIFIER et" "EXECUTION_RECORD_ID i"
    and d: "db_heads d ''x'' \<noteq> None" "list_all (\<lambda>r. ob_outbox_id r \<noteq> i \<and> ob_revision r \<noteq> n) (db_outbox d)"
  obtains r where "sample_event i n et r"
    "enqueue_outbox sample_env i t h et p a out f k ev None d = Inr (d\<lparr>db_outbox := db_outbox d @ [r]\<rparr>, i)"
proof -
  let ?k = "case f of None \<Rightarrow> k | Some f \<Rightarrow> Some (fi_evidence_kind f)"
  let ?ev = "case f of None \<Rightarrow> ev | Some f \<Rightarrow> Some (fi_evidence f)"
  have "?ev = None \<or> ?ev = Some [(''found'', JBool False)]" using f ev by (auto simp: sample_finding_def)
  then obtain pl where pl: "audit_payload sample_env h et p a out ?k ?ev None = Inr pl"
      "within_bounds 0 MAX_VALUE_NODES (JObj pl)" "pl \<noteq> []"
    using sample_payload[of h p ?ev et a out ?k] h p by (auto simp: abs_if)
  define r where "r = \<lparr>ob_outbox_id = i, ob_eid = ''x'', ob_revision = n,
                ob_event_type = et, ob_event = JObj pl, ob_digest = re_sha256 sample_env [],
                ob_created_at = t, ob_delivery_attempts = 0, ob_delivered_at = None,
                ob_last_error_class = None, ob_alerted_at = None\<rparr>"
  have x: "EXECUTION_RECORD_ID ''x''" by (simp add: sample_ids)
  have "bounded_mapping sample_env pl l m False False = Inr (as_items (freeze (JObj pl)))" for l m
    using pl by (intro sample_bounded) auto
  then have "sample_event i n et r"
    using h et x pl
    by (simp add: sample_event_def r_def readable_def okR_def envelope_from_row_def sample_dump Envelope_post_init_def
        require_execution_record_id_def require_identifier_def raise_if_def undelivered_def)
  moreover have "select_one (\<lambda>r. ob_eid r = ''x'' \<and> ob_revision r = n \<and> ob_event_type r = et) (db_outbox d) = None"
    using d(2) by (auto simp: select_one_None_iff list_all_iff)
  moreover have "\<not> list_ex (\<lambda>r. ob_outbox_id r = i) (db_outbox d)" using d(2) by (auto simp: list_ex_iff list_all_iff)
  ultimately show thesis
    using that[of r] pl h d(1) et
    by (simp add: enqueue_outbox_def Let_def require_identifier_def raise_if_def optional_check_def sample_dump
        sample_ids r_def)
qed

section \<open>The run\<close>

definition sample_claim :: IdempotencyClaim where
  "sample_claim = \<lparr>cl_namespace = ''n'', cl_key = ''k'', cl_fingerprint = replicate 64 (CHR ''b''), cl_owner = True,
     cl_future = 0, cl_owner_token = Some ''t'', cl_lease_seconds = Some 10, cl_execution_record_id = Some ''x'',
     cl_generation = Some 1\<rparr>"

definition sample_ids2 :: "string \<Rightarrow> string \<Rightarrow> nat \<Rightarrow> string" where
  "sample_ids2 a b i = (if i = 0 then a else b)"

definition sample_service_calls :: "durable_call list" where
  "sample_service_calls =
     [(sample_ids2 ''t'' ''x'', 0, Acquire ''n'' ''k'' (replicate 64 (CHR ''b'')) 0),
      (sample_ids2 ''o0'' ''o0'', 1, RecordUnknown sample_claim sample_action ''TimeoutError''),
      (sample_ids2 ''e1'' ''o1'', 2, Reconcile (StartAttempt sample_attempt sample_provider 0)),
      (sample_ids2 ''e2'' ''o2'', 3, Reconcile (FinishAttempt sample_attempt sample_provider SUCCESS 1 (Some sample_finding) None None)),
      (sample_ids2 ''e3'' ''o3'', 4, Reconcile (AppendTransition ''x'' UNKNOWN 2 (ByFinding sample_finding) (Some sample_provider) (Some ''a1''))),
      (sample_ids2 ''u'' ''y'', 6, Acquire ''n'' ''k'' (replicate 64 (CHR ''b'')) 1)]"

definition sample_idem :: "idem_state \<Rightarrow> string \<Rightarrow> time \<Rightarrow> idem_row" where
  "sample_idem st e now = \<lparr>ir_eid = ''x'', ir_namespace = ''n'', ir_key = ''k'', ir_generation = 1,
     ir_fingerprint = replicate 64 (CHR ''b''), ir_state = st, ir_result = None, ir_error = Some e, ir_owner_token = None,
     ir_lease = None, ir_updated_at = now\<rparr>"

definition sample_db :: "idem_row list \<Rightarrow> (nat \<Rightarrow> future) \<Rightarrow> Head \<Rightarrow> Record list \<Rightarrow> outbox_row list \<Rightarrow> db" where
  "sample_db rows fut h rs obs =
     \<lparr>db_has_idempotency = True, db_has_ledger = True, db_idem = rows, db_prepared = Map.empty,
      db_heads = [''x'' \<mapsto> h], db_events = rs, db_outbox = obs, db_futures = fut\<rparr>"

lemma sample_names: "IDENTIFIER ''unknown_recorded''" "IDENTIFIER ''attempt_started''" "IDENTIFIER ''attempt_finished''"
    "IDENTIFIER ''transition_recorded''"
    "EXECUTION_RECORD_ID ''o0''" "EXECUTION_RECORD_ID ''o1''" "EXECUTION_RECORD_ID ''o2''" "EXECUTION_RECORD_ID ''o3''"
    "IDENTIFIER ''n''" "IDEMPOTENCY_IDENTIFIER ''n''" "IDEMPOTENCY_IDENTIFIER ''k''" "is_digest (replicate 64 (CHR ''b''))"
  by (simp_all add: sample_checks IDEMPOTENCY_IDENTIFIER_def)

lemma service_step1:
  "fst (du_exec sample_env 10 (sample_ids2 ''t'' ''x'', 0, Acquire ''n'' ''k'' (replicate 64 (CHR ''b'')) 0) (empty_db True True)) =
     (empty_db True True)\<lparr>db_idem := [pending_row ''x'' ''n'' ''k'' 1 (replicate 64 (CHR ''b'')) ''t'' 10 0]\<rparr>"
  by (simp add: si_acquire_def validate_idem_identifier_def raise_if_def sample_names latest_row_def empty_db_def
      commit_def grant_def insert_idem_def idem_check_def pending_row_def sample_ids2_def Let_def fun_upd_idem)

lemma sample_dict_dump: "dump sample_env (JObj (UnknownAction_to_dict sample_action)) = Inr []"
  by (rule sample_dump) (simp add: UnknownAction_to_dict_def sample_limits sample_action_def)

lemma service_step2:
  obtains r fut where "sample_event ''o0'' 0 ''unknown_recorded'' r"
    "fst (du_exec sample_env 10 (sample_ids2 ''o0'' ''o0'', 1, RecordUnknown sample_claim sample_action ''TimeoutError'')
        ((empty_db True True)\<lparr>db_idem := [pending_row ''x'' ''n'' ''k'' 1 (replicate 64 (CHR ''b'')) ''t'' 10 0]\<rparr>)) =
     sample_db [sample_idem IS_UNKNOWN ''TimeoutError: execution outcome is unknown'' 1] fut (unknown_head sample_action 1) [] [r]"
proof -
  let ?d = "(empty_db True True)\<lparr>db_idem := [pending_row ''x'' ''n'' ''k'' 1 (replicate 64 (CHR ''b'')) ''t'' 10 0]\<rparr>"
  let ?d1 = "?d\<lparr>db_idem := [sample_idem IS_UNKNOWN ''TimeoutError: execution outcome is unknown'' 1]\<rparr>"
  let ?d2 = "?d1\<lparr>db_heads := [''x'' \<mapsto> unknown_head sample_action 1]\<rparr>"
  have c: "validate_unknown_claim sample_env sample_claim sample_action = Inr ()"
    by (simp add: validate_unknown_claim_def sample_claim_def sample_ids idempotency_namespace_digest_def raise_if_def
        sample_action_def require_identifier_def sample_names)
  have u: "update_idem (claim_row sample_claim) (unknown_row ''TimeoutError: execution outcome is unknown'' 1) ?d = Inr (?d1, 1)"
    by (simp add: update_idem_def claim_row_def sample_claim_def pending_row_def unknown_row_def idem_check_def
        upd_where_def rowcount_def sample_idem_def)
  obtain r where r: "sample_event ''o0'' 0 ''unknown_recorded'' r"
    "enqueue_outbox sample_env ''o0'' 1 (unknown_head sample_action 1) ''unknown_recorded'' None None None None None None None ?d2
       = Inr (?d2\<lparr>db_outbox := db_outbox ?d2 @ [r]\<rparr>, ''o0'')"
    by (rule sample_enqueue[where h = "unknown_head sample_action 1" and n = 0 and p = None and f = None and ev = None and d = ?d2
          and et = "''unknown_recorded''" and i = "''o0''"])
       (simp_all add: unknown_head_def sample_names MAX_SAFE_INTEGER_def empty_db_def)
  have "add_unknown_head sample_env ''o0'' 1 sample_action 1 ?d1 = Inr (?d2\<lparr>db_outbox := [r]\<rparr>, unknown_head sample_action 1)"
    using r(2)
    by (simp add: add_unknown_head_def sample_dict_dump insert_head_def sample_ids unknown_head_built empty_db_def)
  then have "sl_record_unknown sample_env (sample_ids2 ''o0'' ''o0'') 1 ?d sample_claim sample_action ''TimeoutError'' =
      (set_future 0 (OutcomeUnknown ''TimeoutError: execution outcome is unknown'' (Some ''x'')) (?d2\<lparr>db_outbox := [r]\<rparr>),
       Inr (unknown_head sample_action 1))"
    using c u by (simp add: sl_record_unknown_def Let_def commit_def sample_ids2_def sample_claim_def) (simp add: empty_db_def)
  then show thesis
    using that[OF r(1)] by (simp add: set_future_def empty_db_def sample_db_def)
qed

lemma sample_current:
  assumes "0 \<le> n"
  shows "sl_current sample_env (sample_db rows fut ((unknown_head sample_action t)\<lparr>hd_revision := n\<rparr>) rs obs) ''x'' =
     Inr ((unknown_head sample_action t)\<lparr>hd_revision := n\<rparr>)"
proof -
  have "head_stable sample_env ((unknown_head sample_action t)\<lparr>hd_revision := n\<rparr>)"
    using assms action_reload[OF sample_action_built]
    by (simp add: head_stable_def unknown_head_def Head_post_init_def raise_if_def bounded_result_def)
  from load_head_stable[OF this] show ?thesis
    by (simp add: sl_current_def sample_db_def require_execution_record_id_def raise_if_def sample_ids)
qed

lemma sample_attempt_records:
  assumes "rs \<in> {[], [sample_started], [sample_started, sample_finished]}"
  shows "sl_attempt_records sample_env (sample_db rows fut h rs obs) ''x'' = Inr rs"
proof -
  have "filter is_attempt (records_of (sample_db rows fut h rs obs) ''x'') = rs"
    using assms
    by (auto simp: records_of_def sample_db_def sample_started_def sample_finished_def sample_record_def is_attempt_def)
  moreover have "load_records sample_env rs = Inr rs"
    using assms sample_record_built by (intro load_records_stable) auto
  ultimately show ?thesis by (simp add: sl_attempt_records_def)
qed

lemma sample_append_attempt:
  assumes rec: "attempt_record sample_env (ids 0) ((unknown_head sample_action t)\<lparr>hd_revision := n\<rparr>) rs ''x'' sample_action n kind u pl = Inr r"
    and rs: "rs \<in> {[], [sample_started]}" and n: "n = int (length rs)"
    and r: "r \<in> {sample_started, sample_finished}" "rc_event_id r \<notin> rc_event_id ` set rs" "rc_revision r = n + 1"
      "payload_attempt pl = payload_attempt (rc_payload r)"
    and f: "f = None \<or> f = Some sample_finding"
    and et: "IDENTIFIER et" "EXECUTION_RECORD_ID (ids 1)"
    and obs: "list_all (\<lambda>r. ob_outbox_id r \<noteq> ids 1 \<and> ob_revision r \<noteq> n + 1) obs"
  shows "\<exists>row. sample_event (ids 1) (n + 1) et row \<and>
    fst (sl_append_attempt sample_env ids now (sample_db rows fut ((unknown_head sample_action t)\<lparr>hd_revision := n\<rparr>) rs obs)
        sample_action n kind u pl et sample_provider out f) =
     sample_db rows fut ((unknown_head sample_action (rc_occurred_at r))\<lparr>hd_revision := n + 1\<rparr>) (rs @ [r]) (obs @ [row])"
proof -
  let ?h = "(unknown_head sample_action t)\<lparr>hd_revision := n\<rparr>"
  let ?h' = "(unknown_head sample_action (rc_occurred_at r))\<lparr>hd_revision := n + 1\<rparr>"
  let ?d = "sample_db rows fut ?h rs obs"
  let ?d2 = "sample_db rows fut ?h' (rs @ [r]) obs"
  have x: "rc_execution_record_id r = ''x''" using r(1) by (auto simp: sample_started_def sample_finished_def sample_record_def)
  have "cas_head ''x'' (hd_state ?h) (hd_revision ?h)
      (\<lambda>x. x\<lparr>hd_revision := rc_revision r, hd_updated_at := rc_occurred_at r\<rparr>)
      ''reconciliation revision changed before attempt append'' ?d = Inr (sample_db rows fut ?h' rs obs)"
    using r(3) by (simp add: cas_head_def sample_db_def unknown_head_def)
  moreover have "insert_event sample_env r (sample_db rows fut ?h' rs obs) = Inr ?d2"
  proof -
    have "dump sample_env (thaw (JObj (payload_dict (rc_payload r)))) = Inr []"
      using r(1) by (intro sample_dump) (auto simp: sample_limits sample_started_def sample_finished_def sample_record_def
          Finding_to_dict_def sample_finding_def)
    moreover have "\<not> list_ex (\<lambda>x. rc_event_id x = rc_event_id r) rs" using r(2) unfolding list_ex_iff image_iff by metis
    moreover have "\<not> list_ex (\<lambda>x. rc_execution_record_id x = rc_execution_record_id r \<and> rc_revision x = rc_revision r) rs"
      using rs r(3) n by (auto simp: sample_started_def sample_record_def)
    ultimately show ?thesis using x by (simp add: insert_event_def sample_db_def)
  qed
  moreover have "advanced_head sample_env ?h r = Inr ?h'"
    using sample_advanced[where r = r and t = t and n = n and env = sample_env] r(3) n by simp
  moreover obtain row where row: "sample_event (ids 1) (n + 1) et row"
    "enqueue_outbox sample_env (ids 1) now ?h' et (Some sample_provider) (payload_attempt (rc_payload r)) out f None None None ?d2 =
       Inr (?d2\<lparr>db_outbox := db_outbox ?d2 @ [row]\<rparr>, ids 1)"
    by (rule sample_enqueue[where h = ?h' and n = "n + 1" and p = "Some sample_provider" and f = f and ev = None and d = ?d2
          and et = et and i = "ids 1"])
       (use f et obs n rs in \<open>auto simp: unknown_head_def MAX_SAFE_INTEGER_def sample_db_def\<close>)
  ultimately have w: "write_attempt sample_env (ids 1) now ?h r et sample_provider out f ?d =
      Inr (sample_db rows fut ?h' (rs @ [r]) (obs @ [row]), r, ?h')"
    using x by (simp add: write_attempt_def) (simp add: sample_db_def)
  have c: "sl_current sample_env ?d ''x'' = Inr ?h" by (rule sample_current) (use n in simp)
  have q: "sl_attempt_records sample_env ?d ''x'' = Inr rs" by (rule sample_attempt_records) (use rs in auto)
  have "fst (sl_append_attempt sample_env ids now ?d sample_action n kind u pl et sample_provider out f) =
      sample_db rows fut ?h' (rs @ [r]) (obs @ [row])"
    by (simp add: sl_append_attempt_def Let_def sample_ids commit_def w[unfolded One_nat_def] c q rec)
  then show ?thesis using row(1) by blast
qed

lemma service_step3:
  assumes "sample_event ''o0'' 0 ''unknown_recorded'' r0"
  obtains r where "sample_event ''o1'' 1 ''attempt_started'' r"
    "fst (du_exec sample_env 10 (sample_ids2 ''e1'' ''o1'', 2, Reconcile (StartAttempt sample_attempt sample_provider 0))
        (sample_db rows fut (unknown_head sample_action 1) [] [r0])) =
     sample_db rows fut ((unknown_head sample_action 2)\<lparr>hd_revision := 1\<rparr>) [sample_started] [r0, r]"
proof -
  have h: "(unknown_head sample_action t)\<lparr>hd_revision := 0\<rparr> = unknown_head sample_action t" for t
    by (simp add: unknown_head_def)
  have rec: "attempt_record sample_env (sample_ids2 ''e1'' ''o1'' 0) ((unknown_head sample_action 1)\<lparr>hd_revision := 0\<rparr>) [] ''x''
      sample_action 0 ATTEMPT_STARTED 2 (StartPayload ''a1'' 100 (VInt 1) ''p'') = Inr sample_started"
    using sample_record_built(1)
    by (simp add: attempt_record_def sample_action_same unknown_head_def require_cas_def raise_if_def sample_ids2_def
        validate_attempt_append_def unmatched_attempt_start_records_def sample_started_def sample_record_def)
  have ex: "\<exists>r. sample_event (sample_ids2 ''e1'' ''o1'' 1) (0 + 1) ''attempt_started'' r \<and>
    fst (sl_append_attempt sample_env (sample_ids2 ''e1'' ''o1'') 2
        (sample_db rows fut ((unknown_head sample_action 1)\<lparr>hd_revision := 0\<rparr>) [] [r0])
        sample_action 0 ATTEMPT_STARTED 2 (StartPayload ''a1'' 100 (VInt 1) ''p'') ''attempt_started'' sample_provider None None) =
     sample_db rows fut ((unknown_head sample_action (rc_occurred_at sample_started))\<lparr>hd_revision := 0 + 1\<rparr>) ([] @ [sample_started]) ([r0] @ [r])"
    by (rule sample_append_attempt[where ids = "sample_ids2 ''e1'' ''o1''", OF rec])
       (use assms in \<open>auto simp: sample_started_def sample_record_def sample_event_def sample_ids2_def sample_names\<close>)
  then obtain r where r: "sample_event (sample_ids2 ''e1'' ''o1'' 1) (0 + 1) ''attempt_started'' r"
    "fst (sl_append_attempt sample_env (sample_ids2 ''e1'' ''o1'') 2
        (sample_db rows fut ((unknown_head sample_action 1)\<lparr>hd_revision := 0\<rparr>) [] [r0])
        sample_action 0 ATTEMPT_STARTED 2 (StartPayload ''a1'' 100 (VInt 1) ''p'') ''attempt_started'' sample_provider None None) =
     sample_db rows fut ((unknown_head sample_action (rc_occurred_at sample_started))\<lparr>hd_revision := 0 + 1\<rparr>) ([] @ [sample_started]) ([r0] @ [r])" by blast
  show thesis
    by (rule that[of r])
       (use r in \<open>simp_all add: h sample_ids2_def fst_out_of sl_start_attempt_def sample_start_payload sample_ids\<close>,
        simp add: sample_started_def sample_record_def)
qed

lemma service_step4:
  assumes "sample_event ''o0'' 0 ''unknown_recorded'' r0" "sample_event ''o1'' 1 ''attempt_started'' r1"
  obtains r where "sample_event ''o2'' 2 ''attempt_finished'' r"
    "fst (du_exec sample_env 10 (sample_ids2 ''e2'' ''o2'', 3,
          Reconcile (FinishAttempt sample_attempt sample_provider SUCCESS 1 (Some sample_finding) None None))
        (sample_db rows fut ((unknown_head sample_action 2)\<lparr>hd_revision := 1\<rparr>) [sample_started] [r0, r1])) =
     sample_db rows fut ((unknown_head sample_action 3)\<lparr>hd_revision := 2\<rparr>) [sample_started, sample_finished] [r0, r1, r]"
proof -
  have rec: "attempt_record sample_env (sample_ids2 ''e2'' ''o2'' 0) ((unknown_head sample_action 2)\<lparr>hd_revision := 1\<rparr>) [sample_started] ''x''
      sample_action 1 ATTEMPT_FINISHED 3 (FinishPayload ''a1'' ''p'' SUCCESS (Some sample_finding) None) = Inr sample_finished"
    using sample_finish_record by (simp add: sample_ids2_def)
  have ex: "\<exists>r. sample_event (sample_ids2 ''e2'' ''o2'' 1) (1 + 1) ''attempt_finished'' r \<and>
    fst (sl_append_attempt sample_env (sample_ids2 ''e2'' ''o2'') 3
        (sample_db rows fut ((unknown_head sample_action 2)\<lparr>hd_revision := 1\<rparr>) [sample_started] [r0, r1])
        sample_action 1 ATTEMPT_FINISHED 3 (FinishPayload ''a1'' ''p'' SUCCESS (Some sample_finding) None) ''attempt_finished''
        sample_provider (Some SUCCESS) (Some sample_finding)) =
     sample_db rows fut ((unknown_head sample_action (rc_occurred_at sample_finished))\<lparr>hd_revision := 1 + 1\<rparr>)
       ([sample_started] @ [sample_finished]) ([r0, r1] @ [r])"
    by (rule sample_append_attempt[where ids = "sample_ids2 ''e2'' ''o2''", OF rec])
       (use assms in \<open>auto simp: sample_started_def sample_finished_def sample_record_def sample_event_def sample_ids2_def sample_names\<close>)
  from ex obtain r where r: "sample_event (sample_ids2 ''e2'' ''o2'' 1) (1 + 1) ''attempt_finished'' r"
    "fst (sl_append_attempt sample_env (sample_ids2 ''e2'' ''o2'') 3
        (sample_db rows fut ((unknown_head sample_action 2)\<lparr>hd_revision := 1\<rparr>) [sample_started] [r0, r1])
        sample_action 1 ATTEMPT_FINISHED 3 (FinishPayload ''a1'' ''p'' SUCCESS (Some sample_finding) None) ''attempt_finished''
        sample_provider (Some SUCCESS) (Some sample_finding)) =
     sample_db rows fut ((unknown_head sample_action (rc_occurred_at sample_finished))\<lparr>hd_revision := 1 + 1\<rparr>)
       ([sample_started] @ [sample_finished]) ([r0, r1] @ [r])" by blast
  have t: "rc_occurred_at sample_finished = 3" by (simp add: sample_finished_def sample_record_def)
  show thesis
    by (rule that[of r])
       (use r t in \<open>simp_all add: sample_ids2_def fst_out_of sl_finish_attempt_def sample_start_payload sample_finish_payload sample_ids\<close>)
qed

lemma service_step5:
  assumes "sample_event ''o0'' 0 ''unknown_recorded'' r0" "sample_event ''o1'' 1 ''attempt_started'' r1"
    "sample_event ''o2'' 2 ''attempt_finished'' r2"
  obtains r where "sample_event ''o3'' 3 ''transition_recorded'' r"
    "fst (du_exec sample_env 10 (sample_ids2 ''e3'' ''o3'', 4,
          Reconcile (AppendTransition ''x'' UNKNOWN 2 (ByFinding sample_finding) (Some sample_provider) (Some ''a1'')))
        (sample_db [sample_idem IS_UNKNOWN e 1] fut ((unknown_head sample_action 3)\<lparr>hd_revision := 2\<rparr>)
           [sample_started, sample_finished] [r0, r1, r2])) =
     sample_db [sample_idem IS_NOT_APPLIED ''confirmed not applied'' 5] fut sample_head
       [sample_started, sample_finished, sample_resolved] [r0, r1, r2, r]"
proof -
  let ?h = "(unknown_head sample_action 3)\<lparr>hd_revision := 2\<rparr>"
  let ?rs = "[sample_started, sample_finished]"
  let ?d = "sample_db [sample_idem IS_UNKNOWN e 1] fut ?h ?rs [r0, r1, r2]"
  let ?d2 = "sample_db [sample_idem IS_UNKNOWN e 1] fut sample_head [sample_started, sample_finished, sample_resolved] [r0, r1, r2]"
  let ?d3 = "sample_db [sample_idem IS_NOT_APPLIED ''confirmed not applied'' 5] fut sample_head [sample_started, sample_finished, sample_resolved] [r0, r1, r2]"
  have head: "hd_action ?h = sample_action" "hd_state ?h = UNKNOWN" "hd_revision ?h = 2" by (simp_all add: unknown_head_def)
  have cas: "cas_head ''x'' UNKNOWN 2
       (\<lambda>x. x\<lparr>hd_state := hd_state sample_head, hd_revision := hd_revision sample_head,
              hd_disposition := hd_disposition sample_head, hd_result_available := hd_result_available sample_head,
              hd_result := hd_result sample_head, hd_updated_at := hd_updated_at sample_head\<rparr>) m ?d =
     Inr (sample_db [sample_idem IS_UNKNOWN e 1] fut sample_head ?rs [r0, r1, r2])" for m
    by (simp add: cas_head_def sample_db_def head) (simp add: unknown_head_def sample_head_def)
  have "dump sample_env (thaw (JObj (payload_dict (rc_payload sample_resolved)))) = Inr []"
    by (rule sample_dump) (simp add: sample_limits sample_resolved_def sample_transition_def Transition_to_dict_def)
  then have ins: "insert_event sample_env sample_resolved (sample_db [sample_idem IS_UNKNOWN e 1] fut sample_head ?rs [r0, r1, r2]) = Inr ?d2"
    by (simp add: insert_event_def sample_db_def sample_resolved_def sample_started_def sample_finished_def sample_record_def)
  have upd: "update_disposition sample_env sample_head ?d2 = Inr ?d3"
    by (simp add: update_disposition_def sample_db_def idempotency_disposition_def sample_head_def update_idem_def sample_ids
        sample_idem_def idem_check_def upd_where_def rowcount_def)
  obtain r where r: "sample_event ''o3'' 3 ''transition_recorded'' r"
    "enqueue_outbox sample_env ''o3'' 4 sample_head ''transition_recorded'' (Some sample_provider) (Some ''a1'') (Some SUCCESS) None
       (Some ''receipt'') (Some [(''found'', JBool False)]) None ?d3 = Inr (?d3\<lparr>db_outbox := db_outbox ?d3 @ [r]\<rparr>, ''o3'')"
    by (rule sample_enqueue[where h = sample_head and n = 3 and p = "Some sample_provider" and f = None
          and ev = "Some [(''found'', JBool False)]" and d = ?d3 and et = "''transition_recorded''" and i = "''o3''"])
       (use assms in \<open>auto simp: sample_head_def MAX_SAFE_INTEGER_def sample_db_def sample_names sample_event_def\<close>)
  have tn: "tn_source sample_transition = PROVIDER" "tn_evidence_kind sample_transition = ''receipt''"
      "tn_evidence sample_transition = [(''found'', JBool False)]" "tn_operator_identity_digest sample_transition = None"
      "transition_event sample_transition = ''transition_recorded''"
    by (simp_all add: sample_transition_def transition_event_def)
  have avail: "hd_result_available sample_head = False" by (simp add: sample_head_def)
  have w: "write_transition sample_env ''e3'' ''o3'' 4 ?h sample_transition m (Some sample_provider) (Some ''a1'')
      ''transition_recorded'' ?d = Inr (?d3\<lparr>db_outbox := [r0, r1, r2, r]\<rparr>, sample_head)" for m
    by (simp add: write_transition_def head sample_evidence sample_resolution sample_ids avail cas[unfolded avail] ins upd tn r(2))
       (simp add: sample_db_def)
  have c: "sl_current sample_env ?d ''x'' = Inr ?h" by (rule sample_current) simp
  have q: "sl_attempt_records sample_env ?d ''x'' = Inr ?rs" by (rule sample_attempt_records) simp
  have "require_cas ?h UNKNOWN 2 = Inr ()" by (simp add: require_cas_def head raise_if_def)
  then have "fst (sl_compare_and_append sample_env (sample_ids2 ''e3'' ''o3'') 4 ?d ''x'' UNKNOWN 2 (ByFinding sample_finding)
      (Some sample_provider) (Some ''a1'')) = ?d3\<lparr>db_outbox := [r0, r1, r2, r]\<rparr>"
    by (simp add: sl_compare_and_append_def commit_def c q sample_build sample_attested tn w sample_ids2_def
        del: build_transition.simps)
  then show thesis by (intro that[OF r(1)]) (simp add: fst_out_of sample_db_def)
qed

lemma service_step6:
  "du_exec sample_env 10 (sample_ids2 ''u'' ''y'', 6, Acquire ''n'' ''k'' (replicate 64 (CHR ''b'')) 1)
     (sample_db [sample_idem IS_NOT_APPLIED e 5] fut h rs obs) =
   (sample_db [sample_idem IS_NOT_APPLIED e 5, pending_row ''y'' ''n'' ''k'' 2 (replicate 64 (CHR ''b'')) ''u'' 16 6]
      (fut(1 := NotDone)) h rs obs,
    Inr (GotClaim (sample_claim\<lparr>cl_future := 1, cl_owner_token := Some ''u'', cl_execution_record_id := Some ''y'',
      cl_generation := Some 2\<rparr>)))"
  by (simp add: si_acquire_def validate_idem_identifier_def raise_if_def sample_names latest_row_def sample_db_def
      commit_def grant_def insert_idem_def idem_check_def pending_row_def sample_ids2_def Let_def sample_idem_def
      si_acquire_row_def result_as_def sample_claim_def)

definition sample_service :: "nat \<Rightarrow> db" where
  "sample_service n = run_states (\<lambda>c d. fst (du_exec sample_env 10 c d)) (take n sample_service_calls) (empty_db True True)"

lemma sample_service_step:
  "n < length sample_service_calls \<Longrightarrow>
     sample_service (Suc n) = fst (du_exec sample_env 10 (sample_service_calls ! n) (sample_service n))"
  by (simp add: sample_service_def take_Suc_conv_app_nth)

lemmas sample_service_next =
  sample_service_step[of 0] sample_service_step[of 1] sample_service_step[of 2] sample_service_step[of 3]
  sample_service_step[of 4] sample_service_step[of 5]

lemma sample_service_unfold:
  "sample_service 1 = (empty_db True True)\<lparr>db_idem := [pending_row ''x'' ''n'' ''k'' 1 (replicate 64 (CHR ''b'')) ''t'' 10 0]\<rparr>"
  "sample_service 2 = fst (du_exec sample_env 10 (sample_ids2 ''o0'' ''o0'', 1,
     RecordUnknown sample_claim sample_action ''TimeoutError'') (sample_service 1))"
  "sample_service 3 = fst (du_exec sample_env 10 (sample_ids2 ''e1'' ''o1'', 2,
     Reconcile (StartAttempt sample_attempt sample_provider 0)) (sample_service 2))"
  "sample_service 4 = fst (du_exec sample_env 10 (sample_ids2 ''e2'' ''o2'', 3,
     Reconcile (FinishAttempt sample_attempt sample_provider SUCCESS 1 (Some sample_finding) None None)) (sample_service 3))"
  "sample_service 5 = fst (du_exec sample_env 10 (sample_ids2 ''e3'' ''o3'', 4,
     Reconcile (AppendTransition ''x'' UNKNOWN 2 (ByFinding sample_finding) (Some sample_provider) (Some ''a1'')))
     (sample_service 4))"
  using sample_service_next service_step1
  by (simp_all add: sample_service_calls_def sample_service_def[of 0] numeral_eq_Suc del: du_exec.simps)

lemma sample_service_states:
  obtains r0 r1 r2 r3 fut where
    "sample_event ''o0'' 0 ''unknown_recorded'' r0" "sample_event ''o1'' 1 ''attempt_started'' r1"
    "sample_event ''o2'' 2 ''attempt_finished'' r2" "sample_event ''o3'' 3 ''transition_recorded'' r3"
    "sample_service 2 = sample_db [sample_idem IS_UNKNOWN ''TimeoutError: execution outcome is unknown'' 1] fut
       (unknown_head sample_action 1) [] [r0]"
    "sample_service 5 = sample_db [sample_idem IS_NOT_APPLIED ''confirmed not applied'' 5] fut sample_head
       [sample_started, sample_finished, sample_resolved] [r0, r1, r2, r3]"
proof -
  obtain r0 fut where 0: "sample_event ''o0'' 0 ''unknown_recorded'' r0"
    and s2: "sample_service 2 = sample_db [sample_idem IS_UNKNOWN ''TimeoutError: execution outcome is unknown'' 1] fut
      (unknown_head sample_action 1) [] [r0]"
    unfolding sample_service_unfold(2) sample_service_unfold(1) by (rule service_step2)
  obtain r1 where 1: "sample_event ''o1'' 1 ''attempt_started'' r1"
    and s3: "sample_service 3 = sample_db [sample_idem IS_UNKNOWN ''TimeoutError: execution outcome is unknown'' 1] fut
      ((unknown_head sample_action 2)\<lparr>hd_revision := 1\<rparr>) [sample_started] [r0, r1]"
    unfolding sample_service_unfold(3) s2 by (rule service_step3[OF 0])
  obtain r2 where 2: "sample_event ''o2'' 2 ''attempt_finished'' r2"
    and s4: "sample_service 4 = sample_db [sample_idem IS_UNKNOWN ''TimeoutError: execution outcome is unknown'' 1] fut
      ((unknown_head sample_action 3)\<lparr>hd_revision := 2\<rparr>) [sample_started, sample_finished] [r0, r1, r2]"
    unfolding sample_service_unfold(4) s3 by (rule service_step4[OF 0 1])
  obtain r3 where 3: "sample_event ''o3'' 3 ''transition_recorded'' r3"
    and s5: "sample_service 5 = sample_db [sample_idem IS_NOT_APPLIED ''confirmed not applied'' 5] fut sample_head
       [sample_started, sample_finished, sample_resolved] [r0, r1, r2, r3]"
    unfolding sample_service_unfold(5) s4 by (rule service_step5[OF 0 1 2])
  show thesis by (rule that[OF 0 1 2 3 s2 s5])
qed

lemma sample_service_lawful: "list_all (du_lawful sample_env) sample_service_calls"
  by (simp add: sample_service_calls_def sample_action_built sample_finding_built)

lemma sample_service_reachable:
  assumes "m \<le> n"
  shows "reachable sample_env 10 (sample_service m) (sample_service n)"
proof -
  have run: "reachable sample_env 10 d (run_states (\<lambda>c d. fst (du_exec sample_env 10 c d)) cs d)"
    if "list_all (du_lawful sample_env) cs" for cs d
    using that
  proof (induction cs rule: rev_induct)
    case (snoc c cs)
    then show ?case by (auto intro: reachable.further service_step.authority)
  qed (simp add: reachable.initial)
  let ?cs = "drop m (take n sample_service_calls)"
  have "take n sample_service_calls = take m sample_service_calls @ ?cs"
    using assms append_take_drop_id[of m "take n sample_service_calls"] by (simp add: min_absorb1)
  then have "sample_service n = run_states (\<lambda>c d. fst (du_exec sample_env 10 c d)) ?cs (sample_service m)"
    unfolding sample_service_def by (metis run_states_append)
  moreover have "list_all (du_lawful sample_env) ?cs"
    using sample_service_lawful by (metis append_take_drop_id list_all_append)
  ultimately show ?thesis using run by simp
qed

lemma sample_service_0: "sample_service 0 = empty_db True True"
  by (simp add: sample_service_def)

end
