(* ===== verification/MemoryIdempotency.thy ===== *)
theory MemoryIdempotency
  imports Database ClaimContract
begin

text \<open>
  \<open>InMemoryIdempotencyStore\<close> (\<open>registry.py\<close>): process-local claims with a bounded cache of finished
  outcomes.  The futures are cells of an explicit heap, so that \<open>entry.future is claim.future\<close> is
  equality of indices; every reading of the monotonic clock is an argument.
\<close>

section \<open>The store\<close>

record mem_config =
  mc_max_completed :: int
  mc_ttl :: time

definition mem_config_ok :: "mem_config \<Rightarrow> unit res" where
  "mem_config_ok cfg =
     seqR (raise_if (mc_max_completed cfg < 1) (ValueError ''max_completed_entries must be at least one''))
       (raise_if (mc_ttl cfg \<le> 0) (ValueError ''completed_ttl_seconds must be positive''))"

record mem_entry =
  me_fingerprint :: string
  me_future :: nat
  me_eid :: string

type_synonym storage_key = "string \<times> string"

record mem_store =
  ms_entries :: "storage_key \<rightharpoonup> mem_entry"
  ms_completed :: "(storage_key \<times> time) list"
  ms_futures :: "future list"

definition empty_mem :: mem_store where
  "empty_mem = \<lparr>ms_entries = Map.empty, ms_completed = [], ms_futures = []\<rparr>"

definition future_done :: "future list \<Rightarrow> nat \<Rightarrow> bool" where
  "future_done fs i \<longleftrightarrow> i < length fs \<and> fs ! i \<noteq> NotDone"

definition resolve :: "nat \<Rightarrow> future \<Rightarrow> mem_store \<Rightarrow> mem_store" where
  "resolve i f s = (if future_done (ms_futures s) i then s else s\<lparr>ms_futures := (ms_futures s)[i := f]\<rparr>)"

definition claim_key :: "IdempotencyClaim \<Rightarrow> storage_key" where
  "claim_key c = (cl_namespace c, cl_key c)"

definition remember_completed :: "storage_key \<Rightarrow> time \<Rightarrow> mem_store \<Rightarrow> mem_store" where
  "remember_completed k now s = s\<lparr>ms_completed := filter (\<lambda>x. fst x \<noteq> k) (ms_completed s) @ [(k, now)]\<rparr>"

text \<open>The loop of \<open>_evict_completed\<close>, oldest first.\<close>

fun evict_loop ::
  "int \<Rightarrow> time \<Rightarrow> future list \<Rightarrow> (storage_key \<times> time) list \<Rightarrow> (storage_key \<rightharpoonup> mem_entry) \<Rightarrow>
   (storage_key \<times> time) list \<times> (storage_key \<rightharpoonup> mem_entry)" where
  "evict_loop mx cutoff fs [] entries = ([], entries)"
| "evict_loop mx cutoff fs ((k, touched) # rest) entries =
     (if cutoff < touched \<and> int (length ((k, touched) # rest)) \<le> mx then ((k, touched) # rest, entries)
      else evict_loop mx cutoff fs rest
        (case entries k of
           Some e \<Rightarrow> if future_done fs (me_future e) then entries(k := None) else entries
         | None \<Rightarrow> entries))"

definition evict_completed :: "mem_config \<Rightarrow> time \<Rightarrow> mem_store \<Rightarrow> mem_store" where
  "evict_completed cfg now s =
     (case evict_loop (mc_max_completed cfg) (now - mc_ttl cfg) (ms_futures s) (ms_completed s) (ms_entries s) of
        (completed, entries) \<Rightarrow> s\<lparr>ms_completed := completed, ms_entries := entries\<rparr>)"

definition mem_claim :: "storage_key \<Rightarrow> string \<Rightarrow> bool \<Rightarrow> mem_entry \<Rightarrow> IdempotencyClaim" where
  "mem_claim k fp owner e =
     \<lparr>cl_namespace = fst k, cl_key = snd k, cl_fingerprint = fp, cl_owner = owner, cl_future = me_future e,
      cl_owner_token = None, cl_lease_seconds = None, cl_execution_record_id = Some (me_eid e),
      cl_generation = Some 1\<rparr>"

definition mi_acquire ::
  "mem_config \<Rightarrow> string \<Rightarrow> time \<Rightarrow> time \<Rightarrow> mem_store \<Rightarrow> string \<Rightarrow> string \<Rightarrow> string \<Rightarrow> mem_store \<times> IdempotencyClaim res"
  where
  "mi_acquire cfg new_id now now' s ns key fp =
     (let k = (ns, key); s1 = evict_completed cfg now s in
      case ms_entries s1 k of
        None \<Rightarrow>
          let e = \<lparr>me_fingerprint = fp, me_future = length (ms_futures s1), me_eid = new_id\<rparr> in
          (s1\<lparr>ms_entries := (ms_entries s1)(k \<mapsto> e), ms_futures := ms_futures s1 @ [NotDone]\<rparr>,
           Inr (mem_claim k fp True e))
      | Some e \<Rightarrow>
          if me_fingerprint e \<noteq> fp
          then (s1, Inl (IdempotencyConflictError ''idempotency key was already used with different parameters''))
          else (if future_done (ms_futures s1) (me_future e) then remember_completed k now' s1 else s1,
                Inr (mem_claim k fp False e)))"

definition mi_complete ::
  "mem_config \<Rightarrow> time \<Rightarrow> time \<Rightarrow> mem_store \<Rightarrow> IdempotencyClaim \<Rightarrow> json \<Rightarrow> mem_store \<times> unit res" where
  "mi_complete cfg now now' s c result =
     (if \<not> cl_owner c then (s, Inr ())
      else case (if future_done (ms_futures s) (cl_future c) then Inr JNull
                 else canonical_json ''idempotency result'' result) of
        Inl e \<Rightarrow> (s, Inl e)
      | Inr v \<Rightarrow>
          (evict_completed cfg now'
             (remember_completed (claim_key c) now (resolve (cl_future c) (Resolved v) s)), Inr ()))"

definition mi_fail :: "mem_store \<Rightarrow> IdempotencyClaim \<Rightarrow> exn \<Rightarrow> mem_store \<times> unit res" where
  "mi_fail s c e =
     (if \<not> cl_owner c then (s, Inr ())
      else
        let k = claim_key c;
            s1 = (case ms_entries s k of
                    Some x \<Rightarrow>
                      if me_future x = cl_future c
                      then s\<lparr>ms_entries := (ms_entries s)(k := None),
                             ms_completed := filter (\<lambda>y. fst y \<noteq> k) (ms_completed s)\<rparr>
                      else s
                  | None \<Rightarrow> s) in
        (resolve (cl_future c) (Failed e) s1, Inr ()))"

definition mi_mark_unknown ::
  "mem_config \<Rightarrow> time \<Rightarrow> time \<Rightarrow> mem_store \<Rightarrow> IdempotencyClaim \<Rightarrow> exn \<Rightarrow> mem_store \<times> unit res" where
  "mi_mark_unknown cfg now now' s c e =
     (if \<not> cl_owner c then (s, Inr ())
      else (evict_completed cfg now'
              (remember_completed (claim_key c) now
                 (resolve (cl_future c) (OutcomeUnknown (exn_msg e) (cl_execution_record_id c)) s)), Inr ()))"

definition mi_renew :: "mem_store \<Rightarrow> IdempotencyClaim \<Rightarrow> mem_store \<times> unit res" where
  "mi_renew s c =
     (s, raise_if (\<not> cl_owner c) (RuntimeError ''only an idempotency owner can renew a claim''))"

section \<open>Operations as one machine\<close>

datatype mem_op =
    MemAcquire string string string string
  | MemComplete IdempotencyClaim json
  | MemFail IdempotencyClaim exn
  | MemUnknown IdempotencyClaim exn
  | MemRenew IdempotencyClaim

type_synonym mem_call = "time \<times> time \<times> mem_op"

definition as_claim :: "mem_store \<times> unit res \<Rightarrow> mem_store \<times> IdempotencyClaim option res" where
  "as_claim = (\<lambda>(s, r). (s, bindR r (\<lambda>_. Inr None)))"

fun mem_exec :: "mem_config \<Rightarrow> mem_call \<Rightarrow> mem_store \<Rightarrow> mem_store \<times> IdempotencyClaim option res" where
  "mem_exec cfg (now, now', MemAcquire new_id ns key fp) s =
     (case mi_acquire cfg new_id now now' s ns key fp of (s', r) \<Rightarrow> (s', bindR r (\<lambda>c. Inr (Some c))))"
| "mem_exec cfg (now, now', MemComplete c v) s = as_claim (mi_complete cfg now now' s c v)"
| "mem_exec cfg (now, now', MemFail c e) s = as_claim (mi_fail s c e)"
| "mem_exec cfg (now, now', MemUnknown c e) s = as_claim (mi_mark_unknown cfg now now' s c e)"
| "mem_exec cfg (now, now', MemRenew c) s = as_claim (mi_renew s c)"

text \<open>The claim an operation resolves.\<close>

fun ends_claim :: "mem_op \<Rightarrow> IdempotencyClaim option" where
  "ends_claim (MemComplete c v) = Some c"
| "ends_claim (MemFail c e) = Some c"
| "ends_claim (MemUnknown c e) = Some c"
| "ends_claim _ = None"

text \<open>A claim the store issued: its future is a cell, and it is used for no other key.\<close>

definition issued :: "mem_store \<Rightarrow> IdempotencyClaim \<Rightarrow> bool" where
  "issued s c \<longleftrightarrow> cl_future c < length (ms_futures s) \<and>
     (\<forall>k e. ms_entries s k = Some e \<longrightarrow> me_future e = cl_future c \<longrightarrow> k = claim_key c)"

fun mem_lawful :: "mem_call \<Rightarrow> mem_store \<Rightarrow> bool" where
  "mem_lawful (now, now', op) s = (case ends_claim op of Some c \<Rightarrow> issued s c | None \<Rightarrow> True)"

section \<open>Invariant\<close>

definition mem_ok_core :: "mem_store \<Rightarrow> bool" where
  "mem_ok_core s \<longleftrightarrow>
     (\<forall>k e. ms_entries s k = Some e \<longrightarrow> me_future e < length (ms_futures s)) \<and>
     (\<forall>k l e f. ms_entries s k = Some e \<longrightarrow> ms_entries s l = Some f \<longrightarrow> me_future e = me_future f \<longrightarrow> k = l) \<and>
     distinct (map fst (ms_completed s)) \<and>
     (\<forall>k e. ms_entries s k = Some e \<longrightarrow> future_done (ms_futures s) (me_future e) \<longrightarrow> k \<in> fst ` set (ms_completed s))"

definition mem_ok :: "mem_config \<Rightarrow> mem_store \<Rightarrow> bool" where
  "mem_ok cfg s \<longleftrightarrow>
     mem_config_ok cfg = Inr () \<and> mem_ok_core s \<and> int (length (ms_completed s)) \<le> mc_max_completed cfg"

lemma mem_ok_iff:
  "mem_ok cfg s \<longleftrightarrow> 1 \<le> mc_max_completed cfg \<and> 0 < mc_ttl cfg \<and> mem_ok_core s \<and>
     int (length (ms_completed s)) \<le> mc_max_completed cfg"
  by (auto simp: mem_ok_def mem_config_ok_def bindR_eq_Inr)

lemma evict_loop_spec:
  assumes "evict_loop mx cutoff fs xs en = (ys, en')" "0 \<le> mx"
  shows "\<exists>zs. xs = zs @ ys \<and> int (length ys) \<le> mx \<and>
    en' = (\<lambda>k. if k \<in> fst ` set zs \<and> (\<exists>e. en k = Some e \<and> future_done fs (me_future e)) then None else en k)"
  using assms
proof (induction mx cutoff fs xs en rule: evict_loop.induct)
  case (2 mx cutoff fs k touched rest en)
  show ?case
  proof (cases "cutoff < touched \<and> int (length ((k, touched) # rest)) \<le> mx")
    case True
    then show ?thesis using 2(2) by (intro exI[of _ "[]"]) auto
  next
    case False
    let ?en = "case en k of Some e \<Rightarrow> if future_done fs (me_future e) then en(k := None) else en | None \<Rightarrow> en"
    have "evict_loop mx cutoff fs rest ?en = (ys, en')" using 2(2) unfolding evict_loop.simps if_not_P[OF False] .
    from 2(1)[OF False this 2(3)] obtain zs where zs: "rest = zs @ ys" "int (length ys) \<le> mx"
      "en' = (\<lambda>x. if x \<in> fst ` set zs \<and> (\<exists>e. ?en x = Some e \<and> future_done fs (me_future e)) then None else ?en x)"
      by blast
    show ?thesis
    proof (intro exI[of _ "(k, touched) # zs"] conjI)
      show "en' = (\<lambda>x. if x \<in> fst ` set ((k, touched) # zs) \<and> (\<exists>e. en x = Some e \<and> future_done fs (me_future e))
          then None else en x)"
        unfolding zs(3) by (rule ext) (auto split: option.splits)
    qed (use zs in auto)
  qed
qed simp

lemma evict_spec:
  assumes "0 \<le> mc_max_completed cfg"
  obtains zs ys where "ms_completed s = zs @ ys" "ms_completed (evict_completed cfg now s) = ys"
    "int (length ys) \<le> mc_max_completed cfg" "ms_futures (evict_completed cfg now s) = ms_futures s"
    "ms_entries (evict_completed cfg now s) = (\<lambda>k. if k \<in> fst ` set zs \<and>
       (\<exists>e. ms_entries s k = Some e \<and> future_done (ms_futures s) (me_future e)) then None else ms_entries s k)"
proof -
  obtain ys en where l: "evict_loop (mc_max_completed cfg) (now - mc_ttl cfg) (ms_futures s) (ms_completed s) (ms_entries s) = (ys, en)"
    by (rule prod.exhaust)
  then have e: "evict_completed cfg now s = s\<lparr>ms_completed := ys, ms_entries := en\<rparr>" by (simp add: evict_completed_def)
  from evict_loop_spec[OF l assms] obtain zs where zs: "ms_completed s = zs @ ys"
      "int (length ys) \<le> mc_max_completed cfg"
      "en = (\<lambda>k. if k \<in> fst ` set zs \<and> (\<exists>e. ms_entries s k = Some e \<and> future_done (ms_futures s) (me_future e))
        then None else ms_entries s k)" by blast
  show thesis by (rule that[of zs ys]) (use zs e in simp_all)
qed

lemma evict_core: "mem_ok_core s \<Longrightarrow> 0 \<le> mc_max_completed cfg \<Longrightarrow> mem_ok_core (evict_completed cfg now s)"
  by (erule_tac s = s and now = now in evict_spec)
     (auto simp: mem_ok_core_def image_Un split: if_splits, blast)

lemma evict_bound: "0 \<le> mc_max_completed cfg \<Longrightarrow>
    int (length (ms_completed (evict_completed cfg now s))) \<le> mc_max_completed cfg"
  by (erule evict_spec[where s = s and now = now]) simp

lemma remember_core: "mem_ok_core s \<Longrightarrow> mem_ok_core (remember_completed k now s)"
  by (fastforce simp: mem_ok_core_def remember_completed_def distinct_map_filter)

lemma remember_bound:
  assumes "distinct (map fst (ms_completed s))" "k \<in> fst ` set (ms_completed s)"
  shows "length (ms_completed (remember_completed k now s)) = length (ms_completed s)"
proof -
  have "Suc (length (filter (\<lambda>x. fst x \<noteq> k) xs)) = length xs" if "distinct (map fst xs)" "k \<in> fst ` set xs"
    for xs :: "(storage_key \<times> time) list"
    using that
  proof (induction xs)
    case (Cons x xs)
    show ?case
    proof (cases "fst x = k")
      case True
      then have "filter (\<lambda>x. fst x \<noteq> k) xs = xs" using Cons.prems by (intro filter_True) force
      then show ?thesis using True by simp
    qed (use Cons in auto)
  qed simp
  from this[OF assms] show ?thesis by (simp add: remember_completed_def)
qed

lemma done_update:
  "future_done (fs[i := f]) j \<longleftrightarrow> (if i = j \<and> i < length fs then f \<noteq> NotDone else future_done fs j)"
  by (auto simp: future_done_def nth_list_update)

lemma resolve_remember_core:
  assumes ok: "mem_ok_core s" and i: "issued s c"
  shows "mem_ok_core (remember_completed (claim_key c) now (resolve (cl_future c) f s))"
proof (cases "future_done (ms_futures s) (cl_future c)")
  case True
  then show ?thesis using remember_core[OF ok] by (simp add: resolve_def)
next
  case False
  have "k = claim_key c \<or> k \<in> fst ` {x \<in> set (ms_completed s). fst x \<noteq> claim_key c}"
    if "ms_entries s k = Some e" "future_done ((ms_futures s)[cl_future c := f]) (me_future e)" for k e
  proof (cases "me_future e = cl_future c")
    case True
    then show ?thesis using i that(1) unfolding issued_def by blast
  next
    case False
    then have "future_done (ms_futures s) (me_future e)" using that by (auto simp: done_update split: if_splits)
    then have "k \<in> fst ` set (ms_completed s)" using that(1) ok unfolding mem_ok_core_def by blast
    then show ?thesis by force
  qed
  then show ?thesis
    using ok False unfolding mem_ok_core_def
    by (auto simp: remember_completed_def resolve_def distinct_map_filter simp del: split_paired_All)
qed

lemma mi_acquire_ok:
  assumes ok: "mem_ok cfg s" and a: "mi_acquire cfg i now now' s ns key fp = (s', r)"
  shows "mem_ok cfg s'"
proof -
  let ?s1 = "evict_completed cfg now s"
  have cfg: "1 \<le> mc_max_completed cfg" "0 < mc_ttl cfg" and core: "mem_ok_core s" using ok by (auto simp: mem_ok_iff)
  have c1: "mem_ok_core ?s1" using evict_core[OF core] cfg by simp
  have b1: "int (length (ms_completed ?s1)) \<le> mc_max_completed cfg" using evict_bound cfg by simp
  show ?thesis
  proof (cases "ms_entries ?s1 (ns, key)")
    case None
    let ?e = "\<lparr>me_fingerprint = fp, me_future = length (ms_futures ?s1), me_eid = i\<rparr>"
    have s': "s' = ?s1\<lparr>ms_entries := (ms_entries ?s1)((ns, key) \<mapsto> ?e), ms_futures := ms_futures ?s1 @ [NotDone]\<rparr>"
      using a None by (auto simp: mi_acquire_def Let_def)
    have "future_done (ms_futures ?s1 @ [NotDone]) j = future_done (ms_futures ?s1) j" for j
      by (auto simp: future_done_def nth_append less_Suc_eq)
    then have "mem_ok_core s'"
      using c1 unfolding s' mem_ok_core_def by (auto simp: future_done_def less_Suc_eq) fastforce+
    then show ?thesis using b1 cfg s' by (simp add: mem_ok_iff)
  next
    case (Some e)
    have s': "s' = ?s1 \<or> s' = remember_completed (ns, key) now' ?s1 \<and> future_done (ms_futures ?s1) (me_future e)"
      using a Some by (auto simp: mi_acquire_def Let_def split: if_splits)
    have "length (ms_completed s') = length (ms_completed ?s1)"
      using s' remember_bound[of ?s1 "(ns, key)" now'] c1 Some unfolding mem_ok_core_def by blast
    moreover have "mem_ok_core s'" using s' c1 remember_core by auto
    ultimately show ?thesis using b1 cfg by (simp add: mem_ok_iff)
  qed
qed

lemma evict_remember_ok:
  assumes "mem_ok cfg s" "issued s c"
  shows "mem_ok cfg (evict_completed cfg t (remember_completed (claim_key c) now (resolve (cl_future c) f s)))"
  using assms evict_core[OF resolve_remember_core] evict_bound by (simp add: mem_ok_iff)

lemma mi_fail_ok:
  assumes ok: "mem_ok cfg s" and i: "issued s c" and f: "mi_fail s c e = (s', r)"
  shows "mem_ok cfg s'"
proof (cases "cl_owner c")
  case False
  then show ?thesis using ok f by (simp add: mi_fail_def)
next
  case True
  let ?k = "claim_key c"
  have core: "mem_ok_core s" using ok by (simp add: mem_ok_iff)
  show ?thesis
  proof (cases "\<exists>x. ms_entries s ?k = Some x \<and> me_future x = cl_future c")
    case match: True
    let ?s1 = "s\<lparr>ms_entries := (ms_entries s)(?k := None), ms_completed := filter (\<lambda>y. fst y \<noteq> ?k) (ms_completed s)\<rparr>"
    have s': "s' = resolve (cl_future c) (Failed e) ?s1" using f True match by (auto simp: mi_fail_def Let_def)
    have other: "me_future x \<noteq> cl_future c" if "ms_entries s k = Some x" "k \<noteq> ?k" for k x
      using i that unfolding issued_def by blast
    have flds: "ms_entries s' = (ms_entries s)(?k := None)" "length (ms_futures s') = length (ms_futures s)"
      "ms_completed s' = filter (\<lambda>y. fst y \<noteq> ?k) (ms_completed s)"
      "\<And>j. j \<noteq> cl_future c \<Longrightarrow> future_done (ms_futures s') j = future_done (ms_futures s) j"
      unfolding s' by (auto simp: resolve_def done_update)
    have "k \<in> fst ` set (filter (\<lambda>y. fst y \<noteq> ?k) (ms_completed s))"
      if "ms_entries s k = Some x" "k \<noteq> ?k" "future_done (ms_futures s') (me_future x)" for k x
    proof -
      have "k \<in> fst ` set (ms_completed s)" using that core other flds(4) unfolding mem_ok_core_def by blast
      then show ?thesis using that(2) by force
    qed
    then have "mem_ok_core s'"
      using core unfolding mem_ok_core_def flds(1-3)
      by (simp add: distinct_map_filter del: split_paired_All)
    moreover have "length (ms_completed s') \<le> length (ms_completed s)" using s' by (simp add: resolve_def)
    ultimately show ?thesis using ok by (simp add: mem_ok_iff)
  next
    case False
    then have s': "s' = resolve (cl_future c) (Failed e) s" using f True by (auto simp: mi_fail_def Let_def split: option.splits)
    have other: "me_future x \<noteq> cl_future c" if "ms_entries s k = Some x" for k x
      using i that False unfolding issued_def by blast
    have "mem_ok_core s'"
      using core other unfolding s' mem_ok_core_def
      by (auto simp: resolve_def done_update simp del: split_paired_All) blast
    then show ?thesis using ok s' by (simp add: mem_ok_iff resolve_def)
  qed
qed

lemma mem_exec_ok:
  assumes ok: "mem_ok cfg s" and l: "mem_lawful c s"
  shows "mem_ok cfg (fst (mem_exec cfg c s))"
proof -
  obtain now now' op where c: "c = (now, now', op)" by (cases c)
  have fst: "fst (as_claim x) = fst x" for x by (simp add: as_claim_def split: prod.splits)
  show ?thesis
  proof (cases op)
    case (MemAcquire i ns key fp)
    then show ?thesis using mi_acquire_ok[OF ok] c by (simp split: prod.splits)
  next
    case (MemComplete cl v)
    then show ?thesis using c l ok evict_remember_ok[OF ok, of cl]
      by (auto simp: fst mi_complete_def split: sum.splits if_splits)
  next
    case (MemFail cl e)
    then show ?thesis using c l mi_fail_ok[OF ok, of cl e] by (cases "mi_fail s cl e") (auto simp: fst)
  next
    case (MemUnknown cl e)
    then show ?thesis using c l ok evict_remember_ok[OF ok, of cl] by (auto simp: fst mi_mark_unknown_def)
  next
    case (MemRenew cl)
    then show ?thesis using c ok by (simp add: fst mi_renew_def)
  qed
qed

section \<open>Claims\<close>

definition mem_held :: "storage_key \<Rightarrow> mem_store \<Rightarrow> bool" where
  "mem_held k s \<longleftrightarrow> ms_entries s k \<noteq> None"

fun mem_grants :: "mem_config \<Rightarrow> storage_key \<Rightarrow> mem_call \<Rightarrow> mem_store \<Rightarrow> bool" where
  "mem_grants cfg k c s =
     (case snd (mem_exec cfg c s) of Inr (Some cl) \<Rightarrow> cl_owner cl \<and> claim_key cl = k | _ \<Rightarrow> False)"

text \<open>A key can be given away once its execution has finished, or by the call that finishes it.\<close>

fun mem_releases :: "storage_key \<Rightarrow> mem_call \<Rightarrow> mem_store \<Rightarrow> bool" where
  "mem_releases k (now, now', op) s =
     (case ms_entries s k of
        None \<Rightarrow> False
      | Some e \<Rightarrow>
          future_done (ms_futures s) (me_future e) \<or>
          (case ends_claim op of None \<Rightarrow> False | Some c \<Rightarrow> cl_owner c \<and> cl_future c = me_future e))"

lemma evict_keeps:
  assumes "0 \<le> mc_max_completed cfg" "ms_entries s k = Some e" "\<not> future_done (ms_futures s) (me_future e)"
  shows "ms_entries (evict_completed cfg now s) k = Some e"
  using assms(1) by (rule evict_spec[where s = s and now = now]) (use assms(2,3) in simp)

lemma evict_futures: "0 \<le> mc_max_completed cfg \<Longrightarrow> ms_futures (evict_completed cfg now s) = ms_futures s"
  by (erule evict_spec[where s = s and now = now]) simp

lemma mem_keeps:
  assumes ok: "mem_ok cfg s" and h: "ms_entries s k = Some e" and n: "\<not> mem_releases k c s"
  shows "ms_entries (fst (mem_exec cfg c s)) k = Some e"
proof -
  obtain now now' op where c: "c = (now, now', op)" by (cases c)
  have cfg: "0 \<le> mc_max_completed cfg" using ok by (simp add: mem_ok_iff)
  have fst: "fst (as_claim x) = fst x" for x by (simp add: as_claim_def split: prod.splits)
  have nd: "\<not> future_done (ms_futures s) (me_future e)" using n h c by simp
  have ends: "\<not> (cl_owner cl \<and> cl_future cl = me_future e)" if "ends_claim op = Some cl" for cl
    using n h c that by simp
  have upd: "ms_entries (evict_completed cfg t (remember_completed k' u (resolve i f s))) k = Some e"
    if "i \<noteq> me_future e" for t k' u i f
    by (rule evict_keeps[OF cfg]) (use h nd that in \<open>auto simp: remember_completed_def resolve_def done_update\<close>)
  show ?thesis
  proof (cases op)
    case (MemAcquire i ns key fp)
    have "ms_entries (evict_completed cfg now s) k = Some e" by (rule evict_keeps[OF cfg h nd])
    then show ?thesis using c MemAcquire
      by (auto simp: mi_acquire_def Let_def remember_completed_def split: option.splits prod.splits if_splits)
  next
    case (MemComplete cl v)
    then show ?thesis using c h upd ends by (auto simp: fst mi_complete_def split: sum.splits if_splits)
  next
    case (MemFail cl x)
    then show ?thesis using c h ends
      by (auto simp: fst mi_fail_def Let_def resolve_def split: option.splits if_splits)
  next
    case (MemUnknown cl x)
    then show ?thesis using c h upd ends by (auto simp: fst mi_mark_unknown_def)
  next
    case (MemRenew cl)
    then show ?thesis using c h by (simp add: fst mi_renew_def)
  qed
qed

lemma mem_grants_cases:
  assumes "mem_grants cfg k c s"
  obtains now now' i fp where "c = (now, now', MemAcquire i (fst k) (snd k) fp)"
    "ms_entries (evict_completed cfg now s) k = None"
proof -
  obtain now now' op where c: "c = (now, now', op)" by (cases c)
  obtain cl where cl: "snd (mem_exec cfg c s) = Inr (Some cl)" "cl_owner cl" "claim_key cl = k"
    using assms by (auto split: sum.splits option.splits)
  show thesis
  proof (cases op)
    case (MemAcquire i ns key fp)
    have "k = (ns, key) \<and> ms_entries (evict_completed cfg now s) (ns, key) = None"
      using cl c MemAcquire
      by (auto simp: mi_acquire_def mem_claim_def claim_key_def Let_def split: option.splits if_splits)
    then show thesis using that[of now now' i fp] c MemAcquire by simp
  qed (use cl c in \<open>auto simp: as_claim_def bindR_eq_Inr split: prod.splits\<close>)
qed

interpretation memory_claims: claim_store "\<lambda>c s. fst (mem_exec cfg c s)" "mem_ok cfg" mem_lawful mem_held
  "mem_grants cfg" mem_releases for cfg
proof
  show "mem_ok cfg s \<Longrightarrow> mem_lawful c s \<Longrightarrow> mem_ok cfg (fst (mem_exec cfg c s))" for s c by (rule mem_exec_ok)
  show "mem_ok cfg s \<Longrightarrow> mem_held k s \<Longrightarrow> \<not> mem_releases k c s \<Longrightarrow> mem_held k (fst (mem_exec cfg c s))" for s c k
    unfolding mem_held_def using mem_keeps[of cfg s k _ c] by blast
  show "mem_held k s \<Longrightarrow> mem_releases k c s" if "mem_ok cfg s" "mem_grants cfg k c s" for s c k
    using that(2)
  proof (rule mem_grants_cases)
    fix now now' i fp
    assume c: "c = (now, now', MemAcquire i (fst k) (snd k) fp)" and none: "ms_entries (evict_completed cfg now s) k = None"
    assume "mem_held k s"
    then obtain e where e: "ms_entries s k = Some e" by (auto simp: mem_held_def)
    then show ?thesis using evict_keeps[of cfg s k e now] none that(1) c by (auto simp: mem_ok_iff)
  qed
  show "mem_held k (fst (mem_exec cfg c s))" if "mem_grants cfg k c s" for s c k
    using that by (rule mem_grants_cases) (auto simp: mem_held_def mi_acquire_def Let_def)
qed

text \<open>Claims handed out are issued, and stay so.\<close>

lemma acquire_issued:
  assumes ok: "mem_ok cfg s" and a: "mi_acquire cfg i now now' s ns key fp = (s', Inr c)"
  shows "issued s' c"
proof -
  let ?s1 = "evict_completed cfg now s"
  have ok': "mem_ok_core s'" using mi_acquire_ok[OF ok a] by (simp add: mem_ok_iff)
  have "\<exists>e. ms_entries s' (ns, key) = Some e \<and> cl_future c = me_future e \<and> claim_key c = (ns, key)"
    using a by (auto simp: mi_acquire_def Let_def mem_claim_def claim_key_def remember_completed_def
        split: option.splits if_splits)
  then show ?thesis using ok' unfolding issued_def mem_ok_core_def by metis
qed

text \<open>A future is resolved once.\<close>

lemma resolved_once:
  assumes ok: "mem_ok cfg s" and d: "future_done (ms_futures s) i"
  shows "future_done (ms_futures (fst (mem_exec cfg c s))) i \<and>
    ms_futures (fst (mem_exec cfg c s)) ! i = ms_futures s ! i"
proof -
  obtain now now' op where c: "c = (now, now', op)" by (cases c)
  have cfg: "0 \<le> mc_max_completed cfg" using ok by (simp add: mem_ok_iff)
  have fst: "fst (as_claim x) = fst x" for x by (simp add: as_claim_def split: prod.splits)
  have res: "future_done (ms_futures (resolve j f s)) i \<and> ms_futures (resolve j f s) ! i = ms_futures s ! i" for j f
    using d by (cases "i = j") (auto simp: resolve_def future_done_def)
  have upd: "ms_futures (evict_completed cfg t (remember_completed k u (resolve j f s))) = ms_futures (resolve j f s)" for t k u j f
    by (simp add: evict_futures[OF cfg] remember_completed_def)
  have sub: "ms_futures (resolve j f (s\<lparr>ms_entries := en, ms_completed := co\<rparr>)) = ms_futures (resolve j f s)" for j f en co
    by (simp add: resolve_def)
  show ?thesis
  proof (cases op)
    case (MemAcquire n ns key fp)
    then show ?thesis using c d evict_futures[OF cfg, of now s]
      by (auto simp: mi_acquire_def Let_def remember_completed_def future_done_def nth_append split: option.splits)
  next
    case (MemComplete cl v)
    then show ?thesis using c d res upd by (auto simp: fst mi_complete_def split: sum.splits)
  next
    case (MemFail cl x)
    then show ?thesis using c d res sub by (auto simp: fst mi_fail_def Let_def split: option.splits)
  next
    case (MemUnknown cl x)
    then show ?thesis using c d res upd by (auto simp: fst mi_mark_unknown_def)
  next
    case (MemRenew cl)
    then show ?thesis using c d by (simp add: fst mi_renew_def)
  qed
qed

lemma empty_mem_ok: "mem_config_ok cfg = Inr () \<Longrightarrow> mem_ok cfg empty_mem"
  by (auto simp: mem_ok_def mem_ok_core_def empty_mem_def mem_config_ok_def bindR_eq_Inr)

end
