(* ===== verification/ServiceTheorems.thy ===== *)
theory ServiceTheorems
  imports ServiceSamples MemoryIdempotency
begin

text \<open>
  What holds of everything that shares the database: the idempotency store, the reconciliation ledger
  and the audit delivery, over any sequence of their operations; and of the in-memory store.
\<close>

section \<open>Verdicts and ownership\<close>

text \<open>
  C6.  A verdict is final: whatever operations follow on the database, the history of an execution is only
  extended, its action never changes, and once it is confirmed its state, disposition and result stay.
\<close>

theorem verdict_final:
  assumes "reachable env lease (empty_db True True) d" "reachable env lease d d'" "sl_view d eid = Some (h, rs)"
  shows "\<exists>h' rs'. sl_view d' eid = Some (h', rs @ rs') \<and> hd_action h' = hd_action h \<and>
    (confirmed (hd_state h) \<longrightarrow> same_verdict h h')"
proof -
  have "du_inv env d" using reachable_sound[OF assms(1) du_inv_empty] by blast
  from reachable_extends[OF assms(2) this assms(3)] obtain h' rs' where
    "sl_view d' eid = Some (h', rs')" "entry_extends (h, rs) (h', rs')" by auto
  then show ?thesis by (auto simp: entry_extends_def)
qed

lemma sample_resolved_view:
  "sl_view (sample_service 5) ''x'' = Some (sample_head, [sample_started, sample_finished, sample_resolved])"
  by (rule sample_service_states)
     (simp add: sl_view_def sample_db_def sl_records_def sample_started_def sample_finished_def sample_resolved_def
       sample_record_def)

lemmas sample_reachable = sample_service_reachable[where m = 0, unfolded sample_service_0]

theorem verdict_final_witness:
  "\<exists>h' rs'. sl_view (sample_service 6) ''x'' = Some (h', [sample_started, sample_finished, sample_resolved] @ rs') \<and>
     same_verdict sample_head h'"
  using verdict_final[OF sample_reachable[where n = 5] sample_service_reachable[of 5 6] sample_resolved_view]
  by (auto simp: sample_head_def confirmed_def)





text \<open>
  C8.  A second owner starts from evidence: when a key that already has an execution on record is granted
  again, each earlier execution has a head that allows the retry and a history that shows it was not applied.
\<close>

theorem second_owner_has_evidence:
  assumes "reachable env lease (empty_db True True) d"
    "si_acquire env ids lease now fid d ns key fp prepared = (d', Inr c)" "cl_owner c"
    "r \<in> set (db_idem d)" "(ir_namespace r, ir_key r) = (ns, key)"
  shows "\<exists>h. db_heads d (ir_eid r) = Some h \<and> hd_disposition h = RETRY_ALLOWED \<and>
    not_applied_evidence (sl_records d (ir_eid r))"
proof -
  have "du_inv env d" using reachable_sound[OF assms(1) du_inv_empty] by blast
  then show ?thesis by (rule owner_retry_evidence[OF _ assms(2-4)]) (use assms(5) in \<open>simp add: row_key_def\<close>)
qed

theorem second_owner_has_evidence_witness:
  "not_applied_evidence (sl_records (sample_service 5) ''x'')"
proof (rule sample_service_states)
  fix r0 r1 r2 r3 fut
  let ?d = "sample_db [sample_idem IS_NOT_APPLIED ''confirmed not applied'' 5] fut sample_head
       [sample_started, sample_finished, sample_resolved] [r0, r1, r2, r3]"
  assume d: "sample_service 5 = ?d"
  obtain d' c where a: "si_acquire sample_env (sample_ids2 ''u'' ''y'') 10 6 1 ?d ''n'' ''k'' (replicate 64 (CHR ''b'')) None =
      (d', Inr c)" "cl_owner c"
    using service_step6[of "''confirmed not applied''" fut sample_head "[sample_started, sample_finished, sample_resolved]"
        "[r0, r1, r2, r3]"]
    by (auto simp: result_as_def sample_claim_def bindR_eq_Inr split: prod.splits)
  have "sample_idem IS_NOT_APPLIED ''confirmed not applied'' 5 \<in> set (db_idem ?d)" by (simp add: sample_db_def)
  from second_owner_has_evidence[OF sample_reachable[of 5, unfolded d] a this]
  show ?thesis unfolding d by (auto simp: sample_idem_def)
qed

text \<open>
  C17.  The two authorities agree: every head on record belongs to exactly one idempotency record, whose state
  is the one the head's disposition prescribes.
\<close>

theorem authorities_agree:
  assumes "reachable env lease (empty_db True True) d" "db_heads d eid = Some h"
  shows "\<exists>!r. r \<in> set (db_idem d) \<and> ir_eid r = eid \<and> ir_state r = disposition_state (hd_disposition h)"
proof -
  have inv: "rows_ok (db_idem d)" "linked (db_heads d) (db_idem d)"
    using reachable_sound[OF assms(1) du_inv_empty] by (simp_all add: du_inv_def)
  then obtain r where r: "r \<in> set (db_idem d)" "ir_eid r = eid" "ir_state r = disposition_state (hd_disposition h)"
    using assms(2) unfolding linked_def by blast
  then show ?thesis using rows_ok_eid_unique[OF inv(1)] by blast
qed

theorem authorities_agree_witness:
  "\<exists>!r. r \<in> set (db_idem (sample_service 5)) \<and> ir_eid r = ''x'' \<and> ir_state r = IS_NOT_APPLIED"
proof -
  have "db_heads (sample_service 5) ''x'' = Some sample_head"
    by (rule sample_service_states) (simp add: sample_db_def)
  from authorities_agree[OF sample_reachable[of 5] this] show ?thesis by (simp add: sample_head_def)
qed

section \<open>Audit\<close>

text \<open>
  C16.  The audit trail is complete and immutable: for every revision a head has ever had there is a queued
  event, and no operation drops, reorders or rewrites a queued event or takes back a delivery.
\<close>

theorem audit_trail_complete:
  assumes "reachable env lease (empty_db True True) d" "db_heads d eid = Some h" "0 \<le> n" "n \<le> hd_revision h"
    "reachable env lease d d'"
  shows "(\<exists>r. r \<in> set (db_outbox d) \<and> ob_eid r = eid \<and> ob_revision r = n) \<and>
    (\<exists>xs ys. db_outbox d' = xs @ ys \<and> list_all2 row_kept (db_outbox d) xs)"
proof -
  have d: "du_inv env d" "audit_step (empty_db True True) d"
    using reachable_sound[OF assms(1) du_inv_empty] by simp_all
  then have "audited d" using audited_empty by (simp add: audit_step_def)
  then have "has_event d eid n" using assms(2-4) unfolding audited_def by blast
  moreover have "outbox_extends d d'" using reachable_sound[OF assms(5) d(1)] by (simp add: audit_step_def)
  ultimately show ?thesis by (auto simp: has_event_def outbox_extends_def)
qed

theorem audit_trail_complete_witness:
  "\<exists>r. r \<in> set (db_outbox (sample_service 5)) \<and> ob_eid r = ''x'' \<and> ob_revision r = 2"
proof -
  have "db_heads (sample_service 5) ''x'' = Some sample_head"
    by (rule sample_service_states) (simp add: sample_db_def)
  from audit_trail_complete[OF sample_reachable[of 5] this, of 2 "sample_service 6"] sample_service_reachable[of 5 6]
  show ?thesis by (simp add: sample_head_def)
qed

text \<open>
  C24.  Events are handed out in order: when the delivery worker is given an event of an execution, every
  earlier revision of that execution has been delivered.
\<close>

theorem events_in_order:
  assumes "sl_pending_audit_events env cfg now d eid k = (d1, Inr es)" "e \<in> set es"
    "r \<in> set (db_outbox d)" "ob_eid r = ev_execution_record_id e" "ob_revision r < ev_revision e"
  shows "ob_delivered_at r \<noteq> None"
  by (rule pending_in_order[OF assms])

theorem events_in_order_witness:
  "\<exists>d es e (r :: outbox_row). sl_pending_audit_events sample_env \<lparr>ac_attempts = 3, ac_age = 60\<rparr> 8
       (fst (sl_mark_delivered 7 (sample_service 5) ''o0'')) None 10 = (d, Inr es) \<and> e \<in> set es \<and>
     ob_revision r < ev_revision e \<and> ob_delivered_at r \<noteq> None"
proof (rule sample_service_states)
  fix r0 r1 r2 r3 fut
  let ?d = "sample_db [sample_idem IS_NOT_APPLIED ''confirmed not applied'' 5] fut sample_head
       [sample_started, sample_finished, sample_resolved] [r0, r1, r2, r3]"
  let ?r0 = "r0\<lparr>ob_delivered_at := Some 7, ob_last_error_class := None\<rparr>"
  let ?cfg = "\<lparr>ac_attempts = 3, ac_age = 60\<rparr>"
  assume d: "sample_service 5 = ?d"
    and ev: "sample_event ''o0'' 0 ''unknown_recorded'' r0" "sample_event ''o1'' 1 ''attempt_started'' r1"
    "sample_event ''o2'' 2 ''attempt_finished'' r2" "sample_event ''o3'' 3 ''transition_recorded'' r3"
  define d1 where "d1 = fst (sl_mark_delivered 7 (sample_service 5) ''o0'')"
  have o1: "db_outbox d1 = [?r0, r1, r2, r3]"
    using ev unfolding d1_def d
    by (simp add: sl_mark_delivered_def commit_def require_execution_record_id_def sample_names raise_if_def sample_db_def
        rowcount_def upd_where_def sample_event_def)
  have "pending_rows d1 None 10 = [r1]"
    using ev by (simp add: pending_rows_def o1 deliverable_def undelivered_def sample_event_def)
  moreover obtain e where e: "envelope_from_row sample_env r1 = Inr e"
    using ev(2) by (auto simp: sample_event_def readable_def okR_def split: sum.splits)
  ultimately have p: "sl_pending_audit_events sample_env ?cfg 8 d1 None 10 = (alert_rows ?cfg 8 [r1] d1, Inr [e])"
    by (simp add: sl_pending_audit_events_def optional_check_def raise_if_def)
  have r0: "ob_eid ?r0 = ev_execution_record_id e" "ob_revision ?r0 < ev_revision e"
    using ev envelope_from_row_Inr[OF e] by (simp_all add: sample_event_def)
  have "ob_delivered_at ?r0 \<noteq> None"
    by (rule events_in_order[OF p _ _ r0]) (simp_all add: o1)
  then have "sl_pending_audit_events sample_env ?cfg 8 d1 None 10 = (alert_rows ?cfg 8 [r1] d1, Inr [e]) \<and> e \<in> set [e] \<and>
     ob_revision ?r0 < ev_revision e \<and> ob_delivered_at ?r0 \<noteq> None"
    using p r0(2) by simp
  then show ?thesis unfolding d1_def by blast
qed




text \<open>
  C36.  An oversized event blocks delivery.  Enqueueing puts no bound on the text of an event, but reading it
  back refuses more than 16384 bytes: as soon as such a row is next in line, polling raises, whatever else
  is in the batch.
\<close>

theorem oversized_event_blocks_delivery:
  assumes "r \<in> set (pending_rows d None (nat k))" "ob_event r = JObj pl" "dump env (JObj pl) = Inr t" "16384 < length t"
    "1 \<le> k" "k \<le> 1000"
  shows "\<exists>x. snd (sl_pending_audit_events env cfg now d None k) = Inl x"
proof -
  have re: "re_dumps env (JObj pl) = Some t"
    using assms(3) by (auto simp: dump_def bindR_eq_Inr normalize_json_Inr split: option.splits)
  have "bounded_mapping env pl ''reconciliation audit envelope'' MAX_METADATA_BYTES False False \<noteq> Inr y" for y
    using re assms(4) by (auto simp: bounded_mapping_Inr MAX_METADATA_BYTES_def)
  then have "envelope_from_row env r \<noteq> Inr e" for e
    using assms(2) by (auto simp: envelope_from_row_def Envelope_post_init_def bindR_eq_Inr split: sum.splits if_splits)
  then have "load_envelopes env (pending_rows d None (nat k)) \<noteq> Inr es" for es
    using assms(1) load_envelopes_rows[of env "pending_rows d None (nat k)" es]
    unfolding list_all2_conv_all_nth in_set_conv_nth by metis
  then obtain x where "load_envelopes env (pending_rows d None (nat k)) = Inl x" by (metis sum.exhaust)
  then show ?thesis using assms(5,6) by (simp add: sl_pending_audit_events_def optional_check_def raise_if_def Let_def)
qed

definition verbose_env :: recon_env where
  "verbose_env = sample_env\<lparr>re_dumps := (\<lambda>_. Some (replicate 20000 (CHR ''a'')))\<rparr>"

theorem oversized_event_blocks_delivery_witness:
  "\<exists>x. snd (sl_pending_audit_events verbose_env \<lparr>ac_attempts = 3, ac_age = 60\<rparr> 8
     (fst (sl_create_unknown verbose_env (\<lambda>_. ''o'') 1 (empty_db False True) sample_action)) None 100) = Inl x"
proof -
  let ?h = "unknown_head sample_action 0"
  let ?t = "replicate 20000 (CHR ''a'')"
  have d: "dump verbose_env v = Inr ?t" if "within_bounds 0 MAX_VALUE_NODES v" for v
    using that by (simp add: dump_def verbose_env_def normalize_json_Inr[THEN iffD2])
  obtain pl where pl: "audit_payload sample_env ?h ''unknown_recorded'' None None None None None None = Inr pl"
      "within_bounds 0 MAX_VALUE_NODES (JObj pl)"
    by (rule sample_payload[of ?h None None "''unknown_recorded''" None None None]) (simp_all add: unknown_head_def MAX_SAFE_INTEGER_def)
  then have pl': "audit_payload verbose_env ?h ''unknown_recorded'' None None None None None None = Inr pl"
    by (simp add: audit_payload_def)
  have a: "dump verbose_env (JObj (UnknownAction_to_dict sample_action)) = Inr ?t"
    by (rule d) (simp add: UnknownAction_to_dict_def sample_limits sample_action_def)
  let ?d = "fst (sl_create_unknown verbose_env (\<lambda>_. ''o'') 1 (empty_db False True) sample_action)"
  let ?r = "\<lparr>ob_outbox_id = ''o'', ob_eid = ''x'', ob_revision = 0, ob_event_type = ''unknown_recorded'', ob_event = JObj pl,
      ob_digest = re_sha256 verbose_env ?t, ob_created_at = 1, ob_delivery_attempts = 0, ob_delivered_at = None,
      ob_last_error_class = None, ob_alerted_at = None\<rparr>"
  have h: "hd_action ?h = sample_action" "hd_revision ?h = 0" by (simp_all add: unknown_head_def)
  have "db_outbox ?d = [?r]"
    using pl' d[OF pl(2)]
    by (simp add: sl_create_unknown_def commit_def validate_link_def empty_db_def add_unknown_head_def a insert_head_def
        unknown_head_built enqueue_outbox_def Let_def require_identifier_def raise_if_def sample_names optional_check_def
        sample_ids h)
  then have "?r \<in> set (pending_rows ?d None (nat 100))"
    by (simp add: pending_rows_def deliverable_def undelivered_def)
  then show ?thesis
    by (rule oversized_event_blocks_delivery[where t = ?t]) (use d[OF pl(2)] in simp_all)
qed

section \<open>The in-memory store\<close>

text \<open>
  The in-memory store has one owner at a time too: between two grants of a key its execution was
  finished (completed, failed or recorded unknown), or is finished by the call in between.
\<close>

lemma memory_one_owner:
  assumes "mem_config_ok cfg = Inr ()" "admitted (\<lambda>c s. fst (mem_exec cfg c s)) mem_lawful cs empty_mem" "i < j" "j < length cs"
    "mem_grants cfg k (cs ! i) (before (\<lambda>c s. fst (mem_exec cfg c s)) cs empty_mem i)"
    "mem_grants cfg k (cs ! j) (before (\<lambda>c s. fst (mem_exec cfg c s)) cs empty_mem j)"
  shows "\<exists>m. i < m \<and> m \<le> j \<and> mem_releases k (cs ! m) (before (\<lambda>c s. fst (mem_exec cfg c s)) cs empty_mem m)"
  by (rule memory_claims.release_between[OF empty_mem_ok[OF assms(1)] assms(2-6)])

definition sample_cache :: mem_config where
  "sample_cache = \<lparr>mc_max_completed = 1, mc_ttl = 100\<rparr>"

definition sample_mem_claim :: IdempotencyClaim where
  "sample_mem_claim = mem_claim (''n'', ''k'') ''f'' True \<lparr>me_fingerprint = ''f'', me_future = 0, me_eid = ''x''\<rparr>"

definition sample_mem_calls :: "mem_call list" where
  "sample_mem_calls = [(0, 0, MemAcquire ''x'' ''n'' ''k'' ''f''), (1, 1, MemFail sample_mem_claim (ValueError ''no'')),
     (2, 2, MemAcquire ''y'' ''n'' ''k'' ''f'')]"

lemmas sample_mem_defs = sample_cache_def sample_mem_claim_def sample_mem_calls_def empty_mem_def mi_acquire_def mi_fail_def
  evict_completed_def mem_claim_def claim_key_def as_claim_def resolve_def future_done_def Let_def before_def issued_def

text \<open>
  The cache of the in-memory store is bounded: over any run the number of finished executions it keeps
  is at most the configured maximum.
\<close>

lemma memory_cache_bounded:
  assumes "mem_config_ok cfg = Inr ()" "admitted (\<lambda>c s. fst (mem_exec cfg c s)) mem_lawful cs empty_mem"
  shows "int (card {k. \<exists>e. ms_entries (run_states (\<lambda>c s. fst (mem_exec cfg c s)) cs empty_mem) k = Some e \<and>
      future_done (ms_futures (run_states (\<lambda>c s. fst (mem_exec cfg c s)) cs empty_mem)) (me_future e)})
    \<le> mc_max_completed cfg"
proof -
  define s where "s = run_states (\<lambda>c s. fst (mem_exec cfg c s)) cs empty_mem"
  have ok: "mem_ok cfg s"
    unfolding s_def by (rule memory_claims.run_ok[OF empty_mem_ok[OF assms(1)] assms(2)])
  have "{k. \<exists>e. ms_entries s k = Some e \<and> future_done (ms_futures s) (me_future e)} \<subseteq> fst ` set (ms_completed s)"
    using ok unfolding mem_ok_iff mem_ok_core_def by blast
  then have "card {k. \<exists>e. ms_entries s k = Some e \<and> future_done (ms_futures s) (me_future e)} \<le> card (set (map fst (ms_completed s)))"
    by (intro card_mono) simp_all
  also have "\<dots> \<le> length (ms_completed s)" by (metis card_length length_map)
  finally show ?thesis using ok unfolding s_def mem_ok_iff by linarith
qed

end
