(* ===== verification/Resilience.thy ===== *)
theory Resilience
  imports Prelude
begin

text \<open>
  The load and fault isolation of \<open>resilience.py\<close>: the circuit breaker in front of external
  dependencies and the runtime's limits.
  Clock readings of \<open>monotonic()\<close> are integer microseconds.
\<close>

section \<open>Circuit breaker\<close>

datatype CircuitState = CLOSED | OPEN | HALF_OPEN

record CircuitBreaker =
  cb_failure_threshold :: int
  cb_recovery_seconds :: time
  cb_failures :: int
  cb_opened_at :: "time option"
  cb_probe_in_flight :: bool

definition CircuitBreaker_init :: "int \<Rightarrow> time \<Rightarrow> CircuitBreaker res" where
  "CircuitBreaker_init threshold recovery =
     (if threshold < 0 then Inl (ValueError ''failure_threshold cannot be negative'')
      else if recovery \<le> 0 then Inl (ValueError ''recovery_seconds must be greater than zero'')
      else Inr \<lparr>cb_failure_threshold = threshold, cb_recovery_seconds = recovery, cb_failures = 0,
                cb_opened_at = None, cb_probe_in_flight = False\<rparr>)"

definition cb_state :: "time \<Rightarrow> CircuitBreaker \<Rightarrow> CircuitState" where
  "cb_state now b =
     (case cb_opened_at b of
        None \<Rightarrow> CLOSED
      | Some t \<Rightarrow> if now - t \<ge> cb_recovery_seconds b then HALF_OPEN else OPEN)"

definition before_call :: "time \<Rightarrow> CircuitBreaker \<Rightarrow> CircuitBreaker \<times> unit res" where
  "before_call now b =
     (case cb_opened_at b of
        None \<Rightarrow> (b, Inr ())
      | Some t \<Rightarrow>
          if now - t < cb_recovery_seconds b
          then (b, Inl (CircuitOpenError ''external dependency circuit breaker is open''))
          else if cb_probe_in_flight b
          then (b, Inl (CircuitOpenError ''external dependency circuit breaker recovery probe is in flight''))
          else (b\<lparr>cb_probe_in_flight := True\<rparr>, Inr ()))"

definition record_success :: "CircuitBreaker \<Rightarrow> CircuitBreaker" where
  "record_success b = b\<lparr>cb_failures := 0, cb_opened_at := None, cb_probe_in_flight := False\<rparr>"

definition record_failure :: "time \<Rightarrow> CircuitBreaker \<Rightarrow> CircuitBreaker" where
  "record_failure now b =
     (let b1 = b\<lparr>cb_probe_in_flight := False, cb_failures := cb_failures b + 1\<rparr> in
      if cb_failures b1 \<ge> cb_failure_threshold b1 then b1\<lparr>cb_opened_at := Some now\<rparr> else b1)"

definition record_cancelled :: "CircuitBreaker \<Rightarrow> CircuitBreaker" where
  "record_cancelled b = b\<lparr>cb_probe_in_flight := False\<rparr>"

text \<open>
  What the dependency does when it is called: it returns a value, returns an awaitable, or raises.
  \<open>CancelledError\<close> stands for the exceptions that \<open>except Exception\<close> does not catch.
\<close>

datatype 'a response = Value 'a | Awaitable | Raises exn

text \<open>\<open>call\<close>: \<open>None\<close> in the result is the wrapper that accounts for an awaitable once it settles.\<close>

definition cb_call :: "time \<Rightarrow> time \<Rightarrow> 'a response \<Rightarrow> CircuitBreaker \<Rightarrow> CircuitBreaker \<times> 'a option res" where
  "cb_call now later f b =
     (if cb_failure_threshold b = 0
      then (b, case f of Value v \<Rightarrow> Inr (Some v) | Awaitable \<Rightarrow> Inr None | Raises e \<Rightarrow> Inl e)
      else case before_call now b of
        (b1, Inl e) \<Rightarrow> (b1, Inl e)
      | (b1, Inr _) \<Rightarrow>
          (case f of
             Raises e \<Rightarrow> (if e = CancelledError then b1 else record_failure later b1, Inl e)
           | Awaitable \<Rightarrow> (b1, Inr None)
           | Value v \<Rightarrow> (record_success b1, Inr (Some v))))"

text \<open>\<open>_await_result\<close>: the wrapper settles with the awaitable's outcome.\<close>

definition await_result :: "time \<Rightarrow> 'a res \<Rightarrow> CircuitBreaker \<Rightarrow> CircuitBreaker \<times> 'a res" where
  "await_result now outcome b =
     (case outcome of
        Inr v \<Rightarrow> (record_success b, Inr v)
      | Inl e \<Rightarrow> (if e = CancelledError then record_cancelled b else record_failure now b, Inl e))"

subsection \<open>What the breaker keeps\<close>

definition breaker_ok :: "CircuitBreaker \<Rightarrow> bool" where
  "breaker_ok b \<longleftrightarrow> 0 < cb_failure_threshold b \<and> 0 < cb_recovery_seconds b \<and> 0 \<le> cb_failures b \<and>
     (cb_opened_at b = None \<longleftrightarrow> cb_failures b < cb_failure_threshold b) \<and>
     (cb_probe_in_flight b \<longrightarrow> cb_opened_at b \<noteq> None)"

lemmas breaker_defs = before_call_def record_success_def record_failure_def record_cancelled_def Let_def

lemma breaker_init_ok:
  "CircuitBreaker_init n r = Inr b \<Longrightarrow> n \<noteq> 0 \<Longrightarrow> breaker_ok b"
  by (auto simp: CircuitBreaker_init_def breaker_ok_def split: if_splits)

lemma breaker_records_ok:
  "breaker_ok b \<Longrightarrow> breaker_ok (record_success b)"
  "breaker_ok b \<Longrightarrow> breaker_ok (record_failure now b)"
  "breaker_ok b \<Longrightarrow> breaker_ok (record_cancelled b)"
  "breaker_ok b \<Longrightarrow> breaker_ok (fst (before_call now b))"
  by (auto simp: breaker_ok_def breaker_defs split: option.splits)

lemma cb_call_ok: "breaker_ok b \<Longrightarrow> breaker_ok (fst (cb_call now later f b))"
  using breaker_records_ok(4)[of b now]
  by (cases "before_call now b")
     (auto simp: cb_call_def breaker_records_ok split: response.splits sum.splits)

lemma await_result_ok: "breaker_ok b \<Longrightarrow> breaker_ok (fst (await_result now x b))"
  using breaker_records_ok by (auto simp: await_result_def split: sum.splits)

text \<open>Whether the dependency was reached by a call.\<close>

definition admits :: "time \<Rightarrow> CircuitBreaker \<Rightarrow> bool" where
  "admits now b \<longleftrightarrow> cb_failure_threshold b = 0 \<or> okR (snd (before_call now b))"

lemma admits_iff:
  assumes "breaker_ok b"
  shows "admits now b \<longleftrightarrow>
    cb_state now b = CLOSED \<or> cb_state now b = HALF_OPEN \<and> \<not> cb_probe_in_flight b"
  using assms by (auto simp: admits_def breaker_ok_def before_call_def cb_state_def okR_def split: option.splits)

lemma refused_call:
  assumes "breaker_ok b" "\<not> admits now b"
  shows "fst (cb_call now later f b) = b" "\<exists>m. snd (cb_call now later f b) = Inl (CircuitOpenError m)"
  using assms by (auto simp: cb_call_def admits_def before_call_def breaker_ok_def okR_def split: option.splits if_splits)

text \<open>A burst of calls, each with the clock before and after the dependency ran.\<close>

fun cb_run :: "(time \<times> time \<times> 'a response) list \<Rightarrow> CircuitBreaker \<Rightarrow> CircuitBreaker" where
  "cb_run [] b = b"
| "cb_run ((now, later, f) # cs) b = cb_run cs (fst (cb_call now later f b))"

definition fails :: "'a response \<Rightarrow> bool" where
  "fails f \<longleftrightarrow> (\<exists>e. f = Raises e \<and> e \<noteq> CancelledError)"

lemma failed_call:
  assumes "breaker_ok b" "cb_opened_at b = None" "fails f"
  shows "fst (cb_call now later f b) = record_failure later b"
  using assms by (auto simp: cb_call_def before_call_def breaker_ok_def fails_def)

lemma failures_open:
  assumes "breaker_ok b" "cb_opened_at b = None" "list_all (\<lambda>(_, _, f). fails f) cs"
    and "int (length cs) = cb_failure_threshold b - cb_failures b" "cs \<noteq> []"
  shows "cb_opened_at (cb_run cs b) = Some (fst (snd (last cs)))"
  using assms
proof (induction cs arbitrary: b)
  case (Cons c cs)
  obtain now later f where c: "c = (now, later, f)" by (cases c)
  have step: "fst (cb_call now later f b) = record_failure later b"
    by (rule failed_call) (use Cons.prems c in auto)
  show ?case
  proof (cases "cs = []")
    case True
    then show ?thesis using Cons.prems(4) c step by (simp add: record_failure_def Let_def)
  next
    case False
    have "cb_opened_at (cb_run cs (record_failure later b)) = Some (fst (snd (last cs)))"
    proof (rule Cons.IH)
      show "breaker_ok (record_failure later b)" by (rule breaker_records_ok(2)[OF Cons.prems(1)])
    qed (use Cons.prems False in \<open>auto simp: record_failure_def Let_def neq_Nil_conv\<close>)
    then show ?thesis using c step False by simp
  qed
qed simp

lemma open_isolates:
  assumes "breaker_ok b" "cb_opened_at b = Some t" "list_all (\<lambda>(now, _, _). now < t + cb_recovery_seconds b) cs"
  shows "cb_run cs b = b"
  using assms
proof (induction cs)
  case (Cons c cs)
  obtain now later f where c: "c = (now, later, f)" by (cases c)
  have "fst (cb_call now later f b) = b"
    by (rule refused_call(1)) (use Cons.prems c in \<open>auto simp: admits_iff cb_state_def\<close>)
  then show ?case using Cons c by simp
qed simp

lemma probe_excludes:
  assumes "breaker_ok b" "cb_probe_in_flight b"
  shows "\<not> admits now b" "cb_run cs b = b"
proof -
  show n: "\<not> admits now b" for now
    using assms by (auto simp: admits_iff cb_state_def breaker_ok_def split: option.splits if_splits)
  show "cb_run cs b = b" by (induction cs) (auto simp: refused_call(1)[OF assms(1) n])
qed

lemma probe_released:
  "\<not> cb_probe_in_flight (fst (await_result now x b))"
  by (simp add: await_result_def breaker_defs split: sum.splits)

lemma probe_admitted:
  assumes "breaker_ok b" "cb_state now b = HALF_OPEN" "\<not> cb_probe_in_flight b"
  shows "cb_call now later Awaitable b = (b\<lparr>cb_probe_in_flight := True\<rparr>, Inr None)"
    "cb_call now later (Raises CancelledError) b = (b\<lparr>cb_probe_in_flight := True\<rparr>, Inl CancelledError)"
  using assms by (auto simp: cb_call_def before_call_def cb_state_def breaker_ok_def split: option.splits if_splits)

section \<open>Limits\<close>

record RuntimeLimits =
  rl_middleware_timeout :: time
  rl_observer_timeout :: time
  rl_hook_timeout :: time
  rl_execution_timeout :: time
  rl_idempotency_operation_timeout :: time
  rl_admission_timeout :: time
  rl_cancellation_grace :: time
  rl_max_in_flight :: int
  rl_reconciliation_operation_timeout :: time
  rl_reconciliation_provider_timeout :: time
  rl_reconciliation_finalization_timeout :: time
  rl_reconciliation_audit_delivery_timeout :: time
  rl_max_reconciliation_in_flight :: int
  rl_max_reconciliation_audit_delivery_in_flight :: int
  rl_max_blocking_extension_in_flight :: int
  rl_max_blocking_extension_workers :: int
  rl_sync_loop_startup_timeout :: time

definition positive_timeout :: "string \<times> time \<Rightarrow> unit res" where
  "positive_timeout = (\<lambda>(name, t). raise_if (t \<le> 0) (ValueError (name @ '' must be greater than zero'')))"

definition at_least_one :: "string \<times> int \<Rightarrow> unit res" where
  "at_least_one = (\<lambda>(name, n). raise_if (n < 1) (ValueError (name @ '' must be at least one'')))"

definition RuntimeLimits_post_init :: "RuntimeLimits \<Rightarrow> RuntimeLimits res" where
  "RuntimeLimits_post_init l =
     seqR (seq_all
       (map positive_timeout
         [(''middleware_timeout_seconds'', rl_middleware_timeout l),
          (''observer_timeout_seconds'', rl_observer_timeout l),
          (''hook_timeout_seconds'', rl_hook_timeout l),
          (''execution_timeout_seconds'', rl_execution_timeout l),
          (''idempotency_operation_timeout_seconds'', rl_idempotency_operation_timeout l),
          (''reconciliation_operation_timeout_seconds'', rl_reconciliation_operation_timeout l),
          (''reconciliation_provider_timeout_seconds'', rl_reconciliation_provider_timeout l),
          (''reconciliation_finalization_timeout_seconds'', rl_reconciliation_finalization_timeout l),
          (''reconciliation_audit_delivery_timeout_seconds'', rl_reconciliation_audit_delivery_timeout l),
          (''sync_loop_startup_timeout_seconds'', rl_sync_loop_startup_timeout l),
          (''admission_timeout_seconds'', rl_admission_timeout l),
          (''cancellation_grace_seconds'', rl_cancellation_grace l)] @
        map at_least_one
         [(''max_in_flight'', rl_max_in_flight l),
          (''max_reconciliation_in_flight'', rl_max_reconciliation_in_flight l),
          (''max_reconciliation_audit_delivery_in_flight'', rl_max_reconciliation_audit_delivery_in_flight l),
          (''max_blocking_extension_in_flight'', rl_max_blocking_extension_in_flight l),
          (''max_blocking_extension_workers'', rl_max_blocking_extension_workers l)]))
     (Inr l)"

end
