(* ===== verification/Bulkhead.thy ===== *)
theory Bulkhead
  imports Prelude
begin

text \<open>
  The admission bulkhead of \<open>resilience.py\<close> (\<open>RuntimeBulkhead\<close>, \<open>BulkheadLease\<close>): permits, the queue of
  waiting callers and the delivery callbacks posted to their event loops, as a transition system over
  every interleaving of callers, timeouts, cancellations and callbacks.  Permits are conserved, the
  number of leases never exceeds the capacity, and a free permit is never withheld from a waiter.
\<close>

section \<open>Permits and waiters\<close>

datatype waiter_state = Waiting | Granted | TimedOut | Cancelled

record RuntimeBulkhead =
  bh_capacity :: int
  bh_available :: int
  bh_waiters :: "nat list"
  bh_state :: "nat \<Rightarrow> waiter_state"
  bh_done :: "nat \<Rightarrow> bool"
  bh_scheduled :: "nat list"

definition RuntimeBulkhead_init :: "int \<Rightarrow> RuntimeBulkhead res" where
  "RuntimeBulkhead_init capacity =
     (if capacity < 1 then Inl (ValueError ''capacity must be at least one'')
      else Inr \<lparr>bh_capacity = capacity, bh_available = capacity, bh_waiters = [],
                bh_state = (\<lambda>_. Waiting), bh_done = (\<lambda>_. False), bh_scheduled = []\<rparr>)"

definition set_waiter :: "nat \<Rightarrow> waiter_state \<Rightarrow> RuntimeBulkhead \<Rightarrow> RuntimeBulkhead" where
  "set_waiter w s b = b\<lparr>bh_state := (bh_state b)(w := s)\<rparr>"

definition acquire_or_enqueue :: "nat \<Rightarrow> RuntimeBulkhead \<Rightarrow> RuntimeBulkhead \<times> bool" where
  "acquire_or_enqueue w b =
     (if bh_available b \<le> 0 \<or> bh_waiters b \<noteq> [] then (b\<lparr>bh_waiters := bh_waiters b @ [w]\<rparr>, False)
      else (set_waiter w Granted (b\<lparr>bh_available := bh_available b - 1\<rparr>), True))"

text \<open>
  \<open>_grant_next_locked\<close>; \<open>gone w\<close> says that the event loop of \<open>w\<close> no longer takes callbacks.  The loop
  pops one waiter per turn, so it ends with the queue or with the permits.
\<close>

definition grant_one :: "(nat \<Rightarrow> bool) \<Rightarrow> nat \<Rightarrow> RuntimeBulkhead \<Rightarrow> RuntimeBulkhead" where
  "grant_one gone w b =
     (if bh_state b w \<noteq> Waiting then b
      else let b1 = set_waiter w Granted (b\<lparr>bh_available := bh_available b - 1\<rparr>) in
           if gone w then set_waiter w Cancelled (b1\<lparr>bh_available := bh_available b1 + 1\<rparr>)
           else b1\<lparr>bh_scheduled := bh_scheduled b1 @ [w]\<rparr>)"

fun grant_loop :: "(nat \<Rightarrow> bool) \<Rightarrow> nat list \<Rightarrow> RuntimeBulkhead \<Rightarrow> RuntimeBulkhead" where
  "grant_loop gone [] b = b\<lparr>bh_waiters := []\<rparr>"
| "grant_loop gone (w # ws) b =
     (if bh_available b > 0 then grant_loop gone ws (grant_one gone w b)
      else b\<lparr>bh_waiters := w # ws\<rparr>)"

definition grant_next :: "(nat \<Rightarrow> bool) \<Rightarrow> RuntimeBulkhead \<Rightarrow> RuntimeBulkhead" where
  "grant_next gone b = grant_loop gone (bh_waiters b) b"

definition withdraw :: "(nat \<Rightarrow> bool) \<Rightarrow> nat \<Rightarrow> waiter_state \<Rightarrow> RuntimeBulkhead \<Rightarrow> RuntimeBulkhead" where
  "withdraw gone w s b =
     (let finish = (\<lambda>b1. grant_next gone ((set_waiter w s b1)\<lparr>bh_done := (bh_done b1)(w := True)\<rparr>)) in
      case bh_state b w of
        Waiting \<Rightarrow> finish (b\<lparr>bh_waiters := remove1 w (bh_waiters b)\<rparr>)
      | Granted \<Rightarrow> finish (b\<lparr>bh_available := bh_available b + 1\<rparr>)
      | _ \<Rightarrow> b)"

definition release :: "(nat \<Rightarrow> bool) \<Rightarrow> RuntimeBulkhead \<Rightarrow> RuntimeBulkhead \<times> unit res" where
  "release gone b =
     (if bh_available b \<ge> bh_capacity b
      then (b, Inl (RuntimeError ''bulkhead permit released too many times''))
      else (grant_next gone (b\<lparr>bh_available := bh_available b + 1\<rparr>), Inr ()))"

definition deliver :: "(nat \<Rightarrow> bool) \<Rightarrow> nat \<Rightarrow> RuntimeBulkhead \<Rightarrow> RuntimeBulkhead" where
  "deliver gone w b =
     (if bh_state b w \<noteq> Granted then b
      else if bh_done b w
      then grant_next gone (set_waiter w Cancelled (b\<lparr>bh_available := bh_available b + 1\<rparr>))
      else b\<lparr>bh_done := (bh_done b)(w := True)\<rparr>)"

definition snapshot :: "RuntimeBulkhead \<Rightarrow> int \<times> int \<times> nat" where
  "snapshot b =
     (bh_capacity b, bh_available b, length (filter (\<lambda>w. bh_state b w = Waiting) (bh_waiters b)))"

section \<open>Callers\<close>

text \<open>
  The callers of one bulkhead: those awaiting in \<open>acquire\<close>, and the leases handed out with whether
  each was released.  The waiter made by a call of \<open>acquire\<close>, and the lease it may return, are named
  by the number of the call.
\<close>

record callers =
  ad_bulkhead :: RuntimeBulkhead
  ad_calls :: nat
  ad_parked :: "nat set"
  ad_leases :: "nat \<Rightarrow> bool option"

definition capacity_error :: "(time \<Rightarrow> string) \<Rightarrow> time \<Rightarrow> exn" where
  "capacity_error fmt t =
     CapacityExceededError (''runtime capacity was not available within '' @ fmt t @ ''s'')"

text \<open>\<open>acquire\<close> up to its \<open>await\<close>: refused at once, a lease at once, or parked.\<close>

definition acquire_start :: "(time \<Rightarrow> string) \<Rightarrow> time \<Rightarrow> callers \<Rightarrow> callers \<times> bool res" where
  "acquire_start fmt timeout s =
     (if timeout \<le> 0 then (s, Inl (capacity_error fmt timeout))
      else
        let w = ad_calls s; (b, got) = acquire_or_enqueue w (ad_bulkhead s);
            s1 = s\<lparr>ad_bulkhead := b, ad_calls := Suc w\<rparr>
        in if got then (s1\<lparr>ad_leases := (ad_leases s)(w \<mapsto> False)\<rparr>, Inr True)
           else (s1\<lparr>ad_parked := insert w (ad_parked s)\<rparr>, Inr False))"

text \<open>The three ways the \<open>await\<close> ends.\<close>

definition acquire_resume :: "nat \<Rightarrow> callers \<Rightarrow> callers" where
  "acquire_resume w s = s\<lparr>ad_parked := ad_parked s - {w}, ad_leases := (ad_leases s)(w \<mapsto> False)\<rparr>"

definition acquire_abandon :: "(nat \<Rightarrow> bool) \<Rightarrow> nat \<Rightarrow> waiter_state \<Rightarrow> callers \<Rightarrow> callers" where
  "acquire_abandon gone w st s =
     s\<lparr>ad_bulkhead := withdraw gone w st (ad_bulkhead s), ad_parked := ad_parked s - {w}\<rparr>"

text \<open>\<open>BulkheadLease.release\<close>\<close>

definition lease_release :: "(nat \<Rightarrow> bool) \<Rightarrow> nat \<Rightarrow> callers \<Rightarrow> callers \<times> unit res" where
  "lease_release gone w s =
     (if ad_leases s w = Some True then (s, Inr ())
      else case release gone (ad_bulkhead s) of
        (b, r) \<Rightarrow> (s\<lparr>ad_leases := (ad_leases s)(w \<mapsto> True), ad_bulkhead := b\<rparr>, r))"

text \<open>
  One step of the system.  A parked call resumes with its lease when its future was resolved; it times
  out or is cancelled at any moment; a posted callback runs, in any order; a holder releases its lease,
  any number of times.
\<close>

inductive bulkhead_step :: "callers \<Rightarrow> callers \<Rightarrow> bool" where
  start: "bulkhead_step s (fst (acquire_start fmt t s))"
| resume: "w \<in> ad_parked s \<Longrightarrow> bh_done (ad_bulkhead s) w \<Longrightarrow> bulkhead_step s (acquire_resume w s)"
| abandon: "w \<in> ad_parked s \<Longrightarrow> st \<in> {TimedOut, Cancelled} \<Longrightarrow>
    bulkhead_step s (acquire_abandon gone w st s)"
| callback: "w \<in> set (bh_scheduled (ad_bulkhead s)) \<Longrightarrow>
    bulkhead_step s (s\<lparr>ad_bulkhead := deliver gone w
      ((ad_bulkhead s)\<lparr>bh_scheduled := remove1 w (bh_scheduled (ad_bulkhead s))\<rparr>)\<rparr>)"
| give_back: "ad_leases s w \<noteq> None \<Longrightarrow> bulkhead_step s (fst (lease_release gone w s))"

inductive_cases bulkhead_stepE: "bulkhead_step s s'"

definition callers_init :: "RuntimeBulkhead \<Rightarrow> callers" where
  "callers_init b = \<lparr>ad_bulkhead = b, ad_calls = 0, ad_parked = {}, ad_leases = (\<lambda>_. None)\<rparr>"

inductive bulkhead_reaches :: "callers \<Rightarrow> callers \<Rightarrow> bool" for s where
  here: "bulkhead_reaches s s"
| next_step: "bulkhead_reaches s s' \<Longrightarrow> bulkhead_step s' s'' \<Longrightarrow> bulkhead_reaches s s''"

section \<open>Conservation of permits\<close>

definition held :: "callers \<Rightarrow> nat set" where
  "held s = {w. ad_leases s w = Some False}"

definition promised :: "callers \<Rightarrow> nat set" where
  "promised s = {w \<in> ad_parked s. bh_state (ad_bulkhead s) w = Granted}"

text \<open>
  The part of the invariant the queue operations preserve on their own, relative to the set of parked
  callers: the queue holds exactly the parked waiting callers, and each grant is backed by a resolved
  future or by the one callback that will resolve it.
\<close>

definition queue_ok :: "nat set \<Rightarrow> RuntimeBulkhead \<Rightarrow> bool" where
  "queue_ok parked b \<longleftrightarrow>
     distinct (bh_waiters b) \<and> set (bh_waiters b) = {w \<in> parked. bh_state b w = Waiting} \<and>
     distinct (bh_scheduled b) \<and>
     (\<forall>w\<in>set (bh_scheduled b).
        if w \<in> parked then bh_state b w = Granted \<and> \<not> bh_done b w else bh_state b w \<noteq> Granted) \<and>
     (\<forall>w\<in>parked. bh_state b w = Granted \<longrightarrow> bh_done b w \<or> w \<in> set (bh_scheduled b)) \<and>
     (\<forall>w\<in>parked. bh_done b w \<longrightarrow> bh_state b w = Granted) \<and>
     0 \<le> bh_available b"

definition permits :: "nat set \<Rightarrow> RuntimeBulkhead \<Rightarrow> int" where
  "permits parked b = bh_available b + int (card {w \<in> parked. bh_state b w = Granted})"

definition work_conserving :: "RuntimeBulkhead \<Rightarrow> bool" where
  "work_conserving b \<longleftrightarrow> (0 < bh_available b \<longrightarrow> bh_waiters b = [])"

lemma grant_one_ok:
  assumes ok: "queue_ok P (b\<lparr>bh_waiters := w # ws\<rparr>)" and fin: "finite P" and av: "0 < bh_available b"
  shows "queue_ok P ((grant_one gone w b)\<lparr>bh_waiters := ws\<rparr>)" "permits P (grant_one gone w b) = permits P b"
    "bh_capacity (grant_one gone w b) = bh_capacity b"
proof -
  have "w \<in> {w \<in> P. bh_state b w = Waiting}" using ok by (auto simp: queue_ok_def)
  then have w: "w \<in> P" "bh_state b w = Waiting" "w \<notin> set ws" "w \<notin> set (bh_scheduled b)" "\<not> bh_done b w"
    using ok by (auto simp: queue_ok_def split: if_splits)
  show "queue_ok P ((grant_one gone w b)\<lparr>bh_waiters := ws\<rparr>)"
    using ok w av by (auto simp: queue_ok_def grant_one_def set_waiter_def Let_def split: if_splits)
  have "{x \<in> P. ((bh_state b)(w := Granted)) x = Granted} = insert w {x \<in> P. bh_state b x = Granted}"
      "{x \<in> P. ((bh_state b)(w := Cancelled)) x = Granted} = {x \<in> P. bh_state b x = Granted}"
    using w by auto
  then show "permits P (grant_one gone w b) = permits P b"
    using w fin by (simp add: permits_def grant_one_def set_waiter_def Let_def)
  show "bh_capacity (grant_one gone w b) = bh_capacity b"
    by (simp add: grant_one_def set_waiter_def Let_def)
qed

lemma grant_loop_ok:
  assumes "queue_ok P (b\<lparr>bh_waiters := ws\<rparr>)" "finite P"
  shows "queue_ok P (grant_loop gone ws b) \<and> permits P (grant_loop gone ws b) = permits P b \<and>
    work_conserving (grant_loop gone ws b) \<and> bh_capacity (grant_loop gone ws b) = bh_capacity b \<and>
    suffix (bh_waiters (grant_loop gone ws b)) ws"
  using assms(1)
proof (induction ws arbitrary: b)
  case Nil
  then show ?case by (simp add: permits_def work_conserving_def)
next
  case (Cons w ws)
  show ?case
  proof (cases "0 < bh_available b")
    case True
    note one = grant_one_ok[OF Cons.prems assms(2) True, of gone]
    show ?thesis using Cons.IH[OF one(1)] one(2,3) True by (auto simp: suffix_ConsI)
  next
    case False
    then show ?thesis using Cons.prems by (simp add: permits_def work_conserving_def)
  qed
qed

lemma grant_next_ok:
  assumes "queue_ok P b" "finite P"
  shows "queue_ok P (grant_next gone b)" "permits P (grant_next gone b) = permits P b"
    "work_conserving (grant_next gone b)" "bh_capacity (grant_next gone b) = bh_capacity b"
    "suffix (bh_waiters (grant_next gone b)) (bh_waiters b)"
  using grant_loop_ok[where b = b and ws = "bh_waiters b" and P = P and gone = gone] assms by (simp_all add: grant_next_def)

text \<open>What \<open>withdraw\<close> leaves to \<open>_grant_next_locked\<close>.\<close>

definition withdrawn :: "nat \<Rightarrow> waiter_state \<Rightarrow> RuntimeBulkhead \<Rightarrow> RuntimeBulkhead" where
  "withdrawn w st b =
     b\<lparr>bh_waiters := (if bh_state b w = Waiting then remove1 w (bh_waiters b) else bh_waiters b),
       bh_available := (if bh_state b w = Waiting then bh_available b else bh_available b + 1),
       bh_state := (bh_state b)(w := st), bh_done := (bh_done b)(w := True)\<rparr>"

lemma withdraw_eq:
  "withdraw gone w st b =
     (if bh_state b w \<in> {Waiting, Granted} then grant_next gone (withdrawn w st b) else b)"
  by (auto simp: withdraw_def withdrawn_def set_waiter_def Let_def split: waiter_state.splits)

lemma withdrawn_queue:
  assumes ok: "queue_ok P b" and w: "w \<in> P" "bh_state b w \<in> {Waiting, Granted}" and st: "st \<in> {TimedOut, Cancelled}"
  shows "queue_ok (P - {w}) (withdrawn w st b)"
proof -
  let ?b = "withdrawn w st b"
  have st': "st \<noteq> Granted" "st \<noteq> Waiting" using st by auto
  have q: "distinct (bh_waiters b)" "set (bh_waiters b) = {v \<in> P. bh_state b v = Waiting}"
      "distinct (bh_scheduled b)" "0 \<le> bh_available b"
    using ok by (auto simp: queue_ok_def)
  have "distinct (bh_waiters ?b)" "distinct (bh_scheduled ?b)" "0 \<le> bh_available ?b"
    using q by (simp_all add: withdrawn_def)
  moreover have "set (bh_waiters ?b) = {v \<in> P - {w}. bh_state ?b v = Waiting}"
    using q by (auto simp: withdrawn_def)
  moreover have "\<forall>v\<in>set (bh_scheduled ?b).
      if v \<in> P - {w} then bh_state ?b v = Granted \<and> \<not> bh_done ?b v else bh_state ?b v \<noteq> Granted"
    using ok st' by (auto simp: queue_ok_def withdrawn_def)
  moreover have "\<forall>v\<in>P - {w}. bh_state ?b v = Granted \<longrightarrow> bh_done ?b v \<or> v \<in> set (bh_scheduled ?b)"
    using ok by (auto simp: queue_ok_def withdrawn_def)
  moreover have "\<forall>v\<in>P - {w}. bh_done ?b v \<longrightarrow> bh_state ?b v = Granted"
    using ok by (auto simp: queue_ok_def withdrawn_def)
  ultimately show ?thesis unfolding queue_ok_def by blast
qed

lemma withdrawn_permits:
  assumes fin: "finite P" and w: "w \<in> P" "bh_state b w \<in> {Waiting, Granted}"
  shows "permits (P - {w}) (withdrawn w st b) = permits P b"
proof -
  let ?G = "{x \<in> P. bh_state b x = Granted}"
  have "{x \<in> P - {w}. bh_state (withdrawn w st b) x = Granted} = ?G - {w}"
    by (auto simp: withdrawn_def)
  then have eq: "permits (P - {w}) (withdrawn w st b) = bh_available (withdrawn w st b) + int (card (?G - {w}))"
    by (simp add: permits_def)
  show ?thesis
  proof (cases "bh_state b w = Granted")
    case True
    have "Suc (card (?G - {w})) = card ?G" by (rule card_Suc_Diff1) (use fin w True in auto)
    then show ?thesis using eq True by (simp add: permits_def withdrawn_def)
  next
    case False
    then have "?G - {w} = ?G" by blast
    then show ?thesis using eq False w by (simp add: permits_def withdrawn_def)
  qed
qed

lemma withdraw_ok:
  assumes ok: "queue_ok P b" "work_conserving b" and fin: "finite P" and w: "w \<in> P" and st: "st \<in> {TimedOut, Cancelled}"
  shows "queue_ok (P - {w}) (withdraw gone w st b) \<and> permits (P - {w}) (withdraw gone w st b) = permits P b \<and>
    work_conserving (withdraw gone w st b) \<and> bh_capacity (withdraw gone w st b) = bh_capacity b"
proof (cases "bh_state b w \<in> {Waiting, Granted}")
  case True
  then show ?thesis
    using grant_next_ok[OF withdrawn_queue[OF ok(1) w True st], of gone] fin withdrawn_permits[OF fin w True, of st]
    by (simp add: withdraw_eq) (simp add: withdrawn_def)
next
  case False
  have "{x \<in> P - {w}. bh_state b x = Granted} = {x \<in> P. bh_state b x = Granted}" using False by auto
  then show ?thesis using ok False by (auto simp: withdraw_eq queue_ok_def permits_def split: if_splits)
qed

lemma deliver_ok:
  assumes ok: "queue_ok P b" "work_conserving b" and w: "w \<in> set (bh_scheduled b)"
  shows "queue_ok P (deliver gone w (b\<lparr>bh_scheduled := remove1 w (bh_scheduled b)\<rparr>)) \<and>
    permits P (deliver gone w (b\<lparr>bh_scheduled := remove1 w (bh_scheduled b)\<rparr>)) = permits P b \<and>
    work_conserving (deliver gone w (b\<lparr>bh_scheduled := remove1 w (bh_scheduled b)\<rparr>)) \<and>
    bh_capacity (deliver gone w (b\<lparr>bh_scheduled := remove1 w (bh_scheduled b)\<rparr>)) = bh_capacity b"
proof (cases "w \<in> P")
  case True
  then have "bh_state b w = Granted" "\<not> bh_done b w" using ok(1) w by (auto simp: queue_ok_def)
  then show ?thesis
    using ok by (auto simp: deliver_def queue_ok_def permits_def work_conserving_def)
next
  case False
  then have "bh_state b w \<noteq> Granted" using ok(1) w by (auto simp: queue_ok_def)
  then show ?thesis using ok False by (auto simp: deliver_def queue_ok_def permits_def work_conserving_def)
qed

section \<open>The system invariant\<close>

definition callers_ok :: "callers \<Rightarrow> bool" where
  "callers_ok s \<longleftrightarrow>
     queue_ok (ad_parked s) (ad_bulkhead s) \<and> work_conserving (ad_bulkhead s) \<and>
     finite (ad_parked s) \<and> finite (held s) \<and>
     permits (ad_parked s) (ad_bulkhead s) + int (card (held s)) = bh_capacity (ad_bulkhead s) \<and>
     (\<forall>w\<ge>ad_calls s. w \<notin> ad_parked s \<and> ad_leases s w = None \<and> bh_state (ad_bulkhead s) w = Waiting \<and>
        \<not> bh_done (ad_bulkhead s) w \<and> w \<notin> set (bh_scheduled (ad_bulkhead s))) \<and>
     (\<forall>w\<in>ad_parked s. ad_leases s w = None)"

lemma grant_one_old:
  "v \<noteq> w \<Longrightarrow> bh_state (grant_one gone w b) v = bh_state b v \<and> bh_done (grant_one gone w b) v = bh_done b v \<and>
     (v \<in> set (bh_scheduled (grant_one gone w b)) \<longleftrightarrow> v \<in> set (bh_scheduled b))"
  by (auto simp: grant_one_def set_waiter_def Let_def)

lemma grant_next_old:
  assumes "v \<notin> set (bh_waiters b)"
  shows "bh_state (grant_next gone b) v = bh_state b v \<and> bh_done (grant_next gone b) v = bh_done b v \<and>
     (v \<in> set (bh_scheduled (grant_next gone b)) \<longleftrightarrow> v \<in> set (bh_scheduled b))"
proof -
  have "v \<notin> set ws \<Longrightarrow> bh_state (grant_loop gone ws b) v = bh_state b v \<and>
     bh_done (grant_loop gone ws b) v = bh_done b v \<and>
     (v \<in> set (bh_scheduled (grant_loop gone ws b)) \<longleftrightarrow> v \<in> set (bh_scheduled b))" for ws
    by (induction ws arbitrary: b) (auto simp: grant_one_old)
  then show ?thesis using assms by (simp add: grant_next_def)
qed

lemma withdraw_old:
  assumes "v \<noteq> w" "v \<notin> set (bh_waiters b)"
  shows "bh_state (withdraw gone w st b) v = bh_state b v \<and> bh_done (withdraw gone w st b) v = bh_done b v \<and>
     (v \<in> set (bh_scheduled (withdraw gone w st b)) \<longleftrightarrow> v \<in> set (bh_scheduled b))"
  using assms grant_next_old[of v "withdrawn w st b" gone] notin_set_remove1[of v "bh_waiters b" w]
  by (auto simp: withdraw_eq withdrawn_def)

lemma callers_init_ok:
  "RuntimeBulkhead_init n = Inr b \<Longrightarrow> callers_ok (callers_init b)"
  by (auto simp: RuntimeBulkhead_init_def callers_init_def callers_ok_def queue_ok_def permits_def
      work_conserving_def held_def split: if_splits)

text \<open>A change that keeps the parked callers' bookkeeping and balances the permits keeps the invariant.\<close>

definition fresh_ok :: "callers \<Rightarrow> bool" where
  "fresh_ok s \<longleftrightarrow>
     (\<forall>w\<ge>ad_calls s. w \<notin> ad_parked s \<and> ad_leases s w = None \<and> bh_state (ad_bulkhead s) w = Waiting \<and>
        \<not> bh_done (ad_bulkhead s) w \<and> w \<notin> set (bh_scheduled (ad_bulkhead s))) \<and>
     (\<forall>w\<in>ad_parked s. ad_leases s w = None)"

lemma callers_okD:
  assumes "callers_ok s"
  shows "queue_ok (ad_parked s) (ad_bulkhead s)" "work_conserving (ad_bulkhead s)" "finite (ad_parked s)"
    "finite (held s)" "permits (ad_parked s) (ad_bulkhead s) + int (card (held s)) = bh_capacity (ad_bulkhead s)"
    "fresh_ok s"
  using assms by (auto simp: callers_ok_def fresh_ok_def)

lemma callers_okI:
  assumes "queue_ok (ad_parked s) (ad_bulkhead s)" "work_conserving (ad_bulkhead s)" "finite (ad_parked s)"
    "finite (held s)" "permits (ad_parked s) (ad_bulkhead s) + int (card (held s)) = bh_capacity (ad_bulkhead s)"
    "fresh_ok s"
  shows "callers_ok s"
  using assms by (auto simp: callers_ok_def fresh_ok_def)

lemma waiters_parked: "queue_ok P b \<Longrightarrow> w \<notin> P \<Longrightarrow> w \<notin> set (bh_waiters b)"
  by (auto simp: queue_ok_def)

lemma start_ok:
  assumes ok: "callers_ok s"
  shows "callers_ok (fst (acquire_start fmt t s))"
proof (cases "t \<le> 0")
  case False
  let ?b = "ad_bulkhead s" and ?w = "ad_calls s"
  note d = callers_okD[OF ok]
  have w: "?w \<notin> ad_parked s" "ad_leases s ?w = None" "bh_state ?b ?w = Waiting" "\<not> bh_done ?b ?w"
      "?w \<notin> set (bh_scheduled ?b)"
    using d(6) by (auto simp: fresh_ok_def)
  have nw: "?w \<notin> set (bh_waiters ?b)" by (rule waiters_parked[OF d(1) w(1)])
  show ?thesis
  proof (cases "bh_available ?b \<le> 0 \<or> bh_waiters ?b \<noteq> []")
    case True
    have av: "bh_available ?b \<le> 0" using True d(2) by (auto simp: work_conserving_def)
    let ?b' = "?b\<lparr>bh_waiters := bh_waiters ?b @ [?w]\<rparr>"
    have s': "fst (acquire_start fmt t s) = s\<lparr>ad_bulkhead := ?b', ad_calls := Suc ?w, ad_parked := insert ?w (ad_parked s)\<rparr>"
      using True False by (simp add: acquire_start_def acquire_or_enqueue_def Let_def)
    have "{v \<in> insert ?w (ad_parked s). bh_state ?b v = Granted} = {v \<in> ad_parked s. bh_state ?b v = Granted}"
      using w by auto
    then have pm: "permits (insert ?w (ad_parked s)) ?b' = permits (ad_parked s) ?b" by (simp add: permits_def)
    have "queue_ok (insert ?w (ad_parked s)) ?b'"
      using d(1) w nw by (auto simp: queue_ok_def)
    then show ?thesis
      unfolding s' using d av pm
      by (intro callers_okI) (auto simp: work_conserving_def held_def fresh_ok_def w)
  next
    case got: False
    let ?b' = "set_waiter ?w Granted (?b\<lparr>bh_available := bh_available ?b - 1\<rparr>)"
    have s': "fst (acquire_start fmt t s) =
        s\<lparr>ad_bulkhead := ?b', ad_calls := Suc ?w, ad_leases := (ad_leases s)(?w \<mapsto> False)\<rparr>"
      using got False by (simp add: acquire_start_def acquire_or_enqueue_def Let_def)
    have "{v \<in> ad_parked s. bh_state ?b' v = Granted} = {v \<in> ad_parked s. bh_state ?b v = Granted}"
      using w by (auto simp: set_waiter_def)
    then have pm: "permits (ad_parked s) ?b' = permits (ad_parked s) ?b - 1"
      by (simp add: permits_def) (simp add: set_waiter_def)
    have q: "queue_ok (ad_parked s) ?b'"
      using d(1) w got by (auto simp: queue_ok_def set_waiter_def)
    have "held (fst (acquire_start fmt t s)) = insert ?w (held s)" unfolding s' by (auto simp: held_def)
    then have "finite (held (fst (acquire_start fmt t s)))" "card (held (fst (acquire_start fmt t s))) = Suc (card (held s))"
      using d(4) w(2) by (simp_all add: held_def)
    then show ?thesis
      using d(5) pm q d(2,3,6) got unfolding s'
      by (intro callers_okI) (auto simp: work_conserving_def fresh_ok_def set_waiter_def w)
  qed
qed (use ok in \<open>simp add: acquire_start_def\<close>)

lemma resume_ok:
  assumes ok: "callers_ok s" and w: "w \<in> ad_parked s" "bh_done (ad_bulkhead s) w"
  shows "callers_ok (acquire_resume w s)"
proof -
  let ?b = "ad_bulkhead s" and ?P = "ad_parked s"
  let ?G = "{v \<in> ?P. bh_state ?b v = Granted}"
  note d = callers_okD[OF ok]
  have g: "bh_state ?b w = Granted" "w \<notin> set (bh_scheduled ?b)" "ad_leases s w = None" "w < ad_calls s"
    using d(1,6) w by (auto simp: queue_ok_def fresh_ok_def not_le[symmetric])
  have "{v \<in> ?P - {w}. bh_state ?b v = Granted} = ?G - {w}" by auto
  moreover have "Suc (card (?G - {w})) = card ?G" by (rule card_Suc_Diff1) (use d(3) w g in auto)
  ultimately have pm: "permits (?P - {w}) ?b + 1 = permits ?P ?b" by (simp add: permits_def)
  have h: "held (acquire_resume w s) = insert w (held s)" by (auto simp: held_def acquire_resume_def)
  have c: "card (held (acquire_resume w s)) = Suc (card (held s))"
    unfolding h using d(4) g(3) by (simp add: held_def)
  have q: "queue_ok (?P - {w}) ?b" using d(1) g by (auto simp: queue_ok_def)
  show ?thesis
    by (rule callers_okI)
       (use d(2-6) q pm h c g in \<open>auto simp: acquire_resume_def fresh_ok_def\<close>)
qed

lemma abandon_ok:
  assumes ok: "callers_ok s" and w: "w \<in> ad_parked s" "st \<in> {TimedOut, Cancelled}"
  shows "callers_ok (acquire_abandon gone w st s)"
proof -
  note d = callers_okD[OF ok]
  note wd = withdraw_ok[OF d(1,2,3) w, of gone]
  have old: "bh_state (withdraw gone w st (ad_bulkhead s)) v = bh_state (ad_bulkhead s) v \<and>
      bh_done (withdraw gone w st (ad_bulkhead s)) v = bh_done (ad_bulkhead s) v \<and>
      (v \<in> set (bh_scheduled (withdraw gone w st (ad_bulkhead s))) \<longleftrightarrow> v \<in> set (bh_scheduled (ad_bulkhead s)))"
    if "v \<ge> ad_calls s" for v
  proof (rule withdraw_old)
    have "v \<notin> ad_parked s" using d(6) that by (auto simp: fresh_ok_def)
    then show "v \<noteq> w" "v \<notin> set (bh_waiters (ad_bulkhead s))" using w(1) waiters_parked[OF d(1)] by auto
  qed
  have h: "held (acquire_abandon gone w st s) = held s" by (simp add: held_def acquire_abandon_def)
  show ?thesis
    by (rule callers_okI) (use d(3-6) wd h old in \<open>auto simp: acquire_abandon_def fresh_ok_def\<close>)
qed

lemma callback_ok:
  assumes ok: "callers_ok s" and w: "w \<in> set (bh_scheduled (ad_bulkhead s))"
  shows "callers_ok (s\<lparr>ad_bulkhead := deliver gone w
      ((ad_bulkhead s)\<lparr>bh_scheduled := remove1 w (bh_scheduled (ad_bulkhead s))\<rparr>)\<rparr>)"
proof -
  note d = callers_okD[OF ok]
  let ?b = "(ad_bulkhead s)\<lparr>bh_scheduled := remove1 w (bh_scheduled (ad_bulkhead s))\<rparr>"
  note dl = deliver_ok[OF d(1,2) w, of gone]
  have "w < ad_calls s" using d(6) w by (auto simp: fresh_ok_def not_le[symmetric])
  moreover have "\<not> (bh_state ?b w = Granted \<and> bh_done ?b w)"
    using d(1) w by (auto simp: queue_ok_def split: if_splits)
  ultimately have old: "bh_state (deliver gone w ?b) v = bh_state (ad_bulkhead s) v \<and>
      bh_done (deliver gone w ?b) v = bh_done (ad_bulkhead s) v \<and>
      set (bh_scheduled (deliver gone w ?b)) \<subseteq> set (bh_scheduled (ad_bulkhead s))" if "v \<ge> ad_calls s" for v
    using that set_remove1_subset[of w "bh_scheduled (ad_bulkhead s)"] by (auto simp: deliver_def)
  show ?thesis
    by (rule callers_okI) (use d(3-6) dl old in \<open>auto simp: held_def fresh_ok_def\<close>)
qed

lemma give_back_ok:
  assumes ok: "callers_ok s" and w: "ad_leases s w \<noteq> None"
  shows "callers_ok (fst (lease_release gone w s))" "snd (lease_release gone w s) = Inr ()"
proof -
  note d = callers_okD[OF ok]
  let ?b = "(ad_bulkhead s)\<lparr>bh_available := bh_available (ad_bulkhead s) + 1\<rparr>"
  have "callers_ok (fst (lease_release gone w s)) \<and> snd (lease_release gone w s) = Inr ()"
  proof (cases "ad_leases s w = Some True")
    case False
    then have l: "w \<in> held s" using w by (auto simp: held_def)
    then have c: "Suc (card (held s - {w})) = card (held s)" by (rule card_Suc_Diff1[OF d(4)])
    then have "bh_available (ad_bulkhead s) < bh_capacity (ad_bulkhead s)"
      using d(5) by (simp add: permits_def)
    then have r: "release gone (ad_bulkhead s) = (grant_next gone ?b, Inr ())" by (simp add: release_def)
    let ?s = "fst (lease_release gone w s)"
    have s': "?s = s\<lparr>ad_leases := (ad_leases s)(w \<mapsto> True), ad_bulkhead := grant_next gone ?b\<rparr>"
        "snd (lease_release gone w s) = Inr ()"
      using False r by (simp_all add: lease_release_def)
    have h: "held ?s = held s - {w}" unfolding s' by (auto simp: held_def)
    have q: "queue_ok (ad_parked s) ?b" using d(1) by (auto simp: queue_ok_def)
    have pm: "permits (ad_parked s) ?b = permits (ad_parked s) (ad_bulkhead s) + 1" by (simp add: permits_def)
    note g = grant_next_ok[OF q d(3), of gone]
    have old: "bh_state (grant_next gone ?b) v = bh_state (ad_bulkhead s) v \<and>
        bh_done (grant_next gone ?b) v = bh_done (ad_bulkhead s) v \<and>
        (v \<in> set (bh_scheduled (grant_next gone ?b)) \<longleftrightarrow> v \<in> set (bh_scheduled (ad_bulkhead s)))"
      if "v \<ge> ad_calls s" for v
      using grant_next_old[of v ?b gone] waiters_parked[OF d(1), of v] d(6) that by (auto simp: fresh_ok_def)
    have "fresh_ok ?s" using d(6) old w unfolding s' by (auto simp: fresh_ok_def)
    then have "callers_ok ?s"
      by (intro callers_okI) (use d(3-5) g pm h c s' in auto)
    then show ?thesis using s'(2) by simp
  qed (use ok in \<open>simp add: lease_release_def\<close>)
  then show "callers_ok (fst (lease_release gone w s))" "snd (lease_release gone w s) = Inr ()" by simp_all
qed

lemma bulkhead_step_ok: "bulkhead_step s s' \<Longrightarrow> callers_ok s \<Longrightarrow> callers_ok s'"
  by (erule bulkhead_stepE) (auto intro: start_ok resume_ok abandon_ok callback_ok give_back_ok)

lemma bulkhead_reaches_ok: "bulkhead_reaches s s' \<Longrightarrow> callers_ok s \<Longrightarrow> callers_ok s'"
  by (induction rule: bulkhead_reaches.induct) (auto intro: bulkhead_step_ok)

lemma grant_next_capacity [simp]: "bh_capacity (grant_next gone b) = bh_capacity b"
proof -
  have "bh_capacity (grant_loop gone ws b) = bh_capacity b" for ws
    by (induction ws arbitrary: b) (simp_all add: grant_one_def set_waiter_def Let_def)
  then show ?thesis by (simp add: grant_next_def)
qed

lemma bulkhead_step_capacity:
  "bulkhead_step s s' \<Longrightarrow> bh_capacity (ad_bulkhead s') = bh_capacity (ad_bulkhead s)"
  by (erule bulkhead_stepE)
     (auto simp: acquire_start_def acquire_or_enqueue_def acquire_resume_def acquire_abandon_def withdraw_eq
       withdrawn_def deliver_def lease_release_def release_def set_waiter_def Let_def split: if_splits)

lemma bulkhead_reaches_capacity:
  "bulkhead_reaches s s' \<Longrightarrow> bh_capacity (ad_bulkhead s') = bh_capacity (ad_bulkhead s)"
  by (induction rule: bulkhead_reaches.induct) (auto dest: bulkhead_step_capacity)

text \<open>What the invariant says to callers.\<close>

lemma callers_bounds:
  assumes "callers_ok s"
  shows "int (card (held s)) + int (card (promised s)) + bh_available (ad_bulkhead s) = bh_capacity (ad_bulkhead s)"
    "int (card (held s)) \<le> bh_capacity (ad_bulkhead s)"
    "w \<in> ad_parked s \<Longrightarrow> bh_state (ad_bulkhead s) w = Waiting \<Longrightarrow>
       int (card (held s)) + int (card (promised s)) = bh_capacity (ad_bulkhead s)"
proof -
  note d = callers_okD[OF assms]
  show sum: "int (card (held s)) + int (card (promised s)) + bh_available (ad_bulkhead s) = bh_capacity (ad_bulkhead s)"
    using d(5) by (simp add: permits_def promised_def)
  then show "int (card (held s)) \<le> bh_capacity (ad_bulkhead s)" using d(1) by (simp add: queue_ok_def)
  assume "w \<in> ad_parked s" "bh_state (ad_bulkhead s) w = Waiting"
  then have "bh_waiters (ad_bulkhead s) \<noteq> []" using d(1) by (auto simp: queue_ok_def)
  then have "bh_available (ad_bulkhead s) = 0" using d(1,2) by (auto simp: queue_ok_def work_conserving_def)
  then show "int (card (held s)) + int (card (promised s)) = bh_capacity (ad_bulkhead s)" using sum by simp
qed

end
