(* ===== verification/ResilienceTheorems.thy ===== *)
theory ResilienceTheorems
  imports Resilience Bulkhead
begin

text \<open>
  What the circuit breaker and the bulkhead of \<open>resilience.py\<close> guarantee to the runtime.
\<close>

section \<open>Circuit breaker\<close>

text \<open>
  C28.  A failing dependency is cut off: after as many consecutive failures as the threshold, every further
  call made before the recovery time has passed is refused without reaching the dependency or changing the
  breaker.
\<close>

theorem breaker_isolates:
  assumes "CircuitBreaker_init n r = Inr b" "n \<noteq> 0" "list_all (\<lambda>(_, _, f). fails f) cs" "int (length cs) = n"
    "list_all (\<lambda>(now, _, _). now < fst (snd (last cs)) + r) ds" "now < fst (snd (last cs)) + r"
  shows "cb_run (cs @ ds) b = cb_run cs b \<and>
    (\<exists>m. cb_call now later f (cb_run (cs @ ds) b) = (cb_run cs b, Inl (CircuitOpenError m)))"
proof -
  have ok: "breaker_ok b" by (rule breaker_init_ok[OF assms(1,2)])
  have b: "cb_opened_at b = None" "cb_failures b = 0" "cb_failure_threshold b = n" "cb_recovery_seconds b = r"
    using assms(1) by (auto simp: CircuitBreaker_init_def split: if_splits)
  have run_ok: "breaker_ok (cb_run xs b) \<and> cb_recovery_seconds (cb_run xs b) = r" if "breaker_ok b" "cb_recovery_seconds b = r"
    for xs :: "(time \<times> time \<times> 'a response) list" and b
    using that
  proof (induction xs arbitrary: b)
    case (Cons x xs)
    obtain t u g where x: "x = (t, u, g)" by (cases x)
    have "cb_recovery_seconds (fst (cb_call t u g b)) = cb_recovery_seconds b"
      by (auto simp: cb_call_def breaker_defs split: option.splits response.splits)
    then show ?case using Cons.IH[OF cb_call_ok[OF Cons.prems(1)]] Cons.prems(2) x by simp
  qed simp
  have opened: "cb_opened_at (cb_run cs b) = Some (fst (snd (last cs)))"
    by (rule failures_open[OF ok b(1) assms(3)]) (use b assms(2,4) in auto)
  have app: "cb_run (cs @ ds) b = cb_run ds (cb_run cs b)"
    by (induction cs arbitrary: b) auto
  have o: "breaker_ok (cb_run cs b)" "cb_recovery_seconds (cb_run cs b) = r" using run_ok[OF ok b(4)] by auto
  have iso: "cb_run ds (cb_run cs b) = cb_run cs b"
    by (rule open_isolates[OF o(1) opened]) (use assms(5) o(2) in simp)
  have "\<not> admits now (cb_run cs b)"
    using assms(6) opened o by (simp add: admits_iff cb_state_def)
  from refused_call[OF o(1) this, of later f] show ?thesis
    using app iso by (cases "cb_call now later f (cb_run cs b)") auto
qed

definition sample_failure :: "(time \<times> time \<times> nat response) list" where
  "sample_failure = [(0, 1, Raises (ValueError ''down'')), (2, 3, Raises (ValueError ''down''))]"

theorem breaker_isolates_witness:
  "\<exists>m. cb_call 6 7 (Value (0::nat)) (cb_run (sample_failure @ [(4, 5, Value 0)])
      \<lparr>cb_failure_threshold = 2, cb_recovery_seconds = 10, cb_failures = 0, cb_opened_at = None, cb_probe_in_flight = False\<rparr>) =
    (cb_run sample_failure \<lparr>cb_failure_threshold = 2, cb_recovery_seconds = 10, cb_failures = 0, cb_opened_at = None,
       cb_probe_in_flight = False\<rparr>, Inl (CircuitOpenError m))"
  by (rule breaker_isolates[where n = 2 and r = 10, THEN conjunct2])
     (simp_all add: CircuitBreaker_init_def sample_failure_def fails_def)

text \<open>
  C37.  A recovery probe that is interrupted by an exception outside \<open>Exception\<close> (a cancellation, say) raised
  directly by the call wedges the breaker: the probe counts as in flight for ever, so every later call is
  refused, however much time passes.
\<close>

theorem interrupted_probe_wedges:
  assumes "breaker_ok b" "cb_state now b = HALF_OPEN" "\<not> cb_probe_in_flight b"
  shows "snd (cb_call now later (Raises CancelledError :: 'a response) b) = Inl CancelledError \<and>
    (\<exists>m. snd (cb_call t u (f :: 'a response)
        (cb_run cs (fst (cb_call now later (Raises CancelledError :: 'a response) b)))) = Inl (CircuitOpenError m))"
proof -
  let ?b = "b\<lparr>cb_probe_in_flight := True\<rparr>"
  have p: "cb_call now later (Raises CancelledError :: 'a response) b = (?b, Inl CancelledError)"
    by (rule probe_admitted(2)[OF assms])
  have ok: "breaker_ok ?b" using cb_call_ok[OF assms(1), of now later "Raises CancelledError :: 'a response"] p by simp
  have "cb_run cs ?b = ?b" by (rule probe_excludes(2)[OF ok]) simp
  moreover have "\<not> admits t ?b" by (rule probe_excludes(1)[OF ok]) simp
  ultimately show ?thesis using refused_call(2)[OF ok] p by simp
qed

theorem interrupted_probe_wedges_witness:
  "\<exists>m. snd (cb_call 1000 1001 (Value (0::nat)) (cb_run [(500, 501, Value 0)]
     (fst (cb_call 20 21 (Raises CancelledError :: nat response)
        \<lparr>cb_failure_threshold = 1, cb_recovery_seconds = 10, cb_failures = 1, cb_opened_at = Some 0, cb_probe_in_flight = False\<rparr>))))
   = Inl (CircuitOpenError m)"
  by (rule interrupted_probe_wedges[THEN conjunct2]) (simp_all add: breaker_ok_def cb_state_def)

section \<open>Bulkhead\<close>

text \<open>
  C20.  Permits are conserved in every interleaving of callers, timeouts, cancellations, callbacks and closed
  event loops: the leases held, the permits promised to parked callers and the free ones add up to the
  capacity, so at most the capacity is ever in flight; and a caller waits only while no permit is free.
\<close>

theorem bulkhead_conserves_permits:
  assumes "RuntimeBulkhead_init n = Inr b" "bulkhead_reaches (callers_init b) s"
  shows "int (card (held s)) + int (card (promised s)) + bh_available (ad_bulkhead s) = n \<and>
    int (card (held s)) \<le> n \<and>
    (w \<in> ad_parked s \<and> bh_state (ad_bulkhead s) w = Waiting \<longrightarrow> bh_available (ad_bulkhead s) = 0)"
proof -
  have ok: "callers_ok s" by (rule bulkhead_reaches_ok[OF assms(2) callers_init_ok[OF assms(1)]])
  have "bh_capacity (ad_bulkhead s) = n"
    using bulkhead_reaches_capacity[OF assms(2)] assms(1)
    by (auto simp: callers_init_def RuntimeBulkhead_init_def split: if_splits)
  then show ?thesis using callers_bounds[OF ok] callers_bounds(3)[OF ok, of w] by auto
qed

definition sample_bulkhead :: RuntimeBulkhead where
  "sample_bulkhead = \<lparr>bh_capacity = 1, bh_available = 1, bh_waiters = [], bh_state = (\<lambda>_. Waiting), bh_done = (\<lambda>_. False),
     bh_scheduled = []\<rparr>"

definition sample_callers :: callers where
  "sample_callers = fst (acquire_start (\<lambda>_. ''1'') 5 (fst (acquire_start (\<lambda>_. ''1'') 5 (callers_init sample_bulkhead))))"

lemma sample_callers_reached:
  "RuntimeBulkhead_init 1 = Inr sample_bulkhead" "bulkhead_reaches (callers_init sample_bulkhead) sample_callers"
  unfolding sample_callers_def
  by (simp add: RuntimeBulkhead_init_def sample_bulkhead_def)
     (rule bulkhead_reaches.next_step[OF bulkhead_reaches.next_step[OF bulkhead_reaches.here bulkhead_step.start] bulkhead_step.start])

lemmas sample_callers_eval = sample_callers_def acquire_start_def acquire_or_enqueue_def callers_init_def sample_bulkhead_def
  set_waiter_def Let_def

theorem bulkhead_conserves_permits_witness:
  "int (card (held sample_callers)) + int (card (promised sample_callers)) + bh_available (ad_bulkhead sample_callers) = 1 \<and>
   bh_available (ad_bulkhead sample_callers) = 0 \<and> 1 \<in> ad_parked sample_callers"
  using bulkhead_conserves_permits[OF sample_callers_reached, of 1]
  by (simp add: sample_callers_eval)

text \<open>
  Releasing a lease never fails, however often it is done and whatever happened to other callers: the
  guard against releasing too many permits is never hit.
\<close>

lemma release_never_raises:
  assumes "RuntimeBulkhead_init n = Inr b" "bulkhead_reaches (callers_init b) s" "ad_leases s w \<noteq> None"
  shows "snd (lease_release gone w s) = Inr ()"
  by (rule give_back_ok(2)[OF bulkhead_reaches_ok[OF assms(2) callers_init_ok[OF assms(1)]] assms(3)])

end
